(* ===== verification/Prelude.thy ===== *)
theory Prelude
  imports Main "HOL-Library.AList" "HOL-Library.Word"
begin

text \<open>
  What every component shares: the exceptions the program raises and the result type that
  carries them, the Python strings and dictionaries the code computes with, and the lemma
  collections (\<open>res_simps\<close>, \<open>dict_simps\<close>) that the component theories use.

  A Python \<open>str\<close> is a HOL \<open>string\<close>: a list of characters with code points 0 to 255. The
  functions below follow \<open>str.strip\<close>, \<open>str.split\<close>, \<open>str.isdigit\<close>, \<open>int\<close> and the rest on
  exactly that range, non-ASCII characters included. Text that may hold any code point (record
  content) is a list of naturals and lives in the theory \<open>Byte_Codecs\<close>.

  A Python \<open>dict\<close> is an association list in insertion order with distinct keys. Storing
  under a present key keeps its position and a new key goes to the end, which is what
  \<open>AList.update\<close> does.
\<close>

named_theorems res_simps \<open>rewriting of results that may be exceptions\<close>
named_theorems dict_simps \<open>lookup, keys and distinctness of Python dictionaries\<close>

section \<open>Exceptions and results\<close>

datatype delivery_failure = AUTHORIZATION | TOPIC_NOT_FOUND | RECORD_TOO_LARGE | TIMEOUT | BROKER

datatype exn =
    ValueError string
  | KeyError string
  | IndexError
  | TypeError
  | AttributeError
  | AssertionError
  | EOFError
  | OSError string
  | BufferError
  | StructError
  | OverflowError
  | UnicodeDecodeError
  | BadParameter string
  | MissingParameter string
  | ClickException string
  | KafkaException int string
  | DecodeError string
  | ConfluentSerializationError string
  | SchemaRegistryError int string
  | HTTPError "int option" string
  | PartitionSelectionError string
  | GroupNotEmptyError string nat
  | SchemaError string
  | SerializationError string
  | DeserializationError string
  | ApicurioRegistryError "int option" string
  | AwsMskAuthenticationError string
  | DeliveryError delivery_failure string
  | DeliveryInProgressError
  | SourceError string
  | YAMLError string
  | OtherException string

text \<open>The classes that Python derives from \<open>ValueError\<close>.\<close>

fun is_value_error :: "exn \<Rightarrow> bool" where
  "is_value_error (ValueError _) = True"
| "is_value_error UnicodeDecodeError = True"
| "is_value_error (PartitionSelectionError _) = True"
| "is_value_error (SchemaError _) = True"
| "is_value_error (SerializationError _) = True"
| "is_value_error (ApicurioRegistryError _ _) = True"
| "is_value_error (AwsMskAuthenticationError _) = True"
| "is_value_error (SourceError _) = True"
| "is_value_error _ = False"

fun is_os_error :: "exn \<Rightarrow> bool" where
  "is_os_error (OSError _) = True"
| "is_os_error _ = False"

fun is_kafka_exception :: "exn \<Rightarrow> bool" where
  "is_kafka_exception (KafkaException _ _) = True"
| "is_kafka_exception _ = False"

type_synonym 'a res = "exn + 'a"

definition rbind :: "'a res \<Rightarrow> ('a \<Rightarrow> 'b res) \<Rightarrow> 'b res" where
  "rbind m f = (case m of Inl e \<Rightarrow> Inl e | Inr x \<Rightarrow> f x)"

definition raise_if :: "bool \<Rightarrow> exn \<Rightarrow> unit res" where
  "raise_if b e = (if b then Inl e else Inr ())"

fun map_res :: "('a \<Rightarrow> 'b res) \<Rightarrow> 'a list \<Rightarrow> 'b list res" where
  "map_res f [] = Inr []"
| "map_res f (x # xs) = rbind (f x) (\<lambda>y. rbind (map_res f xs) (\<lambda>ys. Inr (y # ys)))"

lemma rbind_simps [simp, res_simps]:
  "rbind (Inl e) f = Inl e"
  "rbind (Inr x) f = f x"
  by (simp_all add: rbind_def)

lemma raise_if_simps [simp, res_simps]:
  "raise_if True e = Inl e"
  "raise_if False e = Inr ()"
  by (simp_all add: raise_if_def)

lemma rbind_eq_Inr [res_simps]: "rbind m f = Inr y \<longleftrightarrow> (\<exists>x. m = Inr x \<and> f x = Inr y)"
  by (cases m) simp_all

lemma rbind_eq_Inl [res_simps]: "rbind m f = Inl e \<longleftrightarrow> m = Inl e \<or> (\<exists>x. m = Inr x \<and> f x = Inl e)"
  by (cases m) simp_all

lemma raise_if_eq [res_simps]:
  "raise_if b e = Inr u \<longleftrightarrow> \<not> b"
  "raise_if b e = Inl e' \<longleftrightarrow> b \<and> e = e'"
  by (simp_all add: raise_if_def)

lemma map_sum_eq [res_simps]:
  "map_sum f g m = Inr y \<longleftrightarrow> (\<exists>x. m = Inr x \<and> y = g x)"
  "map_sum f g m = Inl d \<longleftrightarrow> (\<exists>e. m = Inl e \<and> d = f e)"
  by (cases m; auto)+

lemma map_res_length: "map_res f xs = Inr ys \<Longrightarrow> length ys = length xs"
  by (induction xs arbitrary: ys) (auto simp: res_simps)

lemma map_res_nth: "map_res f xs = Inr ys \<Longrightarrow> i < length xs \<Longrightarrow> f (xs ! i) = Inr (ys ! i)"
  by (induction xs arbitrary: ys i) (auto simp: res_simps nth_Cons split: nat.splits)

lemma map_res_set: "map_res f xs = Inr ys \<Longrightarrow> y \<in> set ys \<Longrightarrow> \<exists>x \<in> set xs. f x = Inr y"
  by (induction xs arbitrary: ys) (auto simp: res_simps)

lemma map_res_Inr: "(\<And>x. x \<in> set xs \<Longrightarrow> f x = Inr (g x)) \<Longrightarrow> map_res f xs = Inr (map g xs)"
  by (induction xs) auto

subsection \<open>Actions on a state\<close>

text \<open>A call that may fail and changes a state: requests to a service, in the order they are made.\<close>

type_synonym ('a, 's) act = "'s \<Rightarrow> 'a res \<times> 's"

definition areturn :: "'a \<Rightarrow> ('a, 's) act" where
  "areturn x s = (Inr x, s)"

definition alift :: "'a res \<Rightarrow> ('a, 's) act" where
  "alift r s = (r, s)"

definition abind :: "('a, 's) act \<Rightarrow> ('a \<Rightarrow> ('b, 's) act) \<Rightarrow> ('b, 's) act" where
  "abind m f s = (case m s of (Inl e, s') \<Rightarrow> (Inl e, s') | (Inr x, s') \<Rightarrow> f x s')"

fun map_act :: "('a \<Rightarrow> ('b, 's) act) \<Rightarrow> 'a list \<Rightarrow> ('b list, 's) act" where
  "map_act f [] s = (Inr [], s)"
| "map_act f (x # xs) s =
     (case f x s of
        (Inl e, s') \<Rightarrow> (Inl e, s')
      | (Inr y, s') \<Rightarrow> (case map_act f xs s' of (Inl e, s'') \<Rightarrow> (Inl e, s'') | (Inr ys, s'') \<Rightarrow> (Inr (y # ys), s'')))"

lemma act_simps [simp, res_simps]:
  "areturn x s = (Inr x, s)"
  "alift r s = (r, s)"
  by (simp_all add: areturn_def alift_def)

lemma abind_Inr [res_simps]: "abind m f s = (Inr y, s'') \<longleftrightarrow> (\<exists>x s'. m s = (Inr x, s') \<and> f x s' = (Inr y, s''))"
  by (auto simp: abind_def split: prod.splits sum.splits)

lemma abind_Inl [res_simps]:
  "abind m f s = (Inl e, s'') \<longleftrightarrow> m s = (Inl e, s'') \<or> (\<exists>x s'. m s = (Inr x, s') \<and> f x s' = (Inl e, s''))"
  by (auto simp: abind_def split: prod.splits sum.splits)

lemma abind_step:
  "m s = (Inr x, s') \<Longrightarrow> abind m f s = f x s'"
  "m s = (Inl e, s') \<Longrightarrow> abind m f s = (Inl e, s')"
  by (simp_all add: abind_def)

section \<open>Strings\<close>

definition code :: "char \<Rightarrow> nat" where
  "code c = of_char c"

text \<open>\<open>str.isspace\<close> of one character, which \<open>str.strip\<close> and \<open>str.split\<close> use.\<close>

definition is_space :: "char \<Rightarrow> bool" where
  "is_space c \<longleftrightarrow> code c \<in> {9, 10, 11, 12, 13, 28, 29, 30, 31, 32, 133, 160}"

definition strip :: "string \<Rightarrow> string" where
  "strip s = rev (dropWhile is_space (rev (dropWhile is_space s)))"

text \<open>
  \<open>str.isdecimal\<close> of one character, which \<open>int\<close> accepts, and \<open>str.isdigit\<close>, which also
  holds of the superscripts two, three and one.
\<close>

definition is_decimal :: "char \<Rightarrow> bool" where
  "is_decimal c \<longleftrightarrow> 48 \<le> code c \<and> code c \<le> 57"

definition is_digit_char :: "char \<Rightarrow> bool" where
  "is_digit_char c \<longleftrightarrow> is_decimal c \<or> code c \<in> {178, 179, 185}"

definition isdigit :: "string \<Rightarrow> bool" where
  "isdigit s \<longleftrightarrow> s \<noteq> [] \<and> list_all is_digit_char s"

definition lower_char :: "char \<Rightarrow> char" where
  "lower_char c =
     (if 65 \<le> code c \<and> code c \<le> 90 \<or> 192 \<le> code c \<and> code c \<le> 222 \<and> code c \<noteq> 215
      then char_of (code c + 32) else c)"

text \<open>
  The upper case of the three characters 181, 223 and 255 is outside the range (or two
  characters long). They stay as they are: the code compares upper-cased text only with ASCII
  names that contain no double S.
\<close>

definition upper_char :: "char \<Rightarrow> char" where
  "upper_char c =
     (if 97 \<le> code c \<and> code c \<le> 122 \<or> 224 \<le> code c \<and> code c \<le> 254 \<and> code c \<noteq> 247
      then char_of (code c - 32) else c)"

definition lower :: "string \<Rightarrow> string" where
  "lower s = map lower_char s"

definition upper :: "string \<Rightarrow> string" where
  "upper s = map upper_char s"

text \<open>\<open>s.split(sep)\<close> for a one-character separator.\<close>

fun split_on :: "char \<Rightarrow> string \<Rightarrow> string list" where
  "split_on sep [] = [[]]"
| "split_on sep (c # cs) =
     (if c = sep then [] # split_on sep cs
      else (case split_on sep cs of [] \<Rightarrow> [[c]] | w # ws \<Rightarrow> (c # w) # ws))"

text \<open>\<open>s.partition(sep)\<close> for a one-character separator, without the separator itself.\<close>

definition partition_on :: "char \<Rightarrow> string \<Rightarrow> string \<times> string" where
  "partition_on sep s = (takeWhile (\<lambda>c. c \<noteq> sep) s, drop 1 (dropWhile (\<lambda>c. c \<noteq> sep) s))"

definition join :: "string \<Rightarrow> string list \<Rightarrow> string" where
  "join sep ws = concat (case ws of [] \<Rightarrow> [] | w # ws' \<Rightarrow> w # map (\<lambda>v. sep @ v) ws')"

definition starts_with :: "string \<Rightarrow> string \<Rightarrow> bool" where
  "starts_with p s \<longleftrightarrow> take (length p) s = p"

definition remove_prefix :: "string \<Rightarrow> string \<Rightarrow> string" where
  "remove_prefix p s = (if starts_with p s then drop (length p) s else s)"

text \<open>\<open>needle in s\<close>.\<close>

fun contains :: "string \<Rightarrow> string \<Rightarrow> bool" where
  "contains needle [] \<longleftrightarrow> needle = []"
| "contains needle (c # cs) \<longleftrightarrow> starts_with needle (c # cs) \<or> contains needle cs"

definition replace_char :: "char \<Rightarrow> char \<Rightarrow> string \<Rightarrow> string" where
  "replace_char a b s = map (\<lambda>c. if c = a then b else c) s"

text \<open>\<open>int(s)\<close> in base ten: surrounding spaces, a sign, and single underscores between digits.\<close>

definition digits_value :: "string \<Rightarrow> int" where
  "digits_value s = foldl (\<lambda>n c. 10 * n + (int (code c) - 48)) 0 s"

definition unsigned_int :: "string \<Rightarrow> int option" where
  "unsigned_int s =
     (let groups = split_on CHR ''_'' s in
      if list_all (\<lambda>g. g \<noteq> [] \<and> list_all is_decimal g) groups
      then Some (digits_value (concat groups)) else None)"

definition parse_int :: "string \<Rightarrow> int option" where
  "parse_int s =
     (case strip s of
        [] \<Rightarrow> None
      | c # cs \<Rightarrow>
          if c = CHR ''-'' then map_option uminus (unsigned_int cs)
          else if c = CHR ''+'' then unsigned_int cs
          else unsigned_int (c # cs))"

text \<open>\<open>str(n)\<close> of an integer.\<close>

fun show_nat :: "nat \<Rightarrow> string" where
  "show_nat n = (if n < 10 then [char_of (48 + n)] else show_nat (n div 10) @ [char_of (48 + n mod 10)])"

declare show_nat.simps [simp del]

definition show_int :: "int \<Rightarrow> string" where
  "show_int n = (if n < 0 then CHR ''-'' # show_nat (nat (- n)) else show_nat (nat n))"

text \<open>\<open>repr\<close> of a string without control characters: the quote that needs no escape, if any.\<close>

definition quoted :: "string \<Rightarrow> string" where "quoted s = CHR 0x27 # s @ [CHR 0x27]"

definition py_repr :: "string \<Rightarrow> string" where
  "py_repr s =
     (let q = (if CHR 0x27 \<in> set s \<and> CHR 0x22 \<notin> set s then CHR 0x22 else CHR 0x27);
          esc = (\<lambda>c. if c = q \<or> c = CHR 0x5C then [CHR 0x5C, c] else [c])
      in [q] @ concat (map esc s) @ [q])"

lemma split_on_nonempty [simp]: "split_on sep s \<noteq> []"
  by (induction s) (auto split: list.splits)

lemma split_on_no_sep: "sep \<notin> set s \<Longrightarrow> split_on sep s = [s]"
  by (induction s) auto

lemma split_on_parts: "w \<in> set (split_on sep s) \<Longrightarrow> sep \<notin> set w"
  by (induction s arbitrary: w) (auto split: if_splits list.splits)

lemma split_on_append_sep: "sep \<notin> set w \<Longrightarrow> split_on sep (w @ sep # rest) = w # split_on sep rest"
  by (induction w) auto

lemma join_simps [simp]:
  "join sep [] = []"
  "join sep [w] = w"
  "join sep (w # v # vs) = w @ sep @ join sep (v # vs)"
  by (simp_all add: join_def)

lemma split_join:
  "ws \<noteq> [] \<Longrightarrow> \<forall>w \<in> set ws. sep \<notin> set w \<Longrightarrow> split_on sep (join [sep] ws) = ws"
proof (induction ws)
  case Nil
  then show ?case by simp
next
  case (Cons w ws)
  then show ?case by (cases ws) (auto simp: split_on_no_sep split_on_append_sep)
qed

lemma partition_on_append:
  "sep \<notin> set k \<Longrightarrow> partition_on sep (k @ sep # v) = (k, v)"
  by (auto simp: partition_on_def takeWhile_append dropWhile_append)

lemma starts_with_append [simp]: "starts_with p (p @ s)"
  by (simp add: starts_with_def)

lemma starts_with_iff: "starts_with p s \<longleftrightarrow> (\<exists>t. s = p @ t)"
  by (metis append_take_drop_id starts_with_append starts_with_def)

lemma code_less [simp]: "code c < 256"
  by (simp add: code_def)

lemma code_char_of [simp]: "n < 256 \<Longrightarrow> code (char_of n) = n"
  by (simp add: code_def of_char_of)

lemma code_inject: "code c = code d \<longleftrightarrow> c = d"
  by (simp add: code_def)

lemma is_decimal_digit [simp]: "(n::nat) < 10 \<Longrightarrow> is_decimal (char_of (48 + n))"
  by (simp add: is_decimal_def)

subsection \<open>Numbers survive printing and parsing\<close>

lemma show_nat_decimal: "list_all is_decimal (show_nat n)"
proof (induction n rule: show_nat.induct)
  case (1 n)
  then show ?case by (subst show_nat.simps) auto
qed

lemma show_nat_nonempty [simp]: "show_nat n \<noteq> []"
  by (subst show_nat.simps) simp

lemma digits_value_snoc: "digits_value (s @ [c]) = 10 * digits_value s + (int (code c) - 48)"
  by (simp add: digits_value_def)

lemma digits_value_show_nat: "digits_value (show_nat n) = int n"
proof (induction n rule: show_nat.induct)
  case (1 n)
  show ?case
  proof (cases "n < 10")
    case True
    then show ?thesis by (subst show_nat.simps) (simp add: digits_value_def)
  next
    case False
    have "digits_value (show_nat n) = 10 * int (n div 10) + int (n mod 10)"
      using False 1 by (subst show_nat.simps) (simp add: digits_value_snoc)
    then show ?thesis by presburger
  qed
qed

lemma decimal_not_underscore: "is_decimal c \<Longrightarrow> c \<noteq> CHR ''_''"
  by (auto simp: is_decimal_def code_def)

lemma decimal_not_space: "is_decimal c \<Longrightarrow> \<not> is_space c"
  by (auto simp: is_decimal_def is_space_def)

lemma decimal_not_sign: "is_decimal c \<Longrightarrow> c \<noteq> CHR ''-'' \<and> c \<noteq> CHR ''+''"
  by (auto simp: is_decimal_def code_def)

lemma unsigned_int_decimal:
  assumes "s \<noteq> []" and "list_all is_decimal s"
  shows "unsigned_int s = Some (digits_value s)"
proof -
  have "CHR ''_'' \<notin> set s"
    using assms(2) by (auto simp: list_all_iff dest: decimal_not_underscore)
  then show ?thesis
    using assms by (simp add: unsigned_int_def split_on_no_sep)
qed

lemma strip_no_space_ends:
  "s \<noteq> [] \<Longrightarrow> \<not> is_space (hd s) \<Longrightarrow> \<not> is_space (last s) \<Longrightarrow> strip s = s"
proof -
  assume "s \<noteq> []" and *: "\<not> is_space (hd s)" "\<not> is_space (last s)"
  then have "dropWhile is_space s = s" and "dropWhile is_space (rev s) = rev s"
    by (auto simp: dropWhile_eq_self_iff hd_rev)
  then show ?thesis by (simp add: strip_def)
qed

lemma strip_ends:
  assumes "strip s \<noteq> []"
  shows "\<not> is_space (hd (strip s)) \<and> \<not> is_space (last (strip s))"
proof -
  let ?t = "dropWhile is_space s"
  have t: "?t = strip s @ rev (takeWhile is_space (rev ?t))"
    by (metis strip_def rev_append rev_rev_ident takeWhile_dropWhile_id)
  then have "hd (strip s) = hd ?t" "?t \<noteq> []" using assms by (metis hd_append2, metis append_is_Nil_conv)
  then have "\<not> is_space (hd (strip s))" using hd_dropWhile[of is_space s] by simp
  moreover have "dropWhile is_space (rev ?t) \<noteq> []" using assms by (simp add: strip_def)
  then have "\<not> is_space (hd (dropWhile is_space (rev ?t)))" by (rule hd_dropWhile)
  then have "\<not> is_space (last (strip s))" by (simp add: strip_def last_rev)
  ultimately show ?thesis by simp
qed

lemma strip_strip [simp]: "strip (strip s) = strip s"
proof (cases "strip s = []")
  case True
  then show ?thesis by (simp add: strip_def[of "[]"])
next
  case False
  then show ?thesis using strip_ends[OF False] by (intro strip_no_space_ends) auto
qed

lemma set_strip: "set (strip s) \<subseteq> set s"
  unfolding strip_def by (metis set_dropWhileD set_rev subsetI)

lemma strip_decimal: "s \<noteq> [] \<Longrightarrow> list_all is_decimal s \<Longrightarrow> strip s = s"
  by (rule strip_no_space_ends) (auto simp: list_all_iff dest: decimal_not_space)

lemma parse_int_decimal:
  assumes "s \<noteq> []" and "list_all is_decimal s"
  shows "parse_int s = Some (digits_value s)"
proof -
  obtain c cs where s: "s = c # cs" using assms(1) by (cases s) auto
  with assms have "is_decimal c" by simp
  then have "c \<noteq> CHR ''-''" "c \<noteq> CHR ''+''" by (auto dest: decimal_not_sign)
  moreover have "strip s = c # cs" using assms s by (simp add: strip_decimal)
  ultimately show ?thesis
    using assms unsigned_int_decimal[of s] unfolding parse_int_def by (simp add: s)
qed

lemma parse_int_show_nat: "parse_int (show_nat n) = Some (int n)"
  by (simp add: parse_int_decimal show_nat_decimal digits_value_show_nat)

lemma parse_int_show_int [simp]: "parse_int (show_int n) = Some n"
proof (cases "n < 0")
  case True
  let ?d = "show_nat (nat (- n))"
  have "\<not> is_space (last ?d)"
    using show_nat_decimal[of "nat (- n)"]
    by (auto simp: list_all_iff dest: decimal_not_space last_in_set)
  then have "strip (CHR ''-'' # ?d) = CHR ''-'' # ?d"
    by (intro strip_no_space_ends) (auto simp: is_space_def code_def)
  moreover have "unsigned_int ?d = Some (- n)"
    using True by (simp add: unsigned_int_decimal show_nat_decimal digits_value_show_nat)
  ultimately show ?thesis
    using True by (simp add: show_int_def parse_int_def)
next
  case False
  then show ?thesis by (simp add: show_int_def parse_int_show_nat)
qed

lemma digits_value_nonneg: "list_all is_decimal s \<Longrightarrow> 0 \<le> digits_value s"
  by (induction s rule: rev_induct) (auto simp: digits_value_snoc is_decimal_def digits_value_def)

section \<open>Dictionaries\<close>

type_synonym ('k, 'v) pydict = "('k \<times> 'v) list"

abbreviation dget :: "('k, 'v) pydict \<Rightarrow> 'k \<Rightarrow> 'v option" where
  "dget \<equiv> map_of"

abbreviation dput :: "'k \<Rightarrow> 'v \<Rightarrow> ('k, 'v) pydict \<Rightarrow> ('k, 'v) pydict" where
  "dput \<equiv> AList.update"

abbreviation ddel :: "'k \<Rightarrow> ('k, 'v) pydict \<Rightarrow> ('k, 'v) pydict" where
  "ddel \<equiv> AList.delete"

abbreviation dkeys :: "('k, 'v) pydict \<Rightarrow> 'k list" where
  "dkeys d \<equiv> map fst d"

text \<open>A configuration as the command line and files give it.\<close>

type_synonym config = "(string, string) pydict"

definition din :: "'k \<Rightarrow> ('k, 'v) pydict \<Rightarrow> bool" where
  "din k d \<longleftrightarrow> k \<in> set (dkeys d)"

definition dget_or :: "('k, 'v) pydict \<Rightarrow> 'k \<Rightarrow> 'v \<Rightarrow> 'v" where
  "dget_or d k v = (case dget d k of None \<Rightarrow> v | Some w \<Rightarrow> w)"

text \<open>\<open>{**a, **b}\<close> and \<open>a | b\<close>: the entries of \<open>b\<close> over those of \<open>a\<close>.\<close>

definition dmerge :: "('k, 'v) pydict \<Rightarrow> ('k, 'v) pydict \<Rightarrow> ('k, 'v) pydict" where
  "dmerge a b = fold (\<lambda>(k, v). dput k v) b a"

text \<open>A dictionary built from key-value pairs, such as a comprehension: the last pair wins.\<close>

definition dict_of :: "('k \<times> 'v) list \<Rightarrow> ('k, 'v) pydict" where
  "dict_of kvs = dmerge [] kvs"

abbreviation ddistinct :: "('k, 'v) pydict \<Rightarrow> bool" where
  "ddistinct d \<equiv> distinct (dkeys d)"

lemma din_iff_get [dict_simps]: "din k d \<longleftrightarrow> dget d k \<noteq> None"
  by (simp add: din_def map_of_eq_None_iff image_image)

lemma dget_dput [dict_simps]: "dget (dput k v d) k' = (if k' = k then Some v else dget d k')"
  by (simp add: update_conv)

lemma dget_ddel [dict_simps]: "dget (ddel k d) k' = (if k' = k then None else dget d k')"
  by (simp add: delete_conv)

lemma keyset_dput [dict_simps]: "fst ` set (dput k v d) = insert k (fst ` set d)"
  by (induction d) auto

lemma keyset_ddel [dict_simps]: "fst ` set (ddel k d) = fst ` set d - {k}"
  by (auto simp: AList.delete_eq)

lemma ddistinct_dput [dict_simps]: "ddistinct d \<Longrightarrow> ddistinct (dput k v d)"
  by (rule distinct_update)

lemma ddistinct_ddel [dict_simps]: "ddistinct d \<Longrightarrow> ddistinct (ddel k d)"
  by (simp add: distinct_delete)

lemma dput_same: "dget d k = Some v \<Longrightarrow> dput k v d = d"
  by (induction d) (auto split: if_splits)

lemma dput_fresh: "\<not> din k d \<Longrightarrow> dput k v d = d @ [(k, v)]"
  by (induction d) (auto simp: din_def)

lemma length_dput: "length (dput k v d) = (if din k d then length d else Suc (length d))"
  by (induction d) (auto simp: din_def)

lemma length_ddel: "ddistinct d \<Longrightarrow> din k d \<Longrightarrow> Suc (length (ddel k d)) = length d"
proof (induction d)
  case (Cons p d)
  have "fst p = k \<Longrightarrow> ddel k d = d"
    using Cons.prems by (auto intro!: delete_idem)
  with Cons show ?case by (cases p) (auto simp: din_def)
qed (simp add: din_def)

lemma dmerge_simps [simp]:
  "dmerge a [] = a"
  "dmerge a ((k, v) # b) = dmerge (dput k v a) b"
  by (simp_all add: dmerge_def)

lemma ddistinct_dmerge [dict_simps]: "ddistinct a \<Longrightarrow> ddistinct (dmerge a b)"
  by (induction b arbitrary: a) (auto simp: distinct_update)

lemma ddistinct_dict_of [dict_simps]: "ddistinct (dict_of kvs)"
  by (simp add: dict_of_def ddistinct_dmerge)

lemma dget_dmerge [dict_simps]:
  "ddistinct b \<Longrightarrow> dget (dmerge a b) k = (case dget b k of None \<Rightarrow> dget a k | Some v \<Rightarrow> Some v)"
proof (induction b arbitrary: a)
  case (Cons p b)
  obtain k' v where p: "p = (k', v)" by (cases p)
  have "k' = k \<Longrightarrow> dget b k = None"
    using Cons.prems p by (simp add: map_of_eq_None_iff)
  moreover have "dget (dmerge a (p # b)) k =
      (case dget b k of None \<Rightarrow> dget (dput k' v a) k | Some v \<Rightarrow> Some v)"
    using Cons p by simp
  ultimately show ?case
    by (cases "k' = k") (simp_all add: p dget_dput split: option.split)
qed simp

lemma keyset_dmerge [dict_simps]: "fst ` set (dmerge a b) = fst ` set a \<union> fst ` set b"
proof (induction b arbitrary: a)
  case (Cons p b)
  then show ?case by (cases p) (simp add: keyset_dput)
qed simp

lemma dget_dict_of: "dget (dict_of kvs) k = map_of (rev kvs) k"
proof (induction kvs rule: rev_induct)
  case (snoc p kvs)
  then show ?case
    by (cases p) (simp add: dict_of_def dmerge_def dget_dput split: if_splits)
qed (simp add: dict_of_def)

lemma dict_of_distinct: "ddistinct kvs \<Longrightarrow> dict_of kvs = kvs"
proof (induction kvs rule: rev_induct)
  case (snoc p kvs)
  then show ?case
    by (cases p) (simp add: dict_of_def dmerge_def, simp add: dput_fresh din_def)
qed (simp add: dict_of_def)

end
