(* ===== verification/Lru_Cache.thy ===== *)
theory Lru_Cache
  imports Prelude
begin

text \<open>
  The bounded cache of \<open>cache.py\<close> and what its users rely on. \<open>lru\<close> is \<open>LruCache\<close>: its
  capacity and its \<open>OrderedDict\<close>, oldest entry first. The locale \<open>memo\<close> states what a cache
  promises to code that memoises a call (the Registry clients and schema caches):
  every hit returns a value that was stored under that key. It is interpreted on the
  \<open>LruCache\<close> and on a plain dictionary.
\<close>

section \<open>The cache\<close>

record ('k, 'v) lru =
  capacity :: int
  items :: "('k, 'v) pydict"

definition lru_new :: "int \<Rightarrow> ('k, 'v) lru" where
  "lru_new n = \<lparr>capacity = n, items = []\<rparr>"

definition lru_len :: "('k, 'v) lru \<Rightarrow> nat" where
  "lru_len c = length (items c)"

definition lru_contains :: "'k \<Rightarrow> ('k, 'v) lru \<Rightarrow> bool" where
  "lru_contains k c = din k (items c)"

text \<open>\<open>OrderedDict.move_to_end\<close> of a present key.\<close>

definition move_to_end :: "'k \<Rightarrow> ('k, 'v) pydict \<Rightarrow> ('k, 'v) pydict" where
  "move_to_end k d = (case dget d k of None \<Rightarrow> d | Some v \<Rightarrow> ddel k d @ [(k, v)])"

definition lru_get :: "'k \<Rightarrow> ('k, 'v) lru \<Rightarrow> 'v option \<times> ('k, 'v) lru" where
  "lru_get k c =
     (if \<not> din k (items c) then (None, c)
      else (let d = move_to_end k (items c) in (dget d k, c\<lparr>items := d\<rparr>)))"

text \<open>\<open>while len(items) > capacity: items.popitem(last=False)\<close>, a \<open>KeyError\<close> when empty.\<close>

fun evict :: "int \<Rightarrow> ('k, 'v) pydict \<Rightarrow> ('k, 'v) pydict res" where
  "evict n [] = (if 0 > n then Inl (KeyError ''dictionary is empty'') else Inr [])"
| "evict n (p # d) = (if int (length (p # d)) > n then evict n d else Inr (p # d))"

definition lru_put :: "'k \<Rightarrow> 'v \<Rightarrow> ('k, 'v) lru \<Rightarrow> ('k, 'v) lru res" where
  "lru_put k v c =
     rbind (evict (capacity c) (move_to_end k (dput k v (items c))))
       (\<lambda>d. Inr (c\<lparr>items := d\<rparr>))"

definition lru_remove :: "'k \<Rightarrow> ('k, 'v) lru \<Rightarrow> ('k, 'v) lru" where
  "lru_remove k c = c\<lparr>items := ddel k (items c)\<rparr>"

definition lru_ok :: "('k, 'v) lru \<Rightarrow> bool" where
  "lru_ok c \<longleftrightarrow> 0 \<le> capacity c \<and> ddistinct (items c) \<and> int (length (items c)) \<le> capacity c"

section \<open>Lemmas\<close>

lemma evict_drop: "0 \<le> n \<Longrightarrow> evict n d = Inr (drop (length d - nat n) d)"
  by (induction d) (auto simp: not_less Suc_diff_le nat_le_iff split: nat_diff_split)

lemma ddel_dput: "ddel k (dput k v d) = ddel k d"
  by (induction d) auto

lemma move_to_end_dput: "move_to_end k (dput k v d) = ddel k d @ [(k, v)]"
  by (simp add: move_to_end_def dget_dput ddel_dput)

lemma lru_put_eq:
  assumes "0 \<le> capacity c"
  shows "lru_put k v c =
    Inr (c\<lparr>items := drop (Suc (length (ddel k (items c))) - nat (capacity c))
                      (ddel k (items c) @ [(k, v)])\<rparr>)"
  using assms by (simp add: lru_put_def move_to_end_dput evict_drop)

lemma ddel_fresh: "\<not> din k d \<Longrightarrow> ddel k d = d"
  by (auto simp: din_def intro!: delete_idem)

lemma ddistinct_moved: "ddistinct d \<Longrightarrow> ddistinct (ddel k d @ [(k, v)])"
  by (auto simp: ddistinct_ddel keyset_ddel distinct_delete)

lemma dget_moved: "dget (ddel k d @ [(k, v)]) k' = (if k' = k then Some v else dget d k')"
  by (auto simp: map_add_def dget_ddel split: option.splits)

lemma dget_drop:
  assumes "ddistinct d" and "dget (drop n d) k = Some v"
  shows "dget d k = Some v"
proof -
  have "dget (take n d) k = None"
  proof (rule ccontr)
    assume "dget (take n d) k \<noteq> None"
    then have "k \<in> fst ` set (take n d)" by (simp add: map_of_eq_None_iff)
    moreover have "k \<in> fst ` set (drop n d)"
      using assms(2) by (metis map_of_eq_None_iff option.distinct(1))
    moreover have "distinct (map fst (take n d @ drop n d))" using assms(1) by simp
    ultimately show False unfolding map_append distinct_append by auto
  qed
  then have "dget (take n d @ drop n d) k = dget (drop n d) k"
    by (simp only: map_of_append map_add_def) (simp split: option.split)
  then show ?thesis using assms(2) by simp
qed

lemma lru_ok_new: "0 \<le> n \<Longrightarrow> lru_ok (lru_new n)"
  by (simp add: lru_ok_def lru_new_def)

lemma length_moved:
  "ddistinct d \<Longrightarrow> din k d \<Longrightarrow> length (ddel k d @ [(k, v)]) = length d"
  by (simp add: length_ddel)

lemma lru_get_cases:
  "lru_get k c = (case dget (items c) k of
     None \<Rightarrow> (None, c) | Some v \<Rightarrow> (Some v, c\<lparr>items := ddel k (items c) @ [(k, v)]\<rparr>))"
  by (auto simp: lru_get_def move_to_end_def dget_moved din_iff_get Let_def simp del: map_of_append
      split: option.splits)

lemma lru_ok_get: "lru_ok c \<Longrightarrow> lru_ok (snd (lru_get k c))"
  by (auto simp: lru_get_cases lru_ok_def length_ddel din_iff_get ddistinct_moved
      simp del: map_append split: option.split)

lemma lru_ok_put: "lru_ok c \<Longrightarrow> lru_put k v c = Inr c' \<Longrightarrow> lru_ok c'"
  by (auto simp: lru_ok_def lru_put_eq drop_map[symmetric] ddistinct_moved
      simp del: map_append drop_append intro!: distinct_drop)

lemma lru_ok_remove: "lru_ok c \<Longrightarrow> lru_ok (lru_remove k c)"
  using length_delete_le[of k "items c"] by (auto simp: lru_ok_def lru_remove_def ddistinct_ddel)

lemma lru_put_total: "lru_ok c \<Longrightarrow> \<exists>c'. lru_put k v c = Inr c'"
  by (simp add: lru_ok_def lru_put_eq)

lemma capacity_ops [simp]:
  "capacity (snd (lru_get k c)) = capacity c"
  "capacity (lru_remove k c) = capacity c"
  by (auto simp: lru_get_cases lru_remove_def split: option.split)

lemma capacity_put: "lru_put k v c = Inr c' \<Longrightarrow> capacity c' = capacity c"
  by (auto simp: lru_put_def res_simps)

section \<open>What a cache promises\<close>

locale memo =
  fixes get :: "'k \<Rightarrow> 'c \<Rightarrow> 'v option \<times> 'c"
    and put :: "'k \<Rightarrow> 'v \<Rightarrow> 'c \<Rightarrow> 'c res"
    and entries :: "'c \<Rightarrow> 'k \<Rightarrow> 'v option"
    and invar :: "'c \<Rightarrow> bool"
  assumes get_value: "invar c \<Longrightarrow> fst (get k c) = entries c k"
    and get_entries: "invar c \<Longrightarrow> entries (snd (get k c)) = entries c"
    and get_invar: "invar c \<Longrightarrow> invar (snd (get k c))"
    and put_total: "invar c \<Longrightarrow> \<exists>c'. put k v c = Inr c'"
    and put_invar: "invar c \<Longrightarrow> put k v c = Inr c' \<Longrightarrow> invar c'"
    and put_entries: "invar c \<Longrightarrow> put k v c = Inr c' \<Longrightarrow> entries c' k' = Some w
          \<Longrightarrow> (k' = k \<and> w = v) \<or> entries c k' = Some w"
begin

text \<open>A call through the cache: a hit is returned, a miss is computed and stored.\<close>

definition fetch :: "('k \<Rightarrow> 'v res) \<Rightarrow> 'k \<Rightarrow> 'c \<Rightarrow> 'v res \<times> 'c" where
  "fetch f k c =
     (case get k c of
        (Some v, c') \<Rightarrow> (Inr v, c')
      | (None, c') \<Rightarrow>
          (case f k of
             Inl e \<Rightarrow> (Inl e, c')
           | Inr v \<Rightarrow> (case put k v c' of Inl e \<Rightarrow> (Inl e, c') | Inr c'' \<Rightarrow> (Inr v, c''))))"

definition coherent :: "('k \<Rightarrow> 'v res) \<Rightarrow> 'c \<Rightarrow> bool" where
  "coherent f c \<longleftrightarrow> (\<forall>k v. entries c k = Some v \<longrightarrow> f k = Inr v)"

lemma fetch_transparent:
  assumes "invar c" and "coherent f c"
  shows "fst (fetch f k c) = f k \<and> invar (snd (fetch f k c)) \<and> coherent f (snd (fetch f k c))"
proof -
  obtain r c1 where g: "get k c = (r, c1)" by (cases "get k c")
  with assms(1) have r: "r = entries c k" and c1: "entries c1 = entries c" "invar c1"
    using get_value[of c k] get_entries[of c k] get_invar[of c k] by auto
  show ?thesis
  proof (cases r)
    case None
    show ?thesis
    proof (cases "f k")
      case (Inl e)
      then show ?thesis using g None assms c1 by (simp add: fetch_def coherent_def)
    next
      case (Inr v)
      obtain c2 where p: "put k v c1 = Inr c2" using put_total c1 by blast
      have "coherent f c2"
        using assms(2) Inr put_entries[OF c1(2) p] by (auto simp: coherent_def c1)
      then show ?thesis
        using g None Inr p put_invar[OF c1(2) p] by (simp add: fetch_def)
    qed
  next
    case (Some v)
    then show ?thesis using g r assms c1 by (auto simp: fetch_def coherent_def)
  qed
qed

end

text \<open>A cache that holds at least the last value stored.\<close>

locale retaining_memo = memo +
  assumes put_get: "invar c \<Longrightarrow> put k v c = Inr c' \<Longrightarrow> entries c' k = Some v"
begin

lemma fetch_again:
  assumes "invar c" and "coherent f c" and "fst (fetch f k c) = Inr v"
  shows "fst (fetch g k (snd (fetch f k c))) = Inr v"
proof -
  have inv: "invar (snd (fetch f k c))" using assms fetch_transparent by blast
  have "entries (snd (fetch f k c)) k = Some v"
    using assms get_value[of c k] get_entries[of c k] get_invar[of c k]
    by (auto simp: fetch_def coherent_def put_get split: prod.splits option.splits sum.splits)
  then show ?thesis
    using get_value[OF inv, of k] by (auto simp: fetch_def split: prod.splits)
qed

end

lemma lru_get_entries:
  "lru_ok c \<Longrightarrow> fst (lru_get k c) = dget (items c) k"
  "lru_ok c \<Longrightarrow> dget (items (snd (lru_get k c))) = dget (items c)"
  by (auto simp: lru_get_cases dget_moved fun_eq_iff simp del: map_of_append split: option.split)

lemma lru_put_entries:
  assumes "lru_ok c" and "lru_put k v c = Inr c'" and "dget (items c') k' = Some w"
  shows "(k' = k \<and> w = v) \<or> dget (items c) k' = Some w"
proof -
  let ?d = "ddel k (items c) @ [(k, v)]"
  have "ddistinct ?d" using assms(1) by (intro ddistinct_moved) (simp add: lru_ok_def)
  moreover have "dget (drop (Suc (length (ddel k (items c))) - nat (capacity c)) ?d) k' = Some w"
    using assms by (auto simp: lru_ok_def lru_put_eq)
  ultimately have "dget ?d k' = Some w" by (rule dget_drop)
  then show ?thesis unfolding dget_moved by (auto split: if_splits)
qed

definition dict_memo_get :: "'k \<Rightarrow> ('k, 'v) pydict \<Rightarrow> 'v option \<times> ('k, 'v) pydict" where
  "dict_memo_get k d = (dget d k, d)"

definition dict_memo_put :: "'k \<Rightarrow> 'v \<Rightarrow> ('k, 'v) pydict \<Rightarrow> ('k, 'v) pydict res" where
  "dict_memo_put k v d = Inr (dput k v d)"

interpretation lru_memo: memo lru_get lru_put "\<lambda>c. dget (items c)" lru_ok
  by unfold_locales (auto simp: lru_get_entries lru_ok_get lru_put_total lru_ok_put
      dest: lru_put_entries)

interpretation dict_memo: retaining_memo dict_memo_get dict_memo_put "\<lambda>d. dget d" "\<lambda>d. True"
  by unfold_locales (auto simp: dict_memo_get_def dict_memo_put_def dget_dput split: if_splits)

lemma lru_put_last:
  assumes "lru_ok c" and "0 < capacity c" and "lru_put k v c = Inr c'"
  shows "dget (items c') k = Some v"
proof -
  let ?n = "Suc (length (ddel k (items c))) - nat (capacity c)"
  have "?n \<le> length (ddel k (items c))" using assms(2) by simp
  then have "items c' = drop ?n (ddel k (items c)) @ [(k, v)]"
    using assms by (auto simp: lru_ok_def lru_put_eq)
  moreover have "k \<notin> fst ` set (drop ?n (ddel k (items c)))"
    using set_drop_subset[of ?n "ddel k (items c)"] by (auto simp: AList.delete_eq)
  ultimately show ?thesis by (auto simp: map_add_def map_of_eq_None_iff[symmetric] split: option.split)
qed

interpretation lru_retaining:
  retaining_memo lru_get lru_put "\<lambda>c. dget (items c)" "\<lambda>c. lru_ok c \<and> 0 < capacity c"
  by unfold_locales (auto simp: lru_get_entries lru_ok_get lru_put_total lru_ok_put lru_put_last
      capacity_put dest: lru_put_entries)

section \<open>Runs of the cache and their specification\<close>

datatype ('k, 'v) lru_op = Get 'k | Put 'k 'v | Remove 'k

fun lru_apply :: "('k, 'v) lru_op \<Rightarrow> ('k, 'v) lru \<Rightarrow> ('k, 'v) lru res" where
  "lru_apply (Get k) c = Inr (snd (lru_get k c))"
| "lru_apply (Put k v) c = lru_put k v c"
| "lru_apply (Remove k) c = Inr (lru_remove k c)"

fun lru_run :: "('k, 'v) lru_op list \<Rightarrow> ('k, 'v) lru \<Rightarrow> ('k, 'v) lru res" where
  "lru_run [] c = Inr c"
| "lru_run (x # xs) c = rbind (lru_apply x c) (lru_run xs)"

lemma lru_apply_ok:
  assumes "lru_ok c"
  shows "\<exists>c'. lru_apply x c = Inr c' \<and> lru_ok c' \<and> capacity c' = capacity c"
proof (cases x)
  case (Get k)
  then show ?thesis using assms by (simp add: lru_ok_get)
next
  case (Put k v)
  then show ?thesis
    using lru_put_total[OF assms, of k v] lru_ok_put[OF assms] capacity_put by fastforce
next
  case (Remove k)
  then show ?thesis using assms by (simp add: lru_ok_remove)
qed

lemma lru_run_ok:
  "lru_ok c \<Longrightarrow> \<exists>c'. lru_run xs c = Inr c' \<and> lru_ok c' \<and> capacity c' = capacity c"
proof (induction xs arbitrary: c)
  case (Cons x xs)
  then obtain c1 where "lru_apply x c = Inr c1" "lru_ok c1" "capacity c1 = capacity c"
    using lru_apply_ok by blast
  then show ?case using Cons.IH[of c1] by auto
qed simp

text \<open>
  The abstract cache never forgets: it keeps every entry ever stored in order of last use. A
  lookup counts as a use only when the key is among the last \<open>n\<close> entries.
\<close>

definition last_n :: "nat \<Rightarrow> 'a list \<Rightarrow> 'a list" where
  "last_n n xs = drop (length xs - n) xs"

definition recency_put :: "'k \<Rightarrow> 'v \<Rightarrow> ('k, 'v) pydict \<Rightarrow> ('k, 'v) pydict" where
  "recency_put k v u = ddel k u @ [(k, v)]"

fun recency_run :: "nat \<Rightarrow> ('k, 'v) lru_op list \<Rightarrow> ('k, 'v) pydict \<Rightarrow> ('k, 'v) pydict" where
  "recency_run n [] u = u"
| "recency_run n (Get k # xs) u =
     recency_run n xs (case dget (last_n n u) k of None \<Rightarrow> u | Some v \<Rightarrow> recency_put k v u)"
| "recency_run n (Put k v # xs) u = recency_run n xs (recency_put k v u)"
| "recency_run n (Remove k # xs) u = recency_run n xs u"

definition no_remove :: "('k, 'v) lru_op list \<Rightarrow> bool" where
  "no_remove xs \<longleftrightarrow> list_all (\<lambda>x. case x of Remove _ \<Rightarrow> False | _ \<Rightarrow> True) xs"

lemma last_n_append: "n \<le> length ys \<Longrightarrow> last_n n (xs @ ys) = last_n n ys"
  by (simp add: last_n_def)

lemma last_n_short: "length xs \<le> n \<Longrightarrow> last_n n xs = xs"
  by (simp add: last_n_def)

lemma ddel_append: "ddel k (a @ b) = ddel k a @ ddel k b"
  by (simp add: AList.delete_eq)

lemma length_ddel_ge: "ddistinct d \<Longrightarrow> length d \<le> Suc (length (ddel k d))"
  by (cases "din k d") (use length_ddel ddel_fresh in \<open>fastforce+\<close>)

lemma last_n_put:
  assumes "ddistinct u"
  shows "last_n n (recency_put k v (last_n n u)) = last_n n (recency_put k v u)"
proof (cases "length u \<le> n")
  case True
  then show ?thesis by (simp add: last_n_short)
next
  case False
  let ?a = "take (length u - n) u" and ?b = "last_n n u"
  have u: "u = ?a @ ?b" by (simp add: last_n_def)
  have "ddistinct ?b" using assms by (simp add: last_n_def drop_map[symmetric])
  then have "n \<le> length (recency_put k v ?b)"
    using length_ddel_ge[of ?b k] False by (simp add: last_n_def recency_put_def)
  then have "last_n n (ddel k ?a @ recency_put k v ?b) = last_n n (recency_put k v ?b)"
    by (rule last_n_append)
  moreover have "recency_put k v u = ddel k ?a @ recency_put k v ?b"
    by (subst u) (simp add: recency_put_def ddel_append)
  ultimately show ?thesis by simp
qed

lemma lru_put_last_n:
  assumes "lru_ok c"
  shows "lru_put k v c = Inr (c\<lparr>items := last_n (nat (capacity c)) (recency_put k v (items c))\<rparr>)"
  using assms by (simp add: lru_put_eq lru_ok_def last_n_def recency_put_def)

lemma lru_refines_recency:
  assumes "lru_ok c" and "no_remove xs" and "ddistinct u"
    and "items c = last_n (nat (capacity c)) u"
  shows "\<exists>c'. lru_run xs c = Inr c' \<and> items c' = last_n (nat (capacity c)) (recency_run (nat (capacity c)) xs u)"
  using assms
proof (induction xs arbitrary: c u)
  case (Cons x xs)
  let ?n = "nat (capacity c)"
  have step: "\<exists>c'. lru_run xs c1 = Inr c' \<and> items c' = last_n ?n (recency_run ?n xs u1)"
    if "lru_ok c1" "capacity c1 = capacity c" "ddistinct u1" "items c1 = last_n ?n u1" for c1 u1
    using Cons.IH[OF that(1) _ that(3)] that Cons.prems(2) by (simp add: no_remove_def)
  have moved: "ddistinct (recency_put k v u)" for k v
    using Cons.prems(3) by (simp add: recency_put_def ddistinct_moved del: map_append)
  show ?case
  proof (cases x)
    case (Get k)
    show ?thesis
    proof (cases "dget (items c) k")
      case None
      then show ?thesis using step[of c u] Cons.prems Get by (simp add: lru_get_cases)
    next
      case (Some v)
      have "length (recency_put k v (items c)) = length (items c)"
        using Cons.prems(1) Some length_ddel[of "items c" k]
        by (simp add: recency_put_def lru_ok_def din_iff_get)
      then have "recency_put k v (items c) = last_n ?n (recency_put k v (items c))"
        using Cons.prems(1) by (intro last_n_short[symmetric]) (simp add: lru_ok_def nat_le_iff le_nat_iff)
      then have "recency_put k v (items c) = last_n ?n (recency_put k v u)"
        using last_n_put[OF Cons.prems(3), of ?n k v] Cons.prems(4) by simp
      moreover have "lru_get k c = (Some v, c\<lparr>items := recency_put k v (items c)\<rparr>)"
        using Some by (simp add: lru_get_cases recency_put_def)
      ultimately show ?thesis
        using step[of "snd (lru_get k c)" "recency_put k v u"] lru_ok_get[OF Cons.prems(1), of k]
          Cons.prems(4) Get Some moved[of k v] by simp
    qed
  next
    case (Put k v)
    then show ?thesis
      using step[of "c\<lparr>items := last_n ?n (recency_put k v (items c))\<rparr>" "recency_put k v u"]
        lru_ok_put[OF Cons.prems(1) lru_put_last_n[OF Cons.prems(1)]] Cons.prems moved
      by (simp add: lru_put_last_n last_n_put)
  next
    case (Remove k)
    then show ?thesis using Cons.prems(2) by (simp add: no_remove_def)
  qed
qed simp

section \<open>Properties\<close>

text \<open>Whatever sequence of lookups, stores and removals runs on a new cache of capacity n, it
  never fails, the cache never holds more than n entries, and each key occurs once.\<close>

theorem lru_run_bounded:
  assumes "0 \<le> n"
  shows "\<exists>c. lru_run xs (lru_new n) = Inr c \<and> int (lru_len c) \<le> n \<and> ddistinct (items c)"
  using lru_run_ok[OF lru_ok_new[OF assms], of xs] assms
  by (auto simp: lru_ok_def lru_len_def lru_new_def)

theorem lru_run_bounded_witness:
  "\<exists>c. lru_run [Put 1 ''a'', Put 2 ''b'', Get 1, Put 3 ''c''] (lru_new 2) = Inr c
     \<and> int (lru_len c) \<le> 2 \<and> ddistinct (items c :: (nat \<times> string) list)"
  by (rule lru_run_bounded) simp

text \<open>C7: the cache evicts the least recently used entry: after any lookups and stores its entries
  are exactly the last n of the unbounded list of entries in order of last use.\<close>

theorem lru_keeps_most_recent:
  assumes "0 \<le> n" and "no_remove xs"
  shows "\<exists>c. lru_run xs (lru_new n) = Inr c \<and> items c = last_n (nat n) (recency_run (nat n) xs [])"
  using lru_refines_recency[OF lru_ok_new[OF assms(1)] assms(2), of "[]"]
  by (simp add: lru_new_def last_n_def)

theorem lru_keeps_most_recent_witness:
  "\<exists>c. lru_run [Put 1 True, Put 2 False, Get 1, Put (3::nat) True] (lru_new 2) = Inr c
     \<and> items c = [(1, True), (3, True)]"
  using lru_keeps_most_recent[of 2 "[Put 1 True, Put 2 False, Get 1, Put (3::nat) True]"]
  by (simp add: no_remove_def recency_put_def last_n_def)

end
