(* ===== verification/Refresh.thy ===== *)
theory Refresh
  imports Prelude
begin

text \<open>
  \<open>RefreshCoordinator\<close> of \<open>refresh.py\<close>: which refresh of the admin topic list may run, which
  one is current, and whether a request that was refused waits. The operations are functions
  on the coordinator's record. The step relation runs them in any order, with two ghost sets
  that record the generations started and finished, so that the safety of the whole life of a
  coordinator is an invariant of its reachable states.
\<close>

section \<open>The coordinator\<close>

datatype refresh_reason = INITIAL | MANUAL | PERIODIC | RESUME | MUTATION | PENDING

record coordinator =
  generation :: int
  active :: bool
  pending :: bool
  mutation_active :: bool

definition coordinator_new :: coordinator where
  "coordinator_new = \<lparr>generation = 0, active = False, pending = False, mutation_active = False\<rparr>"

definition request :: "refresh_reason \<Rightarrow> coordinator \<Rightarrow> int option \<times> coordinator" where
  "request reason s =
     (if active s \<or> mutation_active s
      then (None, if reason \<noteq> PERIODIC then s\<lparr>pending := True\<rparr> else s)
      else (let g = generation s + 1 in (Some g, s\<lparr>generation := g, active := True\<rparr>)))"

definition is_current :: "int \<Rightarrow> coordinator \<Rightarrow> bool" where
  "is_current g s \<longleftrightarrow> active s \<and> g = generation s"

definition complete :: "int \<Rightarrow> coordinator \<Rightarrow> bool \<times> coordinator" where
  "complete g s = (if \<not> is_current g s then (False, s) else (True, s\<lparr>active := False\<rparr>))"

definition take_pending :: "coordinator \<Rightarrow> bool \<times> coordinator" where
  "take_pending s =
     (if \<not> pending s \<or> active s \<or> mutation_active s then (False, s)
      else (True, s\<lparr>pending := False\<rparr>))"

definition begin_mutation :: "coordinator \<Rightarrow> coordinator" where
  "begin_mutation s = s\<lparr>mutation_active := True\<rparr>"

definition end_mutation :: "coordinator \<Rightarrow> coordinator" where
  "end_mutation s = s\<lparr>mutation_active := False\<rparr>"

definition discard_pending :: "coordinator \<Rightarrow> coordinator" where
  "discard_pending s = s\<lparr>pending := False\<rparr>"

lemmas coordinator_defs =
  request_def is_current_def complete_def take_pending_def begin_mutation_def end_mutation_def
  discard_pending_def Let_def

section \<open>Steps and reachable states\<close>

datatype refresh_event =
  Request refresh_reason | Complete int | TakePending | BeginMutation | EndMutation | DiscardPending

inductive refresh_step :: "coordinator \<Rightarrow> refresh_event \<Rightarrow> int option \<Rightarrow> coordinator \<Rightarrow> bool" where
  request: "request r s = (out, s') \<Longrightarrow> refresh_step s (Request r) out s'"
| complete: "complete g s = (b, s') \<Longrightarrow> refresh_step s (Complete g) None s'"
| take_pending: "take_pending s = (b, s') \<Longrightarrow> refresh_step s TakePending None s'"
| begin_mutation: "refresh_step s BeginMutation None (begin_mutation s)"
| end_mutation: "refresh_step s EndMutation None (end_mutation s)"
| discard_pending: "refresh_step s DiscardPending None (discard_pending s)"

inductive_cases refresh_requestE: "refresh_step s (Request r) out s'"
inductive_cases refresh_completeE: "refresh_step s (Complete g) out s'"
inductive_simps refresh_step_simps:
  "refresh_step s (Request r) out s'" "refresh_step s (Complete g) out s'"
  "refresh_step s TakePending out s'" "refresh_step s BeginMutation out s'"
  "refresh_step s EndMutation out s'" "refresh_step s DiscardPending out s'"

text \<open>Reachable states, with the generations started so far and those whose completion was accepted.\<close>

inductive refresh_reach :: "coordinator \<Rightarrow> int set \<Rightarrow> int set \<Rightarrow> bool" where
  init: "refresh_reach coordinator_new {} {}"
| started: "refresh_reach s st fin \<Longrightarrow> refresh_step s ev (Some g) s' \<Longrightarrow>
     refresh_reach s' (insert g st) fin"
| finished: "refresh_reach s st fin \<Longrightarrow> refresh_step s (Complete g) None s' \<Longrightarrow> is_current g s \<Longrightarrow>
     refresh_reach s' st (insert g fin)"
| other: "refresh_reach s st fin \<Longrightarrow> refresh_step s ev None s' \<Longrightarrow>
     (\<forall>g. ev = Complete g \<longrightarrow> \<not> is_current g s) \<Longrightarrow> refresh_reach s' st fin"

definition refresh_inv :: "coordinator \<Rightarrow> int set \<Rightarrow> int set \<Rightarrow> bool" where
  "refresh_inv s st fin \<longleftrightarrow>
     st - fin = (if active s then {generation s} else {}) \<and> (\<forall>g \<in> st. g \<le> generation s)"

lemma step_started:
  "refresh_step s ev (Some g) s' \<Longrightarrow>
     \<not> active s \<and> \<not> mutation_active s \<and> g = generation s + 1 \<and> active s' \<and> generation s' = g"
  by (erule refresh_step.cases) (auto simp: coordinator_defs split: if_splits)

lemma step_silent:
  assumes "refresh_step s ev None s'" and "\<forall>g. ev = Complete g \<longrightarrow> \<not> is_current g s"
  shows "active s' = active s \<and> generation s' = generation s"
  using assms by (elim refresh_step.cases) (auto simp: coordinator_defs split: if_splits)

lemma step_finished:
  "refresh_step s (Complete g) None s' \<Longrightarrow> is_current g s \<Longrightarrow>
     \<not> active s' \<and> generation s' = generation s \<and> g = generation s \<and> active s"
  by (erule refresh_completeE) (auto simp: coordinator_defs split: if_splits)

lemma refresh_reach_inv: "refresh_reach s st fin \<Longrightarrow> refresh_inv s st fin \<and> (\<forall>g \<in> fin. g \<le> generation s)"
proof (induction rule: refresh_reach.induct)
  case init
  show ?case by (simp add: refresh_inv_def coordinator_new_def)
next
  case (started s st fin ev g s')
  note step_started[OF started.hyps(2)]
  moreover from this started.IH have "g \<notin> fin" by fastforce
  ultimately show ?case using started.IH by (fastforce simp: refresh_inv_def)
next
  case (finished s st fin g s')
  note step_finished[OF finished.hyps(2,3)]
  then show ?case using finished.IH by (auto simp: refresh_inv_def)
next
  case (other s st fin ev s')
  note step_silent[OF other.hyps(2,3)]
  then show ?case using other.IH by (simp add: refresh_inv_def)
qed

text \<open>Events during which a waiting request stays recorded.\<close>

fun keeps_pending :: "refresh_event \<Rightarrow> bool" where
  "keeps_pending TakePending = False"
| "keeps_pending DiscardPending = False"
| "keeps_pending _ = True"

fun refresh_run :: "refresh_event list \<Rightarrow> coordinator \<Rightarrow> coordinator" where
  "refresh_run [] s = s"
| "refresh_run (Request r # es) s = refresh_run es (snd (request r s))"
| "refresh_run (Complete g # es) s = refresh_run es (snd (complete g s))"
| "refresh_run (TakePending # es) s = refresh_run es (snd (take_pending s))"
| "refresh_run (BeginMutation # es) s = refresh_run es (begin_mutation s)"
| "refresh_run (EndMutation # es) s = refresh_run es (end_mutation s)"
| "refresh_run (DiscardPending # es) s = refresh_run es (discard_pending s)"

lemma refresh_run_pending:
  "list_all keeps_pending es \<Longrightarrow> pending s \<Longrightarrow> pending (refresh_run es s)"
  by (induction es s rule: refresh_run.induct) (auto simp: coordinator_defs)

section \<open>Properties\<close>

text \<open>C11: refreshes never overlap. In every reachable state at most one started refresh is
  unfinished, it is the current generation, and no generation number was ever used twice.\<close>

theorem refresh_never_overlaps:
  assumes "refresh_reach s st fin"
  shows "st - fin \<subseteq> {generation s} \<and>
    (\<forall>ev g s'. refresh_step s ev (Some g) s' \<longrightarrow> g \<notin> st \<and> st - fin = {} \<and> \<not> mutation_active s)"
proof (intro conjI allI impI)
  note inv = refresh_reach_inv[OF assms]
  show "st - fin \<subseteq> {generation s}" using inv by (simp add: refresh_inv_def)
  fix ev g s'
  assume "refresh_step s ev (Some g) s'"
  note step = step_started[OF this]
  then show "g \<notin> st" and "st - fin = {}" and "\<not> mutation_active s"
    using inv by (fastforce simp: refresh_inv_def)+
qed

theorem refresh_never_overlaps_witness:
  "refresh_reach (snd (request INITIAL coordinator_new)) {1} {}
   \<and> {1::int} - {} \<subseteq> {generation (snd (request INITIAL coordinator_new))}"
proof -
  have r: "refresh_reach (snd (request INITIAL coordinator_new)) {1} {}"
    by (rule refresh_reach.started[OF refresh_reach.init, of "Request INITIAL"])
      (simp add: refresh_step_simps coordinator_defs coordinator_new_def)
  then show ?thesis using refresh_never_overlaps[OF r] by simp
qed

text \<open>A refused request is not lost. Unless it was periodic it is recorded, it survives every
  event but taking or discarding it, and once the running refresh completes and no mutation is
  active it is handed out and the request made for it starts the next generation.\<close>

theorem refused_request_is_served:
  assumes refused: "request r s = (None, s')" and "r \<noteq> PERIODIC"
    and "list_all keeps_pending es" and "\<not> mutation_active (refresh_run es s')"
    and "is_current g (refresh_run es s')"
    and completed: "complete g (refresh_run es s') = (b, s2)"
  shows "b \<and> (\<exists>s3. take_pending s2 = (True, s3) \<and>
           request PENDING s3 = (Some (g + 1), s3\<lparr>generation := g + 1, active := True\<rparr>))"
proof -
  have "pending s'" using assms(1,2) by (auto simp: coordinator_defs split: if_splits)
  then have "pending (refresh_run es s')" using assms(3) by (rule refresh_run_pending[rotated])
  then show ?thesis using assms(4-6) by (auto simp: coordinator_defs split: if_splits)
qed

theorem refused_request_is_served_witness:
  "fst (take_pending (snd (complete 1 (snd (request MANUAL (snd (request INITIAL coordinator_new)))))))"
proof -
  let ?s = "snd (request MANUAL (snd (request INITIAL coordinator_new)))"
  have "fst (complete 1 ?s) \<and> (\<exists>s3. take_pending (snd (complete 1 ?s)) = (True, s3) \<and>
      request PENDING s3 = (Some (1 + 1), s3\<lparr>generation := 1 + 1, active := True\<rparr>))"
    by (rule refused_request_is_served[of MANUAL "snd (request INITIAL coordinator_new)" ?s "[]"])
      (simp_all add: coordinator_defs coordinator_new_def)
  then show ?thesis by auto
qed

end
