(* ===== verification/Configs.thy ===== *)
theory Configs
  imports Prelude "HOL-Library.List_Lexorder" "HOL-Library.Char_ord"
begin

text \<open>
  The constants of \<open>configs.py\<close>, the enumerations the components share
  (\<open>Deserialization\<close>, \<open>Serialization\<close>, \<open>BytesEncoding\<close>, \<open>SchemaType\<close>, \<open>MessageField\<close>)
  and the command objects of \<open>commands.py\<close>.

  \<open>Deserialization\<close> and \<open>Serialization\<close> have the same eleven member names in a different
  order, and no code mixes the two, so one datatype stands for both and the two
  \<open>str_list\<close> functions keep the two orders.
\<close>

section \<open>Constants\<close>

definition MILLISECONDS_24H :: int where "MILLISECONDS_24H = 86400000"
definition MILLISECONDS_1W :: int where "MILLISECONDS_1W = 604800000"
definition MIN_INSYNC_REPLICAS_CONFIG :: string where "MIN_INSYNC_REPLICAS_CONFIG = ''min.insync.replicas''"
definition RETENTION_MS_CONFIG :: string where "RETENTION_MS_CONFIG = ''retention.ms''"
definition CLEANUP_POLICY_CONFIG :: string where "CLEANUP_POLICY_CONFIG = ''cleanup.policy''"
definition FRAMING_CONFIGS :: "string list" where
  "FRAMING_CONFIGS = [''framing'', ''key.framing'', ''value.framing'']"
definition SCHEMA_FILE_CONFIGS :: "string list" where "SCHEMA_FILE_CONFIGS = [''key'', ''value'']"
definition PROTOBUF_SCHEMA_CONFIGS :: "string list" where
  "PROTOBUF_SCHEMA_CONFIGS = [''descriptor'', ''source'']"
definition PROTOBUF_INCLUDE :: string where "PROTOBUF_INCLUDE = ''include''"
definition PROTOBUF_DESERIALIZER_CONFIGS :: "string list" where
  "PROTOBUF_DESERIALIZER_CONFIGS =
     PROTOBUF_SCHEMA_CONFIGS @ [PROTOBUF_INCLUDE] @ SCHEMA_FILE_CONFIGS @ FRAMING_CONFIGS"
definition AVRO_DESERIALIZER_CONFIGS :: "string list" where
  "AVRO_DESERIALIZER_CONFIGS = SCHEMA_FILE_CONFIGS @ FRAMING_CONFIGS"
definition JSON_DESERIALIZER_CONFIGS :: "string list" where
  "JSON_DESERIALIZER_CONFIGS = SCHEMA_FILE_CONFIGS @ FRAMING_CONFIGS"
definition PROTOBUF_SERIALIZER_CONFIGS :: "string list" where
  "PROTOBUF_SERIALIZER_CONFIGS = PROTOBUF_SCHEMA_CONFIGS @ [PROTOBUF_INCLUDE] @ SCHEMA_FILE_CONFIGS"
definition AVRO_SERIALIZER_CONFIGS :: "string list" where "AVRO_SERIALIZER_CONFIGS = SCHEMA_FILE_CONFIGS"
definition JSON_SERIALIZER_CONFIGS :: "string list" where "JSON_SERIALIZER_CONFIGS = SCHEMA_FILE_CONFIGS"
definition APICURIO_OPTION :: string where "APICURIO_OPTION = ''apicurio''"
definition CONFLUENT_OPTION :: string where "CONFLUENT_OPTION = ''confluent''"
definition REGISTRY_PROVIDERS :: "string list" where
  "REGISTRY_PROVIDERS = [APICURIO_OPTION, CONFLUENT_OPTION]"
definition DESERIALIZER_FRAMINGS :: "string list" where
  "DESERIALIZER_FRAMINGS = ''raw'' # REGISTRY_PROVIDERS"
definition BYTES_CONFIGS :: "string list" where
  "BYTES_CONFIGS = [''encoding'', ''key.encoding'', ''value.encoding'']"
definition FALLBACK_CONFIGS :: "string list" where "FALLBACK_CONFIGS = [''encoding'']"
definition BYTES_ENCODINGS :: "string list" where
  "BYTES_ENCODINGS = [''base64'', ''hex'', ''byte-array'', ''escaped'']"
definition AWS_CONFIGS :: "string list" where "AWS_CONFIGS = [''region'']"
definition AUTO_REGISTER_SCHEMAS :: string where "AUTO_REGISTER_SCHEMAS = ''auto.register.schemas''"
definition USE_LATEST_VERSION :: string where "USE_LATEST_VERSION = ''use.latest.version''"
definition USE_SCHEMA_ID :: string where "USE_SCHEMA_ID = ''use.schema.id''"
definition NORMALIZE_SCHEMAS :: string where "NORMALIZE_SCHEMAS = ''normalize.schemas''"
definition PROTOBUF_MESSAGE :: string where "PROTOBUF_MESSAGE = ''protobuf.message''"
definition SCHEMA_REGISTRY_MAGIC_BYTE :: int where "SCHEMA_REGISTRY_MAGIC_BYTE = 0"
definition SCHEMA_REGISTRY_HEADER_SIZE :: nat where "SCHEMA_REGISTRY_HEADER_SIZE = 5"
definition BOOTSTRAP_SERVERS :: string where "BOOTSTRAP_SERVERS = ''bootstrap.servers''"
definition AUTO_OFFSET_RESET :: string where "AUTO_OFFSET_RESET = ''auto.offset.reset''"
definition EARLIEST :: string where "EARLIEST = ''earliest''"
definition MAX_POLL_INTERVAL_MS :: string where "MAX_POLL_INTERVAL_MS = ''max.poll.interval.ms''"
definition ENABLE_AUTO_COMMIT :: string where "ENABLE_AUTO_COMMIT = ''enable.auto.commit''"
definition GROUP_ID :: string where "GROUP_ID = ''group.id''"
definition ACKS :: string where "ACKS = ''acks''"
definition COMPRESSION_TYPE :: string where "COMPRESSION_TYPE = ''compression.type''"
definition ENABLE_IDEMPOTENCE :: string where "ENABLE_IDEMPOTENCE = ''enable.idempotence''"
definition PRODUCER_SETTING_DEFAULTS :: "(string, string) pydict" where
  "PRODUCER_SETTING_DEFAULTS =
     [(ACKS, ''all''), (COMPRESSION_TYPE, ''none''), (ENABLE_IDEMPOTENCE, ''false'')]"
definition PRODUCER_SETTING_ALIASES :: "(string, string) pydict" where
  "PRODUCER_SETTING_ALIASES =
     [(ACKS, ''request.required.acks''), (COMPRESSION_TYPE, ''compression.codec'')]"

text \<open>The property tables and the option names, for proofs about closed configurations.\<close>

lemmas config_tables =
  FRAMING_CONFIGS_def SCHEMA_FILE_CONFIGS_def PROTOBUF_SCHEMA_CONFIGS_def PROTOBUF_INCLUDE_def
  PROTOBUF_DESERIALIZER_CONFIGS_def AVRO_DESERIALIZER_CONFIGS_def JSON_DESERIALIZER_CONFIGS_def
  PROTOBUF_SERIALIZER_CONFIGS_def AVRO_SERIALIZER_CONFIGS_def JSON_SERIALIZER_CONFIGS_def
  APICURIO_OPTION_def CONFLUENT_OPTION_def REGISTRY_PROVIDERS_def DESERIALIZER_FRAMINGS_def
  BYTES_CONFIGS_def FALLBACK_CONFIGS_def BYTES_ENCODINGS_def AWS_CONFIGS_def

section \<open>Enumerations\<close>

datatype format =
  F_BYTES | F_BOOLEAN | F_STRING | F_LONG | F_INTEGER | F_DOUBLE | F_FLOAT | F_JSON | F_AVRO
| F_PROTOBUF | F_REGISTRY

definition deserialization_members :: "format list" where
  "deserialization_members =
     [F_BYTES, F_BOOLEAN, F_STRING, F_LONG, F_INTEGER, F_DOUBLE, F_FLOAT, F_JSON, F_AVRO,
      F_PROTOBUF, F_REGISTRY]"

definition serialization_members :: "format list" where
  "serialization_members =
     [F_STRING, F_BYTES, F_BOOLEAN, F_INTEGER, F_LONG, F_FLOAT, F_DOUBLE, F_JSON, F_AVRO,
      F_PROTOBUF, F_REGISTRY]"

fun format_name :: "format \<Rightarrow> string" where
  "format_name F_BYTES = ''BYTES''"
| "format_name F_BOOLEAN = ''BOOLEAN''"
| "format_name F_STRING = ''STRING''"
| "format_name F_LONG = ''LONG''"
| "format_name F_INTEGER = ''INTEGER''"
| "format_name F_DOUBLE = ''DOUBLE''"
| "format_name F_FLOAT = ''FLOAT''"
| "format_name F_JSON = ''JSON''"
| "format_name F_AVRO = ''AVRO''"
| "format_name F_PROTOBUF = ''PROTOBUF''"
| "format_name F_REGISTRY = ''REGISTRY''"

definition format_str :: "format \<Rightarrow> string" where
  "format_str f = lower (format_name f)"

text \<open>\<open>cls[value.upper()]\<close>: the member of that name, or a \<open>KeyError\<close>.\<close>

definition format_from_str :: "string \<Rightarrow> format res" where
  "format_from_str value =
     (case find (\<lambda>f. format_name f = upper value) deserialization_members of
        None \<Rightarrow> Inl (KeyError (upper value)) | Some f \<Rightarrow> Inr f)"

definition deserialization_str_list :: "string list" where
  "deserialization_str_list = map format_str deserialization_members"

definition serialization_str_list :: "string list" where
  "serialization_str_list = map format_str serialization_members"

datatype bytes_encoding = BASE64 | HEX | BYTE_ARRAY | ESCAPED

fun encoding_name :: "bytes_encoding \<Rightarrow> string" where
  "encoding_name BASE64 = ''BASE64''"
| "encoding_name HEX = ''HEX''"
| "encoding_name BYTE_ARRAY = ''BYTE_ARRAY''"
| "encoding_name ESCAPED = ''ESCAPED''"

definition encoding_str :: "bytes_encoding \<Rightarrow> string" where
  "encoding_str e = replace_char CHR ''_'' CHR ''-'' (lower (encoding_name e))"

definition encoding_from_str :: "string \<Rightarrow> bytes_encoding res" where
  "encoding_from_str value =
     (let name = replace_char CHR ''-'' CHR ''_'' (upper value) in
      case find (\<lambda>e. encoding_name e = name) [BASE64, HEX, BYTE_ARRAY, ESCAPED] of
        None \<Rightarrow> Inl (KeyError name) | Some e \<Rightarrow> Inr e)"

text \<open>The message field of confluent-kafka: which part of a record is being read or written.\<close>

datatype message_field = NONE | KEY | VALUE

fun field_str :: "message_field \<Rightarrow> string" where
  "field_str NONE = ''none''"
| "field_str KEY = ''key''"
| "field_str VALUE = ''value''"

definition scoped_property :: "(string, string) pydict \<Rightarrow> string \<Rightarrow> message_field \<Rightarrow> string \<Rightarrow> string" where
  "scoped_property config property_name context dflt =
     (let scoped_name = field_str context @ ''.'' @ property_name in
      if context \<noteq> NONE \<and> din scoped_name config then the (dget config scoped_name)
      else dget_or config property_name dflt)"

definition encoding_from_config :: "(string, string) pydict \<Rightarrow> message_field \<Rightarrow> bytes_encoding res" where
  "encoding_from_config config context =
     encoding_from_str (scoped_property config ''encoding'' context (encoding_str BASE64))"

datatype schema_type = ST_AVRO | ST_JSON | ST_PROTOBUF

fun schema_type_value :: "schema_type \<Rightarrow> string" where
  "schema_type_value ST_AVRO = ''AVRO''"
| "schema_type_value ST_JSON = ''JSON''"
| "schema_type_value ST_PROTOBUF = ''PROTOBUF''"

text \<open>\<open>SchemaType(value)\<close>, a \<open>ValueError\<close> for any other value.\<close>

definition schema_type_of :: "string \<Rightarrow> schema_type option" where
  "schema_type_of s = find (\<lambda>t. schema_type_value t = s) [ST_AVRO, ST_JSON, ST_PROTOBUF]"

section \<open>Commands\<close>

record create_topic_command =
  ct_name :: string
  ct_partitions :: int
  ct_replicas :: "int option"
  ct_min_insync_replicas :: "int option"
  ct_cleanup_policy :: string
  ct_retention_ms :: int

record config_change =
  cc_name :: string
  cc_current :: string
  cc_value :: "string option"

definition cc_reset :: "config_change \<Rightarrow> bool" where
  "cc_reset c \<longleftrightarrow> cc_value c = None"

record update_topic_command =
  ut_partitions :: "int option"
  ut_configs :: "config_change list"

definition ut_changed :: "update_topic_command \<Rightarrow> bool" where
  "ut_changed c \<longleftrightarrow> ut_partitions c \<noteq> None \<or> ut_configs c \<noteq> []"

datatype offset_target = TARGET_EARLIEST | TARGET_LATEST | TARGET_TIMESTAMP | TARGET_OFFSET

record reset_offsets_command =
  ro_group :: string
  ro_topic :: string
  ro_partitions :: "int list"
  ro_target :: offset_target
  ro_value :: int

record record_filters =
  rf_key :: string
  rf_value :: string
  rf_partition :: "int option"
  rf_header :: string

definition filters_active :: "record_filters \<Rightarrow> bool" where
  "filters_active f \<longleftrightarrow> rf_key f \<noteq> [] \<or> rf_value f \<noteq> [] \<or> rf_partition f \<noteq> None \<or> rf_header f \<noteq> []"

definition EMPTY_RECORD_FILTERS :: record_filters where
  "EMPTY_RECORD_FILTERS = \<lparr>rf_key = [], rf_value = [], rf_partition = None, rf_header = []\<rparr>"

section \<open>Lemmas\<close>

instantiation format :: enum
begin

definition enum_format :: "format list" where
  "enum_format = deserialization_members"

definition enum_all_format :: "(format \<Rightarrow> bool) \<Rightarrow> bool" where
  "enum_all_format P = list_all P deserialization_members"

definition enum_ex_format :: "(format \<Rightarrow> bool) \<Rightarrow> bool" where
  "enum_ex_format P = list_ex P deserialization_members"

instance
proof
  show "UNIV = set (enum_class.enum :: format list)"
    by (auto simp: enum_format_def deserialization_members_def intro: format.exhaust)
  show "distinct (enum_class.enum :: format list)"
    by (simp add: enum_format_def deserialization_members_def)
  have all: "f \<in> set deserialization_members" for f
    by (cases f) (simp_all add: deserialization_members_def)
  show "enum_class.enum_all P \<longleftrightarrow> Ball UNIV P" for P :: "format \<Rightarrow> bool"
    using all by (auto simp: enum_all_format_def list_all_iff)
  show "enum_class.enum_ex P \<longleftrightarrow> Bex UNIV P" for P :: "format \<Rightarrow> bool"
    using all by (auto simp: enum_ex_format_def list_ex_iff)
qed

end

lemma lower_char_ascii: "65 \<le> code c \<Longrightarrow> code c \<le> 90 \<Longrightarrow> upper_char (lower_char c) = c"
  by (simp add: lower_char_def upper_char_def code_def of_char_of)

lemma upper_lower: "list_all (\<lambda>c. 65 \<le> code c \<and> code c \<le> 90) s \<Longrightarrow> upper (lower s) = s"
  by (induction s) (auto simp: upper_def lower_def lower_char_ascii)

lemma format_from_str_of_str: "format_from_str (format_str f) = Inr f"
proof -
  have "upper (format_str f) = format_name f"
    unfolding format_str_def by (rule upper_lower) (cases f; simp add: code_def)
  then show ?thesis
    by (cases f) (simp_all add: format_from_str_def deserialization_members_def)
qed

lemma members_complete:
  "set deserialization_members = UNIV" "set serialization_members = UNIV"
  by (auto simp: deserialization_members_def serialization_members_def intro: format.exhaust)

lemma encoding_from_str_of_str: "encoding_from_str (encoding_str e) = Inr e"
  by (cases e; simp only:; code_simp)

lemma encoding_strs [simp]:
  "encoding_str BASE64 = ''base64''" "encoding_str HEX = ''hex''"
  "encoding_str BYTE_ARRAY = ''byte-array''" "encoding_str ESCAPED = ''escaped''"
  by code_simp+

end
