(* ===== verification/Byte_Codecs.thy ===== *)
theory Byte_Codecs
  imports Complex_Main Configs
begin

text \<open>
  Bytes as text and text as bytes: the four byte encodings the consumer shows (\<open>models.py\<close>)
  and the producer reads back (\<open>BytesSerializer\<close>), the fixed-size integers and booleans of the
  primitive serializers and deserializers, and UTF-8 strings. A byte is an \<open>8 word\<close>. Record
  text that may hold any code point is a list of naturals (\<open>utext\<close>); the byte encodings only
  produce and accept ASCII, so their text is a \<open>string\<close>, whose characters above 127 stand for
  every non-ASCII character.
\<close>

type_synonym byte = "8 word"
type_synonym utext = "nat list"

section \<open>Dynamic values\<close>

text \<open>The Python values JSON, YAML, Avro and the deserializers produce. Floats are a
  parameter: the code never computes with their value here.\<close>

datatype pyfloat = Fin rat | Inf | NegInf | NaN

datatype pyval =
    PNone
  | PBool bool
  | PInt int
  | PFloat pyfloat
  | PStr string
  | PBytes "byte list"
  | PList "pyval list"
  | PDict "(pyval \<times> pyval) list"
  | POther string

section \<open>Byte encodings\<close>

definition byte_nat :: "byte \<Rightarrow> nat" where
  "byte_nat b = unat b"

definition ascii_char :: "byte \<Rightarrow> char" where
  "ascii_char b = char_of (byte_nat b)"

definition hex_digit :: "nat \<Rightarrow> char" where
  "hex_digit n = (if n < 10 then char_of (48 + n) else char_of (87 + n))"

definition hex2 :: "byte \<Rightarrow> string" where
  "hex2 b = [hex_digit (byte_nat b div 16), hex_digit (byte_nat b mod 16)]"

definition escaped_byte :: "byte \<Rightarrow> string" where
  "escaped_byte b =
     (if 32 \<le> byte_nat b \<and> byte_nat b \<le> 126 \<and> byte_nat b \<noteq> 92 then [ascii_char b]
      else if byte_nat b = 92 then [CHR 0x5C, CHR 0x5C]
      else CHR 0x5C # CHR ''x'' # hex2 b)"

definition escaped_bytes :: "byte list \<Rightarrow> string" where
  "escaped_bytes data = concat (map escaped_byte data)"

definition hex :: "byte list \<Rightarrow> string" where
  "hex data = concat (map hex2 data)"

text \<open>\<open>base64.b64encode\<close> with the standard alphabet.\<close>

definition b64_char :: "nat \<Rightarrow> char" where
  "b64_char n =
     (if n < 26 then char_of (65 + n) else if n < 52 then char_of (71 + n)
      else if n < 62 then char_of (n - 4) else if n = 62 then CHR ''+'' else CHR ''/'')"

fun b64encode :: "byte list \<Rightarrow> string" where
  "b64encode [] = []"
| "b64encode [a] = [b64_char (byte_nat a div 4), b64_char (byte_nat a mod 4 * 16), CHR ''='', CHR ''='']"
| "b64encode [a, b] =
     [b64_char (byte_nat a div 4), b64_char (byte_nat a mod 4 * 16 + byte_nat b div 16),
      b64_char (byte_nat b mod 16 * 4), CHR ''='']"
| "b64encode (a # b # c # bs) =
     [b64_char (byte_nat a div 4), b64_char (byte_nat a mod 4 * 16 + byte_nat b div 16),
      b64_char (byte_nat b mod 16 * 4 + byte_nat c div 64), b64_char (byte_nat c mod 64)]
     @ b64encode bs"

text \<open>What \<open>bytes_data\<close> returns: text, or the list of integers of the byte-array encoding.\<close>

definition bytes_data :: "byte list \<Rightarrow> bytes_encoding \<Rightarrow> pyval" where
  "bytes_data data enc =
     (case enc of
        BASE64 \<Rightarrow> PStr (b64encode data)
      | HEX \<Rightarrow> PStr (hex data)
      | BYTE_ARRAY \<Rightarrow> PList (map (\<lambda>b. PInt (int (byte_nat b))) data)
      | ESCAPED \<Rightarrow> PStr (escaped_bytes data))"

text \<open>\<open>str\<close> of a list of integers.\<close>

definition show_int_list :: "int list \<Rightarrow> string" where
  "show_int_list ns = ''['' @ join '', '' (map show_int ns) @ '']''"

text \<open>\<open>str(bytes_data(data, encoding))\<close>, the bytes branch of \<open>content_str\<close>.\<close>

definition bytes_str :: "byte list \<Rightarrow> bytes_encoding \<Rightarrow> string" where
  "bytes_str data enc =
     (case bytes_data data enc of
        PStr s \<Rightarrow> s
      | _ \<Rightarrow> show_int_list (map (int \<circ> byte_nat) data))"

section \<open>Reading the encodings back\<close>

definition hex_value :: "char \<Rightarrow> nat option" where
  "hex_value c =
     (if 48 \<le> code c \<and> code c \<le> 57 then Some (code c - 48)
      else if 97 \<le> code c \<and> code c \<le> 102 then Some (code c - 87)
      else if 65 \<le> code c \<and> code c \<le> 70 then Some (code c - 55) else None)"

definition byte_of :: "nat \<Rightarrow> byte" where
  "byte_of n = of_nat n"

text \<open>A match of the escape pattern at the start of the text, with the byte it stands for.\<close>

fun escape_match :: "string \<Rightarrow> (byte \<times> string) option" where
  "escape_match (b # c # cs) =
     (if b \<noteq> CHR 0x5C then None
      else if c = CHR 0x5C then Some (byte_of 92, cs)
      else if c = CHR ''x'' then
        (case cs of
           h # l # rest \<Rightarrow>
             (case (hex_value h, hex_value l) of
                (Some m, Some n) \<Rightarrow> Some (byte_of (16 * m + n), rest) | _ \<Rightarrow> None)
         | _ \<Rightarrow> None)
      else None)"
| "escape_match _ = None"

definition escaped_problem :: exn where
  "escaped_problem =
     SerializationError (''Escaped bytes accept printable ASCII, '' @ [CHR 0x5C, CHR 0x5C] @ '', and ''
       @ [CHR 0x5C] @ ''xhh escapes'')"

text \<open>\<open>_ascii\<close> of one character between the matches.\<close>

definition ascii_byte :: "char \<Rightarrow> byte res" where
  "ascii_byte c =
     (if c = CHR 0x5C \<or> \<not> (32 \<le> code c \<and> code c \<le> 126) then Inl escaped_problem
      else Inr (byte_of (code c)))"

lemma escape_match_shorter: "escape_match s = Some (b, rest) \<Longrightarrow> length rest < length s"
  by (induction s rule: escape_match.induct) (auto split: if_splits list.splits option.splits)

text \<open>The scan of \<open>finditer\<close> from left to right; all failures raise the same error.\<close>

function serialize_escaped :: "string \<Rightarrow> byte list res" where
  "serialize_escaped s =
     (case s of
        [] \<Rightarrow> Inr []
      | c # cs \<Rightarrow>
          (case escape_match s of
             Some (b, rest) \<Rightarrow> rbind (serialize_escaped rest) (\<lambda>bs. Inr (b # bs))
           | None \<Rightarrow> rbind (ascii_byte c) (\<lambda>b. rbind (serialize_escaped cs) (\<lambda>bs. Inr (b # bs)))))"
  by pat_completeness auto
termination
  by (relation "measure length") (auto dest: escape_match_shorter)

declare serialize_escaped.simps [simp del]

text \<open>\<open>bytes.fromhex\<close>: pairs of digits, ASCII white space between the pairs.\<close>

definition ascii_space :: "char \<Rightarrow> bool" where
  "ascii_space c \<longleftrightarrow> code c \<in> {9, 10, 11, 12, 13, 32}"

fun fromhex :: "string \<Rightarrow> byte list option" where
  "fromhex [] = Some []"
| "fromhex [c] = (if ascii_space c then Some [] else None)"
| "fromhex (c # d # cs) =
     (if ascii_space c then fromhex (d # cs)
      else (case (hex_value c, hex_value d) of
              (Some m, Some n) \<Rightarrow> map_option (\<lambda>bs. byte_of (16 * m + n) # bs) (fromhex cs)
            | _ \<Rightarrow> None))"

definition serialize_hex :: "string \<Rightarrow> byte list res" where
  "serialize_hex text =
     (case fromhex text of
        None \<Rightarrow> Inl (SerializationError ''Invalid hexadecimal bytes'') | Some bs \<Rightarrow> Inr bs)"

text \<open>
  \<open>base64.b64decode(\<dots>, validate=True)\<close>: the strict scan, with the position in the current group
  of four, the bits left over, and the padding seen so far.
\<close>

definition b64_value :: "char \<Rightarrow> nat option" where
  "b64_value c =
     (if 65 \<le> code c \<and> code c \<le> 90 then Some (code c - 65)
      else if 97 \<le> code c \<and> code c \<le> 122 then Some (code c - 71)
      else if 48 \<le> code c \<and> code c \<le> 57 then Some (code c + 4)
      else if c = CHR ''+'' then Some 62 else if c = CHR ''/'' then Some 63 else None)"

fun b64_scan :: "nat \<Rightarrow> nat \<Rightarrow> nat \<Rightarrow> bool \<Rightarrow> string \<Rightarrow> byte list option" where
  "b64_scan quad leftover pads padded [] = (if quad = 0 then Some [] else None)"
| "b64_scan quad leftover pads padded (c # cs) =
     (if c = CHR ''='' then
        (if 2 \<le> quad then
           (if 4 \<le> quad + Suc pads then (if cs = [] then Some [] else None)
            else b64_scan quad leftover (Suc pads) True cs)
         else b64_scan quad leftover pads True cs)
      else
        (case b64_value c of
           None \<Rightarrow> None
         | Some v \<Rightarrow>
             if padded then None
             else if quad = 0 then b64_scan 1 v 0 padded cs
             else if quad = 1 then
               map_option (\<lambda>bs. byte_of (leftover * 4 + v div 16) # bs) (b64_scan 2 (v mod 16) 0 padded cs)
             else if quad = 2 then
               map_option (\<lambda>bs. byte_of (leftover * 16 + v div 4) # bs) (b64_scan 3 (v mod 4) 0 padded cs)
             else map_option (\<lambda>bs. byte_of (leftover * 64 + v) # bs) (b64_scan 0 0 0 padded cs)))"

definition b64decode_strict :: "string \<Rightarrow> byte list option" where
  "b64decode_strict s = (if s \<noteq> [] \<and> hd s = CHR ''='' then None else b64_scan 0 0 0 False s)"

text \<open>
  \<open>b64decode\<close> first encodes its text as ASCII and raises a plain \<open>ValueError\<close> where it cannot;
  \<open>_base64\<close> catches only \<open>binascii.Error\<close>, a subclass of it, so that error passes through.
\<close>

definition serialize_base64 :: "string \<Rightarrow> byte list res" where
  "serialize_base64 text =
     (let s = filter (\<lambda>c. \<not> is_space c) text in
      if \<not> list_all (\<lambda>c. code c < 128) s
      then Inl (ValueError ''string argument should contain only ASCII characters'')
      else (case b64decode_strict s of
              None \<Rightarrow> Inl (SerializationError ''Invalid Base64'') | Some bs \<Rightarrow> Inr bs))"

text \<open>\<open>json.loads\<close> is a parameter; it returns \<open>None\<close> for a \<open>JSONDecodeError\<close>.\<close>

definition byte_of_pyval :: "pyval \<Rightarrow> byte option" where
  "byte_of_pyval v = (case v of PInt n \<Rightarrow> if 0 \<le> n \<and> n \<le> 255 then Some (of_int n) else None | _ \<Rightarrow> None)"

definition serialize_byte_array :: "(string \<Rightarrow> pyval option) \<Rightarrow> string \<Rightarrow> byte list res" where
  "serialize_byte_array loads text =
     (let problem = SerializationError ''Expected a JSON array of integers from 0 to 255'' in
      case (if strip text \<noteq> [] then loads text else Some (PList [])) of
        None \<Rightarrow> Inl problem
      | Some (PList vs) \<Rightarrow>
          if list_all (\<lambda>v. byte_of_pyval v \<noteq> None) vs then Inr (map (the \<circ> byte_of_pyval) vs)
          else Inl problem
      | Some _ \<Rightarrow> Inl problem)"

definition bytes_serialize :: "(string \<Rightarrow> pyval option) \<Rightarrow> bytes_encoding \<Rightarrow> string \<Rightarrow> byte list res" where
  "bytes_serialize loads enc text =
     (case enc of
        BASE64 \<Rightarrow> serialize_base64 text
      | HEX \<Rightarrow> serialize_hex text
      | BYTE_ARRAY \<Rightarrow> serialize_byte_array loads text
      | ESCAPED \<Rightarrow> serialize_escaped text)"

section \<open>Fixed-size integers and booleans\<close>

text \<open>\<open>Struct\<close> packs n big-endian bytes in two's complement and unpacks exactly n bytes.\<close>

fun pack_be :: "nat \<Rightarrow> int \<Rightarrow> byte list" where
  "pack_be 0 x = []"
| "pack_be (Suc n) x = of_int (x div 256 ^ n) # pack_be n x"

fun be_value :: "byte list \<Rightarrow> int" where
  "be_value [] = 0"
| "be_value (b # bs) = uint b * 256 ^ length bs + be_value bs"

definition to_signed :: "nat \<Rightarrow> int \<Rightarrow> int" where
  "to_signed bits u = (if u \<ge> 2 ^ (bits - 1) then u - 2 ^ bits else u)"

definition struct_unpack_int :: "nat \<Rightarrow> byte list \<Rightarrow> int res" where
  "struct_unpack_int n data =
     (if length data \<noteq> n then Inl StructError else Inr (to_signed (8 * n) (be_value data)))"

definition struct_unpack_bool :: "byte list \<Rightarrow> bool res" where
  "struct_unpack_bool data = (case data of [b] \<Rightarrow> Inr (b \<noteq> 0) | _ \<Rightarrow> Inl StructError)"

text \<open>\<open>StructDeserializer.deserialize\<close> turns the struct error into a \<open>DeserializationError\<close>.\<close>

definition struct_deserialize :: "(byte list \<Rightarrow> 'a res) \<Rightarrow> byte list \<Rightarrow> 'a res" where
  "struct_deserialize unpack data =
     (case unpack data of
        Inl StructError \<Rightarrow> Inl (DeserializationError ''struct'') | r \<Rightarrow> r)"

definition deserialize_integer :: "byte list \<Rightarrow> int res" where
  "deserialize_integer = struct_deserialize (struct_unpack_int 4)"

definition deserialize_long :: "byte list \<Rightarrow> int res" where
  "deserialize_long = struct_deserialize (struct_unpack_int 8)"

definition deserialize_boolean :: "byte list \<Rightarrow> bool res" where
  "deserialize_boolean = struct_deserialize struct_unpack_bool"

definition serialize_boolean :: "string \<Rightarrow> byte list res" where
  "serialize_boolean text =
     (let value = lower (strip text) in
      if value \<notin> {''true'', ''false''} then Inl (SerializationError ''Expected true or false'')
      else Inr [if value = ''true'' then 1 else 0])"

text \<open>\<open>IntegerSerializer\<close>: the struct size in bytes, the label its errors name, the width in bits.\<close>

definition serialize_integer :: "nat \<Rightarrow> string \<Rightarrow> nat \<Rightarrow> string \<Rightarrow> byte list res" where
  "serialize_integer n label bits text =
     (let minimum = - (2 ^ (bits - 1)); maximum = 2 ^ (bits - 1) - 1 in
      case parse_int (strip text) of
        None \<Rightarrow> Inl (SerializationError (''Expected '' @ label))
      | Some v \<Rightarrow>
          if \<not> (minimum \<le> v \<and> v \<le> maximum)
          then Inl (SerializationError (''Expected '' @ label @ '' between '' @ show_int minimum
                 @ '' and '' @ show_int maximum))
          else Inr (pack_be n v))"

section \<open>UTF-8\<close>

definition utf8_char :: "nat \<Rightarrow> byte list res" where
  "utf8_char c =
     (if c < 128 then Inr [of_nat c]
      else if c < 2048 then Inr [of_nat (192 + c div 64), of_nat (128 + c mod 64)]
      else if 55296 \<le> c \<and> c \<le> 57343 then Inl (ValueError ''surrogates not allowed'')
      else if c < 65536 then
        Inr [of_nat (224 + c div 4096), of_nat (128 + c div 64 mod 64), of_nat (128 + c mod 64)]
      else
        Inr [of_nat (240 + c div 262144), of_nat (128 + c div 4096 mod 64),
             of_nat (128 + c div 64 mod 64), of_nat (128 + c mod 64)])"

definition utf8_encode :: "utext \<Rightarrow> byte list res" where
  "utf8_encode t = rbind (map_res utf8_char t) (\<lambda>bss. Inr (concat bss))"

definition continuation :: "byte \<Rightarrow> nat option" where
  "continuation b = (if 128 \<le> byte_nat b \<and> byte_nat b < 192 then Some (byte_nat b - 128) else None)"

text \<open>One strictly decoded code point and the bytes after it: no overlong form, no surrogate.\<close>

definition utf8_step :: "byte list \<Rightarrow> (nat \<times> byte list) option" where
  "utf8_step bs =
     (case bs of
        [] \<Rightarrow> None
      | b # r \<Rightarrow>
          (let n = byte_nat b in
           if n < 128 then Some (n, r)
           else if 194 \<le> n \<and> n < 224 then
             (case r of
                b1 # r1 \<Rightarrow> map_option (\<lambda>x. ((n - 192) * 64 + x, r1)) (continuation b1)
              | _ \<Rightarrow> None)
           else if 224 \<le> n \<and> n < 240 then
             (case r of
                b1 # b2 # r2 \<Rightarrow>
                  (case (continuation b1, continuation b2) of
                     (Some x, Some y) \<Rightarrow>
                       (let c = (n - 224) * 4096 + x * 64 + y in
                        if c < 2048 \<or> 55296 \<le> c \<and> c \<le> 57343 then None else Some (c, r2))
                   | _ \<Rightarrow> None)
              | _ \<Rightarrow> None)
           else if 240 \<le> n \<and> n < 245 then
             (case r of
                b1 # b2 # b3 # r3 \<Rightarrow>
                  (case (continuation b1, continuation b2, continuation b3) of
                     (Some x, Some y, Some z) \<Rightarrow>
                       (let c = (n - 240) * 262144 + x * 4096 + y * 64 + z in
                        if c < 65536 \<or> 1114111 < c then None else Some (c, r3))
                   | _ \<Rightarrow> None)
              | _ \<Rightarrow> None)
           else None))"

lemma utf8_step_shorter: "utf8_step bs = Some (c, r) \<Longrightarrow> length r < length bs"
  by (auto simp: utf8_step_def Let_def split: list.splits option.splits if_splits)

function utf8_decode :: "byte list \<Rightarrow> utext res" where
  "utf8_decode bs =
     (if bs = [] then Inr []
      else (case utf8_step bs of
              None \<Rightarrow> Inl UnicodeDecodeError
            | Some (c, r) \<Rightarrow> rbind (utf8_decode r) (\<lambda>t. Inr (c # t))))"
  by pat_completeness auto
termination
  by (relation "measure length") (auto dest: utf8_step_shorter)

declare utf8_decode.simps [simp del]

text \<open>\<open>StringSerializer.serialize\<close> and \<open>StringDeserializer.deserialize\<close>.\<close>

definition serialize_string :: "utext \<Rightarrow> byte list res" where
  "serialize_string = utf8_encode"

definition deserialize_string :: "byte list \<Rightarrow> utext res" where
  "deserialize_string = utf8_decode"

section \<open>Lemmas\<close>

lemma byte_nat_less [simp]: "byte_nat b < 256"
  using unsigned_less[of b] by (simp add: byte_nat_def)

lemma byte_of_nat [simp]: "byte_of (byte_nat b) = b"
  by (simp add: byte_of_def byte_nat_def)

lemma byte_of_split: "m < 16 \<Longrightarrow> byte_of (16 * (byte_nat b div 16) + byte_nat b mod 16) = b"
  by (simp only: mult_div_mod_eq byte_of_nat)

lemma code_ascii_char [simp]: "code (ascii_char b) = byte_nat b"
  by (simp add: ascii_char_def)

lemma code_hex_digit: "n < 16 \<Longrightarrow> code (hex_digit n) = (if n < 10 then 48 + n else 87 + n)"
  by (simp add: hex_digit_def)

lemma hex_value_digit [simp]: "n < 16 \<Longrightarrow> hex_value (hex_digit n) = Some n"
  by (simp add: hex_value_def code_hex_digit)

lemma byte_nat_div16 [simp]: "byte_nat b div 16 < 16"
  using byte_nat_less[of b] by linarith

lemma hex_digit_not_space: "n < 16 \<Longrightarrow> \<not> ascii_space (hex_digit n)"
  by (auto simp: ascii_space_def code_hex_digit)

lemma fromhex_hex: "fromhex (hex data) = Some data"
  by (induction data) (simp_all add: hex_def hex2_def hex_digit_not_space byte_of_split)

lemma escape_match_other: "c \<noteq> CHR 0x5C \<Longrightarrow> escape_match (c # cs) = None"
  by (cases cs) auto

lemma escape_match_escape:
  "escape_match (CHR 0x5C # CHR 0x5C # cs) = Some (byte_of 92, cs)"
  "escape_match (CHR 0x5C # CHR ''x'' # hex2 b @ cs) = Some (b, cs)"
  by (simp_all add: hex2_def byte_of_split)

lemma serialize_escaped_match:
  "escape_match s = Some (b, rest) \<Longrightarrow>
     serialize_escaped s = rbind (serialize_escaped rest) (\<lambda>bs. Inr (b # bs))"
  by (subst serialize_escaped.simps) (auto split: list.split)

lemma serialize_escaped_plain:
  "escape_match (c # cs) = None \<Longrightarrow>
     serialize_escaped (c # cs) =
       rbind (ascii_byte c) (\<lambda>b. rbind (serialize_escaped cs) (\<lambda>bs. Inr (b # bs)))"
  by (subst serialize_escaped.simps) simp

lemma serialize_escaped_byte:
  "serialize_escaped (escaped_byte b @ s) = rbind (serialize_escaped s) (\<lambda>bs. Inr (b # bs))"
proof -
  consider (plain) "32 \<le> byte_nat b" "byte_nat b \<le> 126" "byte_nat b \<noteq> 92"
    | (slash) "byte_nat b = 92" | (hex) "\<not> (32 \<le> byte_nat b \<and> byte_nat b \<le> 126)"
    by blast
  then show ?thesis
  proof cases
    case plain
    have "code CHR 0x5C = 92" by (simp add: code_def)
    then have "ascii_char b \<noteq> CHR 0x5C" using plain(3) by (metis code_ascii_char)
    then show ?thesis
      using plain by (simp add: escaped_byte_def serialize_escaped_plain escape_match_other ascii_byte_def)
  next
    case slash
    moreover from slash have "byte_of 92 = b" using byte_of_nat[of b] by simp
    ultimately show ?thesis
      using serialize_escaped_match[OF escape_match_escape(1)] by (simp add: escaped_byte_def)
  next
    case hex
    then have "byte_nat b \<noteq> 92" by auto
    then show ?thesis
      using hex serialize_escaped_match[OF escape_match_escape(2)] by (auto simp: escaped_byte_def)
  qed
qed

lemma serialize_escaped_escaped: "serialize_escaped (escaped_bytes data) = Inr data"
proof (induction data)
  case Nil
  show ?case by (simp add: escaped_bytes_def serialize_escaped.simps)
next
  case (Cons b data)
  then show ?case by (simp add: escaped_bytes_def serialize_escaped_byte)
qed

subsection \<open>Base64\<close>

lemma code_b64_char:
  "n < 64 \<Longrightarrow> code (b64_char n) =
     (if n < 26 then 65 + n else if n < 52 then 71 + n else if n < 62 then n - 4
      else if n = 62 then 43 else 47)"
  by (simp add: b64_char_def code_def of_char_of)

lemma b64_char_facts [simp]:
  assumes "n < 64"
  shows "b64_value (b64_char n) = Some n" and "b64_char n \<noteq> CHR ''=''"
    and "\<not> is_space (b64_char n)" and "code (b64_char n) < 128"
proof -
  note c = code_b64_char[OF assms]
  show "b64_value (b64_char n) = Some n"
  proof (cases "n < 62")
    case True
    then show ?thesis using assms c by (auto simp: b64_value_def)
  next
    case False
    then consider "n = 62" | "n = 63" using assms by linarith
    then show ?thesis by cases (simp_all add: b64_char_def b64_value_def code_def)
  qed
  have "code CHR ''='' = 61" by (simp add: code_def)
  moreover have "code (b64_char n) \<noteq> 61" unfolding c using assms by (simp; linarith)
  ultimately have "code (b64_char n) \<noteq> code CHR ''=''" by simp
  then show "b64_char n \<noteq> CHR ''=''" by auto
  show "\<not> is_space (b64_char n)" using assms c by (auto simp: is_space_def)
  show "code (b64_char n) < 128" using assms c by auto
qed

lemma sextet_bounds [simp]:
  "byte_nat a div 4 < 64" "byte_nat a mod 4 * 16 < 64"
  "byte_nat a mod 4 * 16 + byte_nat b div 16 < 64" "byte_nat b mod 16 * 4 < 64"
  "byte_nat b mod 16 * 4 + byte_nat c div 64 < 64" "byte_nat c mod 64 < 64"
  using byte_nat_less[of a] byte_nat_less[of b] byte_nat_less[of c] by linarith+

lemma sextet_bytes:
  "byte_nat a div 4 * 4 + (byte_nat a mod 4 * 16 + byte_nat b div 16) div 16 = byte_nat a"
  "byte_nat a div 4 * 4 + byte_nat a mod 4 * 16 div 16 = byte_nat a"
  "(byte_nat a mod 4 * 16 + byte_nat b div 16) mod 16 * 16 + (byte_nat b mod 16 * 4 + byte_nat c div 64) div 4
     = byte_nat b"
  "(byte_nat a mod 4 * 16 + byte_nat b div 16) mod 16 * 16 + byte_nat b mod 16 * 4 div 4 = byte_nat b"
  "(byte_nat b mod 16 * 4 + byte_nat c div 64) mod 4 * 64 + byte_nat c mod 64 = byte_nat c"
proof -
  have pack: "y < k \<Longrightarrow> (x * k + y) div k = x" "y < k \<Longrightarrow> (x * k + y) mod k = y" for x y k :: nat
    by simp_all
  have b: "byte_nat b div 16 < 16" and c: "byte_nat c div 64 < 4"
    using byte_nat_less[of b] byte_nat_less[of c] by linarith+
  show "byte_nat a div 4 * 4 + (byte_nat a mod 4 * 16 + byte_nat b div 16) div 16 = byte_nat a"
    unfolding pack(1)[OF b] by simp
  show "byte_nat a div 4 * 4 + byte_nat a mod 4 * 16 div 16 = byte_nat a" by simp
  show "(byte_nat a mod 4 * 16 + byte_nat b div 16) mod 16 * 16
      + (byte_nat b mod 16 * 4 + byte_nat c div 64) div 4 = byte_nat b"
    unfolding pack(1)[OF c] pack(2)[OF b] by simp
  show "(byte_nat a mod 4 * 16 + byte_nat b div 16) mod 16 * 16 + byte_nat b mod 16 * 4 div 4 = byte_nat b"
    unfolding pack(2)[OF b] by simp
  show "(byte_nat b mod 16 * 4 + byte_nat c div 64) mod 4 * 64 + byte_nat c mod 64 = byte_nat c"
    unfolding pack(2)[OF c] by simp
qed

lemma b64_scan_group:
  assumes "s0 < 64" "s1 < 64" "s2 < 64" "s3 < 64"
  shows "b64_scan 0 l pads False (b64_char s0 # b64_char s1 # b64_char s2 # b64_char s3 # cs) =
      map_option (\<lambda>bs. byte_of (s0 * 4 + s1 div 16) # byte_of (s1 mod 16 * 16 + s2 div 4)
        # byte_of (s2 mod 4 * 64 + s3) # bs) (b64_scan 0 0 0 False cs)"
    and "b64_scan 0 l pads False [b64_char s0, b64_char s1, b64_char s2, CHR ''=''] =
      Some [byte_of (s0 * 4 + s1 div 16), byte_of (s1 mod 16 * 16 + s2 div 4)]"
    and "b64_scan 0 l pads False [b64_char s0, b64_char s1, CHR ''='', CHR ''=''] =
      Some [byte_of (s0 * 4 + s1 div 16)]"
  using assms by (simp_all add: option.map_comp comp_def)

lemma b64_scan_encode: "b64_scan 0 l pads False (b64encode data) = Some data"
proof (induction data arbitrary: l pads rule: b64encode.induct)
  case 1
  show ?case by simp
next
  case (2 a)
  show ?case
    unfolding b64encode.simps b64_scan_group(3)[OF sextet_bounds(1,2,2,2)] sextet_bytes byte_of_nat ..
next
  case (3 a b)
  show ?case
    unfolding b64encode.simps b64_scan_group(2)[OF sextet_bounds(1,3,4,4)] sextet_bytes byte_of_nat ..
next
  case (4 a b c bs)
  show ?case
    unfolding b64encode.simps append_Cons append_Nil b64_scan_group(1)[OF sextet_bounds(1,3,5,6)]
      sextet_bytes byte_of_nat 4 by simp
qed

lemma pad_char [simp]: "\<not> is_space CHR ''=''" "code CHR ''='' < 128"
  by (simp_all add: is_space_def code_def)

lemma b64encode_chars: "c \<in> set (b64encode data) \<Longrightarrow> \<not> is_space c \<and> code c < 128"
  by (induction data rule: b64encode.induct) auto

lemma serialize_base64_encode: "serialize_base64 (b64encode data) = Inr data"
proof -
  have "filter (\<lambda>c. \<not> is_space c) (b64encode data) = b64encode data"
    by (simp add: filter_id_conv b64encode_chars)
  moreover have "b64encode data \<noteq> [] \<Longrightarrow> hd (b64encode data) \<noteq> CHR ''=''"
    by (cases data rule: b64encode.cases) simp_all
  ultimately show ?thesis
    using b64_scan_encode[of 0 0 data]
    by (auto simp: serialize_base64_def b64decode_strict_def Let_def list_all_iff b64encode_chars)
qed

subsection \<open>Byte arrays\<close>

lemma show_int_list_nonblank: "strip (show_int_list ns) \<noteq> []"
proof -
  have h: "\<not> is_space CHR ''[''" "\<not> is_space CHR '']''" by (simp_all add: is_space_def code_def)
  show ?thesis
    by (subst strip_no_space_ends) (simp_all add: show_int_list_def h)
qed

lemma byte_of_pyval_nat [simp]: "byte_of_pyval (PInt (int (byte_nat b))) = Some b"
proof -
  have "int (byte_nat b) \<le> 255" using byte_nat_less[of b] by linarith
  moreover have "of_nat (byte_nat b) = b" by (simp add: byte_nat_def)
  ultimately show ?thesis by (simp add: byte_of_pyval_def)
qed

lemma serialize_byte_array_shown:
  assumes "loads (show_int_list (map (int \<circ> byte_nat) data)) = Some (PList (map (PInt \<circ> (int \<circ> byte_nat)) data))"
  shows "serialize_byte_array loads (show_int_list (map (int \<circ> byte_nat) data)) = Inr data"
  using assms by (simp add: serialize_byte_array_def show_int_list_nonblank list_all_iff comp_def)

subsection \<open>Integers\<close>

lemma length_pack_be [simp]: "length (pack_be n x) = n"
  by (induction n) auto

lemma uint_byte_of_int: "uint (of_int x :: byte) = x mod 256"
  by (simp add: unsigned_of_int take_bit_eq_mod)

lemma be_value_pack: "be_value (pack_be n x) = x mod 256 ^ n"
proof (induction n)
  case (Suc n)
  have "x mod (256 ^ n * 256) = 256 ^ n * (x div 256 ^ n mod 256) + x mod 256 ^ n"
    by (rule zmod_zmult2_eq) simp
  then show ?case using Suc by (simp add: uint_byte_of_int mult.commute)
qed simp

lemma to_signed_mod:
  assumes "0 < bits" and "- (2 ^ (bits - 1)) \<le> x" and "x < 2 ^ (bits - 1)"
  shows "to_signed bits (x mod 2 ^ bits) = x"
proof -
  have p: "(2::int) ^ bits = 2 * 2 ^ (bits - 1)"
    using assms(1) by (simp add: power_eq_if)
  show ?thesis
  proof (cases "x < 0")
    case True
    then have "x mod 2 ^ bits = x + 2 ^ bits"
      using assms p by (intro int_mod_pos_eq[where q = "-1"]) auto
    then show ?thesis using assms p True by (simp add: to_signed_def)
  next
    case False
    then have "x mod 2 ^ bits = x" using assms p by (intro mod_pos_pos_trivial) auto
    then show ?thesis using assms False by (simp add: to_signed_def)
  qed
qed

lemma struct_unpack_pack:
  assumes "0 < n" and "- (2 ^ (8 * n - 1)) \<le> x" and "x < 2 ^ (8 * n - 1)"
  shows "struct_unpack_int n (pack_be n x) = Inr x"
proof -
  have "(256::int) ^ n = 2 ^ (8 * n)" by (simp add: power_mult)
  then show ?thesis
    using to_signed_mod[of "8 * n" x] assms by (simp add: struct_unpack_int_def be_value_pack)
qed

lemma strip_show_int [simp]: "strip (show_int v) = show_int v"
proof -
  have d: "\<not> is_space (hd (show_nat n))" "\<not> is_space (last (show_nat n))" for n
    using show_nat_decimal[of n] by (auto simp: list_all_iff dest: decimal_not_space)
  have "\<not> is_space CHR ''-''" by (simp add: is_space_def code_def)
  then show ?thesis by (intro strip_no_space_ends) (simp_all add: show_int_def d)
qed

lemma serialize_integer_shown:
  "serialize_integer n label bits (show_int v) =
     (if - (2 ^ (bits - 1)) \<le> v \<and> v < 2 ^ (bits - 1) then Inr (pack_be n v)
      else Inl (SerializationError (''Expected '' @ label @ '' between '' @ show_int (- (2 ^ (bits - 1)))
             @ '' and '' @ show_int (2 ^ (bits - 1) - 1))))"
  by (auto simp: serialize_integer_def Let_def)

lemma struct_deserialize_packed:
  assumes "0 < n" and "- (2 ^ (8 * n - 1)) \<le> x" and "x < 2 ^ (8 * n - 1)"
  shows "struct_deserialize (struct_unpack_int n) (pack_be n x) = Inr x"
  using struct_unpack_pack[OF assms] by (simp add: struct_deserialize_def)

subsection \<open>UTF-8\<close>

lemma byte_nat_of_nat [simp]: "k < 256 \<Longrightarrow> byte_nat (of_nat k) = k"
  by (simp add: byte_nat_def unsigned_of_nat take_bit_eq_mod)

lemma continuation_of_nat [simp]: "x < 64 \<Longrightarrow> continuation (of_nat (128 + x)) = Some x"
  by (simp add: continuation_def del: of_nat_add)

lemma sextets3: "(c::nat) div 4096 * 4096 + c div 64 mod 64 * 64 + c mod 64 = c"
proof -
  have "c div 4096 * 64 + c div 64 mod 64 = c div 64"
    using div_mult_mod_eq[of "c div 64" 64] by (simp add: div_mult2_eq[symmetric])
  moreover have "c div 64 * 64 + c mod 64 = c" by simp
  ultimately show ?thesis by linarith
qed

lemma sextets4: "(c::nat) div 262144 * 262144 + c div 4096 mod 64 * 4096 + c div 64 mod 64 * 64 + c mod 64 = c"
proof -
  have "c div 262144 * 64 + c div 4096 mod 64 = c div 4096"
    using div_mult_mod_eq[of "c div 4096" 64] by (simp add: div_mult2_eq[symmetric])
  then show ?thesis using sextets3[of c] by linarith
qed

lemma utf8_step_lengths:
  "n < 128 \<Longrightarrow> utf8_step (of_nat n # r) = Some (n, r)"
  "194 \<le> n \<Longrightarrow> n < 224 \<Longrightarrow> x < 64 \<Longrightarrow>
     utf8_step (of_nat n # of_nat (128 + x) # r) = Some ((n - 192) * 64 + x, r)"
  "224 \<le> n \<Longrightarrow> n < 240 \<Longrightarrow> x < 64 \<Longrightarrow> y < 64 \<Longrightarrow> c = (n - 224) * 4096 + x * 64 + y \<Longrightarrow>
     2048 \<le> c \<Longrightarrow> \<not> (55296 \<le> c \<and> c \<le> 57343) \<Longrightarrow>
     utf8_step (of_nat n # of_nat (128 + x) # of_nat (128 + y) # r) = Some (c, r)"
  "240 \<le> n \<Longrightarrow> n < 245 \<Longrightarrow> x < 64 \<Longrightarrow> y < 64 \<Longrightarrow> z < 64 \<Longrightarrow>
     c = (n - 240) * 262144 + x * 4096 + y * 64 + z \<Longrightarrow> 65536 \<le> c \<Longrightarrow> c \<le> 1114111 \<Longrightarrow>
     utf8_step (of_nat n # of_nat (128 + x) # of_nat (128 + y) # of_nat (128 + z) # r) = Some (c, r)"
  by (simp_all add: utf8_step_def Let_def del: of_nat_add)

lemma utf8_step_encoded:
  assumes "utf8_char c = Inr bs" and "c \<le> 1114111"
  shows "utf8_step (bs @ r) = Some (c, r)"
proof -
  have m: "c mod 64 < 64" "c div 64 mod 64 < 64" "c div 4096 mod 64 < 64" by simp_all
  consider "c < 128" | "128 \<le> c" "c < 2048" | "2048 \<le> c" "c < 65536" | "65536 \<le> c" by linarith
  then show ?thesis
  proof cases
    case 1
    then show ?thesis using assms utf8_step_lengths(1)[of c r] by (auto simp: utf8_char_def)
  next
    case 2
    then have bs: "bs = [of_nat (192 + c div 64), of_nat (128 + c mod 64)]"
      using assms(1) by (simp add: utf8_char_def)
    from 2 have "194 \<le> 192 + c div 64" "192 + c div 64 < 224" by linarith+
    from utf8_step_lengths(2)[OF this m(1), of r] show ?thesis
      unfolding bs append_Cons append_Nil by simp
  next
    case 3
    then have n: "224 \<le> 224 + c div 4096" "224 + c div 4096 < 240" by linarith+
    have c: "c = (224 + c div 4096 - 224) * 4096 + c div 64 mod 64 * 64 + c mod 64"
      using sextets3[of c] by simp
    have s: "\<not> (55296 \<le> c \<and> c \<le> 57343)" using assms(1) 3 by (auto simp: utf8_char_def)
    have bs: "bs = [of_nat (224 + c div 4096), of_nat (128 + c div 64 mod 64), of_nat (128 + c mod 64)]"
      using assms(1) 3 s unfolding utf8_char_def by simp
    show ?thesis
      unfolding bs append_Cons append_Nil by (rule utf8_step_lengths(3)[OF n m(2,1) c 3(1) s])
  next
    case 4
    then have n: "240 \<le> 240 + c div 262144" "240 + c div 262144 < 245" using assms(2) by linarith+
    have c: "c = (240 + c div 262144 - 240) * 262144 + c div 4096 mod 64 * 4096 + c div 64 mod 64 * 64 + c mod 64"
      using sextets4[of c] by simp
    have bs: "bs = [of_nat (240 + c div 262144), of_nat (128 + c div 4096 mod 64),
        of_nat (128 + c div 64 mod 64), of_nat (128 + c mod 64)]"
      using assms(1) 4 unfolding utf8_char_def by simp
    show ?thesis
      unfolding bs append_Cons append_Nil by (rule utf8_step_lengths(4)[OF n m(3,2,1) c 4 assms(2)])
  qed
qed

lemma utf8_char_nonempty: "utf8_char c = Inr bs \<Longrightarrow> bs \<noteq> []"
  by (auto simp: utf8_char_def split: if_splits)

definition valid_text :: "utext \<Rightarrow> bool" where
  "valid_text t \<longleftrightarrow> list_all (\<lambda>c. c \<le> 1114111) t"

lemma utf8_decode_encode: "utf8_encode t = Inr bs \<Longrightarrow> valid_text t \<Longrightarrow> utf8_decode bs = Inr t"
proof (induction t arbitrary: bs)
  case Nil
  then show ?case by (simp add: utf8_encode_def utf8_decode.simps)
next
  case (Cons c t)
  then obtain b1 b2 where b: "utf8_char c = Inr b1" "utf8_encode t = Inr b2" "bs = b1 @ b2"
    by (auto simp: utf8_encode_def res_simps)
  have "utf8_step (b1 @ b2) = Some (c, b2)"
    using b Cons.prems(2) by (intro utf8_step_encoded) (simp_all add: valid_text_def)
  then show ?case
    using Cons.IH[OF b(2)] Cons.prems(2) b utf8_char_nonempty[OF b(1)]
    by (subst utf8_decode.simps) (simp add: valid_text_def)
qed

lemma serialize_only_known_errors:
  "serialize_hex text = Inl e \<Longrightarrow> \<exists>m. e = SerializationError m"
  "serialize_byte_array loads text = Inl e \<Longrightarrow> \<exists>m. e = SerializationError m"
  by (auto simp: serialize_hex_def serialize_byte_array_def Let_def
      split: option.splits pyval.splits if_splits)

lemma serialize_escaped_error: "serialize_escaped s = Inl e \<Longrightarrow> e = escaped_problem"
proof (induction s arbitrary: e rule: serialize_escaped.induct)
  case (1 s)
  show ?case
  proof (cases s)
    case Nil
    then show ?thesis using 1(3) by (simp add: serialize_escaped.simps)
  next
    case (Cons c cs)
    then show ?thesis
      using 1 by (subst (asm) serialize_escaped.simps)
        (auto simp: res_simps ascii_byte_def split: option.splits if_splits)
  qed
qed

lemma bytes_serialize_shown:
  "enc \<noteq> BYTE_ARRAY \<Longrightarrow> bytes_serialize loads enc (bytes_str data enc) = Inr data"
  by (cases enc)
    (simp_all add: bytes_serialize_def bytes_str_def bytes_data_def serialize_base64_encode
      serialize_hex_def fromhex_hex serialize_escaped_escaped)

section \<open>Properties\<close>

text \<open>C1: in each of the four byte encodings the producer reads back exactly the bytes the consumer
  showed, for every byte string (for byte arrays, when the JSON reader reads a printed list of
  integers as that list).\<close>

theorem bytes_text_roundtrip:
  assumes "enc = BYTE_ARRAY \<longrightarrow>
    loads (show_int_list (map (int \<circ> byte_nat) data)) = Some (PList (map (PInt \<circ> (int \<circ> byte_nat)) data))"
  shows "bytes_serialize loads enc (bytes_str data enc) = Inr data"
  using assms
proof (cases "enc = BYTE_ARRAY")
  case True
  then show ?thesis
    using assms by (simp add: bytes_serialize_def bytes_str_def bytes_data_def serialize_byte_array_shown)
qed (simp add: bytes_serialize_shown)

theorem bytes_text_roundtrip_witness:
  "bytes_serialize (\<lambda>s. if s = ''[7, 255]'' then Some (PList [PInt 7, PInt 255]) else None) BYTE_ARRAY
     (bytes_str [7, 255] BYTE_ARRAY) = Inr [7, 255]"
proof (rule bytes_text_roundtrip, rule impI)
  have "show_int_list (map (int \<circ> byte_nat) [7, 255]) = ''[7, 255]''"
    by (simp add: show_int_list_def show_int_def byte_nat_def show_nat.simps)
      (code_simp)
  then show "(if show_int_list (map (int \<circ> byte_nat) [7, 255]) = ''[7, 255]'' then Some (PList [PInt 7, PInt 255])
      else None) = Some (PList (map (PInt \<circ> (int \<circ> byte_nat)) [7, 255]))"
    by (simp add: byte_nat_def)
qed

text \<open>Reading bytes from text fails with a \<open>SerializationError\<close>, the only error the composer
  catches, in every case but one: Base64 text with a character that is neither ASCII nor white
  space raises a plain \<open>ValueError\<close> that no caller handles.\<close>

theorem bytes_serialize_uncaught:
  "(\<exists>e. bytes_serialize loads enc text = Inl e \<and> (\<forall>m. e \<noteq> SerializationError m)) \<longleftrightarrow>
     enc = BASE64 \<and> (\<exists>c. c \<in> set text \<and> 128 \<le> code c \<and> \<not> is_space c)"
proof -
  have b64: "(\<exists>e. serialize_base64 text = Inl e \<and> (\<forall>m. e \<noteq> SerializationError m)) \<longleftrightarrow>
      (\<exists>c. c \<in> set text \<and> 128 \<le> code c \<and> \<not> is_space c)"
    by (auto simp: serialize_base64_def Let_def list_all_iff not_less split: option.splits)
  show ?thesis
    using b64
    by (cases enc) (auto simp: bytes_serialize_def escaped_problem_def
        dest!: serialize_only_known_errors serialize_escaped_error)
qed

text \<open>An integer printed in decimal and serialized as a 32-bit or 64-bit value is read back
  unchanged by the matching deserializer when it is in the signed range, and refused with the
  range in the message when it is not.\<close>

theorem integer_wire_roundtrip:
  "rbind (serialize_integer 4 lbl 32 (show_int v)) deserialize_integer =
     (if - (2 ^ 31) \<le> v \<and> v < 2 ^ 31 then Inr v
      else Inl (SerializationError (''Expected '' @ lbl @ '' between '' @ show_int (- (2 ^ 31))
             @ '' and '' @ show_int (2 ^ 31 - 1)))) \<and>
   rbind (serialize_integer 8 lbl 64 (show_int v)) deserialize_long =
     (if - (2 ^ 63) \<le> v \<and> v < 2 ^ 63 then Inr v
      else Inl (SerializationError (''Expected '' @ lbl @ '' between '' @ show_int (- (2 ^ 63))
             @ '' and '' @ show_int (2 ^ 63 - 1))))"
  using struct_deserialize_packed[of 4 v] struct_deserialize_packed[of 8 v]
  by (simp add: serialize_integer_shown deserialize_integer_def deserialize_long_def)

text \<open>A string of Unicode code points encoded as UTF-8 is decoded to the same code points.\<close>

theorem string_wire_roundtrip:
  assumes "serialize_string t = Inr bs" and "valid_text t"
  shows "deserialize_string bs = Inr t"
  using utf8_decode_encode assms by (simp add: serialize_string_def deserialize_string_def)

theorem string_wire_roundtrip_witness:
  "deserialize_string [99, 195, 169, 226, 130, 172, 240, 159, 152, 128] = Inr [99, 233, 8364, 128512]"
proof (rule string_wire_roundtrip)
  show "serialize_string [99, 233, 8364, 128512] = Inr [99, 195, 169, 226, 130, 172, 240, 159, 152, 128]"
    by (simp add: serialize_string_def utf8_encode_def utf8_char_def)
  show "valid_text [99, 233, 8364, 128512]" by (simp add: valid_text_def)
qed

end
