(* ===== verification/Models.thy ===== *)
theory Models
  imports Byte_Codecs
begin

text \<open>
  The data model of \<open>models.py\<close> and of \<open>deserializers/base.py\<close>: nodes, groups, partitions and
  topics with their counts, partition selections, and records and headers, whose content is
  deserialized once and remembered. A deserializer is a handle of type \<open>'i\<close>; calling it
  (\<open>call\<close>) reads and changes a state of type \<open>'s\<close>, so that the caches of the deserializers and
  the number of calls are visible to the lemmas. Two texts that come from the interpreter are
  parameters: \<open>show_val\<close> is \<open>str\<close> of a decoded value and \<open>show_exn\<close> is \<open>str\<close> of an exception.
\<close>

section \<open>Cluster entities\<close>

record node =
  nd_id :: int
  nd_host :: string
  nd_port :: int
  nd_rack :: "string option"

definition node_str :: "node \<Rightarrow> string" where
  "node_str n = nd_host n @ '':'' @ show_int (nd_port n) @ ''/'' @ show_int (nd_id n)"

definition node_eq :: "node \<Rightarrow> node \<Rightarrow> bool" where
  "node_eq a b \<longleftrightarrow> nd_id a = nd_id b"

record group_member =
  gm_id :: string
  gm_client_id :: string
  gm_group :: string
  gm_host :: string
  gm_instance_id :: "string option"
  gm_assignment :: "int list"

record group_partition =
  gp_id :: int
  gp_topic :: string
  gp_group :: string
  gp_offset :: int
  gp_low :: int
  gp_high :: int

definition gp_lag_count :: "group_partition \<Rightarrow> int" where
  "gp_lag_count p =
     (if gp_high p \<le> 0 then 0
      else if gp_offset p < 0 then max 0 (gp_high p - gp_low p)
      else max 0 (gp_high p - gp_offset p))"

record group =
  g_id :: string
  g_coordinator :: "node option"
  g_state :: string
  g_partition_assignor :: string
  g_members :: "group_member list"
  g_partitions :: "group_partition list"

definition g_lag_count :: "group \<Rightarrow> int" where
  "g_lag_count g = sum_list (map gp_lag_count (g_partitions g))"

definition g_members_count :: "group \<Rightarrow> nat" where
  "g_members_count g = length (g_members g)"

definition g_partitions_count :: "group \<Rightarrow> nat" where
  "g_partitions_count g = length (g_partitions g)"

record partition_info =
  p_id :: int
  p_leader :: int
  p_replicas :: "int list"
  p_isrs :: "int list"
  p_low :: int
  p_high :: int
  p_topic :: string

definition p_records_count :: "partition_info \<Rightarrow> int" where
  "p_records_count p = max 0 (p_high p - p_low p)"

datatype metric_state = M_LOADING | M_READY | M_UNAVAILABLE

record topic =
  t_name :: string
  t_partitions :: "partition_info list"
  t_groups :: "group list"
  t_records_state :: metric_state
  t_groups_state :: metric_state

definition t_partitions_count :: "topic \<Rightarrow> nat" where
  "t_partitions_count t = length (t_partitions t)"

definition t_groups_count :: "topic \<Rightarrow> nat" where
  "t_groups_count t = length (t_groups t)"

definition t_group_members_count :: "topic \<Rightarrow> nat" where
  "t_group_members_count t = sum_list (map g_members_count (t_groups t))"

definition t_group_partitions_count :: "topic \<Rightarrow> nat" where
  "t_group_partitions_count t = sum_list (map g_partitions_count (t_groups t))"

fun max_or :: "nat \<Rightarrow> nat list \<Rightarrow> nat" where
  "max_or d [] = d"
| "max_or d (x # xs) = foldl max x xs"

fun min_or :: "nat \<Rightarrow> nat list \<Rightarrow> nat" where
  "min_or d [] = d"
| "min_or d (x # xs) = foldl min x xs"

definition t_replicas_count :: "topic \<Rightarrow> nat" where
  "t_replicas_count t = max_or 0 (map (length \<circ> p_replicas) (t_partitions t))"

definition t_isrs_count :: "topic \<Rightarrow> nat" where
  "t_isrs_count t = min_or 0 (map (length \<circ> p_isrs) (t_partitions t))"

definition t_lag :: "topic \<Rightarrow> int" where
  "t_lag t = sum_list (map g_lag_count (t_groups t))"

definition t_records_count :: "topic \<Rightarrow> int" where
  "t_records_count t = sum_list (map p_records_count (t_partitions t))"

definition topic_eq :: "topic \<Rightarrow> topic \<Rightarrow> bool" where
  "topic_eq a b \<longleftrightarrow> t_name a = t_name b"

record topic_configuration =
  tc_name :: string
  tc_value :: string
  tc_overridden :: bool

datatype cleanup_policy = CP_DELETE | CP_COMPACT

fun cleanup_name :: "cleanup_policy \<Rightarrow> string" where
  "cleanup_name CP_DELETE = ''DELETE''"
| "cleanup_name CP_COMPACT = ''COMPACT''"

definition cleanup_str :: "cleanup_policy \<Rightarrow> string" where
  "cleanup_str p = lower (cleanup_name p)"

definition cleanup_from_str :: "string \<Rightarrow> cleanup_policy res" where
  "cleanup_from_str value =
     (case find (\<lambda>p. cleanup_name p = upper value) [CP_DELETE, CP_COMPACT] of
        None \<Rightarrow> Inl (KeyError (upper value)) | Some p \<Rightarrow> Inr p)"

definition cleanup_str_list :: "string list" where
  "cleanup_str_list = map cleanup_str [CP_DELETE, CP_COMPACT]"

datatype start_offset = AT_OFFSET int | FROM_EARLIEST

record partition_selection =
  ps_partition :: int
  ps_offset :: "start_offset option"

section \<open>Deserialization results\<close>

definition deserialization_exception :: "exn \<Rightarrow> bool" where
  "deserialization_exception e \<longleftrightarrow> is_value_error e \<or>
     (case e of
        DeserializationError _ \<Rightarrow> True
      | EOFError \<Rightarrow> True
      | OSError _ \<Rightarrow> True
      | SchemaRegistryError _ _ \<Rightarrow> True
      | ConfluentSerializationError _ \<Rightarrow> True
      | DecodeError _ \<Rightarrow> True
      | _ \<Rightarrow> False)"

definition schema_metadata_exception :: "exn \<Rightarrow> bool" where
  "schema_metadata_exception e \<longleftrightarrow>
     deserialization_exception e \<or> e = AttributeError \<or> e = TypeError"

record confluent_schema =
  cs_id :: int
  cs_subject :: string
  cs_version :: int
  cs_type :: string

record apicurio_schema =
  as_id :: int
  as_id_kind :: string
  as_type :: string
  as_group :: "string option"
  as_artifact :: "string option"
  as_version :: "string option"

datatype schema_info = ConfluentInfo confluent_schema | ApicurioInfo apicurio_schema

definition optional_entry :: "string \<Rightarrow> string option \<Rightarrow> (string \<times> pyval) list" where
  "optional_entry k v = (case v of None \<Rightarrow> [] | Some s \<Rightarrow> [(k, PStr s)])"

fun schema_dict :: "schema_info \<Rightarrow> (string \<times> pyval) list" where
  "schema_dict (ConfluentInfo s) =
     [(''provider'', PStr CONFLUENT_OPTION), (''id'', PInt (cs_id s)), (''subject'', PStr (cs_subject s)),
      (''version'', PInt (cs_version s)), (''type'', PStr (cs_type s))]"
| "schema_dict (ApicurioInfo s) =
     [(''provider'', PStr APICURIO_OPTION), (''id'', PInt (as_id s)), (''id_kind'', PStr (as_id_kind s)),
      (''type'', PStr (as_type s))]
     @ optional_entry ''group'' (as_group s) @ optional_entry ''artifact'' (as_artifact s)
     @ optional_entry ''version'' (as_version s)"

type_synonym deser_result = "pyval \<times> schema_info option"

definition require_context :: "message_field \<Rightarrow> unit res" where
  "require_context context =
     raise_if (context = NONE) (DeserializationError ''Context is needed: KEY or VALUE'')"

definition require_field :: "string option \<Rightarrow> message_field \<Rightarrow> string res" where
  "require_field topic context =
     (case topic of
        None \<Rightarrow> Inl (DeserializationError ''Topic name needed'')
      | Some t \<Rightarrow> rbind (require_context context) (\<lambda>_. Inr t))"

text \<open>\<open>_deserialize_avro\<close>: an \<open>IndexError\<close> of the Avro reader becomes a \<open>DeserializationError\<close>.\<close>

definition deserialize_avro :: "(exn \<Rightarrow> string) \<Rightarrow> 'a res \<Rightarrow> 'a res" where
  "deserialize_avro show_exn result =
     (case result of
        Inl IndexError \<Rightarrow> Inl (DeserializationError (show_exn IndexError))
      | r \<Rightarrow> r)"

section \<open>Content as text and as JSON\<close>

definition content_str :: "(pyval \<Rightarrow> string) \<Rightarrow> pyval \<Rightarrow> bytes_encoding \<Rightarrow> string" where
  "content_str show_val content enc =
     (case content of
        PNone \<Rightarrow> ''null''
      | PBytes data \<Rightarrow> bytes_str data enc
      | PBool b \<Rightarrow> lower (if b then ''True'' else ''False'')
      | _ \<Rightarrow> show_val content)"

definition json_content :: "pyval \<Rightarrow> bytes_encoding \<Rightarrow> pyval" where
  "json_content content enc = (case content of PBytes data \<Rightarrow> bytes_data data enc | _ \<Rightarrow> content)"

definition bytes_fallback :: "bytes_encoding \<Rightarrow> (pyval \<times> pyval) list" where
  "bytes_fallback enc =
     [(PStr ''fallback'', PStr (format_name F_BYTES)), (PStr ''encoding'', PStr (encoding_name enc))]"

definition error_dict :: "(exn \<Rightarrow> string) \<Rightarrow> exn \<Rightarrow> bytes_encoding \<Rightarrow> pyval" where
  "error_dict show_exn e enc = PDict ((PStr ''message'', PStr (show_exn e)) # bytes_fallback enc)"

section \<open>Deserialization outcomes\<close>

record outcome =
  oc_requested :: format
  oc_content :: pyval
  oc_schema :: "schema_info option"
  oc_error :: "exn option"
  oc_encoding :: bytes_encoding

definition used_fallback :: "outcome \<Rightarrow> bool" where
  "used_fallback o1 \<longleftrightarrow> oc_error o1 \<noteq> None"

definition is_bytes :: "pyval \<Rightarrow> bool" where
  "is_bytes v = (case v of PBytes _ \<Rightarrow> True | _ \<Rightarrow> False)"

definition outcome_dict :: "(exn \<Rightarrow> string) \<Rightarrow> outcome \<Rightarrow> (string \<times> pyval) list" where
  "outcome_dict show_exn o1 =
     [(''content'', json_content (oc_content o1) (oc_encoding o1)),
      (''deserializer'', PStr (format_name (oc_requested o1)))]
     @ (case oc_schema o1 of
          None \<Rightarrow> []
        | Some s \<Rightarrow> [(''schema'', PDict (map (\<lambda>(k, v). (PStr k, v)) (schema_dict s)))])
     @ (if oc_error o1 = None \<and> oc_requested o1 = F_BYTES \<and> is_bytes (oc_content o1)
        then [(''encoding'', PStr (encoding_name (oc_encoding o1)))] else [])
     @ (case oc_error o1 of None \<Rightarrow> [] | Some e \<Rightarrow> [(''error'', error_dict show_exn e (oc_encoding o1))])"

definition outcome_str :: "(pyval \<Rightarrow> string) \<Rightarrow> outcome \<Rightarrow> string" where
  "outcome_str show_val o1 = content_str show_val (oc_content o1) (oc_encoding o1)"

text \<open>\<open>Record._deserialize\<close>. Exceptions that are not caught pass through.\<close>

type_synonym ('i, 's) deser_call =
  "'i \<Rightarrow> byte list \<Rightarrow> string option \<Rightarrow> message_field \<Rightarrow> 's \<Rightarrow> deser_result res \<times> 's"

definition deserialize_outcome ::
  "('i, 's) deser_call \<Rightarrow> string \<Rightarrow> byte list option \<Rightarrow> format \<Rightarrow> 'i option \<Rightarrow> message_field
     \<Rightarrow> bytes_encoding \<Rightarrow> bytes_encoding \<Rightarrow> 's \<Rightarrow> outcome res \<times> 's" where
  "deserialize_outcome call topic raw requested deserializer field enc fallback_enc s =
     (let outcome = (\<lambda>content schema err e. \<lparr>oc_requested = requested, oc_content = content,
            oc_schema = schema, oc_error = err, oc_encoding = e\<rparr>) in
      case raw of
        None \<Rightarrow> (Inr (outcome PNone None None enc), s)
      | Some data \<Rightarrow>
          (case deserializer of
             None \<Rightarrow> (Inr (outcome (PBytes data) None None enc), s)
           | Some d \<Rightarrow>
               (case call d data (Some topic) field s of
                  (Inr (content, schema), s') \<Rightarrow> (Inr (outcome content schema None enc), s')
                | (Inl e, s') \<Rightarrow>
                    (if deserialization_exception e
                     then Inr (outcome (PBytes data) None (Some e) fallback_enc) else Inl e, s'))))"

section \<open>Headers\<close>

record 'i header =
  h_key :: string
  h_value :: "byte list option"
  h_deserializer :: "'i option"
  h_encoding :: bytes_encoding
  h_deserialization :: format
  h_deserialized :: "pyval option"
  h_error :: "exn option"

definition header_value_deserialized ::
  "('i, 's) deser_call \<Rightarrow> 'i header \<Rightarrow> 's \<Rightarrow> pyval res \<times> 'i header \<times> 's" where
  "header_value_deserialized call h s =
     (case h_deserialized h of
        Some v \<Rightarrow> (Inr v, h, s)
      | None \<Rightarrow>
          (case h_value h of
             None \<Rightarrow> (Inr PNone, h\<lparr>h_deserialized := Some PNone\<rparr>, s)
           | Some data \<Rightarrow>
               (case h_deserializer h of
                  None \<Rightarrow> (Inr (PBytes data), h\<lparr>h_deserialized := Some (PBytes data)\<rparr>, s)
                | Some d \<Rightarrow>
                    (case call d data None NONE s of
                       (Inr (v, _), s') \<Rightarrow> (Inr v, h\<lparr>h_deserialized := Some v\<rparr>, s')
                     | (Inl e, s') \<Rightarrow>
                         if deserialization_exception e
                         then (Inr (PBytes data),
                               h\<lparr>h_deserialized := Some (PBytes data), h_error := Some e\<rparr>, s')
                         else (Inl e, h, s')))))"

definition header_dict :: "(exn \<Rightarrow> string) \<Rightarrow> 'i header \<Rightarrow> pyval \<Rightarrow> (string \<times> pyval) list" where
  "header_dict show_exn h value =
     [(''key'', PStr (h_key h)), (''value'', json_content value (h_encoding h))]
     @ (case h_error h of None \<Rightarrow> [] | Some e \<Rightarrow> [(''error'', error_dict show_exn e (h_encoding h))])"

definition header_outcome :: "'i header \<Rightarrow> pyval \<Rightarrow> outcome" where
  "header_outcome h value =
     \<lparr>oc_requested = h_deserialization h, oc_content = value, oc_schema = None,
      oc_error = h_error h, oc_encoding = h_encoding h\<rparr>"

section \<open>Records\<close>

record 'i message =
  r_topic :: string
  r_partition :: int
  r_offset :: int
  r_key :: "byte list option"
  r_value :: "byte list option"
  r_headers :: "'i header list"
  r_key_deserialization :: format
  r_value_deserialization :: format
  r_key_deserializer :: "'i option"
  r_value_deserializer :: "'i option"
  r_key_encoding :: bytes_encoding
  r_value_encoding :: bytes_encoding
  r_fallback_encoding :: bytes_encoding
  r_key_outcome :: "outcome option"
  r_value_outcome :: "outcome option"

definition record_str :: "'i message \<Rightarrow> string" where
  "record_str r = show_int (r_partition r) @ ''/'' @ show_int (r_offset r)"

definition record_eq :: "'i message \<Rightarrow> 'i message \<Rightarrow> bool" where
  "record_eq a b \<longleftrightarrow>
     (r_topic a, r_partition a, r_offset a) = (r_topic b, r_partition b, r_offset b)"

definition key_outcome :: "('i, 's) deser_call \<Rightarrow> 'i message \<Rightarrow> 's \<Rightarrow> outcome res \<times> 'i message \<times> 's" where
  "key_outcome call r s =
     (case r_key_outcome r of
        Some out \<Rightarrow> (Inr out, r, s)
      | None \<Rightarrow>
          (case deserialize_outcome call (r_topic r) (r_key r) (r_key_deserialization r)
                  (r_key_deserializer r) KEY (r_key_encoding r) (r_fallback_encoding r) s of
             (Inr out, s') \<Rightarrow> (Inr out, r\<lparr>r_key_outcome := Some out\<rparr>, s')
           | (Inl e, s') \<Rightarrow> (Inl e, r, s')))"

definition value_outcome :: "('i, 's) deser_call \<Rightarrow> 'i message \<Rightarrow> 's \<Rightarrow> outcome res \<times> 'i message \<times> 's" where
  "value_outcome call r s =
     (case r_value_outcome r of
        Some out \<Rightarrow> (Inr out, r, s)
      | None \<Rightarrow>
          (case deserialize_outcome call (r_topic r) (r_value r) (r_value_deserialization r)
                  (r_value_deserializer r) VALUE (r_value_encoding r) (r_fallback_encoding r) s of
             (Inr out, s') \<Rightarrow> (Inr out, r\<lparr>r_value_outcome := Some out\<rparr>, s')
           | (Inl e, s') \<Rightarrow> (Inl e, r, s')))"

definition resolve_deserializations ::
  "('i, 's) deser_call \<Rightarrow> 'i message \<Rightarrow> 's \<Rightarrow> unit res \<times> 'i message \<times> 's" where
  "resolve_deserializations call r s =
     (case key_outcome call r s of
        (Inl e, r1, s1) \<Rightarrow> (Inl e, r1, s1)
      | (Inr _, r1, s1) \<Rightarrow>
          (case value_outcome call r1 s1 of
             (Inl e, r2, s2) \<Rightarrow> (Inl e, r2, s2)
           | (Inr _, r2, s2) \<Rightarrow> (Inr (), r2, s2)))"

text \<open>\<open>or\<close> does not read the value when the key already fell back.\<close>

definition has_deserialization_errors ::
  "('i, 's) deser_call \<Rightarrow> 'i message \<Rightarrow> 's \<Rightarrow> bool res \<times> 'i message \<times> 's" where
  "has_deserialization_errors call r s =
     (case key_outcome call r s of
        (Inl e, r1, s1) \<Rightarrow> (Inl e, r1, s1)
      | (Inr k, r1, s1) \<Rightarrow>
          if used_fallback k then (Inr True, r1, s1)
          else (case value_outcome call r1 s1 of
                  (Inl e, r2, s2) \<Rightarrow> (Inl e, r2, s2)
                | (Inr v, r2, s2) \<Rightarrow> (Inr (used_fallback v), r2, s2)))"

section \<open>Lemmas\<close>

named_theorems model_simps \<open>definitions of the record and header operations\<close>

declare deserialize_outcome_def [model_simps] header_value_deserialized_def [model_simps]
  key_outcome_def [model_simps] value_outcome_def [model_simps]
  resolve_deserializations_def [model_simps] has_deserialization_errors_def [model_simps]

lemma gp_lag_nonneg [simp]: "0 \<le> gp_lag_count p"
  by (simp add: gp_lag_count_def)

lemma sum_list_nonneg_map: "(\<And>x. x \<in> set xs \<Longrightarrow> (0::int) \<le> f x) \<Longrightarrow> 0 \<le> sum_list (map f xs)"
  by (induction xs) auto

lemma g_lag_nonneg [simp]: "0 \<le> g_lag_count g"
  by (simp add: g_lag_count_def sum_list_nonneg_map)

lemma max_or_ge: "x \<in> set xs \<Longrightarrow> x \<le> max_or d xs"
proof -
  have "\<And>a. (\<forall>x \<in> set ys. x \<le> foldl max a ys) \<and> a \<le> foldl max a ys" for ys :: "nat list"
    by (induction ys) (auto, (metis max.boundedE)+)
  then show "x \<in> set xs \<Longrightarrow> ?thesis" by (cases xs) auto
qed

lemma min_or_le: "x \<in> set xs \<Longrightarrow> min_or d xs \<le> x"
proof -
  have "\<And>a. (\<forall>x \<in> set ys. foldl min a ys \<le> x) \<and> foldl min a ys \<le> a" for ys :: "nat list"
    by (induction ys) (auto, (metis min.boundedE)+)
  then show "x \<in> set xs \<Longrightarrow> ?thesis" by (cases xs) auto
qed

lemma sum_list_mono_map: "(\<And>x. x \<in> set xs \<Longrightarrow> (f x :: int) \<le> g x) \<Longrightarrow> sum_list (map f xs) \<le> sum_list (map g xs)"
  by (induction xs) (auto simp: add_mono)

lemma isrs_le_replicas:
  assumes "\<forall>p \<in> set (t_partitions t). length (p_isrs p) \<le> length (p_replicas p)"
  shows "t_isrs_count t \<le> t_replicas_count t"
proof (cases "t_partitions t")
  case Nil
  then show ?thesis by (simp add: t_isrs_count_def)
next
  case (Cons p ps)
  have "t_isrs_count t \<le> length (p_isrs p)" "length (p_replicas p) \<le> t_replicas_count t"
    unfolding t_isrs_count_def t_replicas_count_def by (rule min_or_le max_or_ge; simp add: Cons)+
  then show ?thesis using assms Cons by force
qed

section \<open>Properties\<close>

text \<open>A record whose key and value have been resolved never calls a deserializer again: every
  later reading returns the remembered outcomes and changes neither the record nor the
  deserializers, and it has errors exactly when one of the two outcomes fell back.\<close>

theorem resolve_once:
  assumes "resolve_deserializations call r s = (Inr (), r', s')"
  shows "\<exists>k v. \<forall>call' t.
    key_outcome call' r' t = (Inr k, r', t) \<and> value_outcome call' r' t = (Inr v, r', t) \<and>
    resolve_deserializations call' r' t = (Inr (), r', t) \<and>
    has_deserialization_errors call' r' t = (Inr (used_fallback k \<or> used_fallback v), r', t)"
proof -
  obtain k r1 s1 v s2 where kv: "key_outcome call r s = (Inr k, r1, s1)" "value_outcome call r1 s1 = (Inr v, r', s2)"
    using assms by (auto simp: resolve_deserializations_def split: prod.splits sum.splits)
  have "r_key_outcome r1 = Some k"
    using kv(1) by (auto simp: key_outcome_def split: option.splits prod.splits sum.splits)
  then have "r_key_outcome r' = Some k \<and> r_value_outcome r' = Some v"
    using kv(2) by (auto simp: value_outcome_def split: option.splits prod.splits sum.splits)
  then show ?thesis
    by (intro exI[of _ k] exI[of _ v])
      (simp add: key_outcome_def value_outcome_def resolve_deserializations_def has_deserialization_errors_def)
qed

definition sample_message :: "nat message" where
  "sample_message =
     \<lparr>r_topic = ''t'', r_partition = 0, r_offset = 5, r_key = Some [7], r_value = Some [255], r_headers = [],
      r_key_deserialization = F_BYTES, r_value_deserialization = F_JSON, r_key_deserializer = None,
      r_value_deserializer = Some 0, r_key_encoding = HEX, r_value_encoding = HEX, r_fallback_encoding = HEX,
      r_key_outcome = None, r_value_outcome = None\<rparr>"

definition failing_call :: "(nat, nat) deser_call" where
  "failing_call d data topic field s = (Inl (DeserializationError ''bad''), Suc s)"

lemma failing_key_outcome:
  "key_outcome failing_call (sample_message\<lparr>r_key_deserializer := Some 0\<rparr>) 0 =
     (Inr \<lparr>oc_requested = F_BYTES, oc_content = PBytes [7], oc_schema = None,
        oc_error = Some (DeserializationError ''bad''), oc_encoding = HEX\<rparr>,
      sample_message\<lparr>r_key_deserializer := Some 0,
        r_key_outcome := Some \<lparr>oc_requested = F_BYTES, oc_content = PBytes [7], oc_schema = None,
          oc_error = Some (DeserializationError ''bad''), oc_encoding = HEX\<rparr>\<rparr>, 1)"
  by (simp add: key_outcome_def deserialize_outcome_def sample_message_def failing_call_def
      deserialization_exception_def)

theorem resolve_once_witness:
  "\<exists>k v. \<forall>call' t. let r' = fst (snd (resolve_deserializations failing_call sample_message 0)) in
    key_outcome call' r' t = (Inr k, r', t) \<and> value_outcome call' r' t = (Inr v, r', t) \<and>
    resolve_deserializations call' r' t = (Inr (), r', t) \<and>
    has_deserialization_errors call' r' t = (Inr (used_fallback k \<or> used_fallback v), r', t)"
  unfolding Let_def
  by (rule resolve_once[of failing_call sample_message 0 _ 1])
    (simp add: model_simps sample_message_def failing_call_def deserialization_exception_def)

text \<open>A key that its deserializer refuses falls back to its raw bytes without loss: the
  outcome holds the error and exactly the bytes, and the text shown for them in the fallback
  encoding is read back by the producer as the same bytes.\<close>

theorem fallback_loses_nothing:
  assumes "r_key_outcome r = None" and "r_key r = Some data" and "r_key_deserializer r = Some d"
    and "call d data (Some (r_topic r)) KEY s = (Inl e, s')" and "deserialization_exception e"
    and "r_fallback_encoding r \<noteq> BYTE_ARRAY"
  shows "\<exists>out. key_outcome call r s = (Inr out, r\<lparr>r_key_outcome := Some out\<rparr>, s') \<and>
    oc_error out = Some e \<and> oc_content out = PBytes data \<and> oc_schema out = None \<and>
    bytes_serialize loads (oc_encoding out) (outcome_str show_val out) = Inr data"
  using assms
  by (simp add: key_outcome_def deserialize_outcome_def outcome_str_def content_str_def bytes_serialize_shown)

theorem fallback_loses_nothing_witness:
  "\<exists>out. key_outcome failing_call (sample_message\<lparr>r_key_deserializer := Some 0\<rparr>) 0 =
      (Inr out, sample_message\<lparr>r_key_deserializer := Some 0, r_key_outcome := Some out\<rparr>, 1) \<and>
    oc_error out = Some (DeserializationError ''bad'') \<and> oc_content out = PBytes [7] \<and> oc_schema out = None \<and>
    bytes_serialize (\<lambda>_. None) (oc_encoding out) (outcome_str (\<lambda>_. []) out) = Inr [7]"
  using fallback_loses_nothing[of "sample_message\<lparr>r_key_deserializer := Some 0\<rparr>" "[7]" 0 failing_call 0
      "DeserializationError ''bad''" 1 "\<lambda>_. None" "\<lambda>_. []"]
  by (simp add: sample_message_def failing_call_def deserialization_exception_def)

text \<open>The counts of a topic are consistent: lag and record counts are never negative, a group
  whose committed offsets are inside the retained range (or missing) lags by at most the records
  retained, and in-sync replicas never outnumber replicas.\<close>

theorem topic_counts:
  assumes "\<forall>g \<in> set (t_groups t). \<forall>p \<in> set (g_partitions g). gp_offset p < 0 \<or> gp_low p \<le> gp_offset p"
    and "\<forall>p \<in> set (t_partitions t). length (p_isrs p) \<le> length (p_replicas p)"
  shows "0 \<le> t_lag t \<and> 0 \<le> t_records_count t \<and> t_isrs_count t \<le> t_replicas_count t \<and>
    t_lag t \<le> sum_list (map (\<lambda>g. sum_list (map (\<lambda>p. max 0 (gp_high p - gp_low p)) (g_partitions g))) (t_groups t))"
proof (intro conjI)
  show "0 \<le> t_lag t" "0 \<le> t_records_count t"
    by (auto simp: t_lag_def t_records_count_def p_records_count_def intro!: sum_list_nonneg_map)
  show "t_isrs_count t \<le> t_replicas_count t" using assms(2) by (rule isrs_le_replicas)
  show "t_lag t \<le> sum_list (map (\<lambda>g. sum_list (map (\<lambda>p. max 0 (gp_high p - gp_low p)) (g_partitions g))) (t_groups t))"
    unfolding t_lag_def g_lag_count_def
    using assms(1) by (intro sum_list_mono_map) (fastforce simp: gp_lag_count_def)
qed

theorem topic_counts_witness:
  "let t = \<lparr>t_name = ''t'',
      t_partitions = [\<lparr>p_id = 0, p_leader = 1, p_replicas = [1, 2], p_isrs = [1], p_low = 2, p_high = 9, p_topic = ''t''\<rparr>],
      t_groups = [\<lparr>g_id = ''g'', g_coordinator = None, g_state = ''STABLE'', g_partition_assignor = [], g_members = [],
        g_partitions = [\<lparr>gp_id = 0, gp_topic = ''t'', gp_group = ''g'', gp_offset = 4, gp_low = 2, gp_high = 9\<rparr>]\<rparr>],
      t_records_state = M_READY, t_groups_state = M_READY\<rparr> in
    0 \<le> t_lag t \<and> 0 \<le> t_records_count t \<and> t_isrs_count t \<le> t_replicas_count t \<and> t_lag t \<le> 7"
  using topic_counts[of "\<lparr>t_name = ''t'',
      t_partitions = [\<lparr>p_id = 0, p_leader = 1, p_replicas = [1, 2], p_isrs = [1], p_low = 2, p_high = 9, p_topic = ''t''\<rparr>],
      t_groups = [\<lparr>g_id = ''g'', g_coordinator = None, g_state = ''STABLE'', g_partition_assignor = [], g_members = [],
        g_partitions = [\<lparr>gp_id = 0, gp_topic = ''t'', gp_group = ''g'', gp_offset = 4, gp_low = 2, gp_high = 9\<rparr>]\<rparr>],
      t_records_state = M_READY, t_groups_state = M_READY\<rparr>"]
  by (simp add: Let_def)

end
