(* ===== verification/Walks.thy ===== *)
theory Walks
  imports Prelude
begin

text \<open>
  Recursive walks whose depth the code does not bound: readers of files that name other files,
  pools of descriptors that import other descriptors, values guided by recursive schemas. A walk
  is an action that takes fuel; \<open>None\<close> means that the fuel did not last. \<open>wle\<close> orders walks by how
  far they get, and \<open>wends\<close> says that some fuel is enough from every state that satisfies an
  invariant; both are composed along \<open>wbind\<close>, \<open>wmap\<close> and \<open>wcached\<close>, so a component only has to
  argue about its own recursion. \<open>wgives\<close> says that some fuel is enough for a given result.
\<close>

type_synonym ('a, 's) walk = "'s \<Rightarrow> ('a res \<times> 's) option"

definition out_of_fuel :: "('a, 's) walk" where
  "out_of_fuel s = None"

definition wlift :: "'a res \<Rightarrow> ('a, 's) walk" where
  "wlift r s = Some (r, s)"

definition wbind :: "('a, 's) walk \<Rightarrow> ('a \<Rightarrow> ('b, 's) walk) \<Rightarrow> ('b, 's) walk" where
  "wbind m f s =
     (case m s of None \<Rightarrow> None | Some (Inl e, s') \<Rightarrow> Some (Inl e, s') | Some (Inr x, s') \<Rightarrow> f x s')"

abbreviation wreturn :: "'a \<Rightarrow> ('a, 's) walk" where
  "wreturn x \<equiv> wlift (Inr x)"

abbreviation wraise :: "exn \<Rightarrow> ('a, 's) walk" where
  "wraise e \<equiv> wlift (Inl e)"

fun wmap :: "('a \<Rightarrow> ('b, 's) walk) \<Rightarrow> 'a list \<Rightarrow> ('b list, 's) walk" where
  "wmap f [] = wreturn []"
| "wmap f (x # xs) = wbind (f x) (\<lambda>y. wbind (wmap f xs) (\<lambda>ys. wreturn (y # ys)))"

text \<open>A dictionary in front of a walk: \<open>if key not in loaded: loaded[key] = walk()\<close>, then \<open>loaded[key]\<close>.\<close>

definition wcached :: "'k \<Rightarrow> ('a, ('k, 'a) pydict) walk \<Rightarrow> ('a, ('k, 'a) pydict) walk" where
  "wcached k m loaded =
     (case dget loaded k of
        Some x \<Rightarrow> Some (Inr x, loaded)
      | None \<Rightarrow>
          (case m loaded of
             None \<Rightarrow> None
           | Some (Inl e, loaded') \<Rightarrow> Some (Inl e, loaded')
           | Some (Inr x, loaded') \<Rightarrow> Some (Inr x, dput k x loaded')))"

section \<open>Results\<close>

lemma wlift_simps [simp, res_simps]: "wlift r s = Some (r, s)" "out_of_fuel s = None"
  by (simp_all add: wlift_def out_of_fuel_def)

lemma wbind_Inr [res_simps]:
  "wbind m f s = Some (Inr y, s'') \<longleftrightarrow> (\<exists>x s'. m s = Some (Inr x, s') \<and> f x s' = Some (Inr y, s''))"
  by (auto simp: wbind_def split: option.splits prod.splits sum.splits)

lemma wbind_Inl [res_simps]:
  "wbind m f s = Some (Inl e, s'') \<longleftrightarrow>
     m s = Some (Inl e, s'') \<or> (\<exists>x s'. m s = Some (Inr x, s') \<and> f x s' = Some (Inl e, s''))"
  by (auto simp: wbind_def split: option.splits prod.splits sum.splits)

lemma wbind_wlift [simp]:
  "wbind (wreturn x) f = f x"
  "wbind (wraise e) f = wraise e"
  by (auto simp: wbind_def wlift_def)

lemma wbind_out_of_fuel [simp]: "wbind out_of_fuel f = out_of_fuel"
  by (auto simp: wbind_def out_of_fuel_def)

lemma wbind_None: "wbind m f s = None \<longleftrightarrow> m s = None \<or> (\<exists>x s'. m s = Some (Inr x, s') \<and> f x s' = None)"
  by (auto simp: wbind_def split: option.splits prod.splits sum.splits)

lemma wmap_length: "wmap f xs s = Some (Inr ys, s') \<Longrightarrow> length ys = length xs"
  by (induction xs arbitrary: s ys) (auto simp: res_simps)

section \<open>More fuel\<close>

definition wle :: "('a, 's) walk \<Rightarrow> ('a, 's) walk \<Rightarrow> bool" where
  "wle m m' \<longleftrightarrow> (\<forall>s r. m s = Some r \<longrightarrow> m' s = Some r)"

lemma wle_refl [simp]: "wle m m"
  by (simp add: wle_def)

lemma wle_out_of_fuel [simp]: "wle out_of_fuel m"
  by (simp add: wle_def)

lemma wle_bind: "wle m m' \<Longrightarrow> (\<And>x. wle (f x) (f' x)) \<Longrightarrow> wle (wbind m f) (wbind m' f')"
  unfolding wle_def wbind_def by (fastforce split: option.splits prod.splits sum.splits)

lemma wle_map: "(\<And>x. wle (f x) (f' x)) \<Longrightarrow> wle (wmap f xs) (wmap f' xs)"
  by (induction xs) (auto intro!: wle_bind)

lemma wle_cached: "wle m m' \<Longrightarrow> wle (wcached k m) (wcached k m')"
  unfolding wle_def wcached_def by (fastforce split: option.splits prod.splits sum.splits)

lemma wle_if: "(b \<Longrightarrow> wle m m') \<Longrightarrow> (\<not> b \<Longrightarrow> wle n n') \<Longrightarrow> wle (if b then m else n) (if b then m' else n')"
  by simp

lemmas wle_intros = wle_refl wle_bind wle_map wle_cached wle_if

definition wmono :: "(nat \<Rightarrow> ('a, 's) walk) \<Rightarrow> bool" where
  "wmono m \<longleftrightarrow> (\<forall>n k. n \<le> k \<longrightarrow> wle (m n) (m k))"

lemma wmonoD: "wmono m \<Longrightarrow> m n s = Some r \<Longrightarrow> n \<le> k \<Longrightarrow> m k s = Some r"
  unfolding wmono_def wle_def by blast

lemma wle_trans: "wle l m \<Longrightarrow> wle m k \<Longrightarrow> wle l k"
  by (simp add: wle_def)

lemma wmono_Suc: "(\<And>n. wle (m n) (m (Suc n))) \<Longrightarrow> wmono m"
  unfolding wmono_def
proof (intro allI impI)
  fix n k :: nat assume S: "\<And>n. wle (m n) (m (Suc n))" and k: "n \<le> k"
  from k show "wle (m n) (m k)" by (induction rule: dec_induct) (auto intro: wle_trans S)
qed

lemma wmono_const [simp]: "wmono (\<lambda>_. m)"
  by (simp add: wmono_def)

lemma wmono_bind: "wmono m \<Longrightarrow> (\<And>x. wmono (\<lambda>n. f n x)) \<Longrightarrow> wmono (\<lambda>n. wbind (m n) (f n))"
  unfolding wmono_def by (blast intro: wle_bind)

lemma wmono_map: "(\<And>x. wmono (\<lambda>n. f n x)) \<Longrightarrow> wmono (\<lambda>n. wmap (f n) xs)"
  unfolding wmono_def by (blast intro: wle_map)

lemma wmono_cached: "wmono m \<Longrightarrow> wmono (\<lambda>n. wcached k (m n))"
  unfolding wmono_def by (blast intro: wle_cached)

lemma wmono_if: "(b \<Longrightarrow> wmono m) \<Longrightarrow> (\<not> b \<Longrightarrow> wmono m') \<Longrightarrow> wmono (\<lambda>n. if b then m n else m' n)"
  by (cases b) simp_all

lemmas wmono_intros = wmono_const wmono_bind wmono_map wmono_cached wmono_if

section \<open>Enough fuel\<close>

text \<open>From every state in \<open>I\<close> some fuel is enough; the state stays in \<open>I\<close> and a result satisfies \<open>Q\<close>.\<close>

definition wends :: "('s \<Rightarrow> bool) \<Rightarrow> ('a \<Rightarrow> bool) \<Rightarrow> (nat \<Rightarrow> ('a, 's) walk) \<Rightarrow> bool" where
  "wends I Q m \<longleftrightarrow> (\<forall>s. I s \<longrightarrow> (\<exists>n r s'. m n s = Some (r, s') \<and> I s' \<and> (\<forall>x. r = Inr x \<longrightarrow> Q x)))"

lemma wendsD: "wends I Q m \<Longrightarrow> I s \<Longrightarrow> \<exists>n r s'. m n s = Some (r, s') \<and> I s' \<and> (\<forall>x. r = Inr x \<longrightarrow> Q x)"
  unfolding wends_def by blast

lemma wends_lift: "(\<And>x. r = Inr x \<Longrightarrow> Q x) \<Longrightarrow> wends I Q (\<lambda>_. wlift r)"
  by (simp add: wends_def)

lemma wends_raise [simp]: "wends I Q (\<lambda>_. wraise e)"
  by (rule wends_lift) simp

lemma wends_Suc: "wends I Q (\<lambda>n. m (Suc n)) \<Longrightarrow> wends I Q m"
  unfolding wends_def by metis

lemma wends_if: "(b \<Longrightarrow> wends I Q m) \<Longrightarrow> (\<not> b \<Longrightarrow> wends I Q m') \<Longrightarrow> wends I Q (\<lambda>n. if b then m n else m' n)"
  by (cases b) simp_all

lemma wends_weaken: "wends I Q m \<Longrightarrow> (\<And>x. Q x \<Longrightarrow> R x) \<Longrightarrow> wends I R m"
  unfolding wends_def by metis

lemma wends_bind:
  assumes "wends I Q m" and "wmono m" and "\<And>x. wmono (\<lambda>n. f n x)" and f: "\<And>x. Q x \<Longrightarrow> wends I R (\<lambda>n. f n x)"
  shows "wends I R (\<lambda>n. wbind (m n) (f n))"
  unfolding wends_def
proof (intro allI impI)
  fix s assume "I s"
  then obtain n r s' where m: "m n s = Some (r, s')" "I s'" "\<forall>x. r = Inr x \<longrightarrow> Q x"
    using assms(1) by (auto simp: wends_def)
  show "\<exists>n r s'. wbind (m n) (f n) s = Some (r, s') \<and> I s' \<and> (\<forall>x. r = Inr x \<longrightarrow> R x)"
  proof (cases r)
    case (Inl e)
    then show ?thesis using m by (intro exI[of _ n] exI[of _ "Inl e"]) (auto simp: wbind_def)
  next
    case (Inr x)
    then obtain k r2 s2 where k: "f k x s' = Some (r2, s2)" "I s2" "\<forall>y. r2 = Inr y \<longrightarrow> R y"
      using f[of x] m by (auto simp: wends_def)
    have "m (max n k) s = Some (Inr x, s')" "f (max n k) x s' = Some (r2, s2)"
      using wmonoD[OF assms(2) m(1), of "max n k"] wmonoD[OF assms(3) k(1), of "max n k"] Inr by simp_all
    then show ?thesis using k by (intro exI[of _ "max n k"]) (auto simp: wbind_def)
  qed
qed

lemma wends_map:
  assumes "\<And>x. wmono (\<lambda>n. f n x)" and "\<And>x. x \<in> set xs \<Longrightarrow> wends I (Q x) (\<lambda>n. f n x)"
  shows "wends I (\<lambda>ys. list_all2 Q xs ys) (\<lambda>n. wmap (f n) xs)"
  using assms(2)
proof (induction xs)
  case (Cons x xs)
  have "wends I (\<lambda>ys. list_all2 Q (x # xs) ys) (\<lambda>n. wbind (f n x) (\<lambda>y. wbind (wmap (f n) xs) (\<lambda>ys. wreturn (y # ys))))"
    using Cons assms(1)
    by (intro wends_bind[where Q = "Q x"] wends_bind[where Q = "\<lambda>ys. list_all2 Q xs ys"] wmono_intros wends_lift) auto
  then show ?case by simp
qed (simp add: wends_def)

lemma wends_cached:
  assumes "wends I Q m"
    and "\<And>s x. I s \<Longrightarrow> dget s k = Some x \<Longrightarrow> Q x" and "\<And>s x. I s \<Longrightarrow> Q x \<Longrightarrow> I (dput k x s)"
  shows "wends I Q (\<lambda>n. wcached k (m n))"
  unfolding wends_def
proof (intro allI impI)
  fix s assume s: "I s"
  show "\<exists>n r s'. wcached k (m n) s = Some (r, s') \<and> I s' \<and> (\<forall>x. r = Inr x \<longrightarrow> Q x)"
  proof (cases "dget s k")
    case (Some x)
    then show ?thesis using assms(2) s by (auto simp: wcached_def)
  next
    case None
    obtain n r s' where m: "m n s = Some (r, s')" "I s'" "\<forall>x. r = Inr x \<longrightarrow> Q x"
      using assms(1) s by (auto simp: wends_def)
    then show ?thesis
      using None assms(3) by (intro exI[of _ n]) (cases r; auto simp: wcached_def)
  qed
qed

section \<open>Walks that give a result\<close>

definition wgives :: "(nat \<Rightarrow> ('a, 's) walk) \<Rightarrow> 'a \<Rightarrow> bool" where
  "wgives m x \<longleftrightarrow> (\<exists>n. \<forall>k \<ge> n. \<forall>s. m k s = Some (Inr x, s))"

lemma wgives_lift [simp]: "wgives (\<lambda>_. wreturn x) y \<longleftrightarrow> x = y"
  by (auto simp: wgives_def)

lemma wgives_Suc: "wgives (\<lambda>n. m (Suc n)) x \<longleftrightarrow> wgives m x"
  unfolding wgives_def by (metis Suc_le_D Suc_le_mono le_SucI)

lemma wgives_bind: "wgives m x \<Longrightarrow> wgives (\<lambda>n. f n x) y \<Longrightarrow> wgives (\<lambda>n. wbind (m n) (f n)) y"
proof -
  assume "wgives m x" "wgives (\<lambda>n. f n x) y"
  then obtain n k where "\<forall>i \<ge> n. \<forall>s. m i s = Some (Inr x, s)" "\<forall>i \<ge> k. \<forall>s. f i x s = Some (Inr y, s)"
    by (auto simp: wgives_def)
  then show ?thesis unfolding wgives_def by (intro exI[of _ "max n k"]) (simp add: wbind_def)
qed

lemma wgives_map: "list_all2 (\<lambda>x y. wgives (\<lambda>n. f n x) y) xs ys \<Longrightarrow> wgives (\<lambda>n. wmap (f n) xs) ys"
proof (induction xs ys rule: list_all2_induct)
  case (Cons x xs y ys)
  then show ?case unfolding wmap.simps by (intro wgives_bind[OF Cons(1)] wgives_bind[OF Cons(3)]) simp
qed (simp only: wmap.simps wgives_lift)

lemma wgives_if: "(b \<Longrightarrow> wgives m x) \<Longrightarrow> (\<not> b \<Longrightarrow> wgives m' x) \<Longrightarrow> wgives (\<lambda>n. if b then m n else m' n) x"
  by (cases b) simp_all

end
