(* ===== verification/Avro_Json.thy ===== *)
theory Avro_Json
  imports Models Walks
begin

text \<open>
  The conversion of JSON content to the values fastavro writes (\<open>serializers/avro.py\<close>), guided by a
  parsed schema, and the encoding around it. The consumer shows Avro values that JSON lacks by their
  \<open>str()\<close>; the conversion reads those forms back, so that a copied record encodes to the same data.

  A parsed schema is a name, a union, or a dictionary, whose keys are the selectors of \<open>SDict\<close>; a
  missing key is \<open>None\<close>. Following the names of a schema is a loop and the conversion is recursive on
  it, so both are walks with fuel. A \<open>POther\<close> value stands for a date, a time or a decimal.

  Parameters (\<open>avro_forms\<close>): the standard library's readers of dates, times and decimals, each \<open>None\<close>
  where it raises \<open>ValueError\<close> or \<open>InvalidOperation\<close>, the text of a number, and what
  \<open>ast.literal_eval\<close> makes of a bytes literal other than the ones \<open>repr\<close> writes; fastavro's validation
  and writer.
\<close>

section \<open>Schemas\<close>

datatype avro_schema =
    SName string
  | SUnion "avro_schema list"
  | SDict (sd_type: "avro_schema option") (sd_logical: "string option") (sd_name: "string option")
      (sd_fields: "avro_field list option") (sd_items: "avro_schema option") (sd_values: "avro_schema option")
      (sd_symbols: "string list option")
and avro_field = AvroField (af_name: string) (af_type: avro_schema) (af_default: bool)

type_synonym named_schemas = "(string, avro_schema) pydict"

definition DATETIME_LOGICAL_TYPES :: "string list" where
  "DATETIME_LOGICAL_TYPES =
     [''timestamp-millis'', ''timestamp-micros'', ''timestamp-nanos'',
      ''local-timestamp-millis'', ''local-timestamp-micros'', ''local-timestamp-nanos'']"

definition TIME_LOGICAL_TYPES :: "string list" where
  "TIME_LOGICAL_TYPES = [''time-millis'', ''time-micros'']"

definition RECORD_TYPES :: "string list" where
  "RECORD_TYPES = [''record'', ''error'']"

text \<open>\<open>_wraps\<close> of a dictionary: its type is a schema of its own.\<close>

fun avro_wraps :: "named_schemas \<Rightarrow> avro_schema option \<Rightarrow> bool" where
  "avro_wraps named None \<longleftrightarrow> False"
| "avro_wraps named (Some (SName t)) \<longleftrightarrow> din t named"
| "avro_wraps named (Some _) \<longleftrightarrow> True"

fun avro_resolve :: "nat \<Rightarrow> named_schemas \<Rightarrow> avro_schema \<Rightarrow> (avro_schema, unit) walk" where
  "avro_resolve 0 named s = out_of_fuel"
| "avro_resolve (Suc n) named (SName name) =
     (case dget named name of Some s \<Rightarrow> avro_resolve n named s | None \<Rightarrow> wreturn (SName name))"
| "avro_resolve (Suc n) named (SDict t l nm fs i v sy) =
     (if l = None \<and> avro_wraps named t then avro_resolve n named (the t) else wreturn (SDict t l nm fs i v sy))"
| "avro_resolve (Suc n) named (SUnion bs) = wreturn (SUnion bs)"

text \<open>\<open>_type_name\<close>: \<open>None\<close> for the text of a structure, which is the name of no type.\<close>

fun avro_type_name :: "avro_schema \<Rightarrow> string option" where
  "avro_type_name (SName t) = Some t"
| "avro_type_name (SUnion _) = Some ''union''"
| "avro_type_name (SDict t _ _ _ _ _ _) = (case t of Some (SName u) \<Rightarrow> Some u | _ \<Rightarrow> None)"

fun avro_logical_type :: "avro_schema \<Rightarrow> string option" where
  "avro_logical_type (SDict _ l _ _ _ _ _) = l"
| "avro_logical_type _ = None"

text \<open>\<open>schema["fields"]\<close> and the like.\<close>

definition schema_key :: "string \<Rightarrow> (avro_schema \<Rightarrow> 'a option) \<Rightarrow> avro_schema \<Rightarrow> 'a res" where
  "schema_key key sel s =
     (case s of
        SDict _ _ _ _ _ _ _ \<Rightarrow> (case sel s of Some x \<Rightarrow> Inr x | None \<Rightarrow> Inl (KeyError key))
      | _ \<Rightarrow> Inl TypeError)"

section \<open>Texts\<close>

record avro_forms =
  fm_datetime :: "string \<Rightarrow> string option"
  fm_date :: "string \<Rightarrow> string option"
  fm_time :: "string \<Rightarrow> string option"
  fm_decimal :: "string \<Rightarrow> string option"
  fm_number :: "pyfloat \<Rightarrow> string"
  fm_literal :: "string \<Rightarrow> pyval option"

definition utc_suffix :: "string \<Rightarrow> string" where
  "utc_suffix v = (if v \<noteq> [] \<and> last v \<in> {CHR ''Z'', CHR ''z''} then butlast v @ ''+00:00'' else v)"

text \<open>\<open>repr\<close> of bytes, and the literals it writes as \<open>ast.literal_eval\<close> reads them.\<close>

definition literal_quote :: "byte list \<Rightarrow> char" where
  "literal_quote data = (if byte_of 39 \<in> set data \<and> byte_of 34 \<notin> set data then CHR 0x22 else CHR 0x27)"

definition literal_byte :: "char \<Rightarrow> byte \<Rightarrow> string" where
  "literal_byte q b =
     (if ascii_char b = q \<or> byte_nat b = 92 then [CHR 0x5C, ascii_char b]
      else if byte_nat b = 9 then [CHR 0x5C, CHR ''t'']
      else if byte_nat b = 10 then [CHR 0x5C, CHR ''n'']
      else if byte_nat b = 13 then [CHR 0x5C, CHR ''r'']
      else if 32 \<le> byte_nat b \<and> byte_nat b \<le> 126 then [ascii_char b]
      else CHR 0x5C # CHR ''x'' # hex2 b)"

definition bytes_repr :: "byte list \<Rightarrow> string" where
  "bytes_repr data =
     (let q = literal_quote data in CHR ''b'' # q # concat (map (literal_byte q) data) @ [q])"

definition simple_escape :: "char \<Rightarrow> byte option" where
  "simple_escape c =
     (if c \<in> {CHR 0x5C, CHR 0x27, CHR 0x22} then Some (byte_of (code c))
      else if c = CHR ''t'' then Some (byte_of 9) else if c = CHR ''n'' then Some (byte_of 10)
      else if c = CHR ''r'' then Some (byte_of 13) else None)"

fun literal_body :: "char \<Rightarrow> string \<Rightarrow> byte list option" where
  "literal_body q [] = None"
| "literal_body q (c # cs) =
     (if c = q then (if cs = [] then Some [] else None)
      else if c = CHR 0x5C then
        (case cs of
           [] \<Rightarrow> None
         | e # rest \<Rightarrow>
             (case simple_escape e of
                Some b \<Rightarrow> map_option ((#) b) (literal_body q rest)
              | None \<Rightarrow>
                  (case rest of
                     h # l # rest' \<Rightarrow>
                       (case (e = CHR ''x'', hex_value h, hex_value l) of
                          (True, Some m, Some n) \<Rightarrow> map_option ((#) (byte_of (16 * m + n))) (literal_body q rest')
                        | _ \<Rightarrow> None)
                   | _ \<Rightarrow> None)))
      else if 32 \<le> code c \<and> code c \<le> 126 then map_option ((#) (byte_of (code c))) (literal_body q cs)
      else None)"

definition bytes_literal :: "avro_forms \<Rightarrow> string \<Rightarrow> pyval" where
  "bytes_literal fm v =
     (case v of
        b # q # body \<Rightarrow>
          if b = CHR ''b'' \<and> q \<in> {CHR 0x27, CHR 0x22} then
            (case literal_body q body of
               Some data \<Rightarrow> PBytes data
             | None \<Rightarrow> (case fm_literal fm v of Some (PBytes data) \<Rightarrow> PBytes data | _ \<Rightarrow> PStr v))
          else PStr v
      | _ \<Rightarrow> PStr v)"

definition avro_number_text :: "avro_forms \<Rightarrow> pyval \<Rightarrow> string option" where
  "avro_number_text fm v =
     (case v of PStr s \<Rightarrow> Some s | PInt n \<Rightarrow> Some (show_int n) | PFloat x \<Rightarrow> Some (fm_number fm x) | _ \<Rightarrow> None)"

definition read_form :: "(string \<Rightarrow> string option) \<Rightarrow> string \<Rightarrow> pyval \<Rightarrow> pyval" where
  "read_form reader s v = (case reader s of Some x \<Rightarrow> POther x | None \<Rightarrow> v)"

definition avro_logical :: "avro_forms \<Rightarrow> string \<Rightarrow> pyval \<Rightarrow> pyval" where
  "avro_logical fm logical v =
     (case v of
        PStr s \<Rightarrow>
          if logical \<in> set DATETIME_LOGICAL_TYPES then read_form (fm_datetime fm) (utc_suffix s) v
          else if logical = ''date'' then read_form (fm_date fm) s v
          else if logical \<in> set TIME_LOGICAL_TYPES then read_form (fm_time fm) s v
          else if logical = ''decimal'' then read_form (fm_decimal fm) s v else v
      | _ \<Rightarrow>
          (case avro_number_text fm v of
             Some s \<Rightarrow> if logical = ''decimal'' then read_form (fm_decimal fm) s v else v
           | None \<Rightarrow> v))"

section \<open>Union branches\<close>

text \<open>\<open>TYPE_CHECKS\<close>.\<close>

definition TYPE_CHECKS :: "(string \<times> (pyval \<Rightarrow> bool)) list" where
  "TYPE_CHECKS =
     [(''null'', \<lambda>v. v = PNone), (''boolean'', \<lambda>v. case v of PBool _ \<Rightarrow> True | _ \<Rightarrow> False),
      (''int'', \<lambda>v. case v of PInt _ \<Rightarrow> True | _ \<Rightarrow> False), (''long'', \<lambda>v. case v of PInt _ \<Rightarrow> True | _ \<Rightarrow> False),
      (''float'', \<lambda>v. case v of PInt _ \<Rightarrow> True | PFloat _ \<Rightarrow> True | _ \<Rightarrow> False),
      (''double'', \<lambda>v. case v of PInt _ \<Rightarrow> True | PFloat _ \<Rightarrow> True | _ \<Rightarrow> False),
      (''string'', \<lambda>v. case v of PStr _ \<Rightarrow> True | _ \<Rightarrow> False),
      (''bytes'', \<lambda>v. case v of PBytes _ \<Rightarrow> True | _ \<Rightarrow> False), (''fixed'', \<lambda>v. case v of PBytes _ \<Rightarrow> True | _ \<Rightarrow> False),
      (''array'', \<lambda>v. case v of PList _ \<Rightarrow> True | _ \<Rightarrow> False), (''map'', \<lambda>v. case v of PDict _ \<Rightarrow> True | _ \<Rightarrow> False)]"

definition fits_record :: "avro_schema \<Rightarrow> pyval \<Rightarrow> bool res" where
  "fits_record s v =
     (case v of
        PDict kvs \<Rightarrow>
          rbind (schema_key ''fields'' sd_fields s) (\<lambda>fs.
            let names = map (PStr \<circ> af_name) fs;
                required = map (PStr \<circ> af_name) (filter (\<lambda>f. \<not> af_default f) fs) in
            Inr (list_all (\<lambda>k. k \<in> set names) (map fst kvs) \<and> list_all (\<lambda>k. k \<in> set (map fst kvs)) required))
      | _ \<Rightarrow> Inr False)"

definition avro_fits :: "avro_schema \<Rightarrow> pyval \<Rightarrow> bool res" where
  "avro_fits s v =
     (case (avro_logical_type s, v) of
        (Some _, POther _) \<Rightarrow> Inr True
      | _ \<Rightarrow>
          (case avro_type_name s of
             None \<Rightarrow> Inr False
           | Some t \<Rightarrow>
               if t = ''enum'' then rbind (schema_key ''symbols'' sd_symbols s) (\<lambda>sy. Inr (v \<in> set (map PStr sy)))
               else if t \<in> set RECORD_TYPES then fits_record s v
               else Inr (case map_of TYPE_CHECKS t of Some check \<Rightarrow> check v | None \<Rightarrow> False)))"

section \<open>Conversion\<close>

fun first_fit ::
  "(avro_schema \<Rightarrow> (pyval, unit) walk) \<Rightarrow> (avro_schema \<Rightarrow> (avro_schema, unit) walk) \<Rightarrow> avro_schema list \<Rightarrow> pyval \<Rightarrow> (pyval, unit) walk"
where
  "first_fit convert resolve [] v = wreturn v"
| "first_fit convert resolve (b # bs) v =
     wbind (convert b) (\<lambda>candidate. wbind (resolve b) (\<lambda>s. wbind (wlift (avro_fits s candidate)) (\<lambda>fits.
       if fits then wreturn candidate else first_fit convert resolve bs v)))"

text \<open>One item of a record; keys of JSON content are strings.\<close>

definition field_of :: "avro_field list \<Rightarrow> pyval \<Rightarrow> avro_schema option" where
  "field_of fs k = dget (dict_of (map (\<lambda>f. (PStr (af_name f), af_type f)) fs)) k"

definition convert_item :: "(avro_schema \<Rightarrow> pyval \<Rightarrow> (pyval, unit) walk) \<Rightarrow> avro_schema option \<Rightarrow> pyval \<times> pyval \<Rightarrow> (pyval \<times> pyval, unit) walk" where
  "convert_item convert s item =
     (case s of
        Some t \<Rightarrow> wbind (convert t (snd item)) (\<lambda>x. wreturn (fst item, x))
      | None \<Rightarrow> wreturn item)"

text \<open>What a schema that is no union does with a value of each kind.\<close>

definition convert_plain :: "avro_forms \<Rightarrow> (avro_schema \<Rightarrow> pyval \<Rightarrow> (pyval, unit) walk) \<Rightarrow> avro_schema \<Rightarrow> pyval \<Rightarrow> (pyval, unit) walk" where
  "convert_plain fm convert s v =
     (case (avro_type_name s, v) of
        (Some t, PDict kvs) \<Rightarrow>
          if t \<in> set RECORD_TYPES then
            wbind (wlift (schema_key ''fields'' sd_fields s)) (\<lambda>fs.
            wbind (wmap (\<lambda>item. convert_item convert (field_of fs (fst item)) item) kvs) (\<lambda>kvs'. wreturn (PDict kvs')))
          else if t = ''map'' then
            wbind (wlift (if kvs = [] then Inr s else schema_key ''values'' sd_values s)) (\<lambda>vs.
            wbind (wmap (convert_item convert (Some vs)) kvs) (\<lambda>kvs'. wreturn (PDict kvs')))
          else wreturn v
      | (Some t, PList xs) \<Rightarrow>
          if t = ''array'' then
            wbind (wlift (if xs = [] then Inr s else schema_key ''items'' sd_items s)) (\<lambda>i.
            wbind (wmap (convert i) xs) (\<lambda>ys. wreturn (PList ys)))
          else wreturn v
      | (Some t, PStr w) \<Rightarrow> if t = ''bytes'' \<or> t = ''fixed'' then wreturn (bytes_literal fm w) else wreturn v
      | _ \<Rightarrow> wreturn v)"

fun avro_convert :: "nat \<Rightarrow> avro_forms \<Rightarrow> named_schemas \<Rightarrow> avro_schema \<Rightarrow> pyval \<Rightarrow> (pyval, unit) walk" where
  "avro_convert 0 fm named schema v = out_of_fuel"
| "avro_convert (Suc n) fm named schema v =
     wbind (avro_resolve n named schema) (\<lambda>s.
       case s of
         SUnion bs \<Rightarrow> first_fit (\<lambda>b. avro_convert n fm named b v) (avro_resolve n named) bs v
       | _ \<Rightarrow>
           convert_plain fm (avro_convert n fm named) s
             (case avro_logical_type s of Some l \<Rightarrow> avro_logical fm l v | None \<Rightarrow> v))"

text \<open>\<open>to_avro\<close>: the named schemas are the ones the parsed schema carries.\<close>

definition to_avro :: "nat \<Rightarrow> avro_forms \<Rightarrow> named_schemas \<Rightarrow> avro_schema \<Rightarrow> pyval \<Rightarrow> pyval res option" where
  "to_avro n fm named schema v = map_option fst (avro_convert n fm named schema v ())"

section \<open>Encoding\<close>

text \<open>A validation error lists the mismatches, deepest last, each with its field and schema.\<close>

type_synonym mismatches = "(string \<times> avro_schema) list"

definition join_or :: "string list \<Rightarrow> string" where
  "join_or = join '' or ''"

fun avro_expected :: "(avro_schema option \<Rightarrow> string) \<Rightarrow> avro_schema \<Rightarrow> string" where
  "avro_expected text_of (SName t) = t"
| "avro_expected text_of (SUnion bs) = join_or (map (avro_expected text_of) bs)"
| "avro_expected text_of (SDict t l nm fs i v sy) =
     (let type_name = (case t of Some (SName u) \<Rightarrow> u | _ \<Rightarrow> text_of t) in
      case l of
        Some logical \<Rightarrow> type_name @ '' ('' @ logical @ '')''
      | None \<Rightarrow> (case nm of None \<Rightarrow> type_name | Some x \<Rightarrow> if x = [] then type_name else type_name @ '' '' @ x))"

definition NO_MATCH :: string where
  "NO_MATCH = CHR ''D'' # ''oesn'' @ CHR 0x27 # ''t match the Avro schema''"

definition avro_mismatch :: "(avro_schema option \<Rightarrow> string) \<Rightarrow> mismatches \<Rightarrow> string" where
  "avro_mismatch text_of errors =
     (if errors = [] then NO_MATCH
      else
        (let field = fst (last errors);
             expected = join_or (map (avro_expected text_of \<circ> snd) (filter (\<lambda>d. fst d = field) errors)) in
         NO_MATCH @ '' at '' @ (if field = [] then ''the root'' else field) @ '': expected '' @ expected))"

text \<open>The exceptions of the writer that become a \<open>SerializationError\<close>.\<close>

fun is_writer_error :: "exn \<Rightarrow> bool" where
  "is_writer_error AttributeError = True"
| "is_writer_error (KeyError _) = True"
| "is_writer_error OverflowError = True"
| "is_writer_error TypeError = True"
| "is_writer_error e = is_value_error e"

record avro_lib =
  al_validate :: "pyval \<Rightarrow> avro_schema \<Rightarrow> mismatches option res"
  al_write :: "avro_schema \<Rightarrow> pyval \<Rightarrow> byte list res"

definition encode_avro ::
  "nat \<Rightarrow> avro_forms \<Rightarrow> avro_lib \<Rightarrow> (avro_schema option \<Rightarrow> string) \<Rightarrow> named_schemas \<Rightarrow> avro_schema \<Rightarrow> pyval \<Rightarrow> byte list res option" where
  "encode_avro n fm lib text_of named schema content =
     map_option (\<lambda>datum. rbind datum (\<lambda>d.
       rbind (al_validate lib d schema) (\<lambda>verdict.
         case verdict of
           Some errors \<Rightarrow> Inl (SerializationError (avro_mismatch text_of errors))
         | None \<Rightarrow>
             (case al_write lib schema d of
                Inl e \<Rightarrow> Inl (if is_writer_error e then SerializationError NO_MATCH else e)
              | Inr data \<Rightarrow> Inr data))))
       (to_avro n fm named schema content)"

section \<open>Bytes literals\<close>

lemma ascii_char_eq: "ascii_char b = c \<longleftrightarrow> byte_nat b = code c"
proof
  assume "byte_nat b = code c"
  then show "ascii_char b = c" by (simp add: ascii_char_def code_def)
qed auto

lemma literal_body_byte:
  assumes "q = CHR 0x27 \<or> q = CHR 0x22"
  shows "literal_body q (literal_byte q b @ s) = map_option ((#) b) (literal_body q s)"
proof -
  note codes = code_def ascii_char_eq
  have b: "byte_of (byte_nat b) = b" by simp
  have q: "q \<noteq> CHR 0x5C" "code q = 39 \<or> code q = 34" using assms by (auto simp: code_def)
  consider (quote) "ascii_char b = q \<or> byte_nat b = 92" | (ws) "byte_nat b \<in> {9, 10, 13}"
    | (plain) "ascii_char b \<noteq> q" "byte_nat b \<noteq> 92" "32 \<le> byte_nat b" "byte_nat b \<le> 126"
    | (hexa) "ascii_char b \<noteq> q" "byte_nat b \<notin> {9, 10, 13, 92}" "\<not> (32 \<le> byte_nat b \<and> byte_nat b \<le> 126)" by auto
  then show ?thesis
  proof cases
    case quote
    then have "ascii_char b \<in> {CHR 0x5C, CHR 0x27, CHR 0x22}" using assms by (auto simp: ascii_char_eq code_def)
    then show ?thesis using quote q by (auto simp: literal_byte_def simple_escape_def)
  next
    case ws
    moreover from this have "\<not> (ascii_char b = q \<or> byte_nat b = 92)" using q(2) by (auto simp: ascii_char_eq)
    moreover have "byte_nat b = 9 \<Longrightarrow> byte_of 9 = b" "byte_nat b = 10 \<Longrightarrow> byte_of 10 = b" "byte_nat b = 13 \<Longrightarrow> byte_of 13 = b"
      using b by metis+
    ultimately show ?thesis using q(1) by (auto simp: literal_byte_def simple_escape_def)
  next
    case plain
    then have "ascii_char b \<noteq> CHR 0x5C" by (simp add: ascii_char_eq code_def)
    then show ?thesis using plain by (simp add: literal_byte_def)
  next
    case hexa
    then show ?thesis using q(1)
      by (cases "32 \<le> byte_nat b") (simp_all add: literal_byte_def hex2_def simple_escape_def byte_of_split)
  qed
qed

lemma literal_body_repr:
  "q = CHR 0x27 \<or> q = CHR 0x22 \<Longrightarrow> literal_body q (concat (map (literal_byte q) data) @ [q]) = Some data"
  by (induction data) (simp_all add: literal_body_byte)

lemma bytes_literal_repr [simp]: "bytes_literal fm (bytes_repr data) = PBytes data"
  by (simp add: bytes_literal_def bytes_repr_def literal_quote_def Let_def literal_body_repr)

section \<open>More fuel changes nothing\<close>

lemma avro_resolve_Suc: "wle (avro_resolve n named s) (avro_resolve (Suc n) named s)"
proof (induction n arbitrary: s)
  case 0
  show ?case by (simp add: wle_def)
next
  case (Suc n)
  then show ?case by (cases s) (auto split: option.split)
qed

lemma avro_resolve_mono: "wmono (\<lambda>n. avro_resolve n named s)"
  by (rule wmono_Suc) (rule avro_resolve_Suc)

lemma first_fit_mono:
  "(\<And>b. b \<in> set bs \<Longrightarrow> wle (f b) (f' b)) \<Longrightarrow> (\<And>b. wle (r b) (r' b)) \<Longrightarrow> wle (first_fit f r bs v) (first_fit f' r' bs v)"
  by (induction bs) (auto intro!: wle_bind)

lemma convert_item_mono: "(\<And>t w. wle (f t w) (f' t w)) \<Longrightarrow> wle (convert_item f s i) (convert_item f' s i)"
  by (cases s) (auto simp: convert_item_def intro!: wle_bind)

lemma convert_plain_mono: "(\<And>t w. wle (f t w) (f' t w)) \<Longrightarrow> wle (convert_plain fm f s v) (convert_plain fm f' s v)"
proof (cases "avro_type_name s")
  case (Some t)
  assume f: "\<And>t w. wle (f t w) (f' t w)"
  show ?thesis
  proof (cases v)
    case (PDict kvs)
    show ?thesis unfolding convert_plain_def Some PDict option.case pyval.case prod.case
      by (intro wle_if wle_bind wle_map convert_item_mono f wle_refl)
  next
    case (PList xs)
    show ?thesis unfolding convert_plain_def Some PList option.case pyval.case prod.case
      by (intro wle_if wle_bind wle_map f wle_refl)
  qed (simp_all add: convert_plain_def Some)
qed (simp add: convert_plain_def)

lemma avro_convert_Suc: "wle (avro_convert n fm named s v) (avro_convert (Suc n) fm named s v)"
proof (induction n arbitrary: s v)
  case 0
  show ?case by (simp add: wle_def)
next
  case (Suc n)
  have "wle (case t of SUnion bs \<Rightarrow> first_fit (\<lambda>b. avro_convert n fm named b v) (avro_resolve n named) bs v
        | _ \<Rightarrow> convert_plain fm (avro_convert n fm named) t w)
      (case t of SUnion bs \<Rightarrow> first_fit (\<lambda>b. avro_convert (Suc n) fm named b v) (avro_resolve (Suc n) named) bs v
        | _ \<Rightarrow> convert_plain fm (avro_convert (Suc n) fm named) t w)" for t w
    by (cases t) (simp_all only: avro_schema.case first_fit_mono convert_plain_mono Suc.IH avro_resolve_Suc)
  then show ?case
    unfolding avro_convert.simps(2)[of "Suc n"] avro_convert.simps(2)[of n] by (intro wle_bind avro_resolve_Suc)
qed

lemma avro_convert_mono: "wmono (\<lambda>n. avro_convert n fm named s v)"
  by (rule wmono_Suc) (rule avro_convert_Suc)

section \<open>Enough fuel\<close>

text \<open>Every named schema is a definition whose type is no name itself.\<close>

definition named_definitions :: "named_schemas \<Rightarrow> bool" where
  "named_definitions named \<longleftrightarrow>
     list_all (\<lambda>(_, s). case s of SDict (Some (SName t)) _ _ _ _ _ _ \<Rightarrow> \<not> din t named | _ \<Rightarrow> False) named"

lemma named_definition:
  assumes "named_definitions named" and "dget named x = Some s"
  shows "\<exists>t l nm fs i v sy. s = SDict (Some (SName t)) l nm fs i v sy \<and> \<not> din t named"
proof -
  have "(x, s) \<in> set named" using assms(2) by (rule map_of_SomeD)
  then show ?thesis using assms(1)
    by (auto simp: named_definitions_def list_all_iff split: avro_schema.splits option.splits)
qed

lemma resolve_ends:
  assumes "named_definitions named"
  shows "wends I (\<lambda>r. \<forall>bs. r = SUnion bs \<longrightarrow> (\<forall>b \<in> set bs. size b < size s)) (\<lambda>n. avro_resolve n named s)"
proof (induction "size s" arbitrary: s rule: less_induct)
  case less
  show ?case
  proof (rule wends_Suc, cases s)
    case (SName x)
    show "wends I (\<lambda>r. \<forall>bs. r = SUnion bs \<longrightarrow> (\<forall>b \<in> set bs. size b < size s)) (\<lambda>n. avro_resolve (Suc n) named s)"
    proof (cases "dget named x")
      case (Some d)
      then obtain t l nm fs i v sy where d: "d = SDict (Some (SName t)) l nm fs i v sy" "\<not> din t named"
        using named_definition[OF assms] by blast
      have "wends I (\<lambda>r. \<forall>bs. r = SUnion bs \<longrightarrow> (\<forall>b \<in> set bs. size b < size s)) (\<lambda>n. avro_resolve (Suc (Suc n)) named s)"
        using Some SName d(2) unfolding d(1) by (simp, intro wends_lift) auto
      then show ?thesis by (rule wends_Suc)
    qed (auto simp: SName intro: wends_lift)
  next
    case (SUnion bs)
    then show "wends I (\<lambda>r. \<forall>bs. r = SUnion bs \<longrightarrow> (\<forall>b \<in> set bs. size b < size s)) (\<lambda>n. avro_resolve (Suc n) named s)"
      by (auto intro!: wends_lift simp: less_Suc_eq_le size_list_estimation')
  next
    case (SDict t l nm fs i v sy)
    show "wends I (\<lambda>r. \<forall>bs. r = SUnion bs \<longrightarrow> (\<forall>b \<in> set bs. size b < size s)) (\<lambda>n. avro_resolve (Suc n) named s)"
    proof (cases "l = None \<and> avro_wraps named t")
      case True
      then obtain u where t: "t = Some u" by (cases t) auto
      have u: "size u < size s" by (simp add: SDict t)
      have "wends I (\<lambda>r. \<forall>bs. r = SUnion bs \<longrightarrow> (\<forall>b \<in> set bs. size b < size s)) (\<lambda>n. avro_resolve n named u)"
        by (rule wends_weaken[OF less[OF u]]) (use u in \<open>auto dest: less_trans\<close>)
      then show ?thesis using True by (simp add: SDict t)
    qed (auto simp: SDict intro: wends_lift)
  qed
qed

lemma first_fit_wmono:
  assumes "\<And>b. wmono (\<lambda>n. f n b)" and "\<And>b. wmono (\<lambda>n. r n b)"
  shows "wmono (\<lambda>n. first_fit (f n) (r n) bs v)"
  using assms unfolding wmono_def by (auto intro!: first_fit_mono)

lemma convert_plain_wmono:
  assumes "\<And>t w. wmono (\<lambda>n. f n t w)"
  shows "wmono (\<lambda>n. convert_plain fm (f n) s v)"
  using assms unfolding wmono_def by (auto intro!: convert_plain_mono)

lemma convert_item_wmono: "(\<And>t w. wmono (\<lambda>n. f n t w)) \<Longrightarrow> wmono (\<lambda>n. convert_item (f n) s i)"
  unfolding wmono_def by (auto intro!: convert_item_mono)

lemma convert_item_ends:
  assumes "\<And>t w. wmono (\<lambda>n. f n t w)" and "\<And>t. wends I (\<lambda>_. True) (\<lambda>n. f n t (snd i))"
  shows "wends I (\<lambda>_. True) (\<lambda>n. convert_item (f n) s i)"
proof (cases s)
  case (Some t)
  then show ?thesis unfolding convert_item_def option.case Some
    by (intro wends_bind[where Q = "\<lambda>_. True"] assms wmono_intros wends_lift) simp_all
qed (simp add: convert_item_def wends_lift)

lemma convert_plain_ends:
  assumes m: "\<And>t w. wmono (\<lambda>n. f n t w)"
    and rec: "\<And>t w. (\<exists>xs. v = PList xs \<and> w \<in> set xs) \<or> (\<exists>kvs k. v = PDict kvs \<and> (k, w) \<in> set kvs) \<Longrightarrow>
       wends I (\<lambda>_. True) (\<lambda>n. f n t w)"
  shows "wends I (\<lambda>_. True) (\<lambda>n. convert_plain fm (f n) s v)"
proof (cases "avro_type_name s")
  case (Some t)
  show ?thesis
  proof (cases v)
    case (PDict kvs)
    have item: "i \<in> set kvs \<Longrightarrow> wends I (\<lambda>_. True) (\<lambda>n. convert_item (f n) s' i)" for i s'
      by (rule convert_item_ends[OF m]) (use rec[of "snd i"] PDict in \<open>cases i, auto\<close>)
    show ?thesis unfolding convert_plain_def Some PDict option.case pyval.case prod.case
      by (intro wends_if wends_bind[where Q = "\<lambda>_. True", OF wends_lift]
            wends_bind[where Q = "\<lambda>ys. list_all2 (\<lambda>_ _. True) kvs ys", OF wends_map] item wmono_intros
          convert_item_wmono m wends_lift TrueI)
  next
    case (PList xs)
    show ?thesis unfolding convert_plain_def Some PList option.case pyval.case prod.case
      by (intro wends_if wends_bind[where Q = "\<lambda>_. True", OF wends_lift]
            wends_bind[where Q = "\<lambda>ys. list_all2 (\<lambda>_ _. True) xs ys", OF wends_map] rec wmono_intros m wends_lift TrueI)
        (auto simp: PList)
  qed (simp_all add: convert_plain_def Some wends_lift)
qed (simp add: convert_plain_def wends_lift)

lemma first_fit_ends:
  assumes "\<And>b. wmono (\<lambda>n. f n b)" and "\<And>b. wmono (\<lambda>n. r n b)"
    and "\<And>b. b \<in> set bs \<Longrightarrow> wends I (\<lambda>_. True) (\<lambda>n. f n b)" and "\<And>b. wends I (\<lambda>_. True) (\<lambda>n. r n b)"
  shows "wends I (\<lambda>_. True) (\<lambda>n. first_fit (f n) (r n) bs v)"
  using assms(3)
proof (induction bs)
  case (Cons b bs)
  then show ?case unfolding first_fit.simps
    by (intro wends_if wends_bind[where Q = "\<lambda>_. True"] wmono_intros first_fit_wmono assms(1,2,4) wends_lift TrueI) auto
qed (simp add: wends_lift)

lemma avro_logical_parts: "avro_logical fm l (PList xs) = PList xs" "avro_logical fm l (PDict kvs) = PDict kvs"
  by (simp_all add: avro_logical_def avro_number_text_def)

lemma avro_logical_structure:
  "avro_logical fm l v = PList xs \<Longrightarrow> v = PList xs" "avro_logical fm l v = PDict kvs \<Longrightarrow> v = PDict kvs"
  by (cases v; auto simp: avro_logical_def avro_number_text_def read_form_def split: if_splits option.splits)+

lemma size_pyval_parts:
  "w \<in> set xs \<Longrightarrow> size w < size (PList xs)" "(k, w) \<in> set kvs \<Longrightarrow> size w < size (PDict kvs)"
  by (induction xs; fastforce) (induction kvs; fastforce)

lemma convert_ends:
  assumes "named_definitions named"
  shows "wends I (\<lambda>_. True) (\<lambda>n. avro_convert n fm named s v)"
proof (induction "(size v, size s)" arbitrary: s v rule: wf_induct[OF wf_lex_prod[OF wf_less_than wf_less_than]])
  case (1 s v)
  have smaller: "wends I (\<lambda>_. True) (\<lambda>n. avro_convert n fm named t w)" if "size w < size v \<or> size w = size v \<and> size t < size s" for t w
    using 1 that by (auto simp: less_than_iff)
  let ?v = "\<lambda>r. case avro_logical_type r of Some l \<Rightarrow> avro_logical fm l v | None \<Rightarrow> v"
  have "wends I (\<lambda>_. True) (\<lambda>n. case r of SUnion bs \<Rightarrow> first_fit (\<lambda>b. avro_convert n fm named b v) (avro_resolve n named) bs v
        | _ \<Rightarrow> convert_plain fm (avro_convert n fm named) r (?v r))"
    if r: "\<forall>bs. r = SUnion bs \<longrightarrow> (\<forall>b \<in> set bs. size b < size s)" for r
  proof -
    have "wends I (\<lambda>_. True) (\<lambda>n. convert_plain fm (avro_convert n fm named) r (?v r))"
      by (intro convert_plain_ends avro_convert_mono smaller)
        (auto dest!: avro_logical_structure dest: size_pyval_parts split: option.splits)
    moreover have "wends I (\<lambda>_. True) (\<lambda>n. first_fit (\<lambda>b. avro_convert n fm named b v) (avro_resolve n named) bs v)" if "r = SUnion bs" for bs
      using r that by (intro first_fit_ends avro_convert_mono avro_resolve_mono smaller wends_weaken[OF resolve_ends[OF assms]]) auto
    ultimately show ?thesis by (cases r) simp_all
  qed
  moreover have "wmono (\<lambda>n. case r of SUnion bs \<Rightarrow> first_fit (\<lambda>b. avro_convert n fm named b v) (avro_resolve n named) bs v
        | _ \<Rightarrow> convert_plain fm (avro_convert n fm named) r (?v r))" for r
    by (cases r) (simp_all add: first_fit_wmono convert_plain_wmono avro_convert_mono avro_resolve_mono)
  ultimately have "wends I (\<lambda>_. True) (\<lambda>n. avro_convert (Suc n) fm named s v)"
    unfolding avro_convert.simps by (intro wends_bind[OF resolve_ends[OF assms]] avro_resolve_mono)
  then show ?case by (rule wends_Suc)
qed

section \<open>Values of a schema\<close>

text \<open>What the exported JSON document has for content, as JSON reads it: \<open>json.dumps\<close> writes with \<open>str()\<close> what
  JSON lacks, nested bytes and the dates, times and decimals of \<open>POther\<close>. (Bytes that are the whole content
  never get here: \<open>json_content\<close> has encoded them.)\<close>

fun shown :: "pyval \<Rightarrow> pyval" where
  "shown (PBytes data) = PStr (bytes_repr data)"
| "shown (POther x) = PStr x"
| "shown (PList xs) = PList (map shown xs)"
| "shown (PDict kvs) = PDict (map (\<lambda>(k, v). (k, shown v)) kvs)"
| "shown v = v"

definition plain_value :: "string \<Rightarrow> pyval \<Rightarrow> bool" where
  "plain_value t v \<longleftrightarrow>
     (case v of
        PNone \<Rightarrow> t = ''null'' | PBool _ \<Rightarrow> t = ''boolean'' | PInt _ \<Rightarrow> t \<in> {''int'', ''long'', ''float'', ''double''}
      | PFloat _ \<Rightarrow> t \<in> {''float'', ''double''} | PStr _ \<Rightarrow> t = ''string'' | PBytes _ \<Rightarrow> t = ''bytes'' | _ \<Rightarrow> False)"

fun not_union :: "avro_schema \<Rightarrow> bool" where
  "not_union (SName _) = True"
| "not_union (SUnion _) = False"
| "not_union (SDict t _ _ _ _ _ _) = (case t of Some u \<Rightarrow> not_union u | None \<Rightarrow> True)"

text \<open>A value of a logical type whose \<open>str()\<close> is \<open>x\<close>: the standard library reads it back from that text.\<close>

definition logical_value :: "avro_forms \<Rightarrow> string \<Rightarrow> string \<Rightarrow> bool" where
  "logical_value fm l x \<longleftrightarrow>
     l \<in> {''timestamp-millis'', ''timestamp-micros'', ''timestamp-nanos'', ''local-timestamp-millis'', ''local-timestamp-micros'',
          ''local-timestamp-nanos''} \<and> fm_datetime fm x = Some x \<and> (x = [] \<or> last x \<notin> {CHR ''Z'', CHR ''z''}) \<or>
     l = ''date'' \<and> fm_date fm x = Some x \<or>
     l \<in> {''time-millis'', ''time-micros''} \<and> fm_time fm x = Some x \<or>
     l = ''decimal'' \<and> fm_decimal fm x = Some x"

text \<open>The values of a schema that are covered: no UUIDs, and unions of one type with null, or of several types for null.\<close>

inductive avro_typed :: "avro_forms \<Rightarrow> named_schemas \<Rightarrow> avro_schema \<Rightarrow> pyval \<Rightarrow> bool" for fm named where
  primitive: "\<not> din t named \<Longrightarrow> plain_value t v \<Longrightarrow> avro_typed fm named (SName t) v"
| reference: "dget named x = Some s \<Longrightarrow> not_union s \<Longrightarrow> avro_typed fm named s v \<Longrightarrow> avro_typed fm named (SName x) v"
| wrapped: "avro_wraps named (Some u) \<Longrightarrow> avro_typed fm named u v \<Longrightarrow> avro_typed fm named (SDict (Some u) None nm fs i vs sy) v"
| annotated: "\<not> din t named \<Longrightarrow> plain_value t v \<Longrightarrow> avro_typed fm named (SDict (Some (SName t)) None nm fs i vs sy) v"
| fixed: "\<not> din ''fixed'' named \<Longrightarrow> avro_typed fm named (SDict (Some (SName ''fixed'')) None nm fs i vs sy) (PBytes data)"
| logical: "t \<in> {''int'', ''long'', ''bytes'', ''fixed''} \<Longrightarrow> logical_value fm l x \<Longrightarrow>
    avro_typed fm named (SDict (Some (SName t)) (Some l) nm fs i vs sy) (POther x)"
| enum: "\<not> din ''enum'' named \<Longrightarrow> w \<in> set sy \<Longrightarrow> avro_typed fm named (SDict (Some (SName ''enum'')) None nm fs i vs (Some sy)) (PStr w)"
| of_record: "\<not> din t named \<Longrightarrow> t \<in> set RECORD_TYPES \<Longrightarrow>
    list_all (\<lambda>(k, x). \<exists>u. field_of fs k = Some u \<and> avro_typed fm named u x) kvs \<Longrightarrow>
    list_all (\<lambda>f. PStr (af_name f) \<in> set (map fst kvs)) (filter (\<lambda>f. \<not> af_default f) fs) \<Longrightarrow>
    avro_typed fm named (SDict (Some (SName t)) None nm (Some fs) i vs sy) (PDict kvs)"
| of_array: "\<not> din ''array'' named \<Longrightarrow> list_all (avro_typed fm named u) xs \<Longrightarrow>
    avro_typed fm named (SDict (Some (SName ''array'')) None nm fs (Some u) vs sy) (PList xs)"
| of_map: "\<not> din ''map'' named \<Longrightarrow> list_all (\<lambda>(k, x). (\<exists>w. k = PStr w) \<and> avro_typed fm named u x) kvs \<Longrightarrow>
    avro_typed fm named (SDict (Some (SName ''map'')) None nm fs i (Some u) sy) (PDict kvs)"
| union_null: "\<not> din ''null'' named \<Longrightarrow> list_all (\<lambda>b. not_union b \<and> (\<exists>w. avro_typed fm named b w)) pre \<Longrightarrow>
    avro_typed fm named (SUnion (pre @ SName ''null'' # post)) PNone"
| union_value: "\<not> din ''null'' named \<Longrightarrow> v \<noteq> PNone \<Longrightarrow> set pre \<subseteq> {SName ''null''} \<Longrightarrow> not_union b \<Longrightarrow>
    avro_typed fm named b v \<Longrightarrow> avro_typed fm named (SUnion (pre @ b # post)) v"
monos list.pred_mono

section \<open>Converting what is shown\<close>

text \<open>What \<open>_convert\<close> does once the schema is resolved.\<close>

definition avro_body :: "nat \<Rightarrow> avro_forms \<Rightarrow> named_schemas \<Rightarrow> avro_schema \<Rightarrow> pyval \<Rightarrow> (pyval, unit) walk" where
  "avro_body n fm named s v =
     (case s of
        SUnion bs \<Rightarrow> first_fit (\<lambda>b. avro_convert n fm named b v) (avro_resolve n named) bs v
      | _ \<Rightarrow> convert_plain fm (avro_convert n fm named) s (case avro_logical_type s of Some l \<Rightarrow> avro_logical fm l v | None \<Rightarrow> v))"

lemma convert_gives:
  assumes "wgives (\<lambda>n. avro_resolve n named s) r" and "wgives (\<lambda>n. avro_body n fm named r v) x"
  shows "wgives (\<lambda>n. avro_convert n fm named s v) x"
proof -
  have "wgives (\<lambda>n. avro_convert (Suc n) fm named s v) x"
    unfolding avro_convert.simps avro_body_def[symmetric] by (rule wgives_bind[where f = "\<lambda>n r. avro_body n fm named r v", OF assms])
  then show ?thesis by (rule wgives_Suc[THEN iffD1])
qed

text \<open>A schema with a value converts the value back, and its type tells the value from null.\<close>

definition converts :: "avro_forms \<Rightarrow> named_schemas \<Rightarrow> avro_schema \<Rightarrow> pyval \<Rightarrow> bool" where
  "converts fm named s v \<longleftrightarrow>
     (\<exists>r. wgives (\<lambda>n. avro_resolve n named s) r \<and> wgives (\<lambda>n. avro_body n fm named r (shown v)) v \<and>
        (not_union s \<longrightarrow> (\<forall>bs. r \<noteq> SUnion bs) \<and> avro_fits r v = Inr True \<and> avro_fits r PNone = Inr (v = PNone)))"

lemma converts_gives: "converts fm named s v \<Longrightarrow> wgives (\<lambda>n. avro_convert n fm named s (shown v)) v"
  unfolding converts_def by (blast intro: convert_gives)

lemma plain_body:
  "\<forall>bs. r \<noteq> SUnion bs \<Longrightarrow> avro_logical_type r = None \<Longrightarrow>
     avro_body n fm named r v = convert_plain fm (avro_convert n fm named) r v"
  unfolding avro_body_def by (cases r) simp_all

lemma plain_value_converts:
  assumes "plain_value t v" and "avro_type_name r = Some t"
  shows "convert_plain fm f r (shown v) = wreturn v" and "avro_logical_type r = None \<Longrightarrow> avro_fits r v = Inr True"
  using assms by (cases v; auto simp: plain_value_def convert_plain_def avro_fits_def TYPE_CHECKS_def RECORD_TYPES_def)+

lemma plain_fits_null: "plain_value t v \<Longrightarrow> avro_type_name r = Some t \<Longrightarrow> avro_logical_type r = None \<Longrightarrow> avro_fits r PNone = Inr (v = PNone)"
  by (cases v; auto simp: plain_value_def avro_fits_def TYPE_CHECKS_def RECORD_TYPES_def fits_record_def split: option.split)

lemma resolve_name: "\<not> din t named \<Longrightarrow> wgives (\<lambda>n. avro_resolve n named (SName t)) (SName t)"
  by (subst wgives_Suc[symmetric]) (simp add: din_iff_get del: wlift_simps)

lemma resolve_reference: "dget named x = Some s \<Longrightarrow> wgives (\<lambda>n. avro_resolve n named (SName x)) r \<longleftrightarrow> wgives (\<lambda>n. avro_resolve n named s) r"
  by (subst wgives_Suc[symmetric]) simp

lemma resolve_dict:
  "\<not> (l = None \<and> avro_wraps named t) \<Longrightarrow> wgives (\<lambda>n. avro_resolve n named (SDict t l nm fs i vs sy)) (SDict t l nm fs i vs sy)"
  by (subst wgives_Suc[symmetric]) (simp only: avro_resolve.simps if_False wgives_lift)

lemma resolve_union: "wgives (\<lambda>n. avro_resolve n named (SUnion bs)) (SUnion bs)"
  by (subst wgives_Suc[symmetric]) (simp del: wlift_simps)

lemma resolve_wrapped:
  "avro_wraps named (Some u) \<Longrightarrow>
     wgives (\<lambda>n. avro_resolve n named (SDict (Some u) None nm fs i vs sy)) r \<longleftrightarrow> wgives (\<lambda>n. avro_resolve n named u) r"
  by (subst wgives_Suc[symmetric]) simp

lemma wmap_gives_items:
  assumes "\<And>k x. (k, x) \<in> set kvs \<Longrightarrow> wgives (\<lambda>n. convert_item (f n) (s k) (k, g x)) (k, x)"
  shows "wgives (\<lambda>n. wmap (\<lambda>i. convert_item (f n) (s (fst i)) i) (map (\<lambda>(k, x). (k, g x)) kvs)) kvs"
  using assms by (intro wgives_map) (auto simp: list.rel_map intro!: list.rel_refl_strong)

lemma convert_item_gives: "wgives (\<lambda>n. f n t v) x \<Longrightarrow> wgives (\<lambda>n. convert_item (f n) (Some t) (k, v)) (k, x)"
  unfolding convert_item_def option.case
  by (rule wgives_bind[where f = "\<lambda>n x. wreturn (fst (k, v), x)"]) simp_all

lemma null_body: "\<forall>bs. r \<noteq> SUnion bs \<Longrightarrow> avro_body n fm named r PNone = wreturn PNone"
  unfolding avro_body_def
  by (cases r) (simp_all add: convert_plain_def avro_logical_def avro_number_text_def del: wlift_simps split: option.split)

text \<open>Unions: the first branch that fits.\<close>

lemma first_fit_taken:
  assumes "wgives (\<lambda>n. f n b) c" and "wgives (\<lambda>n. g n b) s" and "avro_fits s c = Inr True"
  shows "wgives (\<lambda>n. first_fit (f n) (g n) (b # bs) v) c"
  unfolding first_fit.simps
  by (rule wgives_bind[where f = "\<lambda>n c. wbind (g n b) (\<lambda>s. wbind (wlift (avro_fits s c)) (\<lambda>fits.
       if fits then wreturn c else first_fit (f n) (g n) bs v))", OF assms(1)],
      rule wgives_bind[where f = "\<lambda>n s. wbind (wlift (avro_fits s c)) (\<lambda>fits.
       if fits then wreturn c else first_fit (f n) (g n) bs v)", OF assms(2)])
    (simp add: assms(3) del: wlift_simps)

lemma first_fit_skipped:
  assumes "wgives (\<lambda>n. f n b) c" and "wgives (\<lambda>n. g n b) s" and "avro_fits s c = Inr False"
    and "wgives (\<lambda>n. first_fit (f n) (g n) bs v) x"
  shows "wgives (\<lambda>n. first_fit (f n) (g n) (b # bs) v) x"
  unfolding first_fit.simps
  by (rule wgives_bind[where f = "\<lambda>n c. wbind (g n b) (\<lambda>s. wbind (wlift (avro_fits s c)) (\<lambda>fits.
       if fits then wreturn c else first_fit (f n) (g n) bs v))", OF assms(1)],
      rule wgives_bind[where f = "\<lambda>n s. wbind (wlift (avro_fits s c)) (\<lambda>fits.
       if fits then wreturn c else first_fit (f n) (g n) bs v)", OF assms(2)])
    (simp add: assms(3,4) del: wlift_simps)

lemmas union_taken = first_fit_taken[where f = "\<lambda>n b. avro_convert n fm named b w" and g = "\<lambda>n. avro_resolve n named" and v = w for fm named w]
lemmas union_skipped = first_fit_skipped[where f = "\<lambda>n b. avro_convert n fm named b w" and g = "\<lambda>n. avro_resolve n named" and v = w for fm named w]

lemma plain_converts:
  assumes "plain_value t v" and "avro_type_name r = Some t" and "\<forall>bs. r \<noteq> SUnion bs" and "avro_logical_type r = None"
    and "wgives (\<lambda>n. avro_resolve n named r) r"
  shows "converts fm named r v"
  unfolding converts_def
  by (intro exI[of _ r])
    (simp add: plain_body plain_value_converts[OF assms(1,2)] plain_fits_null[OF assms(1,2)] assms(3-5) del: wlift_simps)

lemma resolve_self:
  "\<not> din t named \<Longrightarrow> wgives (\<lambda>n. avro_resolve n named (SDict (Some (SName t)) l nm fs i vs sy)) (SDict (Some (SName t)) l nm fs i vs sy)"
  by (rule resolve_dict) simp

lemma union_null_gives:
  assumes "\<not> din ''null'' named" and "\<And>b. b \<in> set pre \<Longrightarrow> not_union b \<and> (\<exists>w. converts fm named b w)"
  shows "wgives (\<lambda>n. first_fit (\<lambda>b. avro_convert n fm named b PNone) (avro_resolve n named) (pre @ SName ''null'' # post) PNone) PNone"
  using assms(2)
proof (induction pre)
  case Nil
  have "converts fm named (SName ''null'') PNone"
    using assms(1) by (intro plain_converts[where t = "''null''"] resolve_name) (simp_all add: plain_value_def)
  then obtain r where r: "wgives (\<lambda>n. avro_resolve n named (SName ''null'')) r" "avro_fits r PNone = Inr True"
    and c: "wgives (\<lambda>n. avro_convert n fm named (SName ''null'') PNone) PNone"
    using converts_gives[of fm named "SName ''null''" PNone] by (auto simp: converts_def)
  show ?case unfolding append_Nil by (rule union_taken[OF c r])
next
  case (Cons b pre)
  obtain r w where r: "wgives (\<lambda>n. avro_resolve n named b) r" and f: "avro_fits r PNone = Inr (w = PNone)"
    and u: "\<forall>bs. r \<noteq> SUnion bs"
    using Cons.prems[of b] by (auto simp: converts_def)
  have c: "wgives (\<lambda>n. avro_convert n fm named b PNone) PNone"
    by (rule convert_gives[OF r]) (simp add: null_body[OF u] del: wlift_simps)
  show ?case
  proof (cases "w = PNone")
    case True
    show ?thesis unfolding append_Cons by (rule union_taken[OF c r]) (simp add: f True)
  next
    case False
    show ?thesis unfolding append_Cons by (rule union_skipped[OF c r _ Cons.IH]) (use False f Cons.prems in auto)
  qed
qed

lemma union_value_gives:
  assumes "\<not> din ''null'' named" and "set pre \<subseteq> {SName ''null''}" and v: "v \<noteq> PNone"
    and "wgives (\<lambda>n. first_fit (\<lambda>b. avro_convert n fm named b v) (avro_resolve n named) bs v) x"
  shows "wgives (\<lambda>n. first_fit (\<lambda>b. avro_convert n fm named b v) (avro_resolve n named) (pre @ bs) v) x"
  using assms(2)
proof (induction pre)
  case (Cons b pre)
  then have b: "b = SName ''null''" by simp
  have r: "wgives (\<lambda>n. avro_resolve n named b) (SName ''null'')" unfolding b by (rule resolve_name) fact
  have "convert_plain fm f (SName ''null'') v = wreturn v" for f
    by (cases v) (simp_all add: convert_plain_def RECORD_TYPES_def)
  then have c: "wgives (\<lambda>n. avro_convert n fm named b v) v"
    by (intro convert_gives[OF r]) (simp add: plain_body del: wlift_simps)
  show ?case unfolding append_Cons
    by (rule union_skipped[OF c r _ Cons.IH]) (use Cons.prems v in \<open>simp_all add: avro_fits_def TYPE_CHECKS_def RECORD_TYPES_def\<close>)
qed (simp add: assms(4))

lemma logical_value_read:
  assumes "logical_value fm l x"
  shows "avro_logical fm l (PStr x) = POther x"
proof -
  consider (datetime) "l \<in> set DATETIME_LOGICAL_TYPES" "fm_datetime fm x = Some x" "x = [] \<or> last x \<notin> {CHR ''Z'', CHR ''z''}"
    | (date) "l = ''date''" "fm_date fm x = Some x" | (time) "l \<in> set TIME_LOGICAL_TYPES" "fm_time fm x = Some x"
    | (decimal) "l = ''decimal''" "fm_decimal fm x = Some x"
    using assms unfolding logical_value_def DATETIME_LOGICAL_TYPES_def TIME_LOGICAL_TYPES_def list.set by argo
  then show ?thesis
  proof cases
    case datetime
    then have "utc_suffix x = x" by (auto simp: utc_suffix_def)
    then show ?thesis using datetime by (simp add: avro_logical_def read_form_def)
  next
    case date
    then show ?thesis by (simp add: avro_logical_def read_form_def DATETIME_LOGICAL_TYPES_def)
  next
    case time
    then have "l \<notin> set DATETIME_LOGICAL_TYPES" "l \<noteq> ''date''" by (auto simp: TIME_LOGICAL_TYPES_def DATETIME_LOGICAL_TYPES_def)
    then show ?thesis using time by (simp add: avro_logical_def read_form_def)
  next
    case decimal
    then show ?thesis by (simp add: avro_logical_def read_form_def DATETIME_LOGICAL_TYPES_def TIME_LOGICAL_TYPES_def)
  qed
qed

lemma typed_converts:
  assumes "avro_typed fm named s v"
  shows "converts fm named s v"
  using assms
proof (induction rule: avro_typed.induct)
  case (primitive t v)
  then show ?case by (intro plain_converts[where t = t] resolve_name) simp_all
next
  case (reference x s v)
  then show ?case by (auto simp: converts_def resolve_reference)
next
  case (wrapped u v nm fs i vs sy)
  then show ?case by (auto simp: converts_def resolve_wrapped)
next
  case (annotated t v nm fs i vs sy)
  then show ?case by (intro plain_converts[where t = t] resolve_self) simp_all
next
  case (fixed nm fs i vs sy data)
  then show ?case unfolding converts_def
    by (intro exI[of _ "SDict (Some (SName ''fixed'')) None nm fs i vs sy"])
      (simp add: resolve_self plain_body convert_plain_def avro_fits_def TYPE_CHECKS_def RECORD_TYPES_def del: wlift_simps)
next
  case (logical t l x nm fs i vs sy)
  let ?s = "SDict (Some (SName t)) (Some l) nm fs i vs sy"
  have body: "avro_body n fm named ?s (PStr x) = wreturn (POther x)" for n
    by (simp add: avro_body_def logical_value_read[OF logical.hyps(2)] convert_plain_def del: wlift_simps)
  have "wgives (\<lambda>n. avro_resolve n named ?s) ?s" by (rule resolve_dict) simp
  moreover have "avro_fits ?s PNone = Inr False"
    using logical.hyps(1) by (auto simp: avro_fits_def TYPE_CHECKS_def RECORD_TYPES_def)
  moreover have "avro_fits ?s (POther x) = Inr True" by (simp add: avro_fits_def)
  ultimately show ?case unfolding converts_def
    by (intro exI[of _ ?s]) (simp add: body del: wlift_simps)
next
  case (enum w sy nm fs i vs)
  then show ?case unfolding converts_def
    by (intro exI[of _ "SDict (Some (SName ''enum'')) None nm fs i vs (Some sy)"])
      (auto simp: resolve_self plain_body convert_plain_def avro_fits_def schema_key_def simp del: wlift_simps)
next
  case (of_record t fs kvs nm i vs sy)
  let ?s = "SDict (Some (SName t)) None nm (Some fs) i vs sy"
  have items: "wgives (\<lambda>n. wmap (\<lambda>i. convert_item (avro_convert n fm named) (field_of fs (fst i)) i) (map (\<lambda>(k, x). (k, shown x)) kvs)) kvs"
    using of_record.IH
    by (intro wmap_gives_items[where g = shown]) (auto simp: list_all_iff dest!: converts_gives intro!: convert_item_gives)
  have "wgives (\<lambda>n. avro_body n fm named ?s (shown (PDict kvs))) (PDict kvs)"
    using of_record.hyps(2)
    by (simp add: plain_body convert_plain_def schema_key_def wgives_bind[OF items] del: wlift_simps)
  moreover have "avro_fits ?s (PDict kvs) = Inr True"
  proof -
    have "k \<in> (PStr \<circ> af_name) ` set fs" if kx: "(k, x) \<in> set kvs" for k x
    proof -
      obtain u where "field_of fs k = Some u" using of_record.IH kx by (auto simp: list_all_iff)
      then show ?thesis unfolding field_of_def dget_dict_of by (auto dest!: map_of_SomeD)
    qed
    then show ?thesis using of_record.hyps(2,3)
      by (auto simp: avro_fits_def fits_record_def schema_key_def RECORD_TYPES_def list_all_iff image_iff)
  qed
  ultimately show ?case unfolding converts_def using of_record.hyps(1,2)
    by (intro exI[of _ ?s]) (auto simp: resolve_self avro_fits_def fits_record_def RECORD_TYPES_def)
next
  case (of_array u xs nm fs vs sy)
  have "wgives (\<lambda>n. wmap (avro_convert n fm named u) (map shown xs)) xs"
    using of_array.IH
    by (intro wgives_map) (auto simp: list_all_iff list.rel_map dest!: converts_gives intro!: list.rel_refl_strong)
  then show ?case unfolding converts_def using of_array.hyps(1)
    by (intro exI[of _ "SDict (Some (SName ''array'')) None nm fs (Some u) vs sy"])
      (auto simp: resolve_self plain_body convert_plain_def schema_key_def avro_fits_def TYPE_CHECKS_def RECORD_TYPES_def
        simp del: wlift_simps intro: wgives_bind)
next
  case (of_map u kvs nm fs i sy)
  have "wgives (\<lambda>n. wmap (convert_item (avro_convert n fm named) (Some u)) (map (\<lambda>(k, x). (k, shown x)) kvs)) kvs"
    by (rule wmap_gives_items[where g = shown and s = "\<lambda>_. Some u"])
      (use of_map.IH in \<open>auto simp: list_all_iff dest!: converts_gives intro!: convert_item_gives\<close>)
  then show ?case unfolding converts_def using of_map.hyps(1)
    by (intro exI[of _ "SDict (Some (SName ''map'')) None nm fs i (Some u) sy"])
      (auto simp: resolve_self plain_body convert_plain_def schema_key_def avro_fits_def TYPE_CHECKS_def RECORD_TYPES_def
        simp del: wlift_simps intro: wgives_bind)
next
  case (union_null pre post)
  then have "wgives (\<lambda>n. avro_body n fm named (SUnion (pre @ SName ''null'' # post)) (shown PNone)) PNone"
    by (simp add: avro_body_def) (intro union_null_gives, auto simp: list_all_iff)
  then show ?case unfolding converts_def by (auto intro: resolve_union)
next
  case (union_value v pre b post)
  obtain r where r: "wgives (\<lambda>n. avro_resolve n named b) r" "avro_fits r v = Inr True"
    using union_value.IH union_value.hyps(4) by (auto simp: converts_def)
  have "wgives (\<lambda>n. avro_body n fm named (SUnion (pre @ b # post)) (shown v)) v"
    unfolding avro_body_def avro_schema.case
  proof (rule union_value_gives[OF union_value.hyps(1,3)])
    show "shown v \<noteq> PNone" using union_value.hyps(2) by (cases v) simp_all
    show "wgives (\<lambda>n. first_fit (\<lambda>b. avro_convert n fm named b (shown v)) (avro_resolve n named) (b # post) (shown v)) v"
      by (rule union_taken[OF converts_gives[OF union_value.IH] r])
  qed
  then show ?case unfolding converts_def by (auto intro: resolve_union)
qed

section \<open>Properties\<close>

text \<open>What the parser leaves of a schema's named types: dictionaries of one of the four named kinds.\<close>

fun defined_kind :: "avro_schema \<Rightarrow> string option" where
  "defined_kind (SDict (Some (SName t)) _ _ _ _ _ _) = Some t"
| "defined_kind _ = None"

definition parsed_definitions :: "named_schemas \<Rightarrow> bool" where
  "parsed_definitions named \<longleftrightarrow>
     list_all (\<lambda>(_, s). defined_kind s \<in> {Some ''record'', Some ''error'', Some ''enum'', Some ''fixed''}) named"

lemma defined_kind_Some: "defined_kind s = Some t \<longleftrightarrow> (\<exists>l nm fs i v sy. s = SDict (Some (SName t)) l nm fs i v sy)"
  by (cases s rule: defined_kind.cases) auto

lemma conversion_loops:
  assumes "dget named kind = Some (SDict (Some (SName kind)) None nm fs i vs sy)"
  shows "to_avro n fm named (SName kind) v = None"
proof -
  have k: "din kind named" using assms by (simp add: din_iff_get)
  have "avro_resolve m named (SName kind) = out_of_fuel \<and>
      avro_resolve m named (SDict (Some (SName kind)) None nm fs i vs sy) = out_of_fuel" for m
    by (induction m) (simp_all add: assms k)
  then show ?thesis by (cases n) (simp_all add: to_avro_def wbind_def)
qed

text \<open>C26: converting JSON content for an Avro schema ends, also with a schema that refers to itself, short of one accident of
  names: when the named definitions are records, errors, enums and fixed types and none is called like one
  of these kinds, enough fuel gives a value or an error, and more fuel changes nothing; but a type without a
  logical type that is called like its own kind, such as a record named record, is followed for ever.\<close>

theorem avro_conversion_ends:
  assumes "parsed_definitions named"
  shows "((\<forall>kind \<in> {''record'', ''error'', ''enum'', ''fixed''}. dget named kind = None) \<longrightarrow>
      (\<exists>n r. \<forall>m \<ge> n. to_avro m fm named schema v = Some r)) \<and>
    (\<forall>kind s. dget named kind = Some s \<and> defined_kind s = Some kind \<and> avro_logical_type s = None \<longrightarrow> (\<forall>n. to_avro n fm named (SName kind) v = None))"
proof (intro conjI impI allI)
  assume "\<forall>kind \<in> {''record'', ''error'', ''enum'', ''fixed''}. dget named kind = None"
  then have "named_definitions named"
    using assms by (fastforce simp: named_definitions_def parsed_definitions_def list_all_iff din_iff_get defined_kind_Some)
  then obtain n r where "avro_convert n fm named schema v () = Some (r, ())"
    using wendsD[OF convert_ends, of named "\<lambda>_. True" "()" fm schema v] by auto
  then have "\<forall>m \<ge> n. to_avro m fm named schema v = Some r"
    by (auto simp: to_avro_def dest: wmonoD[OF avro_convert_mono])
  then show "\<exists>n r. \<forall>m \<ge> n. to_avro m fm named schema v = Some r" by blast
next
  fix kind s n
  assume s: "dget named kind = Some s \<and> defined_kind s = Some kind \<and> avro_logical_type s = None"
  then obtain nm fs i vs sy where d: "s = SDict (Some (SName kind)) None nm fs i vs sy" by (auto simp: defined_kind_Some)
  show "to_avro n fm named (SName kind) v = None" by (rule conversion_loops) (use s d in simp)
qed

definition date_schema :: avro_schema where
  "date_schema = SDict (Some (SName ''int'')) (Some ''date'') None None None None None"

definition list_schema :: avro_schema where
  "list_schema = SDict (Some (SName ''record'')) None (Some ''node'')
     (Some [AvroField ''data'' (SName ''bytes'') False, AvroField ''day'' date_schema False,
        AvroField ''next'' (SUnion [SName ''null'', SName ''node'']) True]) None None None"

definition some_forms :: avro_forms where
  "some_forms = \<lparr>fm_datetime = \<lambda>_. None, fm_date = Some, fm_time = \<lambda>_. None, fm_decimal = \<lambda>_. None,
     fm_number = \<lambda>_. [], fm_literal = \<lambda>_. None\<rparr>"

theorem avro_conversion_ends_witness:
  "(\<exists>n r. \<forall>m \<ge> n. to_avro m some_forms [(''node'', list_schema)] (SName ''node'') (PDict [(PStr ''next'', PNone)]) = Some r) \<and>
   to_avro 1000 some_forms [(''record'', SDict (Some (SName ''record'')) None (Some ''record'') (Some []) None None None)] (SName ''record'') PNone = None"
proof
  have "parsed_definitions [(''node'', list_schema)]" by (simp add: parsed_definitions_def list_schema_def)
  from conjunct1[OF avro_conversion_ends[OF this]]
  show "\<exists>n r. \<forall>m \<ge> n. to_avro m some_forms [(''node'', list_schema)] (SName ''node'') (PDict [(PStr ''next'', PNone)]) = Some r"
    by simp
  have "parsed_definitions [(''record'', SDict (Some (SName ''record'')) None (Some ''record'') (Some []) None None None)]"
    by (simp add: parsed_definitions_def)
  from conjunct2[OF avro_conversion_ends[OF this], of some_forms PNone]
  show "to_avro 1000 some_forms [(''record'', SDict (Some (SName ''record'')) None (Some ''record'') (Some []) None None None)] (SName ''record'') PNone = None"
    by simp
qed

text \<open>C18: a copied record produces the same Avro data: the exported content of a key or a value that is no bytes as a whole is
  converted back to the value it was, through records, arrays, maps, references, recursive types and optional
  values, with its nested bytes and fixed data and with the dates, times, timestamps and decimals that Python
  reads back from the text it writes for them. (UUIDs and choices between several types are not covered.)\<close>

theorem avro_shown_roundtrip:
  assumes "avro_typed fm named schema v" and "\<forall>data. v \<noteq> PBytes data"
  shows "\<exists>n. \<forall>m \<ge> n. to_avro m fm named schema (shown (json_content v enc)) = Some (Inr v)"
proof -
  have "json_content v enc = v" using assms(2) by (cases v) (simp_all add: json_content_def)
  then show ?thesis using converts_gives[OF typed_converts[OF assms(1)]] by (auto simp: wgives_def to_avro_def)
qed

theorem avro_shown_roundtrip_witness:
  "\<exists>n. \<forall>m \<ge> n. to_avro m some_forms [(''node'', list_schema)] (SName ''node'')
      (PDict [(PStr ''data'', PStr (bytes_repr [0, 39, 255])), (PStr ''day'', PStr ''2024-02-29''),
         (PStr ''next'', PDict [(PStr ''data'', PStr (bytes_repr [])), (PStr ''day'', PStr ''1970-01-01''), (PStr ''next'', PNone)])]) =
    Some (Inr (PDict [(PStr ''data'', PBytes [0, 39, 255]), (PStr ''day'', POther ''2024-02-29''),
         (PStr ''next'', PDict [(PStr ''data'', PBytes []), (PStr ''day'', POther ''1970-01-01''), (PStr ''next'', PNone)])]))"
proof -
  let ?named = "[(''node'', list_schema)]"
  let ?cell = "\<lambda>b d x. PDict [(PStr ''data'', PBytes b), (PStr ''day'', POther d), (PStr ''next'', x)]"
  have fields: "field_of [AvroField ''data'' (SName ''bytes'') False, AvroField ''day'' date_schema False,
        AvroField ''next'' (SUnion [SName ''null'', SName ''node'']) True] k =
      (if k = PStr ''next'' then Some (SUnion [SName ''null'', SName ''node'']) else if k = PStr ''day'' then Some date_schema
       else if k = PStr ''data'' then Some (SName ''bytes'') else None)" for k
    by (simp add: field_of_def dget_dict_of)
  have data: "avro_typed some_forms ?named (SName ''bytes'') (PBytes b)" for b
    by (rule primitive) (simp_all add: din_def plain_value_def)
  have day: "avro_typed some_forms ?named date_schema (POther d)" for d
    unfolding date_schema_def by (rule logical) (simp_all add: logical_value_def some_forms_def)
  have nil: "avro_typed some_forms ?named (SUnion [SName ''null'', SName ''node'']) PNone"
    using union_null[of ?named some_forms "[]" "[SName ''node'']"] by (simp add: din_def)
  have cell: "avro_typed some_forms ?named (SName ''node'') (?cell b d x)"
    if "avro_typed some_forms ?named (SUnion [SName ''null'', SName ''node'']) x" for b d x
    using that data day
    by (intro reference[of _ _ list_schema]) (auto simp: list_schema_def din_def RECORD_TYPES_def fields intro!: of_record)
  have more: "avro_typed some_forms ?named (SUnion [SName ''null'', SName ''node'']) (?cell [] ''1970-01-01'' PNone)"
    using union_value[of ?named "?cell [] ''1970-01-01'' PNone" "[SName ''null'']" "SName ''node''" some_forms "[]"] cell[OF nil]
    by (simp add: din_def)
  show ?thesis
    using avro_shown_roundtrip[OF cell[OF more, of "[0, 39, 255]" "''2024-02-29''"], of HEX] by (simp add: json_content_def)
qed

text \<open>Encoding reports every problem of the content as the error the composer shows: what else is raised comes from
  the parser's schema or from fastavro's validation.\<close>

lemma encode_avro_errors:
  assumes "encode_avro n fm lib text_of named schema content = Some (Inl e)"
  shows "to_avro n fm named schema content = Some (Inl e) \<or> (\<exists>m. e = SerializationError m) \<or>
    (\<exists>d. al_validate lib d schema = Inl e \<or> al_write lib schema d = Inl e \<and> \<not> is_writer_error e)"
proof -
  obtain r where r: "to_avro n fm named schema content = Some r" using assms by (auto simp: encode_avro_def)
  show ?thesis
  proof (cases r)
    case (Inr d)
    then show ?thesis using assms r
      by (cases "al_validate lib d schema"; cases "al_write lib schema d") (auto simp: encode_avro_def split: option.splits if_splits)
  qed (use assms r in \<open>auto simp: encode_avro_def\<close>)
qed

end
