(* ===== verification/Settings.thy ===== *)
theory Settings
  imports Byte_Codecs Configs
begin

text \<open>
  Application settings: the timeouts of \<open>timeouts.py\<close>, the sections of \<open>settings.yaml\<close>
  (\<open>settings.py\<close>), key bindings (\<open>keymaps.py\<close>), custom themes (\<open>themes.py\<close>) and the command-line
  overrides of \<open>cli/application.py\<close>. What a YAML document holds is a \<open>pyval\<close>.

  Parameters: Python's \<open>float\<close> of a string and of an integer, \<open>str\<close> and \<open>repr\<close> of a value in a
  message, the key names Textual knows, and its colors.
\<close>

section \<open>Timeouts\<close>

definition CONSUMER_TIMEOUT_PROPERTIES :: "string list" where
  "CONSUMER_TIMEOUT_PROPERTIES = [''consumer.poll'', ''consumer.idle'', ''consumer.assignment'', ''consumer.request'']"

definition ADMIN_TIMEOUT_PROPERTIES :: "string list" where
  "ADMIN_TIMEOUT_PROPERTIES = [''admin.read'', ''admin.write'']"

definition PRODUCER_TIMEOUT_PROPERTIES :: "string list" where
  "PRODUCER_TIMEOUT_PROPERTIES = [''producer.delivery'', ''producer.flush'']"

definition TIMEOUT_PROPERTIES :: "string list" where
  "TIMEOUT_PROPERTIES = CONSUMER_TIMEOUT_PROPERTIES @ ADMIN_TIMEOUT_PROPERTIES @ PRODUCER_TIMEOUT_PROPERTIES"

text \<open>\<open>float\<close> of a string is \<open>None\<close> where it raises \<open>ValueError\<close>, and of an integer where it raises \<open>OverflowError\<close>.\<close>

record py_float =
  fl_text :: "string \<Rightarrow> pyfloat option"
  fl_int :: "int \<Rightarrow> pyfloat option"

datatype raw_seconds = SecondsText string | SecondsInt int | SecondsFloat pyfloat

definition raw_float :: "py_float \<Rightarrow> raw_seconds \<Rightarrow> pyfloat res" where
  "raw_float fl raw =
     (case raw of
        SecondsText s \<Rightarrow> (case fl_text fl s of None \<Rightarrow> Inl (ValueError ''could not convert string to float'') | Some x \<Rightarrow> Inr x)
      | SecondsInt i \<Rightarrow> (case fl_int fl i of None \<Rightarrow> Inl OverflowError | Some x \<Rightarrow> Inr x)
      | SecondsFloat x \<Rightarrow> Inr x)"

definition parse_timeout_seconds :: "py_float \<Rightarrow> string \<Rightarrow> raw_seconds \<Rightarrow> rat res" where
  "parse_timeout_seconds fl property_name raw =
     (case raw_float fl raw of
        Inl e \<Rightarrow> Inl (if is_value_error e then ValueError (property_name @ '' must be a number of seconds'') else e)
      | Inr x \<Rightarrow>
          (case x of
             Fin q \<Rightarrow> if q \<le> 0 then Inl (ValueError (property_name @ '' must be greater than zero'')) else Inr q
           | _ \<Rightarrow> Inl (ValueError (property_name @ '' must be greater than zero''))))"

record timeout_config =
  consumer_poll :: rat
  consumer_idle :: rat
  consumer_assignment :: rat
  consumer_request :: rat
  admin_read :: rat
  admin_write :: rat
  producer_delivery :: rat
  producer_flush :: rat

definition default_timeouts :: timeout_config where
  "default_timeouts =
     \<lparr>consumer_poll = 1 / 2, consumer_idle = 5 / 2, consumer_assignment = 15, consumer_request = 10,
      admin_read = 10, admin_write = 60, producer_delivery = 45, producer_flush = 5\<rparr>"

definition timeout_as_dict :: "timeout_config \<Rightarrow> (string, rat) pydict" where
  "timeout_as_dict c =
     [(''consumer.poll'', consumer_poll c), (''consumer.idle'', consumer_idle c),
      (''consumer.assignment'', consumer_assignment c), (''consumer.request'', consumer_request c),
      (''admin.read'', admin_read c), (''admin.write'', admin_write c),
      (''producer.delivery'', producer_delivery c), (''producer.flush'', producer_flush c)]"

text \<open>Keyword arguments over the defaults of the class.\<close>

definition timeouts_of :: "(string, rat) pydict \<Rightarrow> timeout_config" where
  "timeouts_of given =
     (let field = dget_or given in
      \<lparr>consumer_poll = field ''consumer.poll'' (consumer_poll default_timeouts),
       consumer_idle = field ''consumer.idle'' (consumer_idle default_timeouts),
       consumer_assignment = field ''consumer.assignment'' (consumer_assignment default_timeouts),
       consumer_request = field ''consumer.request'' (consumer_request default_timeouts),
       admin_read = field ''admin.read'' (admin_read default_timeouts),
       admin_write = field ''admin.write'' (admin_write default_timeouts),
       producer_delivery = field ''producer.delivery'' (producer_delivery default_timeouts),
       producer_flush = field ''producer.flush'' (producer_flush default_timeouts)\<rparr>)"

definition timeouts_from_dict :: "py_float \<Rightarrow> (string, raw_seconds) pydict \<Rightarrow> timeout_config res" where
  "timeouts_from_dict fl config =
     (let unknown = sorted_list_of_set (set (dkeys config) - set TIMEOUT_PROPERTIES) in
      rbind (raise_if (unknown \<noteq> []) (ValueError (''Unrecognized timeout properties: '' @ join '', '' unknown))) (\<lambda>_.
      rbind (map_res (\<lambda>(name, raw). map_sum id (Pair name) (parse_timeout_seconds fl name raw)) config) (\<lambda>given.
        Inr (timeouts_of given))))"

section \<open>Key bindings\<close>

definition NAVIGATION_BINDING_IDS :: "string list" where
  "NAVIGATION_BINDING_IDS = [
     ''kaskade.navigation.down'', ''kaskade.navigation.end'', ''kaskade.navigation.first'',
     ''kaskade.navigation.home'', ''kaskade.navigation.last'', ''kaskade.navigation.left'',
     ''kaskade.navigation.page-down'', ''kaskade.navigation.page-left'', ''kaskade.navigation.page-right'',
     ''kaskade.navigation.page-up'', ''kaskade.navigation.right'', ''kaskade.navigation.select'',
     ''kaskade.navigation.up'']"

definition KNOWN_BINDING_IDS :: "string list" where
  "KNOWN_BINDING_IDS = [
     ''app.command-palette'', ''app.quit'', ''help.toggle'', ''kaskade.help.close'',
     ''kaskade.chunk-size.close'', ''kaskade.chunk-size.select'', ''kaskade.compose.produce'',
     ''kaskade.compose.summary'', ''kaskade.create-topic.close'', ''kaskade.create-topic.save'',
     ''kaskade.review-offset-reset.close'', ''kaskade.review-offset-reset.apply'',
     ''kaskade.reset-offsets.review'', ''kaskade.reset-offsets.close'',
     ''kaskade.describe-topic.reset-offsets'', ''kaskade.describe-topic.delete-group'',
     ''kaskade.delete-group.confirm'', ''kaskade.delete-group.cancel'', ''kaskade.delete-topic.cancel'',
     ''kaskade.delete-topic.confirm'', ''kaskade.describe-topic.close'', ''kaskade.edit-topic.close'',
     ''kaskade.edit-topic.save'', ''kaskade.filter-records.close'', ''kaskade.filter-records.apply'',
     ''kaskade.filter-topics.close'', ''kaskade.filter-topics.apply'', ''kaskade.headers.delete'',
     ''kaskade.record-details.close'', ''kaskade.record-details.next'', ''kaskade.record-details.previous'',
     ''kaskade.records.chunk-size'', ''kaskade.records.consume'', ''kaskade.records.copy'',
     ''kaskade.records.export'', ''kaskade.records.filter'', ''kaskade.records.show'',
     ''kaskade.records.show-all'', ''kaskade.review-topic-changes.apply'',
     ''kaskade.review-topic-changes.close'', ''kaskade.topics.create'', ''kaskade.topics.copy'',
     ''kaskade.topics.delete'', ''kaskade.topics.describe'', ''kaskade.topics.edit'',
     ''kaskade.topics.filter'', ''kaskade.topics.refresh'', ''kaskade.topics.show-all''] @ NAVIGATION_BINDING_IDS"

text \<open>What the settings depend on: numbers and texts of Python, keys and colors of Textual.\<close>

record settings_env = py_float +
  se_str :: "pyval \<Rightarrow> string"
  se_repr :: "pyval \<Rightarrow> string"
  se_named_key :: "string \<Rightarrow> bool"
  se_character :: "string \<Rightarrow> bool"
  se_printable :: "char \<Rightarrow> bool"
  se_color :: "string \<Rightarrow> (string option \<times> string \<times> rat) option"

type_synonym 'x env = "'x settings_env_scheme"

definition MODIFIERS :: "string list" where
  "MODIFIERS = [''alt'', ''ctrl'', ''meta'', ''shift'', ''super'']"

definition base_key :: "'x env \<Rightarrow> string \<Rightarrow> bool" where
  "base_key env key \<longleftrightarrow>
     se_named_key env key \<or> (case key of [c] \<Rightarrow> se_printable env c | _ \<Rightarrow> False) \<or> se_character env key"

definition is_valid_key :: "'x env \<Rightarrow> string \<Rightarrow> bool" where
  "is_valid_key env key \<longleftrightarrow>
     key \<noteq> [] \<and>
     (base_key env key \<or>
      (let parts = split_on CHR ''+'' key in
       \<not> (length parts < 2 \<or> list_ex (\<lambda>m. m \<notin> set MODIFIERS) (butlast parts)) \<and> base_key env (last parts)))"

definition parse_binding :: "'x env \<Rightarrow> pyval \<Rightarrow> pyval \<Rightarrow> string + (string \<times> string)" where
  "parse_binding env binding_id keys =
     (case binding_id of
        PStr b \<Rightarrow>
          if b \<notin> set KNOWN_BINDING_IDS then Inl (''Ignoring unknown binding ID: '' @ se_repr env binding_id)
          else
            (case keys of
               PStr ks \<Rightarrow>
                 if strip ks = [] then Inl (''Ignoring '' @ se_repr env binding_id @ '': keys must be a non-empty string'')
                 else
                   (let invalid_keys = filter (\<lambda>k. \<not> is_valid_key env (strip k)) (split_on CHR '','' ks) in
                    if invalid_keys \<noteq> []
                    then Inl (''Ignoring '' @ se_repr env binding_id @ '': invalid key name(s) '' @ join '', '' invalid_keys)
                    else Inr (b, ks))
             | _ \<Rightarrow> Inl (''Ignoring '' @ se_repr env binding_id @ '': keys must be a non-empty string''))
      | _ \<Rightarrow> Inl (''Ignoring unknown binding ID: '' @ se_repr env binding_id))"

fun parse_bindings :: "'x env \<Rightarrow> (pyval \<times> pyval) list \<Rightarrow> config \<Rightarrow> string list \<Rightarrow> config \<times> string list" where
  "parse_bindings env [] keymap warnings = (keymap, warnings)"
| "parse_bindings env ((b, keys) # rest) keymap warnings =
     (case parse_binding env b keys of
        Inl warning \<Rightarrow> parse_bindings env rest keymap (warnings @ [warning])
      | Inr (i, ks) \<Rightarrow> parse_bindings env rest (dput i ks keymap) warnings)"

definition parse_keymap :: "'x env \<Rightarrow> pyval \<Rightarrow> string \<Rightarrow> config \<times> string list" where
  "parse_keymap env configured settings_path =
     (case configured of
        PDict entries \<Rightarrow> parse_bindings env entries [] []
      | _ \<Rightarrow> ([], [''Ignoring '' @ settings_path @ '': 'keymap' must be a mapping'']))"

section \<open>Sections of the settings file\<close>

type_synonym yaml_map = "(pyval, pyval) pydict"

definition ADMIN_SETTINGS :: "string list" where "ADMIN_SETTINGS = [''refresh-interval'', ''read-only'', ''timeouts'']"
definition CONSUMER_SETTINGS :: "string list" where "CONSUMER_SETTINGS = [''timeouts'']"
definition PRODUCER_SETTINGS :: "string list" where "PRODUCER_SETTINGS = [''timeouts'']"
definition DEFAULT_ADMIN_REFRESH_INTERVAL_SECONDS :: int where "DEFAULT_ADMIN_REFRESH_INTERVAL_SECONDS = 30"
definition MIN_ADMIN_REFRESH_INTERVAL_SECONDS :: int where "MIN_ADMIN_REFRESH_INTERVAL_SECONDS = 5"

definition unknown_setting_reason :: "pyval \<Rightarrow> string" where
  "unknown_setting_reason setting_name =
     (case setting_name of
        PStr s \<Rightarrow> if CHR ''_'' \<in> set s then ''setting names must use hyphens, not underscores'' else ''unknown setting''
      | _ \<Rightarrow> ''unknown setting'')"

definition parse_section :: "'x env \<Rightarrow> yaml_map \<Rightarrow> string \<Rightarrow> string list \<Rightarrow> yaml_map \<times> string list" where
  "parse_section env data section_name known =
     (case dget_or data (PStr section_name) (PDict []) of
        PDict configured \<Rightarrow>
          (configured,
           map (\<lambda>n. ''Ignoring '' @ quoted (section_name @ ''.'' @ se_str env n) @ '': '' @ unknown_setting_reason n)
             (filter (\<lambda>n. n \<notin> PStr ` set known) (dkeys configured)))
      | _ \<Rightarrow> ([], [''Ignoring '' @ quoted section_name @ '': it must be a mapping'']))"

definition is_valid_admin_refresh_interval :: "int \<Rightarrow> bool" where
  "is_valid_admin_refresh_interval v \<longleftrightarrow> v = 0 \<or> v \<ge> MIN_ADMIN_REFRESH_INTERVAL_SECONDS"

definition parse_admin_refresh_interval :: "yaml_map \<Rightarrow> int \<times> string list" where
  "parse_admin_refresh_interval admin =
     (case dget admin (PStr ''refresh-interval'') of
        None \<Rightarrow> (DEFAULT_ADMIN_REFRESH_INTERVAL_SECONDS, [])
      | Some (PInt i) \<Rightarrow>
          if is_valid_admin_refresh_interval i then (i, [])
          else (DEFAULT_ADMIN_REFRESH_INTERVAL_SECONDS,
            [''Ignoring 'admin.refresh-interval': it must be 0 or at least '' @ show_int MIN_ADMIN_REFRESH_INTERVAL_SECONDS])
      | Some _ \<Rightarrow> (DEFAULT_ADMIN_REFRESH_INTERVAL_SECONDS, [''Ignoring 'admin.refresh-interval': it must be an integer'']))"

definition parse_admin_read_only :: "yaml_map \<Rightarrow> bool \<times> string list" where
  "parse_admin_read_only admin =
     (case dget_or admin (PStr ''read-only'') (PBool False) of
        PBool b \<Rightarrow> (b, [])
      | _ \<Rightarrow> (False, [''Ignoring 'admin.read-only': it must be true or false'']))"

text \<open>\<open>_is_timeout_seconds\<close>: only \<open>ValueError\<close> is caught.\<close>

definition is_timeout_seconds :: "'x env \<Rightarrow> string \<Rightarrow> pyval \<Rightarrow> rat option res" where
  "is_timeout_seconds env property_name v =
     (case (case v of PInt i \<Rightarrow> Some (SecondsInt i) | PFloat x \<Rightarrow> Some (SecondsFloat x) | _ \<Rightarrow> None) of
        None \<Rightarrow> Inr None
      | Some raw \<Rightarrow>
          (case parse_timeout_seconds (py_float.truncate env) property_name raw of
             Inr q \<Rightarrow> Inr (Some q)
           | Inl e \<Rightarrow> if is_value_error e then Inr None else Inl e))"

fun timeout_entries ::
  "'x env \<Rightarrow> string \<Rightarrow> config \<Rightarrow> (pyval \<times> pyval) list \<Rightarrow> (string, rat) pydict \<Rightarrow> string list
     \<Rightarrow> ((string, rat) pydict \<times> string list) res" where
  "timeout_entries env path names [] timeouts warnings = Inr (timeouts, warnings)"
| "timeout_entries env path names ((name, v) # rest) timeouts warnings =
     (case (case name of PStr n \<Rightarrow> dget names n | _ \<Rightarrow> None) of
        None \<Rightarrow> timeout_entries env path names rest timeouts (warnings @ [''Ignoring '' @ quoted (path @ ''.'' @ se_str env name) @ '': unknown setting''])
      | Some property_name \<Rightarrow>
          rbind (is_timeout_seconds env property_name v) (\<lambda>r.
            case r of
              Some q \<Rightarrow> timeout_entries env path names rest (dput property_name q timeouts) warnings
            | None \<Rightarrow> timeout_entries env path names rest timeouts
                (warnings @ [''Ignoring '' @ quoted (path @ ''.'' @ se_str env name) @ '': it must be a number of seconds greater than zero''])))"

definition parse_timeouts ::
  "'x env \<Rightarrow> string \<Rightarrow> yaml_map \<Rightarrow> string list \<Rightarrow> ((string, rat) pydict \<times> string list) res" where
  "parse_timeouts env section_name entries properties =
     (let path = section_name @ ''.timeouts'' in
      case dget entries (PStr ''timeouts'') of
        None \<Rightarrow> Inr ([], [])
      | Some (PDict configured) \<Rightarrow>
          timeout_entries env path (dict_of (map (\<lambda>p. (snd (partition_on CHR ''.'' p), p)) properties)) configured [] []
      | Some _ \<Rightarrow> Inr ([], [''Ignoring '' @ quoted path @ '': it must be a mapping'']))"

definition parse_theme :: "pyval \<Rightarrow> string option \<times> string list" where
  "parse_theme configured =
     (case configured of
        PNone \<Rightarrow> (None, [])
      | PStr s \<Rightarrow> if strip s = [] then (None, [''Ignoring 'theme': it must be a non-empty string'']) else (Some s, [])
      | _ \<Rightarrow> (None, [''Ignoring 'theme': it must be a non-empty string'']))"

definition settings_custom_themes :: "pyval \<Rightarrow> yaml_map \<times> string list" where
  "settings_custom_themes configured =
     (case configured of
        PNone \<Rightarrow> ([], [])
      | PDict themes \<Rightarrow> (themes, [])
      | _ \<Rightarrow> ([], [''Ignoring 'themes': it must be a mapping'']))"

text \<open>\<open>document\<close> is \<open>None\<close> when the file does not exist, and otherwise the parsed YAML or what reading it raised.\<close>

definition read_settings :: "(exn \<Rightarrow> string) \<Rightarrow> string \<Rightarrow> pyval res option \<Rightarrow> (yaml_map \<times> string list) res" where
  "read_settings show_exn path document =
     (case document of
        None \<Rightarrow> Inr ([], [])
      | Some (Inl e) \<Rightarrow>
          if is_os_error e \<or> (case e of YAMLError _ \<Rightarrow> True | _ \<Rightarrow> False)
          then Inr ([], [''Could not read '' @ path @ '': '' @ show_exn e]) else Inl e
      | Some (Inr PNone) \<Rightarrow> Inr ([], [])
      | Some (Inr (PDict data)) \<Rightarrow> Inr (data, [])
      | Some (Inr _) \<Rightarrow> Inr ([], [''Ignoring '' @ path @ '': the document must be a mapping'']))"

record app_settings =
  as_path :: string
  as_keymap :: config
  as_refresh_interval :: int
  as_read_only :: bool
  as_theme :: "string option"
  as_custom_themes :: yaml_map
  as_timeouts :: timeout_config
  as_warnings :: "string list"

definition load_settings :: "'x env \<Rightarrow> (exn \<Rightarrow> string) \<Rightarrow> string \<Rightarrow> pyval res option \<Rightarrow> app_settings res" where
  "load_settings env show_exn path document =
     rbind (read_settings show_exn path document) (\<lambda>(data, w0).
     let (keymap, w1) = parse_keymap env (dget_or data (PStr ''keymap'') (PDict [])) path;
         (admin, w2) = parse_section env data ''admin'' ADMIN_SETTINGS;
         (refresh_interval, w3) = parse_admin_refresh_interval admin;
         (read_only, w4) = parse_admin_read_only admin in
     rbind (parse_timeouts env ''admin'' admin ADMIN_TIMEOUT_PROPERTIES) (\<lambda>(admin_timeouts, w5).
     let (consumer, w6) = parse_section env data ''consumer'' CONSUMER_SETTINGS in
     rbind (parse_timeouts env ''consumer'' consumer CONSUMER_TIMEOUT_PROPERTIES) (\<lambda>(consumer_timeouts, w7).
     let (producer, w8) = parse_section env data ''producer'' PRODUCER_SETTINGS in
     rbind (parse_timeouts env ''producer'' producer PRODUCER_TIMEOUT_PROPERTIES) (\<lambda>(producer_timeouts, w9).
     let (theme, w10) = parse_theme (dget_or data (PStr ''theme'') PNone);
         (custom_themes, w11) = settings_custom_themes (dget_or data (PStr ''themes'') PNone) in
     rbind (timeouts_from_dict (py_float.truncate env)
             (map (map_prod id (SecondsFloat \<circ> Fin)) (dmerge (dmerge admin_timeouts consumer_timeouts) producer_timeouts))) (\<lambda>timeouts.
       Inr \<lparr>as_path = path, as_keymap = keymap, as_refresh_interval = refresh_interval, as_read_only = read_only, as_theme = theme,
            as_custom_themes = custom_themes, as_timeouts = timeouts,
            as_warnings = w0 @ w1 @ w2 @ w3 @ w4 @ w5 @ w6 @ w7 @ w8 @ w9 @ w10 @ w11\<rparr>)))))"

definition default_settings_path :: "(string \<Rightarrow> string) \<Rightarrow> config \<Rightarrow> string \<Rightarrow> string" where
  "default_settings_path expanduser environ home =
     (case dget_or environ ''KASKADE_SETTINGS'' [] of
        [] \<Rightarrow>
          (let config_home = dget_or environ ''XDG_CONFIG_HOME'' [] in
           (if config_home \<noteq> [] then expanduser config_home else home @ ''/.config'') @ ''/kaskade/settings.yaml'')
      | p \<Rightarrow> expanduser p)"

section \<open>The command line over the settings\<close>

definition resolve_timeouts :: "(exn \<Rightarrow> string) \<Rightarrow> py_float \<Rightarrow> string list \<Rightarrow> timeout_config \<Rightarrow> config \<Rightarrow> timeout_config res" where
  "resolve_timeouts show_exn fl properties configured inline_config =
     (case find (\<lambda>p. p \<in> set TIMEOUT_PROPERTIES \<and> p \<notin> set properties) (dkeys inline_config) of
        Some p \<Rightarrow> Inl (BadParameter (p @ '' applies only to '' @ fst (partition_on CHR ''.'' p) @ ''. Properties: '' @ join '', '' properties @ ''.''))
      | None \<Rightarrow>
          (case timeouts_from_dict fl
                 (dmerge (map (map_prod id (SecondsFloat \<circ> Fin)) (timeout_as_dict configured)) (map (map_prod id SecondsText) inline_config)) of
             Inr c \<Rightarrow> Inr c
           | Inl e \<Rightarrow> Inl (if is_value_error e then BadParameter (show_exn e) else e)))"

definition resolve_app_settings ::
  "(exn \<Rightarrow> string) \<Rightarrow> py_float \<Rightarrow> app_settings res \<Rightarrow> string list \<Rightarrow> config \<Rightarrow> string option \<Rightarrow> int option \<Rightarrow> bool \<Rightarrow> app_settings res" where
  "resolve_app_settings show_exn fl loaded properties timeout_config theme refresh_interval read_only =
     rbind loaded (\<lambda>settings.
     rbind (resolve_timeouts show_exn fl properties (as_timeouts settings) timeout_config) (\<lambda>timeouts.
       Inr (settings\<lparr>as_theme := (case theme of None \<Rightarrow> as_theme settings | Some t \<Rightarrow> Some t),
         as_refresh_interval := (case refresh_interval of None \<Rightarrow> as_refresh_interval settings | Some i \<Rightarrow> i),
         as_read_only := (read_only \<or> as_read_only settings), as_timeouts := timeouts\<rparr>)))"

section \<open>Themes\<close>

definition DEFAULT_THEME :: string where "DEFAULT_THEME = ''eva01-berserk''"

definition CUSTOM_THEME_COLORS :: "string list" where
  "CUSTOM_THEME_COLORS = [''primary'', ''secondary'', ''warning'', ''error'', ''success'', ''accent'', ''foreground'',
     ''background'', ''surface'', ''panel'', ''boost'']"

text \<open>\<open>CUSTOM_THEME_NAME\<close>: lowercase letters and digits in parts joined by single hyphens.\<close>

definition custom_theme_name :: "string \<Rightarrow> bool" where
  "custom_theme_name s \<longleftrightarrow>
     list_all (\<lambda>part. part \<noteq> [] \<and> list_all (\<lambda>c. 97 \<le> code c \<and> code c \<le> 122 \<or> 48 \<le> code c \<and> code c \<le> 57) part)
       (split_on CHR ''-'' s)"

definition theme_color :: "'x env \<Rightarrow> pyval \<Rightarrow> string option" where
  "theme_color env v =
     (case v of
        PStr s \<Rightarrow>
          (case se_color env s of
             None \<Rightarrow> None
           | Some (ansi, shown, alpha) \<Rightarrow> if ansi \<noteq> None then Some s else if alpha = 1 then Some shown else None)
      | _ \<Rightarrow> None)"

definition theme_property :: "'x env \<Rightarrow> string \<Rightarrow> pyval \<Rightarrow> pyval \<Rightarrow> string + (string \<times> pyval)" where
  "theme_property env setting name v =
     (let property_setting = quoted (setting @ ''.'' @ se_str env name) in
      if name = PStr ''dark''
      then (case v of PBool b \<Rightarrow> Inr (''dark'', v) | _ \<Rightarrow> Inl (''Ignoring '' @ property_setting @ '': it must be true or false''))
      else
        (case name of
           PStr n \<Rightarrow>
             if n \<in> set CUSTOM_THEME_COLORS
             then (case theme_color env v of
                     None \<Rightarrow> Inl (''Ignoring '' @ property_setting @ '': it must be an opaque color such as \"#268BD2\"; quote hex colors in YAML'')
                   | Some c \<Rightarrow> Inr (n, PStr c))
             else Inl (''Ignoring '' @ property_setting @ '': unknown theme property'')
         | _ \<Rightarrow> Inl (''Ignoring '' @ property_setting @ '': unknown theme property'')))"

fun parse_theme_properties ::
  "'x env \<Rightarrow> string \<Rightarrow> (pyval \<times> pyval) list \<Rightarrow> (string, pyval) pydict \<Rightarrow> string list \<Rightarrow> (string, pyval) pydict \<times> string list" where
  "parse_theme_properties env setting [] properties warnings = (properties, warnings)"
| "parse_theme_properties env setting ((name, v) # rest) properties warnings =
     (case theme_property env setting name v of
        Inl w \<Rightarrow> parse_theme_properties env setting rest properties (warnings @ [w])
      | Inr (n, x) \<Rightarrow> parse_theme_properties env setting rest (dput n x properties) warnings)"

type_synonym custom_theme = "string \<times> (string, pyval) pydict"

definition EVA01_THEME :: custom_theme where
  "EVA01_THEME = (''eva01'',
     [(''primary'', PStr ''#9B4DCA''), (''secondary'', PStr ''#A6FF4D''), (''warning'', PStr ''#FF9D1C''),
      (''error'', PStr ''#FF4D5A''), (''success'', PStr ''#A6FF4D''), (''accent'', PStr ''#FF7A00''),
      (''foreground'', PStr ''#F3ECFF''), (''background'', PStr ''#2A1845''), (''surface'', PStr ''#1F0E36''),
      (''panel'', PStr ''#0E0024''), (''boost'', PStr ''#341B55''),
      (''dark'', PBool True)])"

definition EVA01_BERSERK_THEME :: custom_theme where
  "EVA01_BERSERK_THEME = (DEFAULT_THEME,
     [(''primary'', PStr ''#9B4DCA''), (''secondary'', PStr ''#A6FF4D''), (''warning'', PStr ''#FF9D1C''),
      (''error'', PStr ''#FF4D5A''), (''success'', PStr ''#A6FF4D''), (''accent'', PStr ''#FF7A00''),
      (''foreground'', PStr ''#F3ECFF''), (''background'', PStr ''#0E0024''), (''surface'', PStr ''#1C1030''),
      (''panel'', PStr ''#2A1845''), (''boost'', PStr ''#341B55''),
      (''dark'', PBool True)])"

definition KASKADE_THEMES :: "custom_theme list" where "KASKADE_THEMES = [EVA01_THEME, EVA01_BERSERK_THEME]"

text \<open>\<open>BUILTIN_THEMES\<close> of Textual is a parameter.\<close>

definition available_theme_names :: "string list \<Rightarrow> string list" where
  "available_theme_names builtin = sort (builtin @ map fst KASKADE_THEMES)"

definition parse_custom_theme :: "'x env \<Rightarrow> string list \<Rightarrow> pyval \<Rightarrow> pyval \<Rightarrow> custom_theme option \<times> string list" where
  "parse_custom_theme env reserved_names name d =
     (let setting = ''themes.'' @ se_str env name in
      case name of
        PStr n \<Rightarrow>
          if \<not> custom_theme_name n
          then (None, [''Ignoring '' @ quoted setting @ '': names use lowercase letters, digits, and single hyphens''])
          else if n \<in> set reserved_names
          then (None, [''Ignoring '' @ quoted setting @ '': a built-in theme already uses this name''])
          else
            (case d of
               PDict entries \<Rightarrow>
                 (let (properties, warnings) = parse_theme_properties env setting entries [] [] in
                  if \<not> din ''primary'' properties
                  then (None, warnings @ [''Ignoring '' @ quoted setting @ '': it needs a valid 'primary' color''])
                  else (Some (n, properties), warnings))
             | _ \<Rightarrow> (None, [''Ignoring '' @ quoted setting @ '': it must be a mapping'']))
      | _ \<Rightarrow> (None, [''Ignoring '' @ quoted setting @ '': names use lowercase letters, digits, and single hyphens'']))"

definition parse_custom_themes :: "'x env \<Rightarrow> string list \<Rightarrow> yaml_map \<Rightarrow> custom_theme list \<times> string list" where
  "parse_custom_themes env builtin definitions =
     (let reserved_names = available_theme_names builtin;
          parsed = map (\<lambda>(name, d). parse_custom_theme env reserved_names name d) definitions in
      (concat (map (\<lambda>(theme, _). case theme of None \<Rightarrow> [] | Some t \<Rightarrow> [t]) parsed), concat (map snd parsed)))"

definition configured_theme_names ::
  "'x env \<Rightarrow> (exn \<Rightarrow> string) \<Rightarrow> string list \<Rightarrow> string \<Rightarrow> pyval res option \<Rightarrow> string list res" where
  "configured_theme_names env show_exn builtin path document =
     rbind (load_settings env show_exn path document) (\<lambda>settings.
       Inr (sort (available_theme_names builtin @
         map fst (fst (parse_custom_themes env builtin (as_custom_themes settings))))))"

definition resolve_theme :: "app_settings \<Rightarrow> string list \<Rightarrow> app_settings" where
  "resolve_theme settings theme_names =
     (case as_theme settings of
        None \<Rightarrow> settings\<lparr>as_theme := Some DEFAULT_THEME\<rparr>
      | Some t \<Rightarrow>
          if t \<notin> set theme_names
          then settings\<lparr>as_theme := Some DEFAULT_THEME,
                 as_warnings := as_warnings settings @ [''Ignoring 'theme': unknown theme '' @ py_repr t]\<rparr>
          else settings)"

section \<open>Lemmas\<close>

subsection \<open>Timeouts\<close>

lemma timeout_properties:
  "set TIMEOUT_PROPERTIES = {''consumer.poll'', ''consumer.idle'', ''consumer.assignment'', ''consumer.request'',
     ''admin.read'', ''admin.write'', ''producer.delivery'', ''producer.flush''}"
  by (auto simp: TIMEOUT_PROPERTIES_def CONSUMER_TIMEOUT_PROPERTIES_def ADMIN_TIMEOUT_PROPERTIES_def PRODUCER_TIMEOUT_PROPERTIES_def)

lemma timeout_as_dict_keys [simp]: "fst ` set (timeout_as_dict c) = set TIMEOUT_PROPERTIES" "ddistinct (timeout_as_dict c)"
  by (auto simp: timeout_as_dict_def timeout_properties)

lemma timeouts_of_get:
  "p \<in> set TIMEOUT_PROPERTIES \<Longrightarrow> dget (timeout_as_dict (timeouts_of g)) p =
     Some (dget_or g p (the (dget (timeout_as_dict default_timeouts) p)))"
  unfolding timeout_properties by (elim insertE emptyE; simp add: timeout_as_dict_def timeouts_of_def Let_def)

lemma timeouts_of_as_dict [simp]: "timeouts_of (timeout_as_dict c) = c"
  by (simp add: timeouts_of_def timeout_as_dict_def dget_or_def)

lemma parse_timeout_seconds_Inr:
  "parse_timeout_seconds fl name raw = Inr q \<longleftrightarrow> raw_float fl raw = Inr (Fin q) \<and> 0 < q"
  by (auto simp: parse_timeout_seconds_def split: sum.splits pyfloat.splits if_splits)

lemma parse_timeout_seconds_Inl:
  "parse_timeout_seconds fl name raw = Inl e \<Longrightarrow> is_value_error e \<or> raw_float fl raw = Inl e"
  by (auto simp: parse_timeout_seconds_def split: sum.splits pyfloat.splits if_splits)

lemma map_res_pairs:
  assumes "map_res (\<lambda>(name, raw). map_sum id (Pair name) (f name raw)) config = Inr given"
  shows "dkeys given = dkeys config \<and> (\<forall>p raw. dget config p = Some raw \<longrightarrow> (\<exists>q. dget given p = Some q \<and> f p raw = Inr q))"
  using assms by (induction config arbitrary: given) (auto simp: res_simps split: prod.splits)

lemma timeouts_from_dict_Inr:
  assumes "timeouts_from_dict fl config = Inr c"
  shows "set (dkeys config) \<subseteq> set TIMEOUT_PROPERTIES \<and> (\<forall>p \<in> set TIMEOUT_PROPERTIES.
    case dget config p of
      Some raw \<Rightarrow> \<exists>q. 0 < q \<and> raw_float fl raw = Inr (Fin q) \<and> dget (timeout_as_dict c) p = Some q
    | None \<Rightarrow> dget (timeout_as_dict c) p = dget (timeout_as_dict default_timeouts) p)"
proof -
  obtain given where known: "sorted_list_of_set (set (dkeys config) - set TIMEOUT_PROPERTIES) = []" and c: "c = timeouts_of given"
    and given: "map_res (\<lambda>(name, raw). map_sum id (Pair name) (parse_timeout_seconds fl name raw)) config = Inr given"
    using assms by (auto simp: timeouts_from_dict_def Let_def res_simps)
  have "set (dkeys config) - set TIMEOUT_PROPERTIES = {}" using known by (simp add: sorted_list_of_set_eq_Nil_iff)
  moreover note map_res_pairs[OF given]
  moreover have "dget config p = None \<Longrightarrow> dget given p = None" for p
    using map_res_pairs[OF given] by (metis map_of_eq_None_iff set_map)
  moreover have "p \<in> set TIMEOUT_PROPERTIES \<Longrightarrow> dget (timeout_as_dict default_timeouts) p \<noteq> None" for p
    by (auto simp: timeout_properties timeout_as_dict_def)
  ultimately show ?thesis
    by (fastforce simp: c timeouts_of_get dget_or_def parse_timeout_seconds_Inr split: option.split)
qed


lemma dget_map_values: "dget (map (map_prod id f) d) k = map_option f (dget d k)"
  by (induction d) auto

lemma dkeys_map_values [simp]: "dkeys (map (map_prod id f) d) = dkeys d"
  by (induction d) auto

lemma timeout_as_dict_get: "p \<in> set TIMEOUT_PROPERTIES \<Longrightarrow> \<exists>q. dget (timeout_as_dict c) p = Some q"
  unfolding timeout_properties by (elim insertE emptyE; simp add: timeout_as_dict_def)

subsection \<open>Settings\<close>

definition positive_timeouts :: "timeout_config \<Rightarrow> bool" where
  "positive_timeouts c \<longleftrightarrow> list_all (\<lambda>(_, q). 0 < q) (timeout_as_dict c)"

definition valid_keymap :: "'x env \<Rightarrow> config \<Rightarrow> bool" where
  "valid_keymap env keymap \<longleftrightarrow> (\<forall>b ks. dget keymap b = Some ks \<longrightarrow>
     b \<in> set KNOWN_BINDING_IDS \<and> strip ks \<noteq> [] \<and> list_all (\<lambda>k. is_valid_key env (strip k)) (split_on CHR '','' ks))"

definition valid_settings :: "'x env \<Rightarrow> app_settings \<Rightarrow> bool" where
  "valid_settings env s \<longleftrightarrow> valid_keymap env (as_keymap s) \<and> is_valid_admin_refresh_interval (as_refresh_interval s) \<and>
     positive_timeouts (as_timeouts s) \<and> (\<forall>t. as_theme s = Some t \<longrightarrow> strip t \<noteq> [])"

lemma parse_bindings_valid: "valid_keymap env keymap \<Longrightarrow> valid_keymap env (fst (parse_bindings env entries keymap warnings))"
proof (induction env entries keymap warnings rule: parse_bindings.induct)
  case (2 env b keys rest keymap warnings)
  show ?case
  proof (cases "parse_binding env b keys")
    case (Inl w)
    then show ?thesis using 2 by simp
  next
    case (Inr r)
    obtain i ks where r: "r = (i, ks)" by (cases r)
    have "i \<in> set KNOWN_BINDING_IDS" "strip ks \<noteq> []" "list_all (\<lambda>k. is_valid_key env (strip k)) (split_on CHR '','' ks)"
      using Inr by (auto simp: r parse_binding_def Let_def filter_empty_conv list_all_iff split: pyval.splits if_splits)
    then have "valid_keymap env (dput i ks keymap)" using 2(3) by (auto simp: valid_keymap_def dget_dput)
    then show ?thesis using 2(2) Inr r by simp
  qed
qed simp

lemma parse_keymap_valid: "parse_keymap env v path = (keymap, w) \<Longrightarrow> valid_keymap env keymap"
  using parse_bindings_valid[of env "[]" _ "[]"]
  by (cases v) (auto simp: parse_keymap_def valid_keymap_def dest!: arg_cong[where f = fst])

lemma parse_admin_refresh_interval_valid: "parse_admin_refresh_interval admin = (i, w) \<Longrightarrow> is_valid_admin_refresh_interval i"
  by (auto simp: parse_admin_refresh_interval_def is_valid_admin_refresh_interval_def
      DEFAULT_ADMIN_REFRESH_INTERVAL_SECONDS_def MIN_ADMIN_REFRESH_INTERVAL_SECONDS_def split: option.splits pyval.splits if_splits)

lemma parse_theme_valid: "parse_theme v = (theme, w) \<Longrightarrow> theme = Some t \<Longrightarrow> strip t \<noteq> []"
  by (auto simp: parse_theme_def split: pyval.splits if_splits)

lemma positive_timeouts_get: "positive_timeouts c \<longleftrightarrow> (\<forall>p \<in> set TIMEOUT_PROPERTIES. \<forall>q. dget (timeout_as_dict c) p = Some q \<longrightarrow> 0 < q)"
proof
  assume "positive_timeouts c"
  then show "\<forall>p \<in> set TIMEOUT_PROPERTIES. \<forall>q. dget (timeout_as_dict c) p = Some q \<longrightarrow> 0 < q"
    by (auto simp: positive_timeouts_def list_all_iff dest!: map_of_SomeD)
next
  assume "\<forall>p \<in> set TIMEOUT_PROPERTIES. \<forall>q. dget (timeout_as_dict c) p = Some q \<longrightarrow> 0 < q"
  moreover have "(p, q) \<in> set (timeout_as_dict c) \<Longrightarrow> p \<in> set TIMEOUT_PROPERTIES \<and> dget (timeout_as_dict c) p = Some q" for p q
    using timeout_as_dict_keys[of c] by (metis fst_conv image_eqI map_of_is_SomeI)
  ultimately show "positive_timeouts c" by (fastforce simp: positive_timeouts_def list_all_iff)
qed

lemma default_timeouts_positive: "positive_timeouts default_timeouts"
  by (simp add: positive_timeouts_def timeout_as_dict_def default_timeouts_def)

lemma timeouts_from_dict_positive: "timeouts_from_dict fl config = Inr c \<Longrightarrow> positive_timeouts c"
  using timeouts_from_dict_Inr[of fl config c] default_timeouts_positive
  unfolding positive_timeouts_get by (fastforce split: option.splits)

definition known_timeouts :: "(string, rat) pydict \<Rightarrow> bool" where
  "known_timeouts d \<longleftrightarrow> (\<forall>(p, q) \<in> set d. p \<in> set TIMEOUT_PROPERTIES \<and> 0 < q)"

lemma set_dput: "set (dput k v d) \<subseteq> insert (k, v) (set d)"
  by (induction d) auto

lemma known_timeouts_dput: "known_timeouts d \<Longrightarrow> p \<in> set TIMEOUT_PROPERTIES \<Longrightarrow> 0 < q \<Longrightarrow> known_timeouts (dput p q d)"
  using set_dput[of p q d] by (fastforce simp: known_timeouts_def)

lemma known_timeouts_dmerge: "known_timeouts a \<Longrightarrow> known_timeouts b \<Longrightarrow> known_timeouts (dmerge a b)"
proof (induction b arbitrary: a)
  case (Cons p b)
  obtain k v where p: "p = (k, v)" by (cases p)
  have "k \<in> set TIMEOUT_PROPERTIES" "0 < v" "known_timeouts b" using Cons.prems(2) by (auto simp: p known_timeouts_def)
  then show ?case using Cons.IH[OF known_timeouts_dput[OF Cons.prems(1)]] by (simp add: p)
qed simp

lemma timeout_entries_outcome:
  assumes "\<And>n p. dget names n = Some p \<Longrightarrow> p \<in> set TIMEOUT_PROPERTIES" and "known_timeouts timeouts"
  shows "case timeout_entries env path names entries timeouts warnings of
    Inr (t, _) \<Rightarrow> known_timeouts t | Inl e \<Rightarrow> e = OverflowError"
  using assms(2)
proof (induction entries arbitrary: timeouts warnings)
  case (Cons e entries)
  obtain name v where e: "e = (name, v)" by (cases e)
  have seconds: "is_timeout_seconds env p v = Inl x \<Longrightarrow> x = OverflowError" "is_timeout_seconds env p v = Inr (Some q) \<Longrightarrow> 0 < q" for p q x
    by (auto simp: is_timeout_seconds_def parse_timeout_seconds_Inr raw_float_def parse_timeout_seconds_def
        split: pyval.splits sum.splits option.splits if_splits pyfloat.splits)
  show ?case
  proof (cases "case name of PStr n \<Rightarrow> dget names n | _ \<Rightarrow> None")
    case None
    then show ?thesis using Cons by (simp add: e)
  next
    case (Some p)
    then have p: "p \<in> set TIMEOUT_PROPERTIES" using assms(1) by (auto split: pyval.splits)
    show ?thesis
    proof (cases "is_timeout_seconds env p v")
      case (Inl x)
      then show ?thesis using Some seconds(1) by (simp add: e)
    next
      case (Inr r)
      then show ?thesis using Some Cons seconds(2) p known_timeouts_dput by (cases r) (simp_all add: e)
    qed
  qed
qed simp


lemma parse_timeouts_outcome:
  assumes "set properties \<subseteq> set TIMEOUT_PROPERTIES"
  shows "case parse_timeouts env section_name entries properties of
    Inr (t, _) \<Rightarrow> known_timeouts t | Inl e \<Rightarrow> e = OverflowError"
proof -
  have "dget (dict_of (map (\<lambda>p. (snd (partition_on CHR ''.'' p), p)) properties)) n = Some p \<Longrightarrow> p \<in> set TIMEOUT_PROPERTIES" for n p
    using assms by (auto simp: dget_dict_of dest!: map_of_SomeD)
  moreover have "known_timeouts []" by (simp add: known_timeouts_def)
  ultimately show ?thesis
    using timeout_entries_outcome[of "dict_of (map (\<lambda>p. (snd (partition_on CHR ''.'' p), p)) properties)" "[]" env]
    by (auto simp: parse_timeouts_def Let_def known_timeouts_def split: option.split pyval.split)
qed

lemma timeouts_from_known:
  assumes "known_timeouts d"
  shows "\<exists>c. timeouts_from_dict fl (map (map_prod id (SecondsFloat \<circ> Fin)) d) = Inr c"
proof -
  have "set (dkeys d) - set TIMEOUT_PROPERTIES = {}" using assms by (auto simp: known_timeouts_def)
  moreover have "\<exists>given. map_res (\<lambda>(name, raw). map_sum id (Pair name) (parse_timeout_seconds fl name raw))
      (map (map_prod id (SecondsFloat \<circ> Fin)) d) = Inr given"
    using assms by (induction d) (auto simp: known_timeouts_def parse_timeout_seconds_def raw_float_def not_le[symmetric])
  ultimately show ?thesis by (auto simp: timeouts_from_dict_def Let_def)
qed

section \<open>Properties\<close>

text \<open>Settings never stop the program and are always usable: whatever the settings file holds, loading it
  gives settings with a valid refresh interval, positive timeouts, a theme that is not blank and
  key bindings that exist with keys that exist; the only errors are an unreadable text encoding and
  a number of seconds too large for a float.\<close>

theorem settings_always_usable:
  "case load_settings env show_exn path document of
     Inr s \<Rightarrow> valid_settings env s
   | Inl e \<Rightarrow> e = OverflowError \<or> document = Some (Inl e) \<and> \<not> is_os_error e"
proof (cases "read_settings show_exn path document")
  case (Inl e)
  then show ?thesis
    by (auto simp: load_settings_def read_settings_def split: option.splits sum.splits pyval.splits if_splits)
next
  case (Inr r)
  obtain data w0 where r: "r = (data, w0)" by (cases r)
  obtain keymap w1 where keymap: "parse_keymap env (dget_or data (PStr ''keymap'') (PDict [])) path = (keymap, w1)" by fastforce
  obtain admin w2 where admin: "parse_section env data ''admin'' ADMIN_SETTINGS = (admin, w2)" by fastforce
  obtain interval w3 where interval: "parse_admin_refresh_interval admin = (interval, w3)" by fastforce
  obtain read_only w4 where read_only: "parse_admin_read_only admin = (read_only, w4)" by fastforce
  obtain consumer w6 where consumer: "parse_section env data ''consumer'' CONSUMER_SETTINGS = (consumer, w6)" by fastforce
  obtain producer w8 where producer: "parse_section env data ''producer'' PRODUCER_SETTINGS = (producer, w8)" by fastforce
  obtain theme w10 where theme: "parse_theme (dget_or data (PStr ''theme'') PNone) = (theme, w10)" by fastforce
  obtain themes w11 where themes: "settings_custom_themes (dget_or data (PStr ''themes'') PNone) = (themes, w11)" by fastforce
  let ?a = "parse_timeouts env ''admin'' admin ADMIN_TIMEOUT_PROPERTIES"
    and ?c = "parse_timeouts env ''consumer'' consumer CONSUMER_TIMEOUT_PROPERTIES"
    and ?p = "parse_timeouts env ''producer'' producer PRODUCER_TIMEOUT_PROPERTIES"
  have load: "load_settings env show_exn path document =
      rbind ?a (\<lambda>(a, w5). rbind ?c (\<lambda>(c, w7). rbind ?p (\<lambda>(p, w9).
        rbind (timeouts_from_dict (py_float.truncate env) (map (map_prod id (SecondsFloat \<circ> Fin)) (dmerge (dmerge a c) p))) (\<lambda>timeouts.
          Inr \<lparr>as_path = path, as_keymap = keymap, as_refresh_interval = interval, as_read_only = read_only, as_theme = theme,
            as_custom_themes = themes, as_timeouts = timeouts,
            as_warnings = w0 @ w1 @ w2 @ w3 @ w4 @ w5 @ w6 @ w7 @ w8 @ w9 @ w10 @ w11\<rparr>))))"
    unfolding load_settings_def Inr r by (simp add: keymap admin interval read_only consumer producer theme themes)
  have outcome: "case ?a of Inr (t, _) \<Rightarrow> known_timeouts t | Inl e \<Rightarrow> e = OverflowError"
    "case ?c of Inr (t, _) \<Rightarrow> known_timeouts t | Inl e \<Rightarrow> e = OverflowError"
    "case ?p of Inr (t, _) \<Rightarrow> known_timeouts t | Inl e \<Rightarrow> e = OverflowError"
    by (rule parse_timeouts_outcome, auto simp: TIMEOUT_PROPERTIES_def)+
  have valid: "positive_timeouts timeouts \<Longrightarrow> valid_settings env \<lparr>as_path = path, as_keymap = keymap, as_refresh_interval = interval,
      as_read_only = read_only, as_theme = theme, as_custom_themes = themes, as_timeouts = timeouts, as_warnings = w\<rparr>" for timeouts w
    using parse_keymap_valid[OF keymap] parse_admin_refresh_interval_valid[OF interval] parse_theme_valid[OF theme]
    by (auto simp: valid_settings_def)
  show ?thesis
  proof (cases "\<exists>a w5 c w7 p w9. ?a = Inr (a, w5) \<and> ?c = Inr (c, w7) \<and> ?p = Inr (p, w9)")
    case True
    then obtain a w5 c w7 p w9 where t: "?a = Inr (a, w5)" "?c = Inr (c, w7)" "?p = Inr (p, w9)" by blast
    then have "known_timeouts (dmerge (dmerge a c) p)" using outcome by (simp add: known_timeouts_dmerge)
    from timeouts_from_known[OF this, of "py_float.truncate env"] obtain timeouts where
      f: "timeouts_from_dict (py_float.truncate env) (map (map_prod id (SecondsFloat \<circ> Fin)) (dmerge (dmerge a c) p)) = Inr timeouts" by blast
    show ?thesis using valid[OF timeouts_from_dict_positive[OF f]] by (simp add: load t f)
  next
    case False
    then show ?thesis using outcome by (auto simp: load rbind_def split: sum.splits)
  qed
qed

text \<open>A number of seconds that no float holds is not caught: the settings file stops the program.\<close>

lemma settings_overflow:
  assumes "fl_int env i = None"
  shows "parse_timeouts env ''admin'' [(PStr ''timeouts'', PDict [(PStr ''read'', PInt i)])] ADMIN_TIMEOUT_PROPERTIES = Inl OverflowError"
  using assms by (simp add: parse_timeouts_def ADMIN_TIMEOUT_PROPERTIES_def dict_of_def partition_on_def is_timeout_seconds_def
      parse_timeout_seconds_def raw_float_def py_float.truncate_def)

text \<open>The command line wins over the settings: an accepted \<open>--timeout\<close> value belongs to this command and is used
  as a positive number of seconds, and every other timeout keeps its configured value.\<close>

theorem timeouts_precedence:
  assumes "resolve_timeouts show_exn fl properties configured inline_config = Inr c" and "ddistinct inline_config"
  shows "set (dkeys inline_config) \<subseteq> set properties \<and> (\<forall>p \<in> set TIMEOUT_PROPERTIES.
    case dget inline_config p of
      None \<Rightarrow> dget (timeout_as_dict c) p = dget (timeout_as_dict configured) p
    | Some s \<Rightarrow> \<exists>q. 0 < q \<and> fl_text fl s = Some (Fin q) \<and> dget (timeout_as_dict c) p = Some q)"
proof -
  let ?all = "dmerge (map (map_prod id (SecondsFloat \<circ> Fin)) (timeout_as_dict configured)) (map (map_prod id SecondsText) inline_config)"
  have own: "\<forall>p \<in> set (dkeys inline_config). p \<in> set TIMEOUT_PROPERTIES \<longrightarrow> p \<in> set properties"
    and c: "timeouts_from_dict fl ?all = Inr c"
    using assms(1) by (auto simp: resolve_timeouts_def find_None_iff split: option.splits sum.splits)
  note all = timeouts_from_dict_Inr[OF c]
  have get: "dget ?all p = (case dget inline_config p of None \<Rightarrow> map_option (SecondsFloat \<circ> Fin) (dget (timeout_as_dict configured) p)
      | Some s \<Rightarrow> Some (SecondsText s))" for p
    using assms(2) by (simp add: dget_dmerge dget_map_values split: option.split)
  have "set (dkeys inline_config) \<subseteq> set TIMEOUT_PROPERTIES"
    using all by (simp add: keyset_dmerge image_image)
  moreover have "case dget inline_config p of
      None \<Rightarrow> dget (timeout_as_dict c) p = dget (timeout_as_dict configured) p
    | Some s \<Rightarrow> \<exists>q. 0 < q \<and> fl_text fl s = Some (Fin q) \<and> dget (timeout_as_dict c) p = Some q"
    if p: "p \<in> set TIMEOUT_PROPERTIES" for p
    using bspec[OF conjunct2[OF all] p] timeout_as_dict_get[OF p, of configured]
    unfolding get by (auto simp: raw_float_def split: option.splits)
  ultimately show ?thesis using own by (intro conjI ballI) blast+
qed


theorem timeouts_precedence_witness:
  "\<exists>c. resolve_timeouts (\<lambda>_. []) \<lparr>fl_text = (\<lambda>s. if s = ''7'' then Some (Fin 7) else None), fl_int = (\<lambda>i. Some (Fin (of_int i)))\<rparr>
       ADMIN_TIMEOUT_PROPERTIES default_timeouts [(''admin.read'', ''7'')] = Inr c \<and>
     dget (timeout_as_dict c) ''admin.read'' = Some 7 \<and> dget (timeout_as_dict c) ''admin.write'' = Some 60"
proof -
  let ?fl = "\<lparr>fl_text = (\<lambda>s. if s = ''7'' then Some (Fin 7) else None), fl_int = (\<lambda>i. Some (Fin (of_int i)))\<rparr>"
  have "isl (resolve_timeouts (\<lambda>_. []) ?fl ADMIN_TIMEOUT_PROPERTIES default_timeouts [(''admin.read'', ''7'')]) = False" by code_simp
  then obtain c where c: "resolve_timeouts (\<lambda>_. []) ?fl ADMIN_TIMEOUT_PROPERTIES default_timeouts [(''admin.read'', ''7'')] = Inr c"
    by (cases "resolve_timeouts (\<lambda>_. []) ?fl ADMIN_TIMEOUT_PROPERTIES default_timeouts [(''admin.read'', ''7'')]") auto
  have d: "dget (timeout_as_dict default_timeouts) ''admin.write'' = Some 60" by code_simp
  have p: "''admin.read'' \<in> set TIMEOUT_PROPERTIES" "''admin.write'' \<in> set TIMEOUT_PROPERTIES" by code_simp+
  have "ddistinct [(''admin.read'', ''7'')]" by simp
  note t = conjunct2[OF timeouts_precedence[OF c this]]
  have "dget (timeout_as_dict c) ''admin.read'' = Some 7" using bspec[OF t p(1)] by simp
  moreover have "dget (timeout_as_dict c) ''admin.write'' = Some 60" using bspec[OF t p(2)] d by simp
  moreover note c
  ultimately show ?thesis by (intro exI[of _ c] conjI)
qed

text \<open>An accepted custom theme is one the program can register: its name is well formed and no built-in theme's,
  it has a primary color, every property is a theme property, and each color is the normalized
  color of some text the file gives.\<close>

theorem custom_themes_registrable:
  assumes "(name, properties) \<in> set (fst (parse_custom_themes env builtin definitions))"
  shows "custom_theme_name name \<and> name \<notin> set (available_theme_names builtin) \<and> din ''primary'' properties \<and>
    (\<forall>p v. dget properties p = Some v \<longrightarrow> p = ''dark'' \<and> (\<exists>b. v = PBool b) \<or>
       p \<in> set CUSTOM_THEME_COLORS \<and> (\<exists>given c. theme_color env given = Some c \<and> v = PStr c))"
proof -
  let ?ok = "\<lambda>ps. \<forall>p v. dget ps p = Some v \<longrightarrow> p = ''dark'' \<and> (\<exists>b. v = PBool b) \<or>
     p \<in> set CUSTOM_THEME_COLORS \<and> (\<exists>given c. theme_color env given = Some c \<and> v = PStr c)"
  have step: "theme_property env setting n v = Inr (m, x) \<Longrightarrow> m = ''dark'' \<and> (\<exists>b. x = PBool b) \<or>
     m \<in> set CUSTOM_THEME_COLORS \<and> (\<exists>given c. theme_color env given = Some c \<and> x = PStr c)" for setting n v m x
    by (auto simp: theme_property_def Let_def split: pyval.splits if_splits option.splits)
  have ok: "?ok ps \<Longrightarrow> ?ok (fst (parse_theme_properties env setting entries ps ws))" for setting entries ps ws
  proof (induction entries arbitrary: ps ws)
    case (Cons e entries)
    obtain n v where e: "e = (n, v)" by (cases e)
    show ?case
    proof (cases "theme_property env setting n v")
      case (Inl w)
      then show ?thesis using Cons by (simp add: e)
    next
      case (Inr r)
      obtain m x where r: "r = (m, x)" by (cases r)
      have "?ok (dput m x ps)" using Cons.prems step[OF Inr[unfolded r]] by (simp add: dget_dput)
      from Cons.IH[OF this] show ?thesis using Inr r by (simp add: e)
    qed
  qed simp
  obtain n d w where t: "parse_custom_theme env (available_theme_names builtin) n d = (Some (name, properties), w)"
    using assms by (auto simp: parse_custom_themes_def Let_def split: option.splits prod.splits) (metis surj_pair)
  obtain entries ps ws where d: "n = PStr name" "custom_theme_name name" "name \<notin> set (available_theme_names builtin)"
    "parse_theme_properties env (''themes.'' @ se_str env n) entries [] [] = (properties, ws)" "din ''primary'' properties"
    using t by (auto simp: parse_custom_theme_def Let_def split: pyval.splits if_splits prod.splits)
  show ?thesis using d ok[of "[]" "''themes.'' @ se_str env n" entries "[]"] by simp
qed

theorem custom_themes_registrable_witness:
  "let env = \<lparr>fl_text = (\<lambda>_. None), fl_int = (\<lambda>i. Some (Fin (of_int i))), se_str = (\<lambda>v. case v of PStr s \<Rightarrow> s | _ \<Rightarrow> []),
       se_repr = (\<lambda>_. []), se_named_key = (\<lambda>_. False), se_character = (\<lambda>_. False), se_printable = (\<lambda>_. True),
       se_color = (\<lambda>s. if s = ''red'' then Some (None, ''#FF0000'', 1) else None)\<rparr>;
       themes = fst (parse_custom_themes env [''nord'']
         [(PStr ''night-2'', PDict [(PStr ''primary'', PStr ''red''), (PStr ''dark'', PBool True), (PStr ''panel'', PInt 3)]),
          (PStr ''nord'', PDict [(PStr ''primary'', PStr ''red'')])])
   in themes = [(''night-2'', [(''primary'', PStr ''#FF0000''), (''dark'', PBool True)])] \<and>
      (\<forall>(name, properties) \<in> set themes. custom_theme_name name \<and> name \<notin> set (available_theme_names [''nord'']) \<and> din ''primary'' properties)"
proof -
  let ?env = "\<lparr>fl_text = (\<lambda>_. None), fl_int = (\<lambda>i. Some (Fin (of_int i))), se_str = (\<lambda>v. case v of PStr s \<Rightarrow> s | _ \<Rightarrow> []),
       se_repr = (\<lambda>_. []), se_named_key = (\<lambda>_. False), se_character = (\<lambda>_. False), se_printable = (\<lambda>_. True),
       se_color = (\<lambda>s. if s = ''red'' then Some (None, ''#FF0000'', 1) else None)\<rparr>"
  let ?given = "[(PStr ''night-2'', PDict [(PStr ''primary'', PStr ''red''), (PStr ''dark'', PBool True), (PStr ''panel'', PInt 3)]),
          (PStr ''nord'', PDict [(PStr ''primary'', PStr ''red'')])]"
  have "fst (parse_custom_themes ?env [''nord''] ?given) = [(''night-2'', [(''primary'', PStr ''#FF0000''), (''dark'', PBool True)])]"
    by code_simp
  moreover have "\<forall>(name, properties) \<in> set (fst (parse_custom_themes ?env [''nord''] ?given)).
      custom_theme_name name \<and> name \<notin> set (available_theme_names [''nord'']) \<and> din ''primary'' properties"
    using custom_themes_registrable[of _ _ ?env "[''nord'']" ?given] by blast
  ultimately show ?thesis unfolding Let_def by (rule conjI)
qed

end
