(* ===== verification/Connection.thy ===== *)
theory Connection
  imports Settings
begin

text \<open>
  The Kafka and Registry connection of a command: the configuration file (\<open>files.py\<close>), its merge with
  the command line (\<open>cli/connection.py\<close>) and Amazon MSK IAM authentication (\<open>authentication.py\<close>).

  Parameters: reading a file, Python's \<open>configparser\<close> (which gives the entries of its \<open>DEFAULT\<close>
  section and the other sections, or its error), and the AWS signer, which gives a token and the
  millisecond it expires at.
\<close>

section \<open>Files\<close>

definition load_ini ::
  "(string \<Rightarrow> string res) \<Rightarrow> (string \<Rightarrow> string + config \<times> (string \<times> config) list) \<Rightarrow> string \<Rightarrow> (string, config) pydict res" where
  "load_ini read_file parse_ini path =
     rbind (read_file path) (\<lambda>contents.
       case parse_ini contents of
         Inl problem \<Rightarrow> Inl (ValueError (''Invalid INI: '' @ problem))
       | Inr (defaults, sections) \<Rightarrow> Inr (dict_of (map (\<lambda>(section_name, entries). (section_name, dmerge defaults entries)) sections)))"

definition CONFIG_FILE_SECTIONS :: "string list" where
  "CONFIG_FILE_SECTIONS = [''kafka'', ''registry'', ''aws'']"

definition BOOTSTRAP_SERVERS_REQUIRED :: string where
  "BOOTSTRAP_SERVERS_REQUIRED =
     ''Bootstrap servers are required. Use -b/--bootstrap-server or set bootstrap.servers with --kafka or --config-file.''"

type_synonym config_file = "(string, config) pydict"

definition load_config_file :: "(exn \<Rightarrow> string) \<Rightarrow> (string \<Rightarrow> config_file res) \<Rightarrow> string option \<Rightarrow> config_file res" where
  "load_config_file show_exn load config_file =
     (case config_file of
        None \<Rightarrow> Inr []
      | Some path \<Rightarrow>
          (case load path of
             Inl e \<Rightarrow>
               Inl (if is_os_error e \<or> is_value_error e
                    then ClickException (''Invalid configuration file: '' @ show_exn e) else e)
           | Inr config \<Rightarrow>
               (let unknown_sections = filter (\<lambda>s. s \<notin> set CONFIG_FILE_SECTIONS) (dkeys config) in
                if unknown_sections \<noteq> []
                then Inl (ClickException (''Unknown configuration sections: '' @ join '', '' unknown_sections))
                else if config = []
                then Inl (ClickException (''Configuration file requires '' @
                       join '' or '' (map (\<lambda>s. ''['' @ s @ '']'') CONFIG_FILE_SECTIONS)))
                else Inr config)))"

section \<open>Amazon MSK IAM\<close>

text \<open>What a Kafka client's configuration holds: texts of the user, flags and numbers of the
  program, the error callback, and the callable that signs a token for a region.\<close>

datatype kafka_value = KText string | KBool bool | KInt int | KErrorCallback | KAwsOAuth string

type_synonym kafka_config = "(string, kafka_value) pydict"

type_synonym token_signer = "string \<Rightarrow> (string \<times> int) res"

definition AWS_CREDENTIALS_HELP :: string where
  "AWS_CREDENTIALS_HELP = ''Configure AWS credentials or set AWS_PROFILE''"

definition subscript :: "(string, 'v) pydict \<Rightarrow> string \<Rightarrow> 'v res" where
  "subscript d k = (case dget d k of None \<Rightarrow> Inl (KeyError k) | Some v \<Rightarrow> Inr v)"

definition oauth_token :: "token_signer \<Rightarrow> string \<Rightarrow> (string \<times> rat) res" where
  "oauth_token sign region = map_sum id (\<lambda>(token, expiration_ms). (token, of_int expiration_ms / 1000)) (sign region)"

definition rstrip_dots :: "string \<Rightarrow> string" where
  "rstrip_dots s = rev (dropWhile (\<lambda>c. c = CHR ''.'') (rev s))"

definition aws_error_detail :: "(exn \<Rightarrow> string) \<Rightarrow> (exn \<Rightarrow> string) \<Rightarrow> exn \<Rightarrow> string" where
  "aws_error_detail show_exn class_name e =
     (let detail = rstrip_dots (strip (show_exn e)) in
      if e = AttributeError \<and> contains (quoted ''NoneType'' @ '' object has no attribute '' @ quoted ''access_key'') detail
      then ''Unable to locate AWS credentials''
      else if detail = [] then class_name e else detail)"

definition validate_aws_msk_credentials ::
  "(exn \<Rightarrow> string) \<Rightarrow> (exn \<Rightarrow> string) \<Rightarrow> token_signer \<Rightarrow> config \<Rightarrow> unit res" where
  "validate_aws_msk_credentials show_exn class_name sign aws_config =
     (if aws_config = [] then Inr ()
      else
        (case rbind (subscript aws_config ''region'') sign of
           Inr _ \<Rightarrow> Inr ()
         | Inl e \<Rightarrow> Inl (AwsMskAuthenticationError (''AWS MSK IAM authentication failed: '' @
             aws_error_detail show_exn class_name e @ ''. '' @ AWS_CREDENTIALS_HELP @ ''.''))))"

definition configure_aws_msk_iam :: "kafka_config \<Rightarrow> config \<Rightarrow> kafka_config res" where
  "configure_aws_msk_iam config aws_config =
     (if aws_config = [] then Inr config
      else rbind (subscript aws_config ''region'') (\<lambda>region.
        Inr (dmerge config [(''security.protocol'', KText ''SASL_SSL''), (''sasl.mechanism'', KText ''OAUTHBEARER''),
          (''oauth_cb'', KAwsOAuth region)])))"

section \<open>The connection\<close>

record connection =
  cn_kafka :: kafka_config
  cn_registry :: config

definition resolve_kafka_config :: "string option \<Rightarrow> config \<Rightarrow> kafka_config \<Rightarrow> kafka_config res" where
  "resolve_kafka_config bootstrap_servers file_config kafka_config =
     (let merged = dmerge (map (map_prod id KText) file_config) kafka_config;
          resolved = (case bootstrap_servers of None \<Rightarrow> merged | Some b \<Rightarrow> dput BOOTSTRAP_SERVERS (KText b) merged) in
      case dget resolved BOOTSTRAP_SERVERS of
        Some (KText b) \<Rightarrow> if strip b = [] then Inl (ClickException BOOTSTRAP_SERVERS_REQUIRED) else Inr resolved
      | _ \<Rightarrow> Inl (ClickException BOOTSTRAP_SERVERS_REQUIRED))"

definition validate_aws_config :: "config \<Rightarrow> unit res" where
  "validate_aws_config aws_config =
     (if aws_config = [] then Inr ()
      else if list_ex (\<lambda>k. k \<notin> set AWS_CONFIGS) (dkeys aws_config)
      then Inl (BadParameter (''Valid properties: ['' @ join '', '' (map py_repr AWS_CONFIGS) @ ''].''))
      else if dget_or aws_config ''region'' [] = [] then Inl (MissingParameter (quoted ''--aws region=my-region''))
      else Inr ())"

definition resolve_connection ::
  "(exn \<Rightarrow> string) \<Rightarrow> (exn \<Rightarrow> string) \<Rightarrow> token_signer \<Rightarrow> config_file \<Rightarrow> string option \<Rightarrow> kafka_config \<Rightarrow> config \<Rightarrow> config
     \<Rightarrow> connection res" where
  "resolve_connection show_exn class_name sign file_config bootstrap_servers kafka_config aws_config registry_config =
     rbind (resolve_kafka_config bootstrap_servers (dget_or file_config ''kafka'' []) kafka_config) (\<lambda>kafka.
     let registry = dmerge (dget_or file_config ''registry'' []) registry_config;
         aws = dmerge (dget_or file_config ''aws'' []) aws_config in
     rbind (validate_aws_config aws) (\<lambda>_.
     rbind (case validate_aws_msk_credentials show_exn class_name sign aws of
              Inl (AwsMskAuthenticationError m) \<Rightarrow> Inl (ClickException (show_exn (AwsMskAuthenticationError m))) | r \<Rightarrow> r) (\<lambda>_.
     rbind (configure_aws_msk_iam kafka aws) (\<lambda>configured.
       Inr \<lparr>cn_kafka = configured, cn_registry = registry\<rparr>))))"

section \<open>Lemmas\<close>

text \<open>What the command line and the file say of one property, the command line first.\<close>

definition configured :: "config_file \<Rightarrow> string \<Rightarrow> (string, 'v) pydict \<Rightarrow> (string \<Rightarrow> 'v) \<Rightarrow> string \<Rightarrow> 'v option" where
  "configured file_config section_name inline_config of_text k =
     (case dget inline_config k of Some v \<Rightarrow> Some v | None \<Rightarrow> map_option of_text (dget (dget_or file_config section_name []) k))"

definition AWS_KAFKA_PROPERTIES :: "string list" where
  "AWS_KAFKA_PROPERTIES = [''security.protocol'', ''sasl.mechanism'', ''oauth_cb'']"

lemma resolve_kafka_config_Inr:
  assumes "resolve_kafka_config b file_config kafka = Inr config" and "ddistinct kafka"
  shows "(\<exists>s. dget config BOOTSTRAP_SERVERS = Some (KText s) \<and> strip s \<noteq> []) \<and>
    (\<forall>k. dget config k = (if k = BOOTSTRAP_SERVERS \<and> b \<noteq> None then Some (KText (the b))
       else case dget kafka k of Some v \<Rightarrow> Some v | None \<Rightarrow> map_option KText (dget file_config k)))"
proof -
  have "config = (case b of None \<Rightarrow> dmerge (map (map_prod id KText) file_config) kafka
      | Some s \<Rightarrow> dput BOOTSTRAP_SERVERS (KText s) (dmerge (map (map_prod id KText) file_config) kafka))"
    and "\<exists>s. dget config BOOTSTRAP_SERVERS = Some (KText s) \<and> strip s \<noteq> []"
    using assms(1) by (auto simp: resolve_kafka_config_def Let_def split: option.splits kafka_value.splits if_splits)
  then show ?thesis
    using assms(2) by (auto simp: dget_dput dget_dmerge dget_map_values split: option.splits)
qed

lemma configure_aws_msk_iam_Inr:
  assumes "configure_aws_msk_iam config aws = Inr config'"
  shows "if aws = [] then config' = config
    else \<exists>region. dget aws ''region'' = Some region \<and>
      (\<forall>k. dget config' k = (if k = ''oauth_cb'' then Some (KAwsOAuth region)
         else if k = ''sasl.mechanism'' then Some (KText ''OAUTHBEARER'')
         else if k = ''security.protocol'' then Some (KText ''SASL_SSL'') else dget config k))"
proof (cases "aws = []")
  case False
  then obtain region where "dget aws ''region'' = Some region"
    and c: "config' = dput ''oauth_cb'' (KAwsOAuth region) (dput ''sasl.mechanism'' (KText ''OAUTHBEARER'')
      (dput ''security.protocol'' (KText ''SASL_SSL'') config))"
    using assms by (cases "dget aws ''region''") (simp_all add: configure_aws_msk_iam_def subscript_def)
  then show ?thesis using False unfolding c by (simp only: dget_dput if_False) blast
qed (use assms in \<open>simp add: configure_aws_msk_iam_def\<close>)

lemma validate_aws_msk_credentials_Inr:
  "validate_aws_msk_credentials show_exn class_name sign aws = Inr u \<Longrightarrow> dget aws ''region'' = Some region \<Longrightarrow>
   \<exists>token. sign region = Inr token"
  by (cases "sign region") (auto simp: validate_aws_msk_credentials_def subscript_def split: if_splits)

section \<open>Properties\<close>

text \<open>C31: a resolved connection says what the user asked for: bootstrap servers are given and not blank, every Kafka
  and Registry property is the command line's value or, without one, the file's, and
  \<open>--bootstrap-server\<close> wins over both; with AWS configured the connection is an encrypted OAuth one
  for the region, whose credentials were checked.\<close>

theorem connection_precedence:
  assumes "resolve_connection show_exn class_name sign file_config bootstrap kafka aws registry = Inr c"
    and "ddistinct kafka" and "ddistinct registry" and "ddistinct aws"
  shows "(\<exists>s. dget (cn_kafka c) BOOTSTRAP_SERVERS = Some (KText s) \<and> strip s \<noteq> []) \<and>
    (\<forall>k. dget (cn_registry c) k = configured file_config ''registry'' registry id k) \<and>
    (\<forall>k. k \<notin> set AWS_KAFKA_PROPERTIES \<longrightarrow> dget (cn_kafka c) k =
       (if k = BOOTSTRAP_SERVERS \<and> bootstrap \<noteq> None then Some (KText (the bootstrap))
        else configured file_config ''kafka'' kafka KText k)) \<and>
    (case configured file_config ''aws'' aws id ''region'' of
       Some region \<Rightarrow> region \<noteq> [] \<and> (\<exists>token. sign region = Inr token) \<and>
         dget (cn_kafka c) ''security.protocol'' = Some (KText ''SASL_SSL'') \<and>
         dget (cn_kafka c) ''sasl.mechanism'' = Some (KText ''OAUTHBEARER'') \<and>
         dget (cn_kafka c) ''oauth_cb'' = Some (KAwsOAuth region)
     | None \<Rightarrow> \<forall>k. dget (cn_kafka c) k = (if k = BOOTSTRAP_SERVERS \<and> bootstrap \<noteq> None then Some (KText (the bootstrap))
         else configured file_config ''kafka'' kafka KText k))"
proof -
  let ?aws = "dmerge (dget_or file_config ''aws'' []) aws"
  obtain config where k: "resolve_kafka_config bootstrap (dget_or file_config ''kafka'' []) kafka = Inr config"
    and v: "validate_aws_config ?aws = Inr ()"
    and t: "validate_aws_msk_credentials show_exn class_name sign ?aws = Inr ()"
    and a: "configure_aws_msk_iam config ?aws = Inr (cn_kafka c)"
    and r: "cn_registry c = dmerge (dget_or file_config ''registry'' []) registry"
    using assms(1) by (auto simp: resolve_connection_def Let_def res_simps split: sum.splits exn.splits)
  have boot: "\<exists>s. dget config BOOTSTRAP_SERVERS = Some (KText s) \<and> strip s \<noteq> []"
    and kafka: "dget config k = (if k = BOOTSTRAP_SERVERS \<and> bootstrap \<noteq> None then Some (KText (the bootstrap))
        else configured file_config ''kafka'' kafka KText k)" for k
    using resolve_kafka_config_Inr[OF k assms(2)] unfolding configured_def by blast+
  have aws: "dget ?aws ''region'' = configured file_config ''aws'' aws id ''region''"
    and reg: "\<forall>k. dget (cn_registry c) k = configured file_config ''registry'' registry id k"
    using assms(3,4) by (auto simp: r configured_def dget_dmerge option.map_id split: option.split)
  show ?thesis
  proof (cases "?aws = []")
    case True
    then have "cn_kafka c = config" using configure_aws_msk_iam_Inr[OF a] by simp
    moreover have "configured file_config ''aws'' aws id ''region'' = None" using True aws by simp
    ultimately show ?thesis using boot kafka reg by simp
  next
    case False
    then obtain region where region: "dget ?aws ''region'' = Some region" "region \<noteq> []"
      using v configure_aws_msk_iam_Inr[OF a] by (auto simp: validate_aws_config_def dget_or_def split: if_splits option.splits)
    have *: "dget (cn_kafka c) k = (if k = ''oauth_cb'' then Some (KAwsOAuth region)
         else if k = ''sasl.mechanism'' then Some (KText ''OAUTHBEARER'')
         else if k = ''security.protocol'' then Some (KText ''SASL_SSL'') else dget config k)" for k
      using False configure_aws_msk_iam_Inr[OF a] region by simp
    then have same: "dget (cn_kafka c) k = dget config k" if "k \<notin> set AWS_KAFKA_PROPERTIES" for k
      using that by (simp add: AWS_KAFKA_PROPERTIES_def)
    have "BOOTSTRAP_SERVERS \<notin> set AWS_KAFKA_PROPERTIES" by code_simp
    from same[OF this] have "\<exists>s. dget (cn_kafka c) BOOTSTRAP_SERVERS = Some (KText s) \<and> strip s \<noteq> []" using boot by simp
    moreover have "\<forall>k. k \<notin> set AWS_KAFKA_PROPERTIES \<longrightarrow> dget (cn_kafka c) k =
       (if k = BOOTSTRAP_SERVERS \<and> bootstrap \<noteq> None then Some (KText (the bootstrap))
        else configured file_config ''kafka'' kafka KText k)"
      using same kafka by simp
    moreover have "configured file_config ''aws'' aws id ''region'' = Some region" using aws region by simp
    ultimately show ?thesis
      using reg region(2) *[of "''security.protocol''"] *[of "''sasl.mechanism''"] *[of "''oauth_cb''"]
        validate_aws_msk_credentials_Inr[OF t region(1)] by simp
  qed
qed

theorem connection_precedence_witness:
  "\<exists>c. resolve_connection (\<lambda>_. []) (\<lambda>_. []) (\<lambda>r. Inr (''token'', 1)) [(''kafka'', [(''client.id'', ''a''), (BOOTSTRAP_SERVERS, ''h:1'')])]
        (Some ''h:2'') [(''client.id'', KText ''b'')] [(''region'', ''eu'')] [] = Inr c \<and>
     dget (cn_kafka c) BOOTSTRAP_SERVERS = Some (KText ''h:2'') \<and> dget (cn_kafka c) ''client.id'' = Some (KText ''b'') \<and>
     dget (cn_kafka c) ''oauth_cb'' = Some (KAwsOAuth ''eu'')"
proof -
  let ?file = "[(''kafka'', [(''client.id'', ''a''), (BOOTSTRAP_SERVERS, ''h:1'')])]"
  let ?r = "resolve_connection (\<lambda>_. []) (\<lambda>_. []) (\<lambda>r. Inr (''token'', 1)) ?file
        (Some ''h:2'') [(''client.id'', KText ''b'')] [(''region'', ''eu'')] []"
  have "isl ?r = False" by code_simp
  then obtain c where c: "?r = Inr c" by (cases ?r) auto
  have d: "ddistinct [(''client.id'', KText ''b'')]" "ddistinct ([] :: config)" "ddistinct [(''region'', ''eu'')]" by simp_all
  note p = connection_precedence[OF c d]
  have n: "BOOTSTRAP_SERVERS \<notin> set AWS_KAFKA_PROPERTIES" "''client.id'' \<notin> set AWS_KAFKA_PROPERTIES"
    "''client.id'' \<noteq> BOOTSTRAP_SERVERS" by code_simp+
  have "configured ?file ''aws'' [(''region'', ''eu'')] id ''region'' = Some ''eu''"
    and "configured ?file ''kafka'' [(''client.id'', KText ''b'')] KText ''client.id'' = Some (KText ''b'')"
    by (simp_all add: configured_def)
  then show ?thesis using c p n by (intro exI[of _ c]) simp
qed

end
