(* ===== verification/Record_Source.thy ===== *)
theory Record_Source
  imports Byte_Codecs
begin

text \<open>
  Records on disk: the draft a \<open>--source\<close> file holds (\<open>producer/source.py\<close>) and the export of a
  consumed record (\<open>record_export.py\<close>). A JSON document is a \<open>pyval\<close> whose objects have text keys.

  Parameters: reading the file, \<open>json.loads\<close> (whose error of its own is told from the other
  exceptions it lets through), and \<open>json.dumps\<close> with its default writer.
\<close>

section \<open>Drafts\<close>

definition DOCUMENT_FIELDS :: "string list" where "DOCUMENT_FIELDS = [''headers'', ''key'', ''value'']"
definition HEADER_FIELDS :: "string list" where "HEADER_FIELDS = [''key'', ''value'']"
definition FIELD_PROPERTIES :: "string list" where "FIELD_PROPERTIES = [''content'']"

record draft_field =
  df_content :: pyval
  df_is_null :: bool

definition empty_field :: draft_field where "empty_field = \<lparr>df_content = PNone, df_is_null = True\<rparr>"

record record_draft =
  rd_headers :: "(string \<times> string option) list"
  rd_key :: draft_field
  rd_value :: draft_field

definition text_keys :: "(pyval \<times> pyval) list \<Rightarrow> string list" where
  "text_keys entries = concat (map (\<lambda>(k, _). case k of PStr s \<Rightarrow> [s] | _ \<Rightarrow> []) entries)"

definition reject_unknown :: "(pyval \<times> pyval) list \<Rightarrow> string list \<Rightarrow> string \<Rightarrow> unit res" where
  "reject_unknown document allowed subject =
     (let unknown = sorted_list_of_set (set (text_keys document) - set allowed) in
      raise_if (unknown \<noteq> []) (SourceError (''unknown '' @ subject @ '' field(s): '' @ join '', '' unknown)))"

definition parse_header :: "nat \<Rightarrow> pyval \<Rightarrow> (string \<times> string option) res" where
  "parse_header index header =
     (let shape = SourceError (''header '' @ show_nat index @ '' must be an object with '' @ quoted ''key'' @ '' and '' @ quoted ''value'') in
      case header of
        PDict entries \<Rightarrow>
          if set (text_keys entries) \<noteq> set HEADER_FIELDS then Inl shape
          else
            (case (dget_or entries (PStr ''key'') PNone, dget_or entries (PStr ''value'') PNone) of
               (PStr name, PNone) \<Rightarrow> Inr (name, None)
             | (PStr name, PStr v) \<Rightarrow> Inr (name, Some v)
             | _ \<Rightarrow> Inl (SourceError (''header '' @ show_nat index @ '' needs a string key and a string or null value'')))
      | _ \<Rightarrow> Inl shape)"

definition parse_headers :: "pyval \<Rightarrow> (string \<times> string option) list res" where
  "parse_headers headers =
     (case headers of
        PList hs \<Rightarrow> map_res (\<lambda>(i, h). parse_header i h) (enumerate 0 hs)
      | _ \<Rightarrow> Inl (SourceError (quoted ''headers'' @ '' must be an array'')))"

definition parse_field :: "pyval \<Rightarrow> string \<Rightarrow> draft_field res" where
  "parse_field field name =
     (case field of
        PNone \<Rightarrow> Inr empty_field
      | PDict entries \<Rightarrow>
          rbind (reject_unknown entries FIELD_PROPERTIES (quoted name)) (\<lambda>_.
            let content = dget_or entries (PStr ''content'') PNone in
            Inr \<lparr>df_content = content, df_is_null = (content = PNone)\<rparr>)
      | _ \<Rightarrow> Inl (SourceError (quoted name @ '' must be an object with '' @ quoted ''content'')))"

definition parse_document :: "pyval \<Rightarrow> record_draft res" where
  "parse_document document =
     (case document of
        PDict entries \<Rightarrow>
          rbind (reject_unknown entries DOCUMENT_FIELDS ''record'') (\<lambda>_.
          rbind (parse_headers (dget_or entries (PStr ''headers'') (PList []))) (\<lambda>headers.
          rbind (parse_field (dget_or entries (PStr ''key'') PNone) ''key'') (\<lambda>key.
          rbind (parse_field (dget_or entries (PStr ''value'') PNone) ''value'') (\<lambda>v.
            Inr \<lparr>rd_headers = headers, rd_key = key, rd_value = v\<rparr>))))
      | _ \<Rightarrow> Inl (SourceError ''a record document must be a JSON object''))"

datatype json_outcome = JsonDocument pyval | JsonDecodeError nat string | JsonRaises exn

definition load_draft :: "(exn \<Rightarrow> string) \<Rightarrow> (string \<Rightarrow> string res) \<Rightarrow> (string \<Rightarrow> json_outcome) \<Rightarrow> string \<Rightarrow> record_draft res" where
  "load_draft show_exn read_text json_loads path =
     (case read_text path of
        Inl e \<Rightarrow> Inl (if is_os_error e \<or> e = UnicodeDecodeError
                      then SourceError (''Unable to read the source file: '' @ show_exn e) else e)
      | Inr contents \<Rightarrow>
          (case json_loads contents of
             JsonDecodeError line msg \<Rightarrow> Inl (SourceError (''Invalid JSON at line '' @ show_nat line @ '': '' @ msg))
           | JsonRaises e \<Rightarrow> Inl e
           | JsonDocument document \<Rightarrow> parse_document document))"

section \<open>Exports\<close>

definition readable_content :: "(pyval \<Rightarrow> string) \<Rightarrow> pyval \<Rightarrow> string" where
  "readable_content readable_json content = (case content of PStr s \<Rightarrow> s | _ \<Rightarrow> readable_json content)"

definition record_json :: "(pyval \<Rightarrow> string) \<Rightarrow> pyval \<Rightarrow> string" where
  "record_json readable_json data = readable_json data @ [CHR 0x0A]"

definition RESERVED_CHARACTERS :: string where
  "RESERVED_CHARACTERS = '' <>:'' @ [CHR 0x22] @ ''/'' @ [CHR 0x5C] @ ''|?*.''"

definition record_filename :: "string \<Rightarrow> int \<Rightarrow> int \<Rightarrow> string \<Rightarrow> string" where
  "record_filename topic p offset timestamp =
     (let stem = ''kaskade-record-'' @ topic @ ''-'' @ show_int p @ ''-'' @ show_int offset @ ''_'' @ timestamp in
      foldl (\<lambda>s reserved. replace_char reserved CHR ''_'' s) stem RESERVED_CHARACTERS @ ''.json'')"

section \<open>Lemmas\<close>

lemma parse_header_Inl: "parse_header i h = Inl e \<Longrightarrow> \<exists>m. e = SourceError m"
  by (auto simp: parse_header_def Let_def split: pyval.splits if_splits)

lemma parse_headers_Inl: "map_res (\<lambda>(i, h). parse_header i h) ihs = Inl e \<Longrightarrow> \<exists>m. e = SourceError m"
  by (induction ihs) (auto simp: res_simps dest: parse_header_Inl)

lemma parse_document_Inl: "parse_document d = Inl e \<Longrightarrow> \<exists>m. e = SourceError m"
  by (auto simp: parse_document_def parse_headers_def parse_field_def reject_unknown_def Let_def res_simps
      dest: parse_headers_Inl split: pyval.splits)

lemma parse_field_Inr: "parse_field field name = Inr f \<Longrightarrow> df_is_null f = (df_content f = PNone)"
  by (auto simp: parse_field_def empty_field_def Let_def res_simps split: pyval.splits)

lemma parse_document_Inr: "parse_document d = Inr r \<Longrightarrow>
    df_is_null (rd_key r) = (df_content (rd_key r) = PNone) \<and> df_is_null (rd_value r) = (df_content (rd_value r) = PNone)"
  by (auto simp: parse_document_def res_simps dest: parse_field_Inr split: pyval.splits)

section \<open>Properties\<close>

text \<open>The content a record document has for a field, null when it has none, and its headers, in order.\<close>

definition document_content :: "(pyval \<times> pyval) list \<Rightarrow> string \<Rightarrow> pyval" where
  "document_content entries name =
     (case dget entries (PStr name) of Some (PDict field) \<Rightarrow> dget_or field (PStr ''content'') PNone | _ \<Rightarrow> PNone)"

definition shows_header :: "pyval \<Rightarrow> string \<times> string option \<Rightarrow> bool" where
  "shows_header h nv \<longleftrightarrow>
     (\<exists>entries. h = PDict entries \<and> dget_or entries (PStr ''key'') PNone = PStr (fst nv) \<and>
        dget_or entries (PStr ''value'') PNone = (case snd nv of None \<Rightarrow> PNone | Some w \<Rightarrow> PStr w))"

definition document_headers :: "(pyval \<times> pyval) list \<Rightarrow> (string \<times> string option) list \<Rightarrow> bool" where
  "document_headers entries headers \<longleftrightarrow>
     (\<exists>hs. dget_or entries (PStr ''headers'') (PList []) = PList hs \<and> list_all2 shows_header hs headers)"

lemma parse_header_shows: "parse_header i h = Inr nv \<Longrightarrow> shows_header h nv"
  by (auto simp: parse_header_def shows_header_def Let_def split: pyval.splits if_splits)

lemma parse_headers_show: "map_res (\<lambda>(i, h). parse_header i h) (enumerate n hs) = Inr headers \<Longrightarrow> list_all2 shows_header hs headers"
  by (induction hs arbitrary: n headers) (auto simp: res_simps dest: parse_header_shows)

lemma parse_field_content:
  assumes "parse_field (dget_or entries (PStr name) PNone) label = Inr f"
  shows "df_content f = document_content entries name"
  using assms
  by (auto simp: parse_field_def empty_field_def document_content_def dget_or_def Let_def res_simps split: pyval.splits option.splits)

lemma shows_header_unique: "shows_header h nv \<Longrightarrow> shows_header h nv' \<Longrightarrow> nv = nv'"
  by (cases nv; cases nv') (auto simp: shows_header_def split: option.splits)

lemma shows_headers_unique: "list_all2 shows_header hs headers \<Longrightarrow> list_all2 shows_header hs headers' \<Longrightarrow> headers = headers'"
proof (induction hs arbitrary: headers headers')
  case (Cons h hs)
  then show ?case by (cases headers; cases headers') (auto dest: shows_header_unique)
qed simp

text \<open>A source file's draft has the headers of its document, in their order, and its contents, null exactly for those.\<close>

theorem draft_of_document:
  assumes "parse_document (PDict entries) = Inr d"
  shows "document_headers entries (rd_headers d) \<and> (\<forall>headers. document_headers entries headers \<longrightarrow> rd_headers d = headers) \<and>
    rd_key d = \<lparr>df_content = document_content entries ''key'', df_is_null = (document_content entries ''key'' = PNone)\<rparr> \<and>
    rd_value d = \<lparr>df_content = document_content entries ''value'', df_is_null = (document_content entries ''value'' = PNone)\<rparr>"
proof -
  have steps: "parse_headers (dget_or entries (PStr ''headers'') (PList [])) = Inr (rd_headers d)"
    "parse_field (dget_or entries (PStr ''key'') PNone) ''key'' = Inr (rd_key d)"
    "parse_field (dget_or entries (PStr ''value'') PNone) ''value'' = Inr (rd_value d)"
    using assms by (auto simp: parse_document_def res_simps)
  then have h: "document_headers entries (rd_headers d)"
    by (auto simp: document_headers_def parse_headers_def dest: parse_headers_show split: pyval.splits)
  have "rd_headers d = headers" if "document_headers entries headers" for headers
  proof -
    obtain hs where hs: "dget_or entries (PStr ''headers'') (PList []) = PList hs" "list_all2 shows_header hs (rd_headers d)"
      using h unfolding document_headers_def by blast
    then have "list_all2 shows_header hs headers" using that unfolding document_headers_def by simp
    then show ?thesis using hs(2) shows_headers_unique by blast
  qed
  moreover have "f = \<lparr>df_content = x, df_is_null = (x = PNone)\<rparr>" if "df_content f = x" "df_is_null f = (df_content f = PNone)" for f x
    using that by (cases f) simp
  ultimately show ?thesis
    using h parse_document_Inr[OF assms] parse_field_content[OF steps(2)] parse_field_content[OF steps(3)] by blast
qed

text \<open>A source file never stops the producer with another error than its own message: a \<open>SourceError\<close>, except for what
  reading or decoding it raises besides I/O, encoding and JSON errors; a draft it gives marks
  exactly the null contents as null.\<close>

theorem source_problems_reported:
  "case load_draft show_exn read_text json_loads path of
     Inl e \<Rightarrow> (\<exists>m. e = SourceError m) \<or> read_text path = Inl e \<or> (\<exists>contents. read_text path = Inr contents \<and> json_loads contents = JsonRaises e)
   | Inr d \<Rightarrow> df_is_null (rd_key d) = (df_content (rd_key d) = PNone) \<and> df_is_null (rd_value d) = (df_content (rd_value d) = PNone)"
  using parse_document_Inr
  by (auto simp: load_draft_def dest: parse_document_Inl split: sum.splits json_outcome.splits)

lemma reserved_replaced:
  "length (foldl (\<lambda>s r. replace_char r CHR ''_'' s) s rs) = length s \<and>
   (CHR ''_'' \<notin> set rs \<longrightarrow> set (foldl (\<lambda>s r. replace_char r CHR ''_'' s) s rs) \<inter> set rs = {} \<and>
     set (foldl (\<lambda>s r. replace_char r CHR ''_'' s) s rs) \<subseteq> insert CHR ''_'' (set s))"
proof (induction rs rule: rev_induct)
  case (snoc r rs)
  then show ?case by (auto simp: replace_char_def)
qed auto

text \<open>An exported file's name is one every file system takes: whatever the topic is called, the part before
  \<open>.json\<close> has no reserved character and keeps its length.\<close>

theorem export_filename_safe:
  "\<exists>stem. record_filename topic p offset timestamp = stem @ ''.json'' \<and> set stem \<inter> set RESERVED_CHARACTERS = {} \<and>
     length stem = length (''kaskade-record-'' @ topic @ ''-'' @ show_int p @ ''-'' @ show_int offset @ ''_'' @ timestamp)"
proof -
  have "CHR ''_'' \<notin> set RESERVED_CHARACTERS" by code_simp
  then show ?thesis
    unfolding record_filename_def Let_def using reserved_replaced by blast
qed

end
