(* ===== verification/Apicurio_Config.thy ===== *)
theory Apicurio_Config
  imports Configs
begin

text \<open>
  The Apicurio half of the Registry configuration: the property names of \<open>apicurio.py\<close> and
  \<open>ApicurioConfig.from_dict\<close>, which checks every property and fails with an
  \<open>ApicurioRegistryError\<close>. The cause of such an error (the HTTP status) is \<open>None\<close> here.

  Two things lie outside the program: \<open>httpx.URL\<close>, the parameter \<open>parse_url\<close>, which gives the
  scheme and host of a URL or raises; and the certificate files, the parameter \<open>load_cert\<close>, which
  raises an \<open>OSError\<close> for an unusable one. The TLS context of the \<open>ssl\<close> module is modelled,
  with the documented effect that enabling \<open>check_hostname\<close> on a context without verification
  turns verification on.
\<close>

section \<open>Property names\<close>

definition APICURIO_PREFIX :: string where "APICURIO_PREFIX = ''apicurio.registry.''"
definition APICURIO_URL :: string where "APICURIO_URL = APICURIO_PREFIX @ ''url''"
definition APICURIO_USE_ID :: string where "APICURIO_USE_ID = APICURIO_PREFIX @ ''use-id''"
definition APICURIO_CHECK_PERIOD :: string where "APICURIO_CHECK_PERIOD = APICURIO_PREFIX @ ''check-period-ms''"
definition APICURIO_RETRY_COUNT :: string where "APICURIO_RETRY_COUNT = APICURIO_PREFIX @ ''retry-count''"
definition APICURIO_RETRY_BACKOFF :: string where "APICURIO_RETRY_BACKOFF = APICURIO_PREFIX @ ''retry-backoff-ms''"
definition APICURIO_TOKEN_ENDPOINT :: string where
  "APICURIO_TOKEN_ENDPOINT = APICURIO_PREFIX @ ''auth.service.token.endpoint''"
definition APICURIO_CLIENT_ID :: string where "APICURIO_CLIENT_ID = APICURIO_PREFIX @ ''auth.client.id''"
definition APICURIO_CLIENT_SECRET :: string where "APICURIO_CLIENT_SECRET = APICURIO_PREFIX @ ''auth.client.secret''"
definition APICURIO_OAUTH_SCOPE :: string where "APICURIO_OAUTH_SCOPE = APICURIO_PREFIX @ ''auth.client.scope''"
definition APICURIO_USERNAME :: string where "APICURIO_USERNAME = APICURIO_PREFIX @ ''auth.username''"
definition APICURIO_PASSWORD :: string where "APICURIO_PASSWORD = APICURIO_PREFIX @ ''auth.password''"
definition APICURIO_PROXY_HOST :: string where "APICURIO_PROXY_HOST = APICURIO_PREFIX @ ''proxy.host''"
definition APICURIO_PROXY_PORT :: string where "APICURIO_PROXY_PORT = APICURIO_PREFIX @ ''proxy.port''"
definition APICURIO_PROXY_USERNAME :: string where "APICURIO_PROXY_USERNAME = APICURIO_PREFIX @ ''proxy.username''"
definition APICURIO_PROXY_PASSWORD :: string where "APICURIO_PROXY_PASSWORD = APICURIO_PREFIX @ ''proxy.password''"
definition APICURIO_TLS_CERTIFICATES :: string where "APICURIO_TLS_CERTIFICATES = APICURIO_PREFIX @ ''tls.certificates''"
definition APICURIO_TLS_TRUST_ALL :: string where "APICURIO_TLS_TRUST_ALL = APICURIO_PREFIX @ ''tls.trust-all''"
definition APICURIO_TLS_VERIFY_HOST :: string where "APICURIO_TLS_VERIFY_HOST = APICURIO_PREFIX @ ''tls.verify-host''"
definition APICURIO_TLS_CLIENT_CERTIFICATE :: string where
  "APICURIO_TLS_CLIENT_CERTIFICATE = APICURIO_PREFIX @ ''tls.client-certificate''"
definition APICURIO_TLS_CLIENT_KEY :: string where "APICURIO_TLS_CLIENT_KEY = APICURIO_PREFIX @ ''tls.client-key''"
definition APICURIO_CACHE_CAPACITY :: int where "APICURIO_CACHE_CAPACITY = 1000"
definition APICURIO_AUTO_REGISTER :: string where "APICURIO_AUTO_REGISTER = APICURIO_PREFIX @ ''auto-register''"
definition APICURIO_FIND_LATEST :: string where "APICURIO_FIND_LATEST = APICURIO_PREFIX @ ''find-latest''"
definition APICURIO_ARTIFACT_GROUP_ID :: string where "APICURIO_ARTIFACT_GROUP_ID = APICURIO_PREFIX @ ''artifact.group-id''"
definition APICURIO_ARTIFACT_ID :: string where "APICURIO_ARTIFACT_ID = APICURIO_PREFIX @ ''artifact.artifact-id''"
definition APICURIO_ARTIFACT_VERSION :: string where "APICURIO_ARTIFACT_VERSION = APICURIO_PREFIX @ ''artifact.version''"
definition APICURIO_DEFAULT_GROUP :: string where "APICURIO_DEFAULT_GROUP = ''default''"
definition APICURIO_LATEST_VERSION :: string where "APICURIO_LATEST_VERSION = ''branch=latest''"

definition APICURIO_PROPERTIES :: "string list" where
  "APICURIO_PROPERTIES =
     [APICURIO_URL, APICURIO_USE_ID, APICURIO_CHECK_PERIOD, APICURIO_RETRY_COUNT, APICURIO_RETRY_BACKOFF,
      APICURIO_TOKEN_ENDPOINT, APICURIO_CLIENT_ID, APICURIO_CLIENT_SECRET, APICURIO_OAUTH_SCOPE,
      APICURIO_USERNAME, APICURIO_PASSWORD, APICURIO_PROXY_HOST, APICURIO_PROXY_PORT,
      APICURIO_PROXY_USERNAME, APICURIO_PROXY_PASSWORD, APICURIO_TLS_CERTIFICATES,
      APICURIO_TLS_TRUST_ALL, APICURIO_TLS_VERIFY_HOST, APICURIO_TLS_CLIENT_CERTIFICATE,
      APICURIO_TLS_CLIENT_KEY]"

lemmas apicurio_names =
  APICURIO_PREFIX_def APICURIO_URL_def APICURIO_USE_ID_def APICURIO_CHECK_PERIOD_def APICURIO_RETRY_COUNT_def
  APICURIO_RETRY_BACKOFF_def APICURIO_TOKEN_ENDPOINT_def APICURIO_CLIENT_ID_def APICURIO_CLIENT_SECRET_def
  APICURIO_OAUTH_SCOPE_def APICURIO_USERNAME_def APICURIO_PASSWORD_def APICURIO_PROXY_HOST_def
  APICURIO_PROXY_PORT_def APICURIO_PROXY_USERNAME_def APICURIO_PROXY_PASSWORD_def
  APICURIO_TLS_CERTIFICATES_def APICURIO_TLS_TRUST_ALL_def APICURIO_TLS_VERIFY_HOST_def
  APICURIO_TLS_CLIENT_CERTIFICATE_def APICURIO_TLS_CLIENT_KEY_def APICURIO_AUTO_REGISTER_def
  APICURIO_FIND_LATEST_def APICURIO_ARTIFACT_GROUP_ID_def APICURIO_ARTIFACT_ID_def
  APICURIO_ARTIFACT_VERSION_def

section \<open>Values\<close>


abbreviation apicurio_error :: "string \<Rightarrow> exn" where
  "apicurio_error m \<equiv> ApicurioRegistryError None m"

text \<open>Python's truth of an optional string.\<close>

definition truthy :: "string option \<Rightarrow> bool" where
  "truthy v \<longleftrightarrow> v \<noteq> None \<and> v \<noteq> Some []"

definition apicurio_integer :: "config \<Rightarrow> string \<Rightarrow> int \<Rightarrow> int res" where
  "apicurio_integer config name dflt =
     (case dget config name of
        None \<Rightarrow> Inr dflt
      | Some value \<Rightarrow>
          (case parse_int value of
             None \<Rightarrow> Inl (apicurio_error (name @ '' must be an integer''))
           | Some result \<Rightarrow>
               if result < 0 then Inl (apicurio_error (name @ '' must be zero or greater'')) else Inr result))"

definition apicurio_boolean :: "config \<Rightarrow> string \<Rightarrow> bool \<Rightarrow> bool res" where
  "apicurio_boolean config name dflt =
     (case dget config name of
        None \<Rightarrow> Inr dflt
      | Some value \<Rightarrow>
          if lower value \<notin> {''true'', ''false''} then Inl (apicurio_error (name @ '' must be true or false''))
          else Inr (lower value = ''true''))"

definition complete_set :: "config \<Rightarrow> string list \<Rightarrow> string \<Rightarrow> bool res" where
  "complete_set config names label =
     (let supplied = filter (\<lambda>n. din n config) names;
          missing_names = filter (\<lambda>n. \<not> truthy (dget config n)) names in
      if supplied \<noteq> [] \<and> missing_names \<noteq> []
      then Inl (apicurio_error (''Incomplete '' @ label @ '' configuration; missing: '' @ join '', '' (sort missing_names)))
      else Inr (supplied \<noteq> []))"

text \<open>\<open>value.split()\<close>: the words between white space.\<close>

fun words_acc :: "string \<Rightarrow> string \<Rightarrow> string list" where
  "words_acc w [] = (if w = [] then [] else [rev w])"
| "words_acc w (c # cs) =
     (if is_space c then (if w = [] then words_acc [] cs else rev w # words_acc [] cs) else words_acc (c # w) cs)"

definition words :: "string \<Rightarrow> string list" where "words s = words_acc [] s"

definition oauth_scope :: "string option \<Rightarrow> string option res" where
  "oauth_scope value =
     (case value of
        None \<Rightarrow> Inr None
      | Some v \<Rightarrow>
          if words v = [] \<or> \<not> distinct (words v)
          then Inl (apicurio_error (APICURIO_OAUTH_SCOPE @ '' must contain unique scopes''))
          else Inr (Some (join '' '' (words v))))"

section \<open>Checks\<close>

definition check_properties :: "config \<Rightarrow> unit res" where
  "check_properties config =
     (let unknown = sort (filter (\<lambda>n. n \<notin> set APICURIO_PROPERTIES \<and> n \<noteq> ''provider'') (dkeys config)) in
      if list_ex (\<lambda>n. starts_with (APICURIO_PREFIX @ ''tls.keystore.'') n
                 \<or> starts_with (APICURIO_PREFIX @ ''tls.truststore.'') n) (dkeys config)
      then Inl (apicurio_error ''JKS and PKCS12 stores are not supported; use the Apicurio PEM TLS properties'')
      else raise_if (unknown \<noteq> []) (apicurio_error (''Unrecognized Apicurio properties: '' @ join '', '' unknown)))"

definition rstrip_slash :: "string \<Rightarrow> string" where
  "rstrip_slash s = rev (dropWhile (\<lambda>c. c = CHR ''/'') (rev s))"

text \<open>\<open>parse_url\<close> gives the scheme and whether there is a host.\<close>

definition checked_url :: "(string \<Rightarrow> (string \<times> bool) res) \<Rightarrow> config \<Rightarrow> string res" where
  "checked_url parse_url config =
     (let url = rstrip_slash (dget_or config APICURIO_URL []) in
      if url = [] then Inl (apicurio_error (''Missing required configuration property '' @ APICURIO_URL))
      else rbind (parse_url url) (\<lambda>(scheme, has_host).
        if scheme \<notin> {''http'', ''https''} \<or> \<not> has_host then Inl (apicurio_error (''Invalid url '' @ url))
        else Inr url))"

definition parse_use_id :: "config \<Rightarrow> string res" where
  "parse_use_id config =
     (case dget [(''contentid'', ''contentId''), (''globalid'', ''globalId'')]
             (lower (dget_or config APICURIO_USE_ID ''contentId'')) of
        None \<Rightarrow> Inl (apicurio_error (APICURIO_USE_ID @ '' must be contentId or globalId''))
      | Some use_id \<Rightarrow> Inr use_id)"

definition parse_auth :: "config \<Rightarrow> unit res" where
  "parse_auth config =
     rbind (complete_set config [APICURIO_USERNAME, APICURIO_PASSWORD] ''Basic authentication'') (\<lambda>has_basic.
     rbind (complete_set config [APICURIO_TOKEN_ENDPOINT, APICURIO_CLIENT_ID, APICURIO_CLIENT_SECRET]
              ''OAuth client credentials'') (\<lambda>has_oauth.
     rbind (raise_if (has_basic \<and> has_oauth)
              (apicurio_error ''Basic authentication and OAuth cannot be configured together'')) (\<lambda>_.
     raise_if (din APICURIO_OAUTH_SCOPE config \<and> \<not> has_oauth)
       (apicurio_error ''OAuth options require OAuth client credentials''))))"

text \<open>\<open>urllib.parse.quote(s, safe='')\<close>: unreserved ASCII stays, every other character becomes the
  percent-encoding of its UTF-8 bytes (one or two bytes in the modelled range).\<close>

definition unreserved :: "char \<Rightarrow> bool" where
  "unreserved c \<longleftrightarrow> 48 \<le> code c \<and> code c \<le> 57 \<or> 65 \<le> code c \<and> code c \<le> 90 \<or> 97 \<le> code c \<and> code c \<le> 122
     \<or> c \<in> {CHR ''_'', CHR ''.'', CHR ''-'', CHR ''~''}"

definition upper_hex :: "nat \<Rightarrow> char" where
  "upper_hex n = (if n < 10 then char_of (48 + n) else char_of (55 + n))"

definition percent :: "nat \<Rightarrow> string" where
  "percent b = [CHR ''%'', upper_hex (b div 16), upper_hex (b mod 16)]"

definition quote_char :: "char \<Rightarrow> string" where
  "quote_char c =
     (if unreserved c then [c] else if code c < 128 then percent (code c)
      else percent (192 + code c div 64) @ percent (128 + code c mod 64))"

definition quote :: "string \<Rightarrow> string" where
  "quote s = concat (map quote_char s)"

definition parse_proxy :: "config \<Rightarrow> string option res" where
  "parse_proxy config =
     rbind (complete_set config [APICURIO_PROXY_HOST, APICURIO_PROXY_PORT] ''proxy'') (\<lambda>has_proxy.
     let username = dget config APICURIO_PROXY_USERNAME; password = dget config APICURIO_PROXY_PASSWORD in
     rbind (raise_if (truthy username \<noteq> truthy password)
              (apicurio_error ''Proxy username and password must be configured together'')) (\<lambda>_.
     rbind (raise_if ((truthy username \<or> truthy password) \<and> \<not> has_proxy)
              (apicurio_error ''Proxy credentials require proxy host and port'')) (\<lambda>_.
     if \<not> has_proxy then Inr None
     else
       (case parse_int (dget_or config APICURIO_PROXY_PORT []) of
          None \<Rightarrow> Inl (apicurio_error (APICURIO_PROXY_PORT @ '' must be an integer''))
        | Some proxy_port \<Rightarrow>
            if \<not> (1 \<le> proxy_port \<and> proxy_port \<le> 65535)
            then Inl (apicurio_error (APICURIO_PROXY_PORT @ '' must be between 1 and 65535''))
            else (let credentials = (case (username, password) of
                        (Some u, Some p) \<Rightarrow> quote u @ '':'' @ quote p @ ''@''
                      | _ \<Rightarrow> []) in
                  Inr (Some (''http://'' @ credentials @ dget_or config APICURIO_PROXY_HOST []
                         @ '':'' @ show_int proxy_port)))))))"

section \<open>TLS\<close>

datatype cert_source = CaData string | CaFile string

text \<open>\<open>httpx\<close>'s \<open>verify\<close> argument: a Boolean or an SSL context.\<close>

record ssl_context =
  ctx_check_hostname :: bool
  ctx_verify :: bool
  ctx_system_trust :: bool
  ctx_loaded :: "cert_source list"

datatype verification = Verify bool | VerifyContext ssl_context

text \<open>Assigning \<open>check_hostname = True\<close> on a context whose mode is \<open>CERT_NONE\<close> sets \<open>CERT_REQUIRED\<close>.\<close>

definition set_check_hostname :: "bool \<Rightarrow> ssl_context \<Rightarrow> ssl_context" where
  "set_check_hostname b ctx = ctx\<lparr>ctx_check_hostname := b, ctx_verify := ctx_verify ctx \<or> b\<rparr>"

text \<open>\<open>s.replace(old, new)\<close> for a non-empty \<open>old\<close>.\<close>

function replace_all :: "string \<Rightarrow> string \<Rightarrow> string \<Rightarrow> string" where
  "replace_all old new s =
     (if s = [] \<or> old = [] then s
      else if starts_with old s then new @ replace_all old new (drop (length old) s)
      else hd s # replace_all old new (tl s))"
  by pat_completeness auto
termination
  by (relation "measure (\<lambda>(old, new, s). length s)") auto

declare replace_all.simps [simp del]

definition certificate_sources :: "string \<Rightarrow> cert_source list" where
  "certificate_sources certificates =
     (if contains ''-----BEGIN CERTIFICATE-----'' certificates
      then [CaData (replace_all '',-----'' (CHR 0x0A # ''-----'') certificates)]
      else map (CaFile \<circ> strip) (split_on CHR '','' certificates))"

fun wrap_os_error :: "(string \<Rightarrow> exn) \<Rightarrow> 'a res \<Rightarrow> 'a res" where
  "wrap_os_error wrap (Inl (OSError m)) = Inl (wrap m)"
| "wrap_os_error wrap r = r"

definition tls_verification ::
  "(cert_source \<Rightarrow> unit res) \<Rightarrow> string option \<Rightarrow> bool \<Rightarrow> bool \<Rightarrow> bool \<Rightarrow> string \<Rightarrow> verification res" where
  "tls_verification load_cert certificates trust_all verify_host force_context label =
     (if trust_all \<and> \<not> force_context then Inr (Verify False)
      else if certificates = None \<and> verify_host \<and> \<not> force_context then Inr (Verify True)
      else
        (let sources = (if truthy certificates \<and> \<not> trust_all then certificate_sources (the certificates) else []);
             ctx = \<lparr>ctx_check_hostname = \<not> trust_all, ctx_verify = \<not> trust_all,
                    ctx_system_trust = \<not> trust_all, ctx_loaded = sources\<rparr> in
         rbind (wrap_os_error (\<lambda>m. apicurio_error (label @ '' certificate file is invalid: '' @ m))
                  (map_res load_cert sources)) (\<lambda>_.
           Inr (VerifyContext (set_check_hostname verify_host ctx)))))"

record apicurio_tls =
  tls_certificates :: "string option"
  tls_trust_all :: bool
  tls_verify_host :: bool
  tls_client_identity :: "(string \<times> string) option"

definition registry_verification :: "(cert_source \<Rightarrow> unit res) \<Rightarrow> apicurio_tls \<Rightarrow> verification res" where
  "registry_verification load_cert tls =
     tls_verification load_cert (tls_certificates tls) (tls_trust_all tls) (tls_verify_host tls)
       (tls_client_identity tls \<noteq> None) ''Registry TLS''"

definition token_verification :: "(cert_source \<Rightarrow> unit res) \<Rightarrow> apicurio_tls \<Rightarrow> verification res" where
  "token_verification load_cert tls =
     tls_verification load_cert (tls_certificates tls) False True False ''OAuth token endpoint TLS''"

definition parse_tls :: "(cert_source \<Rightarrow> unit res) \<Rightarrow> config \<Rightarrow> apicurio_tls res" where
  "parse_tls load_cert config =
     rbind (apicurio_boolean config APICURIO_TLS_TRUST_ALL False) (\<lambda>trust_all.
     rbind (apicurio_boolean config APICURIO_TLS_VERIFY_HOST True) (\<lambda>verify_host.
     let cert = dget config APICURIO_TLS_CLIENT_CERTIFICATE; key = dget config APICURIO_TLS_CLIENT_KEY in
     rbind (raise_if (truthy cert \<noteq> truthy key)
              (apicurio_error ''TLS client certificate and client key must be configured together'')) (\<lambda>_.
     let tls = \<lparr>tls_certificates = dget config APICURIO_TLS_CERTIFICATES, tls_trust_all = trust_all,
                tls_verify_host = verify_host,
                tls_client_identity = (case (cert, key) of (Some c, Some k) \<Rightarrow> Some (c, k) | _ \<Rightarrow> None)\<rparr> in
     rbind (registry_verification load_cert tls) (\<lambda>_.
     rbind (token_verification load_cert tls) (\<lambda>_. Inr tls)))))"

section \<open>The configuration\<close>

record apicurio_config =
  ac_url :: string
  ac_use_id :: string
  ac_check_period_ms :: int
  ac_retry_count :: int
  ac_retry_backoff_ms :: int
  ac_username :: "string option"
  ac_password :: "string option"
  ac_token_endpoint :: "string option"
  ac_client_id :: "string option"
  ac_client_secret :: "string option"
  ac_oauth_scope :: "string option"
  ac_proxy :: "string option"
  ac_tls :: apicurio_tls

definition apicurio_from_dict ::
  "(string \<Rightarrow> (string \<times> bool) res) \<Rightarrow> (cert_source \<Rightarrow> unit res) \<Rightarrow> config \<Rightarrow> apicurio_config res" where
  "apicurio_from_dict parse_url load_cert config =
     rbind (check_properties config) (\<lambda>_.
     rbind (checked_url parse_url config) (\<lambda>url.
     rbind (parse_use_id config) (\<lambda>use_id.
     rbind (parse_auth config) (\<lambda>_.
     rbind (parse_proxy config) (\<lambda>proxy.
     rbind (parse_tls load_cert config) (\<lambda>tls.
     rbind (apicurio_integer config APICURIO_CHECK_PERIOD 30000) (\<lambda>check_period.
     rbind (apicurio_integer config APICURIO_RETRY_COUNT 3) (\<lambda>retry_count.
     rbind (apicurio_integer config APICURIO_RETRY_BACKOFF 300) (\<lambda>retry_backoff.
     rbind (oauth_scope (dget config APICURIO_OAUTH_SCOPE)) (\<lambda>scope.
     Inr \<lparr>ac_url = url, ac_use_id = use_id, ac_check_period_ms = check_period, ac_retry_count = retry_count,
          ac_retry_backoff_ms = retry_backoff, ac_username = dget config APICURIO_USERNAME,
          ac_password = dget config APICURIO_PASSWORD, ac_token_endpoint = dget config APICURIO_TOKEN_ENDPOINT,
          ac_client_id = dget config APICURIO_CLIENT_ID, ac_client_secret = dget config APICURIO_CLIENT_SECRET,
          ac_oauth_scope = scope, ac_proxy = proxy, ac_tls = tls\<rparr>))))))))))"

section \<open>Lemmas\<close>

lemma complete_set_Inr:
  "complete_set config names label = Inr b \<Longrightarrow>
     b = (\<exists>n \<in> set names. din n config) \<and> (b \<longrightarrow> (\<forall>n \<in> set names. truthy (dget config n)))"
  by (auto simp: complete_set_def Let_def filter_empty_conv split: if_splits)

lemma apicurio_integer_nonneg: "apicurio_integer config name d = Inr n \<Longrightarrow> 0 \<le> d \<Longrightarrow> 0 \<le> n"
  by (auto simp: apicurio_integer_def split: option.splits if_splits)

lemma rstrip_slash_end: "rstrip_slash s \<noteq> [] \<Longrightarrow> last (rstrip_slash s) \<noteq> CHR ''/''"
proof -
  assume "rstrip_slash s \<noteq> []"
  then have "dropWhile (\<lambda>c. c = CHR ''/'') (rev s) \<noteq> []" by (simp add: rstrip_slash_def)
  then have "hd (dropWhile (\<lambda>c. c = CHR ''/'') (rev s)) \<noteq> CHR ''/''" by (rule hd_dropWhile)
  then show ?thesis by (simp only: rstrip_slash_def last_rev not_False_eq_True)
qed

lemma checked_url_Inr: "checked_url parse_url config = Inr url \<Longrightarrow> url \<noteq> [] \<and> last url \<noteq> CHR ''/''"
  using rstrip_slash_end[of "dget_or config APICURIO_URL []"]
  by (auto simp: checked_url_def Let_def res_simps split: if_splits)

lemma parse_use_id_Inr: "parse_use_id config = Inr u \<Longrightarrow> u \<in> {''contentId'', ''globalId''}"
  by (auto simp: parse_use_id_def split: option.splits if_splits)

lemma parse_auth_Inr:
  assumes "parse_auth config = Inr u"
  shows "(dget config APICURIO_USERNAME \<noteq> None \<longrightarrow> truthy (dget config APICURIO_PASSWORD) \<and> dget config APICURIO_CLIENT_ID = None)
    \<and> (dget config APICURIO_CLIENT_ID \<noteq> None \<longrightarrow> truthy (dget config APICURIO_CLIENT_SECRET)
         \<and> truthy (dget config APICURIO_TOKEN_ENDPOINT))
    \<and> (dget config APICURIO_OAUTH_SCOPE \<noteq> None \<longrightarrow> truthy (dget config APICURIO_CLIENT_ID))"
proof -
  obtain b o1 where b: "complete_set config [APICURIO_USERNAME, APICURIO_PASSWORD] ''Basic authentication'' = Inr b"
    and o1: "complete_set config [APICURIO_TOKEN_ENDPOINT, APICURIO_CLIENT_ID, APICURIO_CLIENT_SECRET]
        ''OAuth client credentials'' = Inr o1"
    and ne: "\<not> (b \<and> o1)" "\<not> (din APICURIO_OAUTH_SCOPE config \<and> \<not> o1)"
    using assms by (auto simp: parse_auth_def res_simps)
  show ?thesis
    using complete_set_Inr[OF b] complete_set_Inr[OF o1] ne by (auto simp: dict_simps)
qed

definition unverified :: "verification \<Rightarrow> bool" where
  "unverified v = (case v of Verify b \<Rightarrow> \<not> b | VerifyContext c \<Rightarrow> \<not> ctx_verify c)"

lemma tls_verification_Inr:
  assumes "tls_verification load_cert certificates trust_all verify_host force_context label = Inr v"
  shows "unverified v = (trust_all \<and> (\<not> force_context \<or> \<not> verify_host)) \<and>
    (trust_all \<and> force_context \<and> verify_host \<longrightarrow>
     v = VerifyContext \<lparr>ctx_check_hostname = True, ctx_verify = True, ctx_system_trust = False, ctx_loaded = []\<rparr>)"
  using assms
  by (cases trust_all; cases force_context)
    (auto simp: tls_verification_def set_check_hostname_def unverified_def res_simps Let_def split: if_splits)

section \<open>Properties\<close>

text \<open>An accepted Apicurio configuration is usable as it stands: the URL is not empty and does
  not end in a slash, the ID kind is one of the two, the numbers are not negative, and at most one
  complete set of credentials is given.\<close>

theorem apicurio_config_sound:
  assumes "apicurio_from_dict parse_url load_cert config = Inr c"
  shows "ac_url c \<noteq> [] \<and> last (ac_url c) \<noteq> CHR ''/'' \<and> ac_use_id c \<in> {''contentId'', ''globalId''} \<and>
    0 \<le> ac_check_period_ms c \<and> 0 \<le> ac_retry_count c \<and> 0 \<le> ac_retry_backoff_ms c \<and>
    (ac_username c \<noteq> None \<longrightarrow> truthy (ac_password c) \<and> ac_client_id c = None) \<and>
    (ac_client_id c \<noteq> None \<longrightarrow> truthy (ac_client_secret c) \<and> truthy (ac_token_endpoint c)) \<and>
    (ac_oauth_scope c \<noteq> None \<longrightarrow> truthy (ac_client_id c))"
proof -
  obtain u where auth: "parse_auth config = Inr u" using assms by (auto simp: apicurio_from_dict_def res_simps)
  have scope: "oauth_scope v = Inr (Some w) \<Longrightarrow> v \<noteq> None" for v w by (cases v) (simp_all add: oauth_scope_def)
  show ?thesis
    using assms parse_auth_Inr[OF auth]
    by (auto simp: apicurio_from_dict_def res_simps dest: checked_url_Inr parse_use_id_Inr
        intro: apicurio_integer_nonneg dest!: scope)
qed

definition sample_apicurio :: config where
  "sample_apicurio =
     [(''provider'', ''apicurio''), (APICURIO_URL, ''https://registry/''), (APICURIO_USE_ID, ''GlobalId''),
      (APICURIO_RETRY_COUNT, ''5''), (APICURIO_USERNAME, ''u''), (APICURIO_PASSWORD, ''p'')]"

definition sample_apicurio_config :: apicurio_config where
  "sample_apicurio_config =
     \<lparr>ac_url = ''https://registry'', ac_use_id = ''globalId'', ac_check_period_ms = 30000, ac_retry_count = 5,
      ac_retry_backoff_ms = 300, ac_username = Some ''u'', ac_password = Some ''p'', ac_token_endpoint = None,
      ac_client_id = None, ac_client_secret = None, ac_oauth_scope = None, ac_proxy = None,
      ac_tls = \<lparr>tls_certificates = None, tls_trust_all = False, tls_verify_host = True, tls_client_identity = None\<rparr>\<rparr>"

lemma sample_apicurio_parsed:
  "apicurio_from_dict (\<lambda>_. Inr (''https'', True)) (\<lambda>_. Inr ()) sample_apicurio = Inr sample_apicurio_config"
  by code_simp

theorem apicurio_config_sound_witness:
  "ac_url sample_apicurio_config \<noteq> [] \<and> last (ac_url sample_apicurio_config) \<noteq> CHR ''/'' \<and>
    ac_use_id sample_apicurio_config \<in> {''contentId'', ''globalId''} \<and>
    0 \<le> ac_check_period_ms sample_apicurio_config \<and> 0 \<le> ac_retry_count sample_apicurio_config \<and>
    0 \<le> ac_retry_backoff_ms sample_apicurio_config \<and>
    truthy (ac_password sample_apicurio_config) \<and> ac_client_id sample_apicurio_config = None"
  using apicurio_config_sound[OF sample_apicurio_parsed] by (simp add: sample_apicurio_config_def)

text \<open>Which Registry connections skip certificate verification: exactly those with
  \<open>tls.trust-all\<close>, except that with a client certificate the default \<open>tls.verify-host\<close> turns
  verification on again, on a context that trusts no certificate at all. The OAuth token endpoint
  is always verified.\<close>

theorem registry_trust:
  "(case registry_verification load_cert tls of
      Inl _ \<Rightarrow> True
    | Inr v \<Rightarrow> unverified v = (tls_trust_all tls \<and> (tls_client_identity tls = None \<or> \<not> tls_verify_host tls)) \<and>
        (tls_trust_all tls \<and> tls_client_identity tls \<noteq> None \<and> tls_verify_host tls \<longrightarrow>
         v = VerifyContext \<lparr>ctx_check_hostname = True, ctx_verify = True, ctx_system_trust = False, ctx_loaded = []\<rparr>)) \<and>
   (case token_verification load_cert tls of Inl _ \<Rightarrow> True | Inr v \<Rightarrow> \<not> unverified v)"
  using tls_verification_Inr unfolding registry_verification_def token_verification_def
  by (fastforce split: sum.split)

theorem registry_trust_witness:
  "registry_verification (\<lambda>_. Inr ())
     \<lparr>tls_certificates = None, tls_trust_all = True, tls_verify_host = True, tls_client_identity = Some (''c'', ''k'')\<rparr> =
   Inr (VerifyContext \<lparr>ctx_check_hostname = True, ctx_verify = True, ctx_system_trust = False, ctx_loaded = []\<rparr>)"
  using registry_trust[where load_cert = "\<lambda>_. Inr ()" and tls = "\<lparr>tls_certificates = None, tls_trust_all = True, tls_verify_host = True,
      tls_client_identity = Some (''c'', ''k'')\<rparr>"]
  by (simp add: registry_verification_def tls_verification_def truthy_def set_check_hostname_def)

end
