(* ===== verification/Registry_Selection.thy ===== *)
theory Registry_Selection
  imports Apicurio_Config
begin

text \<open>
  How the producer's \<open>--registry\<close> properties choose a schema (the first half of
  \<open>serializers/registry.py\<close>): the properties that select a schema are separated from those of the
  Registry client, and each field's selection is validated, its scoped properties overriding the
  global ones.
\<close>

section \<open>Selection properties\<close>

definition FIELD_PREFIXES :: "string list" where "FIELD_PREFIXES = [''key.'', ''value.'']"

definition CONFLUENT_SELECTION :: "string list" where
  "CONFLUENT_SELECTION =
     [AUTO_REGISTER_SCHEMAS, NORMALIZE_SCHEMAS, USE_LATEST_VERSION, USE_SCHEMA_ID, PROTOBUF_MESSAGE]"

definition APICURIO_SELECTION :: "string list" where
  "APICURIO_SELECTION =
     [APICURIO_AUTO_REGISTER, APICURIO_FIND_LATEST, APICURIO_ARTIFACT_GROUP_ID, APICURIO_ARTIFACT_ID,
      APICURIO_ARTIFACT_VERSION, PROTOBUF_MESSAGE]"

definition SELECTION_PROPERTIES :: "(string, string list) pydict" where
  "SELECTION_PROPERTIES =
     [(CONFLUENT_OPTION, CONFLUENT_SELECTION), (APICURIO_OPTION, APICURIO_SELECTION)]"

definition ALL_SELECTION_PROPERTIES :: "string list" where
  "ALL_SELECTION_PROPERTIES = concat (map snd SELECTION_PROPERTIES)"

fun selection_base :: "string list \<Rightarrow> string \<Rightarrow> string option" where
  "selection_base [] name = None"
| "selection_base (prefix # prefixes) name =
     (let base = remove_prefix prefix name in
      if starts_with prefix name \<and> base \<in> set ALL_SELECTION_PROPERTIES then Some base
      else selection_base prefixes name)"

definition selection_property :: "string \<Rightarrow> string option" where
  "selection_property name = selection_base ([] # FIELD_PREFIXES) name"

fun split_entries :: "(string \<times> string) list \<Rightarrow> config \<times> config \<Rightarrow> config \<times> config" where
  "split_entries [] (client, selection) = (client, selection)"
| "split_entries ((name, value) # rest) (client, selection) =
     (if selection_property name = None then split_entries rest (dput name value client, selection)
      else split_entries rest (client, dput name value selection))"

definition split_registry_config :: "config \<Rightarrow> config \<times> config" where
  "split_registry_config config = split_entries config ([], [])"

section \<open>The selection of one field\<close>

record schema_selection =
  sel_schema_id :: "int option"
  sel_group :: string
  sel_artifact :: "string option"
  sel_version :: "string option"
  sel_protobuf_message :: "string option"
  sel_auto_register :: bool
  sel_normalize :: bool

definition selection_boolean :: "string \<Rightarrow> string option \<Rightarrow> bool option res" where
  "selection_boolean name value =
     (case value of
        None \<Rightarrow> Inr None
      | Some v \<Rightarrow>
          if lower v \<notin> {''true'', ''false''} then Inl (ValueError (name @ '' must be true or false''))
          else Inr (Some (lower v = ''true'')))"

text \<open>\<open>given\<close> is \<open>value is not None and value is not False\<close>.\<close>

definition refuse_with_registration :: "string \<Rightarrow> string \<Rightarrow> bool \<Rightarrow> unit res" where
  "refuse_with_registration registration name given =
     raise_if given (ValueError (registration @ ''=true can't be combined with '' @ name))"

definition selection_schema_id :: "string option \<Rightarrow> int option res" where
  "selection_schema_id value =
     (case value of
        None \<Rightarrow> Inr None
      | Some v \<Rightarrow>
          (let schema_id = (case parse_int v of None \<Rightarrow> 0 | Some n \<Rightarrow> n) in
           if schema_id \<le> 0 then Inl (ValueError (USE_SCHEMA_ID @ '' must be a positive integer''))
           else Inr (Some schema_id)))"

definition selection_value :: "config \<Rightarrow> message_field \<Rightarrow> string \<Rightarrow> string option" where
  "selection_value selection field name =
     (case dget selection (field_str field @ ''.'' @ name) of
        Some v \<Rightarrow> Some v | None \<Rightarrow> dget selection name)"

definition confluent_selection :: "(string \<Rightarrow> string option) \<Rightarrow> schema_selection res" where
  "confluent_selection value =
     rbind (selection_boolean AUTO_REGISTER_SCHEMAS (value AUTO_REGISTER_SCHEMAS)) (\<lambda>auto.
     let auto_register = (auto = Some True) in
     rbind (selection_boolean USE_LATEST_VERSION (value USE_LATEST_VERSION)) (\<lambda>use_latest.
     rbind (selection_schema_id (value USE_SCHEMA_ID)) (\<lambda>schema_id.
     rbind (if auto_register
            then rbind (refuse_with_registration AUTO_REGISTER_SCHEMAS USE_LATEST_VERSION (use_latest = Some True)) (\<lambda>_.
                   refuse_with_registration AUTO_REGISTER_SCHEMAS USE_SCHEMA_ID (schema_id \<noteq> None))
            else raise_if (use_latest = Some False)
                   (ValueError (USE_LATEST_VERSION @ ''=false needs '' @ AUTO_REGISTER_SCHEMAS
                      @ ''=true and a schema file; otherwise Kaskade uses the latest version or '' @ USE_SCHEMA_ID))) (\<lambda>_.
     rbind (selection_boolean NORMALIZE_SCHEMAS (value NORMALIZE_SCHEMAS)) (\<lambda>normalize.
     Inr \<lparr>sel_schema_id = schema_id, sel_group = APICURIO_DEFAULT_GROUP, sel_artifact = None,
          sel_version = None, sel_protobuf_message = value PROTOBUF_MESSAGE,
          sel_auto_register = auto_register, sel_normalize = (normalize = Some True)\<rparr>)))))"

definition apicurio_selection :: "(string \<Rightarrow> string option) \<Rightarrow> schema_selection res" where
  "apicurio_selection value =
     rbind (selection_boolean APICURIO_AUTO_REGISTER (value APICURIO_AUTO_REGISTER)) (\<lambda>auto.
     let auto_register = (auto = Some True) in
     rbind (selection_boolean APICURIO_FIND_LATEST (value APICURIO_FIND_LATEST)) (\<lambda>find_latest.
     let version = value APICURIO_ARTIFACT_VERSION in
     rbind (map_res (\<lambda>name. raise_if (value name = Some []) (ValueError (name @ '' must not be empty'')))
              [APICURIO_ARTIFACT_GROUP_ID, APICURIO_ARTIFACT_ID, APICURIO_ARTIFACT_VERSION]) (\<lambda>_.
     rbind (if auto_register
            then rbind (refuse_with_registration APICURIO_AUTO_REGISTER APICURIO_FIND_LATEST (find_latest = Some True)) (\<lambda>_.
                   refuse_with_registration APICURIO_AUTO_REGISTER APICURIO_ARTIFACT_VERSION (version \<noteq> None))
            else raise_if (find_latest = Some False \<and> \<not> truthy version)
                   (ValueError (APICURIO_FIND_LATEST @ ''=false needs '' @ APICURIO_ARTIFACT_VERSION @ '', or ''
                      @ APICURIO_AUTO_REGISTER @ ''=true and a schema file''))) (\<lambda>_.
     Inr \<lparr>sel_schema_id = None,
          sel_group = (case value APICURIO_ARTIFACT_GROUP_ID of
             None \<Rightarrow> APICURIO_DEFAULT_GROUP | Some g \<Rightarrow> if g = [] then APICURIO_DEFAULT_GROUP else g),
          sel_artifact = value APICURIO_ARTIFACT_ID, sel_version = version,
          sel_protobuf_message = value PROTOBUF_MESSAGE,
          sel_auto_register = auto_register, sel_normalize = False\<rparr>))))"

text \<open>The provider is one of the two keys of \<open>SELECTION_PROPERTIES\<close>; another is a \<open>KeyError\<close>
  as soon as a selection property is given.\<close>

fun check_selection :: "string \<Rightarrow> string list \<Rightarrow> unit res" where
  "check_selection provider [] = Inr ()"
| "check_selection provider (name # names) =
     (case selection_property name of
        None \<Rightarrow> check_selection provider names
      | Some base \<Rightarrow>
          (case dget SELECTION_PROPERTIES provider of
             None \<Rightarrow> Inl (KeyError provider)
           | Some allowed \<Rightarrow>
               if base \<notin> set allowed
               then (let other = (if provider = CONFLUENT_OPTION then APICURIO_OPTION else CONFLUENT_OPTION) in
                     Inl (ValueError (name @ '' requires provider='' @ other)))
               else check_selection provider names))"

definition selection_from_config :: "config \<Rightarrow> string \<Rightarrow> message_field \<Rightarrow> schema_selection res" where
  "selection_from_config selection provider field =
     rbind (check_selection provider (dkeys selection)) (\<lambda>_.
       if provider = CONFLUENT_OPTION then confluent_selection (selection_value selection field)
       else apicurio_selection (selection_value selection field))"

section \<open>Lemmas\<close>

lemma split_entries_filter:
  assumes "distinct (dkeys client @ dkeys selection @ dkeys entries)"
  shows "split_entries entries (client, selection) =
    (client @ filter (\<lambda>p. selection_property (fst p) = None) entries,
     selection @ filter (\<lambda>p. selection_property (fst p) \<noteq> None) entries)"
  using assms
proof (induction entries arbitrary: client selection)
  case (Cons p entries)
  obtain k v where p: "p = (k, v)" by (cases p)
  have fresh: "\<not> din k client" "\<not> din k selection" using Cons.prems by (auto simp: p din_def)
  show ?case
  proof (cases "selection_property k = None")
    case True
    then show ?thesis
      using Cons.IH[of "client @ [(k, v)]" selection] Cons.prems fresh by (auto simp: p dput_fresh)
  next
    case False
    then show ?thesis
      using Cons.IH[of client "selection @ [(k, v)]"] Cons.prems fresh by (auto simp: p dput_fresh)
  qed
qed simp

lemma split_registry_config_filter:
  "ddistinct config \<Longrightarrow> split_registry_config config =
    (filter (\<lambda>p. selection_property (fst p) = None) config,
     filter (\<lambda>p. selection_property (fst p) \<noteq> None) config)"
  by (simp add: split_registry_config_def split_entries_filter)

lemma map_of_filter_key: "map_of (filter (\<lambda>p. P (fst p)) d) k = (if P k then map_of d k else None)"
  by (induction d) auto

lemma filter_none: "(\<forall>x \<in> set xs. \<not> P x) \<Longrightarrow> filter P xs = []"
  by (induction xs) auto

lemma selection_schema_id_pos: "selection_schema_id v = Inr (Some n) \<Longrightarrow> 0 < n"
  by (auto simp: selection_schema_id_def Let_def split: option.splits if_splits)

section \<open>Properties\<close>

text \<open>Separating a Registry configuration loses nothing and mixes nothing: the client part holds
  no selection property, the selection part only such properties, merging the two gives every
  entry back, and separating the client part again changes nothing.\<close>

theorem split_registry_config_partition:
  assumes "ddistinct config"
  shows "case split_registry_config config of (client, selection) \<Rightarrow>
    (\<forall>k \<in> set (dkeys client). selection_property k = None) \<and>
    (\<forall>k \<in> set (dkeys selection). selection_property k \<noteq> None) \<and>
    (\<forall>k. dget (dmerge client selection) k = dget config k) \<and>
    split_registry_config client = (client, [])"
proof -
  let ?c = "filter (\<lambda>p. selection_property (fst p) = None) config"
    and ?s = "filter (\<lambda>p. selection_property (fst p) \<noteq> None) config"
  have d: "ddistinct ?c" "ddistinct ?s"
    using assms by (simp_all add: distinct_map_filter)
  have "dget (dmerge ?c ?s) k = dget config k" for k
    unfolding dget_dmerge[OF d(2)] map_of_filter_key[where P = "\<lambda>k. selection_property k = None"]
      map_of_filter_key[where P = "\<lambda>k. selection_property k \<noteq> None"]
    by (simp split: option.split)
  moreover have "split_registry_config ?c = (?c, [])"
    unfolding split_registry_config_filter[OF d(1)] by (auto intro!: filter_none)
  ultimately show ?thesis
    unfolding split_registry_config_filter[OF assms] by auto
qed

theorem split_registry_config_partition_witness:
  "split_registry_config [(''url'', ''u''), (''key.use.schema.id'', ''7''), (''provider'', ''confluent'')] =
     ([(''url'', ''u''), (''provider'', ''confluent'')], [(''key.use.schema.id'', ''7'')]) \<and>
   dget (dmerge [(''url'', ''u''), (''provider'', ''confluent'')] [(''key.use.schema.id'', ''7'')]) ''url'' = Some ''u''"
proof -
  have s: "split_registry_config [(''url'', ''u''), (''key.use.schema.id'', ''7''), (''provider'', ''confluent'')] =
     ([(''url'', ''u''), (''provider'', ''confluent'')], [(''key.use.schema.id'', ''7'')])"
    by code_simp
  show ?thesis
    using split_registry_config_partition[of "[(''url'', ''u''), (''key.use.schema.id'', ''7''), (''provider'', ''confluent'')]"]
    unfolding s prod.case by simp
qed

text \<open>C10: an accepted schema selection is never contradictory: a registering field names neither a
  schema ID nor a version, a chosen schema ID is positive, Confluent selections keep to the
  default group, and Apicurio group, artifact and version are never empty.\<close>

theorem schema_selection_sound:
  assumes "selection_from_config selection provider field = Inr sel"
  shows "(sel_auto_register sel \<longrightarrow> sel_schema_id sel = None \<and> sel_version sel = None) \<and>
    (\<forall>n. sel_schema_id sel = Some n \<longrightarrow> 0 < n \<and> provider = CONFLUENT_OPTION) \<and>
    sel_group sel \<noteq> [] \<and> sel_artifact sel \<noteq> Some [] \<and> sel_version sel \<noteq> Some [] \<and>
    (provider = CONFLUENT_OPTION \<longrightarrow> sel_group sel = APICURIO_DEFAULT_GROUP \<and> sel_artifact sel = None) \<and>
    (provider \<noteq> CONFLUENT_OPTION \<longrightarrow> \<not> sel_normalize sel)"
proof (cases "provider = CONFLUENT_OPTION")
  case True
  then have "confluent_selection (selection_value selection field) = Inr sel"
    using assms by (simp add: selection_from_config_def res_simps)
  then show ?thesis
    using True by (auto simp: confluent_selection_def refuse_with_registration_def APICURIO_DEFAULT_GROUP_def
        res_simps Let_def selection_schema_id_pos split: if_splits)
next
  case False
  then have "apicurio_selection (selection_value selection field) = Inr sel"
    using assms by (simp add: selection_from_config_def res_simps)
  moreover have "(case g of None \<Rightarrow> APICURIO_DEFAULT_GROUP
      | Some g \<Rightarrow> if g = [] then APICURIO_DEFAULT_GROUP else g) \<noteq> []" for g :: "string option"
    by (simp add: APICURIO_DEFAULT_GROUP_def split: option.split)
  ultimately show ?thesis
    using False by (auto simp: apicurio_selection_def refuse_with_registration_def
        res_simps Let_def split: if_splits)
qed

theorem schema_selection_sound_witness:
  "(0::int) < 7 \<and> selection_from_config [(''use.schema.id'', ''3''), (''value.use.schema.id'', ''7'')] ''confluent'' VALUE =
     Inr \<lparr>sel_schema_id = Some 7, sel_group = ''default'', sel_artifact = None, sel_version = None,
          sel_protobuf_message = None, sel_auto_register = False, sel_normalize = False\<rparr>"
proof -
  have s: "selection_from_config [(''use.schema.id'', ''3''), (''value.use.schema.id'', ''7'')] ''confluent'' VALUE =
     Inr \<lparr>sel_schema_id = Some 7, sel_group = ''default'', sel_artifact = None, sel_version = None,
          sel_protobuf_message = None, sel_auto_register = False, sel_normalize = False\<rparr>"
    by code_simp
  show ?thesis using schema_selection_sound[OF s] s by simp
qed

end
