(* ===== verification/Schemas.thy ===== *)
theory Schemas
  imports Lru_Cache Apicurio_Config
begin

text \<open>
  Registry schemas by ID (\<open>schemas/confluent.py\<close>, \<open>schemas/apicurio.py\<close>): the cache of Confluent
  schemas, which asks for Protobuf schemas a second time in their serialized form, and the
  collection of referenced schemas, dependencies first.

  The Registry client is a parameter. It keeps a state of type \<open>'c\<close> (its own cache). Following
  references can go on for ever on a Registry without end, so the collection is a partial function
  whose result \<open>None\<close> is a walk that never returns; \<open>reference_collection_terminates\<close> shows that it returns
  whenever the references reach finitely many keys, cycles included.
\<close>

section \<open>Documents to register\<close>

text \<open>\<open>SchemaDocument\<close>, with its \<open>DocumentReference\<close>s as pairs of a name and a document.\<close>

datatype schema_document =
  SchemaDocument (doc_type: schema_type) (doc_content: string) (doc_references: "(string \<times> schema_document) list")

section \<open>Confluent schemas\<close>

record reg_reference =
  rr_name :: "string option"
  rr_subject :: "string option"
  rr_version :: "int option"

record reg_schema =
  rs_type :: "string option"
  rs_str :: "string option"
  rs_references :: "reg_reference list"

record 'c registry_client =
  rc_get_schema :: "int \<Rightarrow> string option \<Rightarrow> 'c \<Rightarrow> reg_schema res \<times> 'c"
  rc_clear_caches :: "'c \<Rightarrow> 'c"

definition reg_schema_type :: "reg_schema \<Rightarrow> schema_type option" where
  "reg_schema_type s = (case rs_type s of None \<Rightarrow> None | Some t \<Rightarrow> schema_type_of (upper t))"

definition reg_content :: "reg_schema \<Rightarrow> string res" where
  "reg_content s = (case rs_str s of None \<Rightarrow> Inl (SchemaError ''Schema is empty'') | Some t \<Rightarrow> Inr t)"

type_synonym 'c schemas_state = "(int, reg_schema) pydict \<times> 'c"

definition confluent_schema_by_id ::
  "'c registry_client \<Rightarrow> int \<Rightarrow> 'c schemas_state \<Rightarrow> reg_schema res \<times> 'c schemas_state" where
  "confluent_schema_by_id client schema_id st =
     (let (cache, c) = st in
      case dget cache schema_id of
        Some schema \<Rightarrow> (Inr schema, (cache, c))
      | None \<Rightarrow>
          (case rc_get_schema client schema_id None c of
             (Inl e, c1) \<Rightarrow> (Inl e, (cache, c1))
           | (Inr schema, c1) \<Rightarrow>
               if reg_schema_type schema = Some ST_PROTOBUF
               then (case rc_get_schema client schema_id (Some ''serialized'') (rc_clear_caches client c1) of
                       (Inl e, c2) \<Rightarrow> (Inl e, (cache, c2))
                     | (Inr serialized, c2) \<Rightarrow> (Inr serialized, (dput schema_id serialized cache, c2)))
               else (Inr schema, (dput schema_id schema cache, c1))))"

definition confluent_schema_type ::
  "'c registry_client \<Rightarrow> int \<Rightarrow> 'c schemas_state \<Rightarrow> schema_type res \<times> 'c schemas_state" where
  "confluent_schema_type client schema_id st =
     (case confluent_schema_by_id client schema_id st of
        (Inl e, st') \<Rightarrow> (Inl e, st')
      | (Inr schema, st') \<Rightarrow>
          (case reg_schema_type schema of
             None \<Rightarrow> (Inl (SchemaError ''Schema type not supported''), st')
           | Some t \<Rightarrow> (Inr t, st')))"

section \<open>References\<close>

text \<open>
  The walk both collectors share. \<open>step\<close> decides what a reference means when some keys have been
  visited: an error, nothing (visited before), or a new key and the schema it names.
\<close>

partial_function (option) collect ::
  "('r \<Rightarrow> 'k set \<Rightarrow> ('k \<times> 'n) option res) \<Rightarrow> ('n \<Rightarrow> 'r list) \<Rightarrow> ('n \<Rightarrow> string res)
     \<Rightarrow> 'r list \<Rightarrow> string list \<Rightarrow> 'k set \<Rightarrow> (string list \<times> 'k set) res option" where
  "collect step children content refs contents visited =
     (case refs of
        [] \<Rightarrow> Some (Inr (contents, visited))
      | r # rs \<Rightarrow>
          (case step r visited of
             Inl e \<Rightarrow> Some (Inl e)
           | Inr None \<Rightarrow> collect step children content rs contents visited
           | Inr (Some (k, n)) \<Rightarrow>
               Option.bind (collect step children content (children n) contents (insert k visited)) (\<lambda>out.
                 case out of
                   Inl e \<Rightarrow> Some (Inl e)
                 | Inr (contents', visited') \<Rightarrow>
                     (case content n of
                        Inl e \<Rightarrow> Some (Inl e)
                      | Inr t \<Rightarrow> collect step children content rs (contents' @ [t]) visited'))))"

text \<open>Confluent: the reference is fetched before its name is looked up among the visited ones.\<close>

definition confluent_reference ::
  "(string \<Rightarrow> int \<Rightarrow> reg_schema res) \<Rightarrow> reg_reference \<Rightarrow> string set \<Rightarrow> (string \<times> reg_schema) option res" where
  "confluent_reference get_version reference visited =
     (case (rr_name reference, rr_subject reference, rr_version reference) of
        (Some name, Some subject, Some version) \<Rightarrow>
          rbind (get_version subject version) (\<lambda>referenced.
            Inr (if name \<in> visited then None else Some (name, referenced)))
      | _ \<Rightarrow> Inl (SchemaError ''Schema reference is incomplete''))"

definition confluent_collect_contents ::
  "(string \<Rightarrow> int \<Rightarrow> reg_schema res) \<Rightarrow> reg_schema \<Rightarrow> string list \<Rightarrow> string set
     \<Rightarrow> (string list \<times> string set) res option" where
  "confluent_collect_contents get_version schema contents visited =
     collect (confluent_reference get_version) rs_references reg_content (rs_references schema) contents visited"

record apicurio_reference =
  ar_name :: string
  ar_group :: string
  ar_artifact :: string
  ar_version :: string

record apicurio_artifact =
  aa_id :: int
  aa_id_kind :: string
  aa_content :: string
  aa_type :: string
  aa_references :: "apicurio_reference list"

type_synonym reference_key = "string \<times> string \<times> string"

definition reference_key :: "apicurio_reference \<Rightarrow> reference_key" where
  "reference_key r = (ar_group r, ar_artifact r, ar_version r)"

text \<open>Apicurio: a visited key is skipped without a request.\<close>

definition apicurio_reference_step ::
  "(apicurio_reference \<Rightarrow> apicurio_artifact res) \<Rightarrow> apicurio_reference \<Rightarrow> reference_key set
     \<Rightarrow> (reference_key \<times> apicurio_artifact) option res" where
  "apicurio_reference_step get_referenced reference visited =
     (if reference_key reference \<in> visited then Inr None
      else rbind (get_referenced reference) (\<lambda>referenced. Inr (Some (reference_key reference, referenced))))"

definition apicurio_collect_contents ::
  "(apicurio_reference \<Rightarrow> apicurio_artifact res) \<Rightarrow> apicurio_artifact \<Rightarrow> string list \<Rightarrow> reference_key set
     \<Rightarrow> (string list \<times> reference_key set) res option" where
  "apicurio_collect_contents get_referenced artifact contents visited =
     collect (apicurio_reference_step get_referenced) aa_references (\<lambda>a. Inr (aa_content a))
       (aa_references artifact) contents visited"

text \<open>\<open>ApicurioSchemas.avro_schema\<close>: parsed schemas are kept by ID kind and ID. \<open>None\<close> is a walk
  that never returns; \<open>parse\<close> is the Avro parser.\<close>

definition apicurio_avro_schema ::
  "(apicurio_reference \<Rightarrow> apicurio_artifact res) \<Rightarrow> (string \<Rightarrow> string list \<Rightarrow> 's res) \<Rightarrow> apicurio_artifact
     \<Rightarrow> (string \<times> int, 's) lru \<Rightarrow> ('s res \<times> (string \<times> int, 's) lru) option" where
  "apicurio_avro_schema get_referenced parse artifact cache =
     (let key = (aa_id_kind artifact, aa_id artifact) in
      case lru_get key cache of
        (Some s, cache') \<Rightarrow> Some (Inr s, cache')
      | (None, cache') \<Rightarrow>
          map_option (\<lambda>out.
            case rbind out (\<lambda>(references, _). parse (aa_content artifact) references) of
              Inl e \<Rightarrow> (Inl e, cache')
            | Inr s \<Rightarrow> (case lru_put key s cache' of Inl e \<Rightarrow> (Inl e, cache') | Inr cache'' \<Rightarrow> (Inr s, cache'')))
            (apicurio_collect_contents get_referenced artifact [] {}))"

section \<open>Lemmas\<close>

lemma collect_Nil [simp]: "collect step children content [] contents visited = Some (Inr (contents, visited))"
  by (simp add: collect.simps)

lemma collect_Cons:
  "collect step children content (r # rs) contents visited =
     (case step r visited of
        Inl e \<Rightarrow> Some (Inl e)
      | Inr None \<Rightarrow> collect step children content rs contents visited
      | Inr (Some (k, n)) \<Rightarrow>
          Option.bind (collect step children content (children n) contents (insert k visited)) (\<lambda>out.
            case out of
              Inl e \<Rightarrow> Some (Inl e)
            | Inr (contents', visited') \<Rightarrow>
                (case content n of
                   Inl e \<Rightarrow> Some (Inl e)
                 | Inr t \<Rightarrow> collect step children content rs (contents' @ [t]) visited')))"
  by (subst collect.simps) simp

text \<open>Every collected schema marks one new key, so the walk ends after finitely many.\<close>

lemma collect_total:
  assumes "finite N"
    and step: "\<And>r v k n. R r \<Longrightarrow> step r v = Inr (Some (k, n)) \<Longrightarrow> k \<in> N \<and> k \<notin> v \<and> list_all R (children n)"
    and refs: "list_all R refs"
  shows "\<exists>out. collect step children content refs contents visited = Some out \<and>
    (\<forall>contents' visited'. out = Inr (contents', visited') \<longrightarrow>
       visited \<subseteq> visited' \<and> (\<exists>new. contents' = contents @ new \<and> (finite visited \<longrightarrow> card visited' = card visited + length new)))"
  using refs
proof (induction "card (N - visited)" arbitrary: refs contents visited rule: less_induct)
  case less
  show ?case
    using less.prems
  proof (induction refs arbitrary: contents)
    case (Cons r rs)
    show ?case
    proof (cases "step r visited")
      case (Inl e)
      then show ?thesis by (simp add: collect_Cons)
    next
      case (Inr nx)
      show ?thesis
      proof (cases nx)
        case None
        then show ?thesis using Inr Cons.IH[of contents] Cons.prems by (simp add: collect_Cons)
      next
        case (Some kn)
        obtain k n where kn: "kn = (k, n)" by (cases kn)
        have "R r" "list_all R rs" using Cons.prems by simp_all
        then have k: "k \<in> N" "k \<notin> visited" "list_all R (children n)"
          using step[of r visited k n] Inr Some kn by blast+
        then have smaller: "card (N - insert k visited) < card (N - visited)"
          using assms(1) by (intro psubset_card_mono) auto
        obtain out1 where out1: "collect step children content (children n) contents (insert k visited) = Some out1"
          and new1: "\<forall>c1 v1. out1 = Inr (c1, v1) \<longrightarrow> insert k visited \<subseteq> v1 \<and>
            (\<exists>new. c1 = contents @ new \<and> (finite (insert k visited) \<longrightarrow> card v1 = card (insert k visited) + length new))"
          using less(1)[OF smaller k(3), of contents] by blast
        show ?thesis
        proof (cases "\<exists>c1 v1 t. out1 = Inr (c1, v1) \<and> content n = Inr t")
          case False
          then show ?thesis
            using Inr Some kn out1 by (auto simp: collect_Cons split: sum.split)
        next
          case True
          then obtain c1 v1 t where t: "out1 = Inr (c1, v1)" "content n = Inr t" by blast
          obtain new where n1: "insert k visited \<subseteq> v1" "c1 = contents @ new"
              "finite visited \<longrightarrow> card v1 = Suc (card visited) + length new"
            using new1 t k by auto
          have "card (N - v1) < card (N - visited)"
            using assms(1) k n1(1) by (intro psubset_card_mono) auto
          from less(1)[OF this \<open>list_all R rs\<close>, of "c1 @ [t]"] obtain out2 where out2:
            "collect step children content rs (c1 @ [t]) v1 = Some out2"
            "\<forall>c2 v2. out2 = Inr (c2, v2) \<longrightarrow> v1 \<subseteq> v2 \<and>
               (\<exists>new. c2 = (c1 @ [t]) @ new \<and> (finite v1 \<longrightarrow> card v2 = card v1 + length new))"
            by blast
          have "finite visited \<Longrightarrow> finite v1" using n1(3) by (metis add_Suc card.infinite nat.distinct(1))
          then show ?thesis
            using Inr Some kn out1 t out2 n1 by (fastforce simp: collect_Cons)
        qed
      qed
    qed
  qed simp
qed

text \<open>Reading the cache by ID keeps Protobuf schemas in their serialized form.\<close>

definition serialized_cache :: "(int \<Rightarrow> reg_schema) \<Rightarrow> (int, reg_schema) pydict \<Rightarrow> bool" where
  "serialized_cache serialized cache \<longleftrightarrow>
     (\<forall>i s. dget cache i = Some s \<longrightarrow> reg_schema_type s = Some ST_PROTOBUF \<longrightarrow> s = serialized i)"

section \<open>Properties\<close>

text \<open>Collecting the references of a Confluent schema always returns when the Registry has
  finitely many reference names, also when schemas refer to each other in a cycle, and every name
  contributes its content once.\<close>

theorem reference_collection_terminates:
  assumes "finite N" and "\<forall>r \<in> set (rs_references schema). rr_name r \<in> Some ` N"
    and "\<forall>subject version s. get_version subject version = Inr s \<longrightarrow> (\<forall>r \<in> set (rs_references s). rr_name r \<in> Some ` N)"
  shows "\<exists>out. confluent_collect_contents get_version schema [] {} = Some out \<and>
    (\<forall>contents visited. out = Inr (contents, visited) \<longrightarrow> length contents = card visited)"
proof -
  let ?R = "\<lambda>r. rr_name r \<in> Some ` N"
  have "\<exists>out. confluent_collect_contents get_version schema [] {} = Some out \<and>
    (\<forall>contents' visited'. out = Inr (contents', visited') \<longrightarrow> {} \<subseteq> visited' \<and>
       (\<exists>new. contents' = [] @ new \<and> (finite ({} :: string set) \<longrightarrow> card visited' = card ({} :: string set) + length new)))"
    unfolding confluent_collect_contents_def
  proof (rule collect_total[OF assms(1), where R = ?R])
    fix r v k n
    assume "?R r" "confluent_reference get_version r v = Inr (Some (k, n))"
    then show "k \<in> N \<and> k \<notin> v \<and> list_all ?R (rs_references n)"
      using assms(3) by (auto simp: confluent_reference_def res_simps list_all_iff split: option.splits if_splits)
  qed (use assms(2) in \<open>simp add: list_all_iff\<close>)
  then show ?thesis by fastforce
qed

definition cyclic_schema :: reg_schema where
  "cyclic_schema = \<lparr>rs_type = Some ''AVRO'', rs_str = Some ''x'',
     rs_references = [\<lparr>rr_name = Some ''a'', rr_subject = Some ''s'', rr_version = Some 1\<rparr>]\<rparr>"

theorem reference_collection_terminates_witness:
  "\<exists>out. confluent_collect_contents (\<lambda>_ _. Inr cyclic_schema) cyclic_schema [] {} = Some out \<and>
    (\<forall>contents visited. out = Inr (contents, visited) \<longrightarrow> length contents = card visited)"
  by (rule reference_collection_terminates[of "{''a''}"]) (auto simp: cyclic_schema_def)

text \<open>A Protobuf schema read by ID always comes in its serialized form, and the cache only
  ever holds that form, whatever text form the client's own cache held before.\<close>

theorem protobuf_schemas_serialized:
  assumes client: "\<forall>i c s c'. rc_get_schema client i (Some ''serialized'') (rc_clear_caches client c) = (Inr s, c')
      \<longrightarrow> s = serialized i"
    and cache: "serialized_cache serialized cache"
    and result: "confluent_schema_by_id client i (cache, c) = (r, (cache', c'))"
  shows "serialized_cache serialized cache' \<and>
    (\<forall>s. r = Inr s \<longrightarrow> reg_schema_type s = Some ST_PROTOBUF \<longrightarrow> s = serialized i)"
proof (cases "dget cache i")
  case (Some s)
  then show ?thesis using cache result by (auto simp: confluent_schema_by_id_def serialized_cache_def)
next
  case None
  obtain r1 c1 where g1: "rc_get_schema client i None c = (r1, c1)" by (cases "rc_get_schema client i None c")
  obtain r2 c2 where g2: "rc_get_schema client i (Some ''serialized'') (rc_clear_caches client c1) = (r2, c2)"
    by (cases "rc_get_schema client i (Some ''serialized'') (rc_clear_caches client c1)")
  have s2: "r2 = Inr s \<Longrightarrow> s = serialized i" for s using client g2 by blast
  have out: "(r, cache', c') =
      (case r1 of Inl e \<Rightarrow> (Inl e, cache, c1)
       | Inr schema \<Rightarrow> if reg_schema_type schema = Some ST_PROTOBUF
           then (case r2 of Inl e \<Rightarrow> (Inl e, cache, c2) | Inr s \<Rightarrow> (Inr s, dput i s cache, c2))
           else (Inr schema, dput i schema cache, c1))"
    using result None g1 g2 by (auto simp: confluent_schema_by_id_def split: sum.splits if_splits)
  show ?thesis
    using out s2 cache by (auto simp: serialized_cache_def dget_dput split: sum.splits if_splits)
qed

definition caching_client :: "(int, reg_schema) pydict registry_client" where
  "caching_client =
     \<lparr>rc_get_schema = (\<lambda>i fmt c. case dget c i of
        Some s \<Rightarrow> (Inr s, c)
      | None \<Rightarrow>
          (let s = \<lparr>rs_type = Some ''PROTOBUF'', rs_str = Some (if fmt = None then ''text'' else ''base64''), rs_references = []\<rparr>
           in (Inr s, dput i s c))),
      rc_clear_caches = (\<lambda>_. [])\<rparr>"

theorem protobuf_schemas_serialized_witness:
  "fst (confluent_schema_by_id caching_client 7 ([], [])) =
     Inr \<lparr>rs_type = Some ''PROTOBUF'', rs_str = Some ''base64'', rs_references = []\<rparr>"
proof -
  let ?ser = "\<lambda>_. \<lparr>rs_type = Some ''PROTOBUF'', rs_str = Some ''base64'', rs_references = []\<rparr>"
  have r: "confluent_schema_by_id caching_client 7 ([], []) = (Inr (?ser 7), ([(7, ?ser 7)], [(7, ?ser 7)]))"
    and p: "reg_schema_type (?ser 7) = Some ST_PROTOBUF"
    by code_simp+
  have "serialized_cache ?ser []" by (simp add: serialized_cache_def)
  from protobuf_schemas_serialized[OF _ this r] p r show ?thesis
    by (simp add: caching_client_def)
qed

text \<open>An Apicurio Avro schema is collected and parsed once: after a successful reading the
  next one of the same artifact returns the same schema from the cache, without the Registry.\<close>

theorem apicurio_schema_cached:
  assumes "apicurio_avro_schema get_referenced parse artifact cache = Some (Inr s, cache')"
    and "lru_ok cache" and "0 < capacity cache"
  shows "\<exists>cache''. \<forall>get' parse'. apicurio_avro_schema get' parse' artifact cache' = Some (Inr s, cache'')"
proof -
  let ?key = "(aa_id_kind artifact, aa_id artifact)"
  obtain hit c1 where g: "lru_get ?key cache = (hit, c1)" by (cases "lru_get ?key cache")
  have ok1: "lru_ok c1 \<and> 0 < capacity c1"
    using lru_retaining.get_invar[of cache ?key] assms(2,3) g by simp
  have "dget (items cache') ?key = Some s \<and> lru_ok cache' \<and> 0 < capacity cache'"
  proof (cases hit)
    case (Some v)
    then have "v = s" "cache' = c1" using assms(1) g by (auto simp: apicurio_avro_schema_def)
    then show ?thesis
      using Some ok1 assms(2,3) g lru_retaining.get_value[of cache ?key] lru_retaining.get_entries[of cache ?key] by simp
  next
    case None
    obtain out where "apicurio_collect_contents get_referenced artifact [] {} = Some out"
      and out: "(case rbind out (\<lambda>(references, _). parse (aa_content artifact) references) of
          Inl e \<Rightarrow> (Inl e, c1)
        | Inr s \<Rightarrow> (case lru_put ?key s c1 of Inl e \<Rightarrow> (Inl e, c1) | Inr cache'' \<Rightarrow> (Inr s, cache''))) = (Inr s, cache')"
      using assms(1) g None by (auto simp: apicurio_avro_schema_def)
    obtain s' where s': "rbind out (\<lambda>(references, _). parse (aa_content artifact) references) = Inr s'"
      using out by (cases "rbind out (\<lambda>(references, _). parse (aa_content artifact) references)") auto
    have p: "lru_put ?key s c1 = Inr cache'"
      using out unfolding s' by (cases "lru_put ?key s' c1") auto
    then show ?thesis using lru_retaining.put_get[OF ok1 p] lru_retaining.put_invar[OF ok1 p] by simp
  qed
  then have "fst (lru_get ?key cache') = Some s" using lru_retaining.get_value[of cache' ?key] by simp
  then obtain c2 where "lru_get ?key cache' = (Some s, c2)" by (cases "lru_get ?key cache'") simp
  then show ?thesis by (intro exI[of _ c2]) (simp add: apicurio_avro_schema_def Let_def)
qed

theorem apicurio_schema_cached_witness:
  "\<exists>cache''. \<forall>get' parse'. apicurio_avro_schema get' parse'
      \<lparr>aa_id = 3, aa_id_kind = ''contentId'', aa_content = ''c'', aa_type = ''AVRO'', aa_references = []\<rparr>
      \<lparr>capacity = 1000, items = [((''contentId'', 3), 5::nat)]\<rparr> = Some (Inr 5, cache'')"
proof -
  let ?a = "\<lparr>aa_id = 3, aa_id_kind = ''contentId'', aa_content = ''c'', aa_type = ''AVRO'', aa_references = []\<rparr>"
  have "apicurio_avro_schema (\<lambda>_. Inl EOFError) (\<lambda>_ _. Inr 5) ?a (lru_new 1000) =
      Some (Inr (5::nat), \<lparr>capacity = 1000, items = [((''contentId'', 3), 5)]\<rparr>)"
    by (simp add: apicurio_avro_schema_def apicurio_collect_contents_def lru_get_def lru_new_def lru_put_def move_to_end_def Let_def din_def)
  then show ?thesis by (rule apicurio_schema_cached) (simp_all add: lru_new_def lru_ok_def)
qed

end
