(* ===== verification/Apicurio_Client.thy ===== *)
theory Apicurio_Client
  imports Schemas Byte_Codecs
begin

text \<open>
  The Apicurio Registry client (class \<open>ApicurioClient\<close> of \<open>apicurio.py\<close>): the expiring cache, the OAuth
  token, the request loop with its retries, and the reading of artifacts, versions, references
  and metadata.

  HTTP is a parameter, a record of actions on a world of type \<open>'w\<close>: sending a request, posting to
  the token endpoint, the monotonic clock and sleeping. The client's own state (token and cache) is a
  record next to the world. A response carries what \<open>response.json()\<close> gives. \<open>show_val\<close> is
  \<open>str\<close> of a JSON value and \<open>loads\<close> is \<open>json.loads\<close>. The registry documents the names, groups,
  artifact IDs of references as strings; where one is not, the model raises the \<open>TypeError\<close> that
  \<open>quote\<close> raises later in the code. Reading metadata page by page may go on for ever on a server that never
  stops answering full pages, so that loop is a partial function. HTTP client construction and temporary files
  are not modelled.
\<close>

section \<open>HTTP\<close>

record http_request =
  hq_method :: string
  hq_path :: string
  hq_params :: "(string \<times> string) list"
  hq_body :: "pyval option"
  hq_token :: "string option"

record http_response =
  hr_status :: nat
  hr_text :: string
  hr_json :: "pyval res"
  hr_headers :: "(string \<times> string) list"

record 'w http_api =
  ha_request :: "http_request \<Rightarrow> (http_response, 'w) act"
  ha_token :: "(string \<times> string) list \<Rightarrow> string \<Rightarrow> string \<Rightarrow> (http_response, 'w) act"
  ha_now :: "'w \<Rightarrow> rat \<times> 'w"
  ha_sleep :: "int \<Rightarrow> 'w \<Rightarrow> 'w"

fun is_http_error :: "exn \<Rightarrow> bool" where
  "is_http_error (HTTPError _ _) = True"
| "is_http_error _ = False"

definition success :: "http_response \<Rightarrow> bool" where
  "success r \<longleftrightarrow> 200 \<le> hr_status r \<and> hr_status r < 300"

definition raise_for_status :: "http_response \<Rightarrow> unit res" where
  "raise_for_status r = raise_if (\<not> success r) (HTTPError (Some (int (hr_status r))) [])"

section \<open>JSON values\<close>

text \<open>\<open>value[key]\<close> and \<open>value.get(key)\<close> with a string key.\<close>

definition py_index :: "pyval \<Rightarrow> string \<Rightarrow> pyval res" where
  "py_index v k =
     (case v of
        PDict d \<Rightarrow> (case dget d (PStr k) of None \<Rightarrow> Inl (KeyError k) | Some x \<Rightarrow> Inr x)
      | _ \<Rightarrow> Inl TypeError)"

definition py_get :: "pyval \<Rightarrow> string \<Rightarrow> pyval option res" where
  "py_get v k = (case v of PDict d \<Rightarrow> Inr (dget d (PStr k)) | _ \<Rightarrow> Inl AttributeError)"

definition py_get_or :: "pyval \<Rightarrow> string \<Rightarrow> pyval \<Rightarrow> pyval res" where
  "py_get_or v k dflt = rbind (py_get v k) (\<lambda>x. Inr (case x of None \<Rightarrow> dflt | Some y \<Rightarrow> y))"

definition py_truthy :: "pyval \<Rightarrow> bool" where
  "py_truthy v =
     (case v of
        PNone \<Rightarrow> False | PBool b \<Rightarrow> b | PInt n \<Rightarrow> n \<noteq> 0 | PFloat f \<Rightarrow> f \<noteq> Fin 0 | PStr s \<Rightarrow> s \<noteq> []
      | PBytes b \<Rightarrow> b \<noteq> [] | PList xs \<Rightarrow> xs \<noteq> [] | PDict d \<Rightarrow> d \<noteq> [] | POther _ \<Rightarrow> True)"

text \<open>\<open>int(value)\<close>, \<open>len(value)\<close> and the text of a value that must be a string.\<close>

definition py_int :: "pyval \<Rightarrow> int res" where
  "py_int v =
     (case v of
        PInt n \<Rightarrow> Inr n
      | PBool b \<Rightarrow> Inr (if b then 1 else 0)
      | PFloat (Fin q) \<Rightarrow> Inr (if 0 \<le> q then \<lfloor>q\<rfloor> else \<lceil>q\<rceil>)
      | PFloat NaN \<Rightarrow> Inl (ValueError ''cannot convert float NaN to integer'')
      | PFloat _ \<Rightarrow> Inl (OtherException ''OverflowError'')
      | PStr s \<Rightarrow> (case parse_int s of None \<Rightarrow> Inl (ValueError ''invalid literal for int()'') | Some n \<Rightarrow> Inr n)
      | _ \<Rightarrow> Inl TypeError)"

definition py_len :: "pyval \<Rightarrow> nat res" where
  "py_len v =
     (case v of
        PStr s \<Rightarrow> Inr (length s) | PBytes b \<Rightarrow> Inr (length b) | PList xs \<Rightarrow> Inr (length xs) | PDict d \<Rightarrow> Inr (length d)
      | _ \<Rightarrow> Inl TypeError)"

definition py_text :: "pyval \<Rightarrow> string res" where
  "py_text v = (case v of PStr s \<Rightarrow> Inr s | _ \<Rightarrow> Inl TypeError)"

text \<open>\<open>except (A, B, ...) as ex: raise ApicurioRegistryError(message)\<close>.\<close>

definition recast :: "(exn \<Rightarrow> bool) \<Rightarrow> string \<Rightarrow> 'a res \<Rightarrow> 'a res" where
  "recast caught message r =
     (case r of Inl e \<Rightarrow> if caught e then Inl (ApicurioRegistryError None message) else Inl e | Inr x \<Rightarrow> Inr x)"

fun is_key_error :: "exn \<Rightarrow> bool" where
  "is_key_error (KeyError _) = True"
| "is_key_error _ = False"

definition shape_error :: "exn \<Rightarrow> bool" where
  "shape_error e \<longleftrightarrow> is_key_error e \<or> e = TypeError \<or> is_value_error e"

definition problem_detail :: "http_response \<Rightarrow> string res" where
  "problem_detail r =
     (case rbind (hr_json r) (\<lambda>v. py_get v ''detail'') of
        Inr (Some (PStr s)) \<Rightarrow> Inr (if s = [] then [] else ''; '' @ s)
      | Inr _ \<Rightarrow> Inr []
      | Inl e \<Rightarrow> if e = AttributeError \<or> is_value_error e then Inr [] else Inl e)"

section \<open>State\<close>

record apicurio_version =
  av_group :: string
  av_artifact :: string
  av_version :: string
  av_global_id :: int
  av_content_id :: int

datatype cache_key =
    KArtifact string int | KVersion string string string | KReference string string string | KMetadata string int

datatype cached = CArtifact apicurio_artifact | CVersion apicurio_version | CMetadata "pyval list"

record client_state =
  cl_token :: "string option"
  cl_expires :: rat
  cl_cache :: "(cache_key, rat \<times> cached) lru"

definition new_client :: client_state where
  "new_client = \<lparr>cl_token = None, cl_expires = 0, cl_cache = lru_new APICURIO_CACHE_CAPACITY\<rparr>"

type_synonym 'w st = "client_state \<times> 'w"

definition world :: "('a, 'w) act \<Rightarrow> ('a, 'w st) act" where
  "world f s = (case f (snd s) of (r, w) \<Rightarrow> (r, (fst s, w)))"

definition clock :: "'w http_api \<Rightarrow> (rat, 'w st) act" where
  "clock api s = (case ha_now api (snd s) of (t, w) \<Rightarrow> (Inr t, (fst s, w)))"

definition sleep :: "'w http_api \<Rightarrow> int \<Rightarrow> 'w st \<Rightarrow> 'w st" where
  "sleep api ms s = (fst s, ha_sleep api ms (snd s))"

text \<open>\<open>_cached\<close>: an entry older than the check period is dropped.\<close>

definition client_cached :: "'w http_api \<Rightarrow> int \<Rightarrow> cache_key \<Rightarrow> (cached option, 'w st) act" where
  "client_cached api check_period k s =
     (let (item, cache) = lru_get k (cl_cache (fst s)); s1 = ((fst s)\<lparr>cl_cache := cache\<rparr>, snd s) in
      case item of
        None \<Rightarrow> (Inr None, s1)
      | Some (created_at, val) \<Rightarrow>
          if check_period = 0 then (Inr None, ((fst s1)\<lparr>cl_cache := lru_remove k cache\<rparr>, snd s1))
          else abind (clock api) (\<lambda>now s2.
            if of_int check_period \<le> (now - created_at) * 1000
            then (Inr None, ((fst s2)\<lparr>cl_cache := lru_remove k (cl_cache (fst s2))\<rparr>, snd s2))
            else (Inr (Some val), s2)) s1)"

definition client_store :: "'w http_api \<Rightarrow> cache_key \<Rightarrow> cached \<Rightarrow> (unit, 'w st) act" where
  "client_store api k v =
     abind (clock api) (\<lambda>now s.
       case lru_put k (now, v) (cl_cache (fst s)) of
         Inl e \<Rightarrow> (Inl e, s)
       | Inr cache \<Rightarrow> (Inr (), ((fst s)\<lparr>cl_cache := cache\<rparr>, snd s)))"

section \<open>The OAuth token\<close>

definition token_of_body :: "(pyval \<Rightarrow> string) \<Rightarrow> http_response \<Rightarrow> (string \<times> int) res" where
  "token_of_body show_val response =
     rbind (raise_for_status response) (\<lambda>_.
     rbind (hr_json response) (\<lambda>body.
     rbind (py_index body ''access_token'') (\<lambda>token.
     rbind (py_get_or body ''expires_in'' (PInt 60)) (\<lambda>expires.
     rbind (py_int expires) (\<lambda>n. Inr (show_val token, max 0 n))))))"

definition token_lifetime :: "int \<Rightarrow> rat" where
  "token_lifetime n = max 0 (of_int n - min 30 (of_int n / 10))"

definition oauth_token ::
  "'w http_api \<Rightarrow> (pyval \<Rightarrow> string) \<Rightarrow> apicurio_config \<Rightarrow> bool \<Rightarrow> (string option, 'w st) act" where
  "oauth_token api show_val config force =
     (case ac_token_endpoint config of
        None \<Rightarrow> areturn None
      | Some _ \<Rightarrow>
          abind (clock api) (\<lambda>now s.
            if \<not> force \<and> cl_token (fst s) \<noteq> None \<and> now < cl_expires (fst s) then (Inr (cl_token (fst s)), s)
            else
              (case (ac_client_id config, ac_client_secret config) of
                 (Some client, Some secret) \<Rightarrow>
                   let data = [(''grant_type'', ''client_credentials'')]
                         @ (case ac_oauth_scope config of None \<Rightarrow> [] | Some scope \<Rightarrow> [(''scope'', scope)]);
                       (answer, s1) = world (ha_token api data client secret) s in
                   (case recast (\<lambda>e. is_http_error e \<or> shape_error e) ''OAuth token request failed''
                           (rbind answer (token_of_body show_val)) of
                      Inl e \<Rightarrow> (Inl e, s1)
                    | Inr (token, expires_in) \<Rightarrow>
                        (Inr (Some token),
                         ((fst s1)\<lparr>cl_token := Some token, cl_expires := now + token_lifetime expires_in\<rparr>, snd s1)))
               | _ \<Rightarrow> (Inl AssertionError, s))))"

section \<open>Requests\<close>

definition retryable :: "http_response \<Rightarrow> bool" where
  "retryable r \<longleftrightarrow> hr_status r = 429 \<or> 500 \<le> hr_status r"

definition finish_response :: "http_response \<Rightarrow> http_response res" where
  "finish_response r =
     (if success r then Inr r
      else rbind (problem_detail r) (\<lambda>detail.
        Inl (ApicurioRegistryError (Some (int (hr_status r))) (''Apicurio request failed'' @ detail))))"

text \<open>\<open>_request\<close>. A refresh of the token repeats the attempt, at most once.\<close>

function request_loop ::
  "'w http_api \<Rightarrow> (pyval \<Rightarrow> string) \<Rightarrow> apicurio_config \<Rightarrow> http_request \<Rightarrow> nat \<Rightarrow> nat \<Rightarrow> bool
     \<Rightarrow> (http_response, 'w st) act" where
  "request_loop api show_val config request attempts attempt refreshed s =
     (if \<not> attempt < attempts then (Inl (ApicurioRegistryError None ''Apicurio request failed''), s)
      else
        (case oauth_token api show_val config False s of
           (Inl e, s1) \<Rightarrow> (Inl e, s1)
         | (Inr token, s1) \<Rightarrow>
             (case world (ha_request api (request\<lparr>hq_token := token\<rparr>)) s1 of
                (Inl e, s2) \<Rightarrow>
                  if \<not> is_http_error e then (Inl e, s2)
                  else if attempts \<le> Suc attempt then (Inl (ApicurioRegistryError None ''Apicurio request failed''), s2)
                  else request_loop api show_val config request attempts (Suc attempt) refreshed
                         (sleep api (ac_retry_backoff_ms config) s2)
              | (Inr response, s2) \<Rightarrow>
                  if hr_status response = 401 \<and> token \<noteq> None \<and> \<not> refreshed
                  then (case oauth_token api show_val config True s2 of
                          (Inl e, s3) \<Rightarrow> (Inl e, s3)
                        | (Inr _, s3) \<Rightarrow> request_loop api show_val config request attempts attempt True s3)
                  else if retryable response \<and> Suc attempt < attempts
                  then request_loop api show_val config request attempts (Suc attempt) refreshed
                         (sleep api (ac_retry_backoff_ms config) s2)
                  else (finish_response response, s2))))"
  by pat_completeness auto

termination request_loop
  by (relation "measure (\<lambda>(_, _, _, _, attempts, attempt, refreshed, _). 2 * (attempts - attempt) + (if refreshed then 0 else 1))")
    auto

definition client_request ::
  "'w http_api \<Rightarrow> (pyval \<Rightarrow> string) \<Rightarrow> apicurio_config \<Rightarrow> http_request \<Rightarrow> (http_response, 'w st) act" where
  "client_request api show_val config request =
     request_loop api show_val config request (nat (ac_retry_count config + 1)) 0 False"

definition http_get :: "string \<Rightarrow> (string \<times> string) list \<Rightarrow> http_request" where
  "http_get path params = \<lparr>hq_method = ''GET'', hq_path = path, hq_params = params, hq_body = None, hq_token = None\<rparr>"

section \<open>References and metadata\<close>

definition parse_reference :: "(pyval \<Rightarrow> string) \<Rightarrow> pyval \<Rightarrow> apicurio_reference res" where
  "parse_reference show_val v =
     rbind (rbind (py_index v ''name'') py_text) (\<lambda>name.
     rbind (rbind (py_get_or v ''groupId'' (PStr ''default'')) py_text) (\<lambda>gid.
     rbind (rbind (py_index v ''artifactId'') py_text) (\<lambda>artifact.
     rbind (py_index v ''version'') (\<lambda>version.
       Inr \<lparr>ar_name = name, ar_group = gid, ar_artifact = artifact, ar_version = show_val version\<rparr>))))"

text \<open>Iterating a JSON value: an object gives its keys, a string its characters.\<close>

definition py_iter :: "pyval \<Rightarrow> pyval list res" where
  "py_iter v =
     (case v of
        PList xs \<Rightarrow> Inr xs | PDict d \<Rightarrow> Inr (map fst d) | PStr s \<Rightarrow> Inr (map (\<lambda>c. PStr [c]) s)
      | PBytes b \<Rightarrow> Inr (map (\<lambda>x. PInt (int (byte_nat x))) b) | _ \<Rightarrow> Inl TypeError)"

definition client_references ::
  "'w http_api \<Rightarrow> (pyval \<Rightarrow> string) \<Rightarrow> apicurio_config \<Rightarrow> string \<Rightarrow> (apicurio_reference list, 'w st) act" where
  "client_references api show_val config path =
     abind (client_request api show_val config (http_get path [])) (\<lambda>response.
       alift (recast shape_error ''Invalid Apicurio references response''
         (rbind (hr_json response) (\<lambda>values. rbind (py_iter values) (map_res (parse_reference show_val))))))"

definition version_path :: "string \<Rightarrow> string \<Rightarrow> string \<Rightarrow> string" where
  "version_path gid artifact version =
     ''/groups/'' @ quote gid @ ''/artifacts/'' @ quote artifact @ ''/versions/'' @ quote version"

text \<open>One page of versions: the versions, and the number the server says there are.\<close>

definition parse_page :: "http_response \<Rightarrow> (pyval list \<times> int) res" where
  "parse_page response =
     recast (\<lambda>e. e = TypeError \<or> is_value_error e) ''Invalid Apicurio version search response''
       (rbind (hr_json response) (\<lambda>body.
        rbind (py_get_or body ''versions'' (PList [])) (\<lambda>versions.
        rbind (py_get_or body ''artifacts'' versions) (\<lambda>page.
        rbind (py_len page) (\<lambda>n.
        rbind (py_get_or body ''count'' (PInt (int n))) (\<lambda>count.
        rbind (py_int count) (\<lambda>c.
          case page of PList xs \<Rightarrow> Inr (xs, c) | _ \<Rightarrow> Inl TypeError)))))))"

partial_function (option) metadata_loop ::
  "(nat \<Rightarrow> 's \<Rightarrow> (pyval list \<times> int) res \<times> 's) \<Rightarrow> nat \<Rightarrow> pyval list \<Rightarrow> 's \<Rightarrow> (pyval list res \<times> 's) option" where
  "metadata_loop ask offset values s =
     (case ask offset s of
        (Inl e, s1) \<Rightarrow> Some (Inl e, s1)
      | (Inr (page, count), s1) \<Rightarrow>
          (let offset' = offset + length page; values' = values @ page in
           if page = [] \<or> count \<le> int offset' \<or> length page < 100 then Some (Inr values', s1)
           else metadata_loop ask offset' values' s1))"

definition ask_metadata ::
  "'w http_api \<Rightarrow> (pyval \<Rightarrow> string) \<Rightarrow> apicurio_config \<Rightarrow> int \<Rightarrow> nat \<Rightarrow> (pyval list \<times> int, 'w st) act" where
  "ask_metadata api show_val config artifact_id offset =
     abind (client_request api show_val config (http_get ''/search/versions''
         [(ac_use_id config, show_int artifact_id), (''limit'', ''100''), (''offset'', show_nat offset)]))
       (\<lambda>response. alift (parse_page response))"

definition client_metadata ::
  "'w http_api \<Rightarrow> (pyval \<Rightarrow> string) \<Rightarrow> apicurio_config \<Rightarrow> int \<Rightarrow> 'w st \<Rightarrow> (pyval list res \<times> 'w st) option" where
  "client_metadata api show_val config artifact_id s =
     (let key = KMetadata (ac_use_id config) artifact_id in
      case client_cached api (ac_check_period_ms config) key s of
        (Inr (Some (CMetadata values)), s1) \<Rightarrow> Some (Inr values, s1)
      | (Inl e, s1) \<Rightarrow> Some (Inl e, s1)
      | (_, s1) \<Rightarrow>
          map_option (\<lambda>(r, s2).
            case r of
              Inl e \<Rightarrow> (Inl e, s2)
            | Inr values \<Rightarrow> abind (client_store api key (CMetadata values)) (\<lambda>_. areturn values) s2)
            (metadata_loop (ask_metadata api show_val config artifact_id) 0 [] s1))"

section \<open>Artifacts\<close>

definition strip_quotes :: "string \<Rightarrow> string" where
  "strip_quotes s = rev (dropWhile (\<lambda>c. c = CHR 0x22) (rev (dropWhile (\<lambda>c. c = CHR 0x22) s)))"

text \<open>The \<open>artifactType\<close> parameter of a content type.\<close>

fun content_type_artifact :: "string list \<Rightarrow> string" where
  "content_type_artifact [] = []"
| "content_type_artifact (p # ps) =
     (let (name, val) = partition_on CHR ''='' (strip p) in
      if CHR ''='' \<in> set (strip p) \<and> lower name = ''artifacttype'' then upper (strip_quotes val)
      else content_type_artifact ps)"

text \<open>\<open>schema.get("type") in {...}\<close> hashes the value, which a list or an object refuses.\<close>

definition type_among :: "pyval option \<Rightarrow> string list \<Rightarrow> bool res" where
  "type_among v names =
     (case v of
        Some (PList _) \<Rightarrow> Inl TypeError
      | Some (PDict _) \<Rightarrow> Inl TypeError
      | Some (PStr s) \<Rightarrow> Inr (s \<in> set names)
      | _ \<Rightarrow> Inr False)"

definition infer_artifact_type :: "(string \<Rightarrow> pyval option) \<Rightarrow> string \<Rightarrow> string res" where
  "infer_artifact_type loads content =
     (case loads content of
        None \<Rightarrow>
          (let stripped = dropWhile is_space content in
           Inr (if starts_with ''syntax'' stripped \<or> contains ''message '' stripped then ''PROTOBUF'' else []))
      | Some (PStr _) \<Rightarrow> Inr ''AVRO''
      | Some (PDict d) \<Rightarrow>
          rbind (type_among (dget d (PStr ''type'')) [''record'', ''enum'', ''fixed'']) (\<lambda>avro.
            Inr (if avro \<or> din (PStr ''fields'') d then ''AVRO''
                 else if din (PStr ''$schema'') d \<or> din (PStr ''properties'') d \<or> din (PStr ''required'') d then ''JSON''
                 else []))
      | Some _ \<Rightarrow> Inr [])"

definition stated_artifact_type :: "(string \<Rightarrow> pyval option) \<Rightarrow> http_response \<Rightarrow> string res" where
  "stated_artifact_type loads response =
     (let header = upper (dget_or (hr_headers response) ''x-registry-artifacttype'' []);
          parameter = content_type_artifact (tl (split_on CHR '';'' (dget_or (hr_headers response) ''content-type'' []))) in
      if header \<noteq> [] then Inr header
      else if parameter \<noteq> [] then Inr parameter
      else infer_artifact_type loads (hr_text response))"

text \<open>The type all versions with metadata agree on.\<close>

definition metadata_type :: "(pyval \<Rightarrow> string) \<Rightarrow> pyval list \<Rightarrow> string res" where
  "metadata_type show_val values =
     rbind (map_res (\<lambda>v. py_get v ''artifactType'') values) (\<lambda>types.
       let names = remdups (concat (map (\<lambda>t. case t of Some x \<Rightarrow> if py_truthy x then [upper (show_val x)] else [] | None \<Rightarrow> []) types)) in
       Inr (case names of [n] \<Rightarrow> n | _ \<Rightarrow> []))"

definition artifact_path :: "apicurio_config \<Rightarrow> int \<Rightarrow> string" where
  "artifact_path config artifact_id =
     ''/ids/'' @ (if ac_use_id config = ''contentId'' then ''contentIds'' else ''globalIds'') @ ''/'' @ show_int artifact_id"

definition finish_artifact ::
  "'w http_api \<Rightarrow> (pyval \<Rightarrow> string) \<Rightarrow> apicurio_config \<Rightarrow> int \<Rightarrow> http_response \<Rightarrow> string \<Rightarrow> (apicurio_artifact, 'w st) act" where
  "finish_artifact api show_val config artifact_id response artifact_type =
     (case schema_type_of artifact_type of
        None \<Rightarrow> alift (Inl (ApicurioRegistryError None (''Unsupported or missing Apicurio artifact type: ''
                  @ (if artifact_type = [] then ''unknown'' else artifact_type))))
      | Some t \<Rightarrow>
          abind (client_references api show_val config (artifact_path config artifact_id @ ''/references'')) (\<lambda>references.
            let artifact = \<lparr>aa_id = artifact_id,
                  aa_id_kind = (if ac_use_id config = ''contentId'' then ''CONTENT_ID'' else ''GLOBAL_ID''),
                  aa_content = hr_text response, aa_type = schema_type_value t, aa_references = references\<rparr> in
            abind (client_store api (KArtifact (ac_use_id config) artifact_id) (CArtifact artifact)) (\<lambda>_. areturn artifact)))"

definition get_artifact ::
  "'w http_api \<Rightarrow> (pyval \<Rightarrow> string) \<Rightarrow> (string \<Rightarrow> pyval option) \<Rightarrow> apicurio_config \<Rightarrow> int \<Rightarrow> 'w st
     \<Rightarrow> (apicurio_artifact res \<times> 'w st) option" where
  "get_artifact api show_val loads config artifact_id s =
     (case client_cached api (ac_check_period_ms config) (KArtifact (ac_use_id config) artifact_id) s of
        (Inr (Some (CArtifact artifact)), s1) \<Rightarrow> Some (Inr artifact, s1)
      | (Inl e, s1) \<Rightarrow> Some (Inl e, s1)
      | (_, s1) \<Rightarrow>
          (case client_request api show_val config (http_get (artifact_path config artifact_id) [(''returnArtifactType'', ''true'')]) s1 of
             (Inl e, s2) \<Rightarrow> Some (Inl e, s2)
           | (Inr response, s2) \<Rightarrow>
               (case stated_artifact_type loads response of
                  Inl e \<Rightarrow> Some (Inl e, s2)
                | Inr t \<Rightarrow>
                    if t \<noteq> [] then Some (finish_artifact api show_val config artifact_id response t s2)
                    else map_option (\<lambda>(values, s3).
                        (case rbind values (metadata_type show_val) of
                           Inl e \<Rightarrow> (Inl e, s3)
                         | Inr t' \<Rightarrow> finish_artifact api show_val config artifact_id response t' s3))
                      (client_metadata api show_val config artifact_id s2))))"

section \<open>Versions\<close>

definition text_or :: "(pyval \<Rightarrow> string) \<Rightarrow> pyval option \<Rightarrow> string \<Rightarrow> string" where
  "text_or show_val v dflt = (case v of Some x \<Rightarrow> if py_truthy x then show_val x else dflt | None \<Rightarrow> dflt)"

definition parse_version :: "(pyval \<Rightarrow> string) \<Rightarrow> string \<Rightarrow> string \<Rightarrow> pyval \<Rightarrow> apicurio_version res" where
  "parse_version show_val gid artifact body =
     rbind (py_get body ''groupId'') (\<lambda>g.
     rbind (py_get body ''artifactId'') (\<lambda>a.
     rbind (py_index body ''version'') (\<lambda>v.
     rbind (rbind (py_index body ''globalId'') py_int) (\<lambda>global_id.
     rbind (rbind (py_index body ''contentId'') py_int) (\<lambda>content_id.
       Inr \<lparr>av_group = text_or show_val g gid, av_artifact = text_or show_val a artifact, av_version = show_val v,
            av_global_id = global_id, av_content_id = content_id\<rparr>)))))"

definition get_version ::
  "'w http_api \<Rightarrow> (pyval \<Rightarrow> string) \<Rightarrow> apicurio_config \<Rightarrow> string \<Rightarrow> string \<Rightarrow> string \<Rightarrow> (apicurio_version, 'w st) act" where
  "get_version api show_val config gid artifact version =
     (let key = KVersion gid artifact version in
      abind (client_cached api (ac_check_period_ms config) key) (\<lambda>item.
        case item of
          Some (CVersion v) \<Rightarrow> areturn v
        | _ \<Rightarrow>
            abind (client_request api show_val config (http_get (version_path gid artifact version) [])) (\<lambda>response.
            abind (alift (recast shape_error ''Invalid Apicurio version metadata response''
                (rbind (hr_json response) (parse_version show_val gid artifact)))) (\<lambda>v.
            abind (client_store api key (CVersion v)) (\<lambda>_. areturn v)))))"

definition reference_json :: "apicurio_reference \<Rightarrow> pyval" where
  "reference_json r =
     PDict [(PStr ''groupId'', PStr (ar_group r)), (PStr ''artifactId'', PStr (ar_artifact r)),
            (PStr ''version'', PStr (ar_version r)), (PStr ''name'', PStr (ar_name r))]"

definition version_body :: "string \<Rightarrow> string \<Rightarrow> string \<Rightarrow> apicurio_reference list \<Rightarrow> pyval" where
  "version_body artifact artifact_type content references =
     PDict [(PStr ''artifactId'', PStr artifact), (PStr ''artifactType'', PStr artifact_type),
       (PStr ''firstVersion'', PDict [(PStr ''content'', PDict
         [(PStr ''content'', PStr content),
          (PStr ''contentType'', PStr (if artifact_type = ''PROTOBUF'' then ''application/x-protobuf'' else ''application/json'')),
          (PStr ''references'', PList (map reference_json references))])])]"

definition create_version ::
  "'w http_api \<Rightarrow> (pyval \<Rightarrow> string) \<Rightarrow> apicurio_config \<Rightarrow> string \<Rightarrow> string \<Rightarrow> string \<Rightarrow> string
     \<Rightarrow> apicurio_reference list \<Rightarrow> (apicurio_version, 'w st) act" where
  "create_version api show_val config gid artifact artifact_type content references =
     abind (client_request api show_val config
         \<lparr>hq_method = ''POST'', hq_path = ''/groups/'' @ quote gid @ ''/artifacts'',
          hq_params = [(''ifExists'', ''FIND_OR_CREATE_VERSION'')],
          hq_body = Some (version_body artifact artifact_type content references), hq_token = None\<rparr>) (\<lambda>response.
       alift (recast (\<lambda>e. shape_error e \<or> e = AttributeError) ''Invalid Apicurio registration response''
         (rbind (hr_json response) (\<lambda>body. rbind (py_index body ''version'') (parse_version show_val gid artifact)))))"

definition get_referenced_artifact ::
  "'w http_api \<Rightarrow> (pyval \<Rightarrow> string) \<Rightarrow> apicurio_config \<Rightarrow> apicurio_reference \<Rightarrow> string \<Rightarrow> (apicurio_artifact, 'w st) act" where
  "get_referenced_artifact api show_val config reference artifact_type =
     (let key = KReference (ar_group reference) (ar_artifact reference) (ar_version reference);
          base = version_path (ar_group reference) (ar_artifact reference) (ar_version reference) in
      abind (client_cached api (ac_check_period_ms config) key) (\<lambda>item.
        case item of
          Some (CArtifact a) \<Rightarrow> areturn a
        | _ \<Rightarrow>
            abind (client_request api show_val config (http_get (base @ ''/content'') [])) (\<lambda>response.
            abind (client_references api show_val config (base @ ''/references'')) (\<lambda>references.
              let artifact = \<lparr>aa_id = 0, aa_id_kind = ''REFERENCE'', aa_content = hr_text response,
                    aa_type = artifact_type, aa_references = references\<rparr> in
              abind (client_store api key (CArtifact artifact)) (\<lambda>_. areturn artifact)))))"

section \<open>Lemmas\<close>

declare request_loop.simps [simp del]

text \<open>A count of the requests sent, such as the length of a log in the world: only \<open>ha_request\<close> adds to it.\<close>

definition counts_requests :: "'w http_api \<Rightarrow> ('w \<Rightarrow> nat) \<Rightarrow> bool" where
  "counts_requests api count \<longleftrightarrow>
     (\<forall>r w. count (snd (ha_request api r w)) \<le> Suc (count w)) \<and>
     (\<forall>d c p w. count (snd (ha_token api d c p w)) = count w) \<and>
     (\<forall>w. count (snd (ha_now api w)) = count w) \<and> (\<forall>ms w. count (ha_sleep api ms w) = count w)"

lemma world_count:
  assumes "counts_requests api count"
  shows "world (ha_token api d c p) s = (r, s') \<Longrightarrow> count (snd s') = count (snd s)"
    and "clock api s = (t, s') \<Longrightarrow> count (snd s') = count (snd s)"
    and "count (snd (sleep api ms s)) = count (snd s)"
    and "world (ha_request api q) s = (a, s') \<Longrightarrow> count (snd s') \<le> Suc (count (snd s))"
proof -
  have "count (snd (ha_request api q w)) \<le> Suc (count w)" "count (snd (ha_token api d c p w)) = count w"
    "count (snd (ha_now api w)) = count w" "count (ha_sleep api ms w) = count w" for w
    using assms by (simp_all add: counts_requests_def)
  from this[of "snd s"]
  show "world (ha_token api d c p) s = (r, s') \<Longrightarrow> count (snd s') = count (snd s)"
    and "clock api s = (t, s') \<Longrightarrow> count (snd s') = count (snd s)"
    and "count (snd (sleep api ms s)) = count (snd s)"
    and "world (ha_request api q) s = (a, s') \<Longrightarrow> count (snd s') \<le> Suc (count (snd s))"
    by (auto simp: world_def clock_def sleep_def split: prod.splits)
qed

lemma oauth_token_count:
  assumes "counts_requests api count" and "oauth_token api show_val config force s = (r, s')"
  shows "count (snd s') = count (snd s)"
  using assms(2)
  by (auto simp: oauth_token_def abind_def Let_def split: option.splits prod.splits sum.splits if_splits
      dest!: world_count(1,2)[OF assms(1)])

lemma finish_response_success: "finish_response r = Inr r' \<Longrightarrow> success r'"
  by (auto simp: finish_response_def res_simps split: if_splits)

lemma request_loop_bounded:
  assumes "counts_requests api count"
  shows "request_loop api show_val config q attempts attempt refreshed s = (r, s') \<Longrightarrow>
    count (snd s') \<le> count (snd s) + (attempts - attempt) + (if refreshed then 0 else 1) \<and>
    (\<forall>response. r = Inr response \<longrightarrow> success response)"
proof (induction "2 * (attempts - attempt) + (if refreshed then 0 else 1 :: nat)" arbitrary: attempt refreshed s rule: less_induct)
  case less
  note unfolded = less.prems[unfolded request_loop.simps[of api show_val config q attempts attempt refreshed s]]
  show ?case
  proof (cases "attempt < attempts")
    case False
    then show ?thesis using unfolded by auto
  next
    case go: True
    obtain t s1 where t: "oauth_token api show_val config False s = (t, s1)" by (cases "oauth_token api show_val config False s")
    note ct = oauth_token_count[OF assms t]
    show ?thesis
    proof (cases t)
      case (Inl e)
      then show ?thesis using unfolded go t ct by auto
    next
      case (Inr token)
      obtain a s2 where a: "world (ha_request api (q\<lparr>hq_token := token\<rparr>)) s1 = (a, s2)"
        by (cases "world (ha_request api (q\<lparr>hq_token := token\<rparr>)) s1")
      note ca = world_count(4)[OF assms a]
      have again: "count (snd s') \<le> count (snd s) + (attempts - attempt) + (if refreshed then 0 else 1) \<and>
          (\<forall>response. r = Inr response \<longrightarrow> success response)"
        if "request_loop api show_val config q attempts (Suc attempt) refreshed (sleep api (ac_retry_backoff_ms config) s2) = (r, s')"
      proof -
        obtain n where n: "attempts - attempt = Suc n" "attempts - Suc attempt = n" using go by (metis Suc_diff_Suc)
        then have "count (snd s') \<le> count (snd (sleep api (ac_retry_backoff_ms config) s2)) + n + (if refreshed then 0 else 1) \<and>
            (\<forall>response. r = Inr response \<longrightarrow> success response)"
          using less.hyps[OF _ that] by simp
        then show ?thesis using n ca ct world_count(3)[OF assms, of "ac_retry_backoff_ms config" s2] by simp
      qed
      show ?thesis
      proof (cases a)
        case (Inl e)
        then show ?thesis using unfolded go t \<open>t = Inr token\<close> a ca ct again by (auto split: if_splits)
      next
        case (Inr response)
        show ?thesis
        proof (cases "hr_status response = 401 \<and> token \<noteq> None \<and> \<not> refreshed")
          case True
          obtain f s3 where f: "oauth_token api show_val config True s2 = (f, s3)" by (cases "oauth_token api show_val config True s2")
          note cf = oauth_token_count[OF assms f]
          show ?thesis
          proof (cases f)
            case (Inl e)
            then show ?thesis using unfolded go t \<open>t = Inr token\<close> a \<open>a = Inr response\<close> True f cf ca ct by auto
          next
            case (Inr u)
            then have "request_loop api show_val config q attempts attempt True s3 = (r, s')"
              using unfolded go t \<open>t = Inr token\<close> a \<open>a = Inr response\<close> True f by simp
            from less.hyps[OF _ this] True go cf ca ct show ?thesis by auto
          qed
        next
          case False
          then show ?thesis
            using unfolded go t \<open>t = Inr token\<close> a \<open>a = Inr response\<close> ca ct again
            by (auto split: if_splits dest: finish_response_success)
        qed
      qed
    qed
  qed
qed

lemma client_cached_iff:
  "client_cached api period k s = (Inr (Some v), s') \<longleftrightarrow>
     period \<noteq> 0 \<and> (\<exists>t. fst (lru_get k (cl_cache (fst s))) = Some (t, v) \<and>
       (fst (ha_now api (snd s)) - t) * 1000 < of_int period \<and>
       s' = ((fst s)\<lparr>cl_cache := snd (lru_get k (cl_cache (fst s)))\<rparr>, snd (ha_now api (snd s))))"
  by (cases "lru_get k (cl_cache (fst s))"; cases "ha_now api (snd s)")
    (auto simp: client_cached_def clock_def abind_def Let_def split: option.splits)

section \<open>Properties\<close>

text \<open>C36: a request to the registry ends after at most two more attempts than the configured retries,
  one of them for a refreshed token, and what it returns is a successful response: every failure is
  an exception.\<close>

theorem requests_bounded:
  assumes "counts_requests api count" and "client_request api show_val config q s = (r, s')"
  shows "count (snd s') \<le> count (snd s) + nat (ac_retry_count config + 1) + 1 \<and>
    (\<forall>response. r = Inr response \<longrightarrow> success response)"
  using request_loop_bounded[OF assms(1) assms(2)[unfolded client_request_def]] by simp

definition sample_http :: "nat list \<Rightarrow> nat http_api" where
  "sample_http statuses =
     \<lparr>ha_request = (\<lambda>q w. (Inr \<lparr>hr_status = statuses ! w, hr_text = ''{}'', hr_json = Inr (PDict []), hr_headers = []\<rparr>, Suc w)),
      ha_token = (\<lambda>_ _ _ w. (Inr \<lparr>hr_status = 200, hr_text = [], hr_json = Inr (PDict [(PStr ''access_token'', PStr ''t'')]), hr_headers = []\<rparr>, w)),
      ha_now = (\<lambda>w. (of_nat w, w)), ha_sleep = (\<lambda>_ w. w)\<rparr>"

definition sample_client_config :: apicurio_config where
  "sample_client_config =
     \<lparr>ac_url = ''http://r'', ac_use_id = ''contentId'', ac_check_period_ms = 30000, ac_retry_count = 2,
      ac_retry_backoff_ms = 300, ac_username = None, ac_password = None, ac_token_endpoint = Some ''http://o'',
      ac_client_id = Some ''c'', ac_client_secret = Some ''s'', ac_oauth_scope = None, ac_proxy = None,
      ac_tls = \<lparr>tls_certificates = None, tls_trust_all = False, tls_verify_host = True, tls_client_identity = None\<rparr>\<rparr>"

theorem requests_bounded_witness:
  "snd (snd (client_request (sample_http [401, 503, 503, 200]) (\<lambda>_. ''t'') sample_client_config (http_get ''/x'' []) (new_client, 0))) \<le> 4 \<and>
   map_sum id hr_status (fst (client_request (sample_http [401, 503, 503, 200]) (\<lambda>_. ''t'') sample_client_config (http_get ''/x'' []) (new_client, 0))) = Inr 200"
proof -
  let ?r = "client_request (sample_http [401, 503, 503, 200]) (\<lambda>_. ''t'') sample_client_config (http_get ''/x'' []) (new_client, 0)"
  have "counts_requests (sample_http [401, 503, 503, 200]) (\<lambda>w. w)" by (simp add: counts_requests_def sample_http_def)
  from requests_bounded[OF this, of "\<lambda>_. ''t''" sample_client_config "http_get ''/x'' []" "(new_client, 0)" "fst ?r" "snd ?r"]
  have "snd (snd ?r) \<le> 4" by (simp add: sample_client_config_def)
  moreover have "map_sum id hr_status (fst ?r) = Inr 200" by code_simp
  ultimately show ?thesis by blast
qed

text \<open>What the client stores is answered from its cache exactly while it is younger than the check
  period: before that the stored value comes back without a request, from then on it has to be
  fetched again.\<close>

theorem stored_until_check_period:
  assumes "lru_ok (cl_cache (fst s))" and "0 < capacity (cl_cache (fst s))"
    and "client_store api k v s = (Inr (), s1)"
  shows "(\<exists>s2. client_cached api period k s1 = (Inr (Some v), s2)) \<longleftrightarrow>
    period \<noteq> 0 \<and> (fst (ha_now api (snd s1)) - fst (ha_now api (snd s))) * 1000 < of_int period"
proof -
  obtain cache where p: "lru_put k (fst (ha_now api (snd s)), v) (cl_cache (fst s)) = Inr cache" and c: "cl_cache (fst s1) = cache"
    using assms(3) by (auto simp: client_store_def abind_def clock_def split: prod.splits sum.splits)
  have "dget (items cache) k = Some (fst (ha_now api (snd s)), v)" by (rule lru_put_last[OF assms(1,2) p])
  then have "fst (lru_get k (cl_cache (fst s1))) = Some (fst (ha_now api (snd s)), v)"
    using lru_get_entries(1)[OF lru_ok_put[OF assms(1) p]] c by simp
  then show ?thesis by (auto simp: client_cached_iff)
qed

theorem stored_until_check_period_witness:
  "\<exists>s1 s2. client_store (sample_http []) (KMetadata ''contentId'' 1) (CMetadata []) (new_client, 7) = (Inr (), s1) \<and>
     client_cached (sample_http []) 30000 (KMetadata ''contentId'' 1) s1 = (Inr (Some (CMetadata [])), s2)"
proof -
  have ok: "lru_ok (cl_cache (fst (new_client, 7 :: nat)))" "0 < capacity (cl_cache (fst (new_client, 7 :: nat)))"
    by (simp_all add: new_client_def lru_ok_def lru_new_def APICURIO_CACHE_CAPACITY_def)
  obtain s1 where s: "client_store (sample_http []) (KMetadata ''contentId'' 1) (CMetadata []) (new_client, 7) = (Inr (), s1)" "snd s1 = 7"
    using lru_put_total[OF ok(1), of "KMetadata ''contentId'' 1" "(7, CMetadata [])"]
    by (auto simp: client_store_def abind_def clock_def sample_http_def split: sum.splits)
  from stored_until_check_period[OF ok s(1), of 30000] s show ?thesis by (auto simp: sample_http_def)
qed

text \<open>An answer of the wrong shape is reported by the registration of a version but breaks the reading of
  one: where the registry answers a version request with a JSON array, \<open>create_version\<close> raises the
  client's own error and \<open>get_version\<close> lets an \<open>AttributeError\<close> through.\<close>

theorem version_shape_uncaught:
  assumes "client_cached api (ac_check_period_ms config) (KVersion gid artifact version) s = (Inr None, s1)"
    and "client_request api show_val config (http_get (version_path gid artifact version) []) s1 = (Inr response, s2)"
    and "hr_json response = Inr (PList xs)"
    and "client_request api show_val config
       \<lparr>hq_method = ''POST'', hq_path = ''/groups/'' @ quote gid @ ''/artifacts'', hq_params = [(''ifExists'', ''FIND_OR_CREATE_VERSION'')],
        hq_body = Some (version_body artifact artifact_type content references), hq_token = None\<rparr> t = (Inr response, t1)"
  shows "get_version api show_val config gid artifact version s = (Inl AttributeError, s2) \<and>
    create_version api show_val config gid artifact artifact_type content references t =
      (Inl (ApicurioRegistryError None ''Invalid Apicurio registration response''), t1)"
  using assms
  by (simp add: get_version_def create_version_def abind_def parse_version_def py_get_def py_index_def recast_def shape_error_def Let_def)

definition list_http :: "nat http_api" where
  "list_http = (sample_http [])\<lparr>ha_request := \<lambda>q w. (Inr \<lparr>hr_status = 200, hr_text = ''[]'', hr_json = Inr (PList []), hr_headers = []\<rparr>, Suc w)\<rparr>"

lemma list_http_request:
  "client_request list_http show_val (sample_client_config\<lparr>ac_token_endpoint := None\<rparr>) q (st, w) =
     (Inr \<lparr>hr_status = 200, hr_text = ''[]'', hr_json = Inr (PList []), hr_headers = []\<rparr>, (st, Suc w))"
  by (simp add: client_request_def request_loop.simps sample_client_config_def oauth_token_def world_def list_http_def
      retryable_def finish_response_def success_def)

theorem version_shape_uncaught_witness:
  "get_version list_http (\<lambda>_. []) (sample_client_config\<lparr>ac_token_endpoint := None\<rparr>) ''g'' ''a'' ''1'' (new_client, 0)
     = (Inl AttributeError, (new_client, 1)) \<and>
   create_version list_http (\<lambda>_. []) (sample_client_config\<lparr>ac_token_endpoint := None\<rparr>) ''g'' ''a'' ''AVRO'' [] [] (new_client, 0)
     = (Inl (ApicurioRegistryError None ''Invalid Apicurio registration response''), (new_client, 1))"
proof (rule version_shape_uncaught[where xs = "[]" and
      response = "\<lparr>hr_status = 200, hr_text = ''[]'', hr_json = Inr (PList []), hr_headers = []\<rparr>"])
  show "client_cached list_http (ac_check_period_ms (sample_client_config\<lparr>ac_token_endpoint := None\<rparr>)) (KVersion ''g'' ''a'' ''1'')
      (new_client, 0) = (Inr None, (new_client, 0))"
    by (simp add: client_cached_def lru_get_def new_client_def lru_new_def din_def Let_def)
qed (simp_all add: list_http_request)

end
