(* ===== verification/Protobuf_Wire.thy ===== *)
theory Protobuf_Wire
  imports Byte_Codecs
begin

unbundle bit_operations_syntax

text \<open>
  The bytes around a Registry payload: the five-byte Registry header, varints, Confluent's array
  of message indexes and Apicurio's type reference. The readers are those of
  \<open>deserializers/protobuf.py\<close> and \<open>deserializers/base.py\<close>, which take the data and an offset
  and return the offset after what they read; the writers are those of
  \<open>serializers/protobuf.py\<close>. Python integers are unbounded, so the shifts and masks are those
  of \<open>int\<close>.

  The locale \<open>offset_codec\<close> is the contract of a writer and such a reader. It is interpreted
  on varints and on zigzag message indexes, and the array of indexes rests on it.
\<close>

section \<open>Registry header\<close>

definition registry_header_pack :: "int \<Rightarrow> int \<Rightarrow> byte list res" where
  "registry_header_pack magic schema_id =
     (if \<not> (- 128 \<le> magic \<and> magic \<le> 127) \<or> \<not> (0 \<le> schema_id \<and> schema_id < 2 ^ 32)
      then Inl StructError else Inr (of_int magic # pack_be 4 schema_id))"

definition registry_header :: "byte list \<Rightarrow> (int \<times> int) res" where
  "registry_header data =
     (let header = take SCHEMA_REGISTRY_HEADER_SIZE data in
      if length header \<noteq> 5 then Inl StructError
      else Inr (to_signed 8 (be_value (take 1 header)), be_value (drop 1 header)))"

definition has_registry_header :: "byte list \<Rightarrow> bool res" where
  "has_registry_header data =
     (if length data \<le> SCHEMA_REGISTRY_HEADER_SIZE then Inr False
      else rbind (registry_header data) (\<lambda>(magic, _). Inr (magic = SCHEMA_REGISTRY_MAGIC_BYTE)))"

section \<open>Varints\<close>

definition MAX_MESSAGE_INDEXES :: int where "MAX_MESSAGE_INDEXES = 100000"
definition VARINT_MAX_BYTES :: nat where "VARINT_MAX_BYTES = 10"
definition TYPE_REF_NAME_TAG :: int where "TYPE_REF_NAME_TAG = 10"

fun read_varint_shifts :: "string \<Rightarrow> byte list \<Rightarrow> nat list \<Rightarrow> int \<Rightarrow> nat \<Rightarrow> (int \<times> nat) res" where
  "read_varint_shifts label data [] value offset =
     Inl (DeserializationError (''Invalid Protobuf '' @ label))"
| "read_varint_shifts label data (shift # shifts) value offset =
     (if offset \<ge> length data
      then Inl (DeserializationError (''Unexpected EOF while reading Protobuf '' @ label))
      else (let current = uint (data ! offset); value' = value OR push_bit shift (current AND 127) in
            if current AND 128 = 0 then Inr (value', Suc offset)
            else read_varint_shifts label data shifts value' (Suc offset)))"

definition varint_shifts :: "nat list" where
  "varint_shifts = map (\<lambda>i. 7 * i) [0..<VARINT_MAX_BYTES]"

definition read_varint :: "string \<Rightarrow> byte list \<Rightarrow> nat \<Rightarrow> (int \<times> nat) res" where
  "read_varint label data offset = read_varint_shifts label data varint_shifts 0 offset"

definition unzigzag :: "int \<Rightarrow> int" where
  "unzigzag value = drop_bit 1 value XOR - (value AND 1)"

definition read_message_index :: "byte list \<Rightarrow> nat \<Rightarrow> (int \<times> nat) res" where
  "read_message_index data offset =
     rbind (read_varint ''message index'' data offset) (\<lambda>(value, off). Inr (unzigzag value, off))"

fun read_indexes :: "nat \<Rightarrow> byte list \<Rightarrow> nat \<Rightarrow> (int list \<times> nat) res" where
  "read_indexes 0 data offset = Inr ([], offset)"
| "read_indexes (Suc n) data offset =
     rbind (read_message_index data offset) (\<lambda>(index, off).
       rbind (read_indexes n data off) (\<lambda>(indexes, end). Inr (index # indexes, end)))"

definition parse_message_indexes :: "byte list \<Rightarrow> (int list \<times> byte list) res" where
  "parse_message_indexes data =
     rbind (read_message_index data 0) (\<lambda>(size, offset).
       if size < 0 \<or> size > MAX_MESSAGE_INDEXES
       then Inl (DeserializationError ''Invalid Protobuf message index array length'')
       else if size = 0 then Inr ([0], drop offset data)
       else rbind (read_indexes (nat size) data offset) (\<lambda>(indexes, end).
              if list_ex (\<lambda>index. index < 0) indexes
              then Inl (DeserializationError ''Invalid Protobuf message index'')
              else Inr (indexes, drop end data)))"

text \<open>The writer's loop ends only for a non-negative value: \<open>None\<close> is a loop that never returns.\<close>

partial_function (option) varint_loop :: "byte list \<Rightarrow> int \<Rightarrow> byte list option" where
  "varint_loop encoded value =
     (let byte = value AND 127; value' = drop_bit 7 value in
      if value' \<noteq> 0 then varint_loop (encoded @ [of_int (byte OR 128)]) value'
      else Some (encoded @ [of_int byte]))"

definition varint :: "int \<Rightarrow> byte list option" where
  "varint value = varint_loop [] value"

definition zigzag :: "int \<Rightarrow> int" where
  "zigzag value = push_bit 1 value XOR drop_bit 63 value"

section \<open>Messages of a file descriptor\<close>

datatype proto_message = Message (message_label: string) (nested_types: "proto_message list")

record file_descriptor =
  fd_name :: string
  fd_package :: string
  fd_messages :: "proto_message list"
  fd_dependency :: "string list"

record message_descriptor =
  md_full_name :: string
  md_file_name :: string
  md_file_package :: string

text \<open>\<open>names.index(name)\<close>, a \<open>ValueError\<close> when absent.\<close>

fun name_index :: "string \<Rightarrow> string list \<Rightarrow> nat res" where
  "name_index x [] = Inl (ValueError ''not in list'')"
| "name_index x (n # ns) = (if n = x then Inr 0 else rbind (name_index x ns) (\<lambda>i. Inr (Suc i)))"

fun index_path :: "string list \<Rightarrow> proto_message list \<Rightarrow> int list res" where
  "index_path [] messages = Inr []"
| "index_path (n # ns) messages =
     rbind (name_index n (map message_label messages)) (\<lambda>i.
       rbind (index_path ns (nested_types (messages ! i))) (\<lambda>is. Inr (int i # is)))"

definition relative_name :: "message_descriptor \<Rightarrow> string \<Rightarrow> string" where
  "relative_name d package =
     (if package \<noteq> [] then remove_prefix (package @ ''.'') (md_full_name d) else md_full_name d)"

definition message_indexes :: "file_descriptor \<Rightarrow> message_descriptor \<Rightarrow> int list res" where
  "message_indexes rootf d =
     (if md_file_package d \<noteq> fd_package rootf \<or> md_file_name d \<noteq> fd_name rootf
      then Inl (SerializationError (''Protobuf message '' @ md_full_name d
             @ '' isn't declared in the subject's schema''))
      else index_path (split_on CHR ''.'' (relative_name d (fd_package rootf))) (fd_messages rootf))"

definition confluent_message_indexes :: "file_descriptor \<Rightarrow> message_descriptor \<Rightarrow> byte list option res" where
  "confluent_message_indexes rootf d =
     rbind (message_indexes rootf d) (\<lambda>indexes.
       Inr (if indexes = [0] then Some [0]
            else map_option concat (those (map (varint \<circ> zigzag) (int (length indexes) # indexes)))))"

text \<open>Python indexing: a negative index counts from the end.\<close>

definition py_nth :: "'a list \<Rightarrow> int \<Rightarrow> 'a res" where
  "py_nth xs i =
     (let j = (if i < 0 then int (length xs) + i else i) in
      if 0 \<le> j \<and> j < int (length xs) then Inr (xs ! nat j) else Inl IndexError)"

fun name_path :: "int list \<Rightarrow> proto_message list \<Rightarrow> string list res" where
  "name_path [] messages = Inr []"
| "name_path (i # is) messages =
     (if i \<ge> int (length messages)
      then Inl (DeserializationError ''Protobuf message index is out of range'')
      else rbind (py_nth messages i) (\<lambda>m.
             rbind (name_path is (nested_types m)) (\<lambda>ns. Inr (message_label m # ns))))"

definition message_name :: "file_descriptor \<Rightarrow> int list \<Rightarrow> string res" where
  "message_name rootf indexes =
     rbind (name_path indexes (fd_messages rootf)) (\<lambda>path.
       if path = [] then Inl (DeserializationError ''Protobuf message index is empty'')
       else Inr (join ''.'' (filter (\<lambda>n. n \<noteq> []) (fd_package rootf # path))))"

section \<open>Apicurio type references\<close>

definition apicurio_type_ref :: "message_descriptor \<Rightarrow> byte list option res" where
  "apicurio_type_ref d =
     rbind (utf8_encode (map code (relative_name d (md_file_package d)))) (\<lambda>encoded.
       Inr (Option.bind (varint (int (length encoded))) (\<lambda>len.
         let reference = of_int TYPE_REF_NAME_TAG # len @ encoded in
         map_option (\<lambda>size. size @ reference) (varint (int (length reference))))))"

text \<open>The body of the \<open>try\<close>: \<open>None\<close> for the early returns of the unchanged payload.\<close>

definition type_ref_body :: "byte list \<Rightarrow> (utext \<times> byte list) option res" where
  "type_ref_body payload =
     rbind (read_varint ''varint'' payload 0) (\<lambda>(message_size, offset).
       let end = offset + nat message_size in
       if message_size \<le> 0 \<or> end > length payload then Inr None
       else (let ref = drop offset (take end payload) in
         rbind (read_varint ''varint'' ref 0) (\<lambda>(tag, position).
           if tag \<noteq> TYPE_REF_NAME_TAG then Inr None
           else rbind (read_varint ''varint'' ref position) (\<lambda>(name_size, position').
             let name_end = position' + nat name_size in
             if name_end > length ref then Inr None
             else rbind (utf8_decode (drop position' (take name_end ref))) (\<lambda>name.
               Inr (Some (name, drop end payload)))))))"

definition parse_type_ref :: "byte list \<Rightarrow> (utext option \<times> byte list) res" where
  "parse_type_ref payload =
     (case type_ref_body payload of
        Inl (DeserializationError _) \<Rightarrow> Inr (None, payload)
      | Inl UnicodeDecodeError \<Rightarrow> Inr (None, payload)
      | Inl e \<Rightarrow> Inl e
      | Inr None \<Rightarrow> Inr (None, payload)
      | Inr (Some (name, rest)) \<Rightarrow> Inr (Some name, rest))"

section \<open>Varints against a reference encoding\<close>

lemma disjoint_or:
  fixes a :: int
  assumes "0 \<le> a" and "a < 2 ^ s"
  shows "a OR push_bit s x = a + x * 2 ^ s"
proof -
  have "take_bit s a AND push_bit s x = 0" by (auto simp: bit_eq_iff bit_simps)
  moreover have "take_bit s a = a" using assms by (simp add: take_bit_int_eq_self)
  ultimately have "a AND push_bit s x = 0" by simp
  then show ?thesis by (simp add: disjunctive_add_eq_or[symmetric] push_bit_eq_mult)
qed

text \<open>The reference encoding: seven bits per byte, least significant first.\<close>

fun varint_bytes :: "nat \<Rightarrow> byte list" where
  "varint_bytes n = (if n < 128 then [of_nat n] else of_nat (128 + n mod 128) # varint_bytes (n div 128))"

declare varint_bytes.simps [simp del]

lemma varint_bytes_nonempty [simp]: "varint_bytes n \<noteq> []"
  by (subst varint_bytes.simps) simp

lemma and_127: "(x::int) AND 127 = x mod 128"
  using take_bit_eq_mask[of 7 x] by (simp add: take_bit_eq_mod mask_eq_exp_minus_1)

lemma or_128: "0 \<le> x \<Longrightarrow> x < 128 \<Longrightarrow> x OR 128 = (x::int) + 128"
  using disjoint_or[of x 7 1] by (simp add: push_bit_eq_mult)

lemma and_128: "0 \<le> x \<Longrightarrow> x < 256 \<Longrightarrow> (x AND 128 = 0) = ((x::int) < 128)"
proof -
  assume "0 \<le> x" "x < 256"
  then have "odd (x div 128) \<longleftrightarrow> \<not> x < 128" by presburger
  moreover have "(x AND 2 ^ 7 = 0) \<longleftrightarrow> even (x div 128)"
    by (simp only: and_exp_eq_0_iff_not_bit bit_iff_odd) simp
  ultimately show ?thesis by simp
qed

lemma of_int_byte: "0 \<le> x \<Longrightarrow> (of_int x :: byte) = of_nat (nat x)"
  by simp

lemma varint_loop_bytes: "varint_loop acc (int n) = Some (acc @ varint_bytes n)"
proof (induction n arbitrary: acc rule: varint_bytes.induct)
  case (1 n)
  have d: "drop_bit 7 (int n) = int (n div 128)" by (simp add: drop_bit_eq_div zdiv_int)
  have m: "int n AND 127 = int (n mod 128)" by (simp add: and_127 zmod_int)
  show ?case
  proof (cases "n < 128")
    case True
    then show ?thesis
      by (subst varint_loop.simps, subst varint_bytes.simps) (simp add: d m Let_def)
  next
    case False
    then have "n div 128 \<noteq> 0" by simp
    moreover have "int (n mod 128) OR 128 = int (128 + n mod 128)" using or_128[of "int (n mod 128)"] by simp
    ultimately show ?thesis
      using 1[OF False] False
      by (subst varint_loop.simps, subst varint_bytes.simps) (simp add: d m Let_def del: of_nat_add)
  qed
qed

lemma varint_nonneg: "0 \<le> v \<Longrightarrow> varint v = Some (varint_bytes (nat v))"
  using varint_loop_bytes[of "[]" "nat v"] by (simp add: varint_def)

lemma uint_of_nat_byte: "k < 256 \<Longrightarrow> uint (of_nat k :: byte) = int k"
  by (simp add: unsigned_of_nat take_bit_eq_mod)

lemma read_varint_bytes:
  assumes "n < 2 ^ (7 * (10 - k))" and "k < 10" and "0 \<le> acc" and "acc < 2 ^ (7 * k)"
  shows "read_varint_shifts label (pre @ varint_bytes n @ post) (map (\<lambda>i. 7 * i) [k..<10]) acc (length pre)
     = Inr (acc + int n * 2 ^ (7 * k), length pre + length (varint_bytes n))"
  using assms
proof (induction n arbitrary: k acc pre rule: varint_bytes.induct)
  case (1 n)
  have shifts: "map (\<lambda>i. 7 * i) [k..<10] = 7 * k # map (\<lambda>i. 7 * i) [Suc k..<10]"
    using \<open>k < 10\<close> by (simp add: upt_conv_Cons)
  show ?case
  proof (cases "n < 128")
    case True
    then show ?thesis
      using 1 unfolding shifts
      by (subst (1 2) varint_bytes.simps)
        (simp add: nth_append uint_of_nat_byte and_127 and_128 disjoint_or zmod_int[symmetric] Let_def)
  next
    case False
    let ?b = "of_nat (128 + n mod 128) :: byte" and ?v = "acc + int (n mod 128) * 2 ^ (7 * k)"
    have k: "Suc k < 10"
      using False 1(2,3) by (cases "k = 9") auto
    have b: "uint ?b = int (128 + n mod 128)" by (rule uint_of_nat_byte) simp
    have "int (n mod 128) * 2 ^ (7 * k) \<le> 127 * 2 ^ (7 * k)" by (intro mult_right_mono) auto
    then have "?v < 2 ^ (7 * k) + 127 * 2 ^ (7 * k)" using 1(5) by linarith
    moreover have "0 \<le> ?v" using 1(4) by (intro add_nonneg_nonneg mult_nonneg_nonneg) auto
    ultimately have v: "0 \<le> ?v" "?v < 2 ^ (7 * Suc k)" by (auto simp: power_add)
    have "n div 128 < 2 ^ (7 * (10 - Suc k))"
    proof -
      have "7 * (10 - k) = 7 * (10 - Suc k) + 7" using k by simp
      then show ?thesis using 1(2) by (simp add: power_add less_mult_imp_div_less)
    qed
    note IH = 1(1)[OF False this k v, of "pre @ [?b]"]
    have "?v + int (n div 128) * 2 ^ (7 * Suc k) = acc + int n * 2 ^ (7 * k)"
    proof -
      have "int n = int (n div 128) * 128 + int (n mod 128)" by presburger
      then show ?thesis by (simp add: power_add algebra_simps)
    qed
    moreover have "acc OR push_bit (7 * k) (int (128 + n mod 128) AND 127) = ?v"
      using 1(4,5) by (simp add: disjoint_or and_127 zmod_int)
    ultimately show ?thesis
      using IH False unfolding shifts
      by (subst (1 2) varint_bytes.simps)
        (simp add: nth_append b and_128 Let_def del: of_nat_add)
  qed
qed

lemma read_varint_encoded:
  assumes "0 \<le> v" and "v < 2 ^ 70"
  shows "read_varint label (pre @ the (varint v) @ post) (length pre) =
     Inr (v, length pre + length (the (varint v)))"
  using read_varint_bytes[of "nat v" 0 0 label pre post] assms
  by (simp add: read_varint_def varint_shifts_def VARINT_MAX_BYTES_def varint_nonneg nat_less_iff)

lemma varint_loop_some:
  assumes "varint_loop acc v = Some bs"
  shows "0 \<le> v"
  using _ assms
proof (rule varint_loop.raw_induct[where P = "\<lambda>_ v _. 0 \<le> v"])
  fix loop and acc' :: "byte list" and v' :: int and bs'
  assume step: "\<And>a b c. loop a b = Some c \<Longrightarrow> 0 \<le> b"
    and body: "(let byte = v' AND 127; value' = drop_bit 7 v' in
      if value' \<noteq> 0 then loop (acc' @ [of_int (byte OR 128)]) value'
      else Some (acc' @ [of_int byte])) = Some bs'"
  show "0 \<le> v'"
  proof (cases "drop_bit 7 v' = 0")
    case True
    then show ?thesis by (simp add: drop_bit_eq_div)
  next
    case False
    then have "loop (acc' @ [of_int (v' AND 127 OR 128)]) (drop_bit 7 v') = Some bs'"
      using body by (simp add: Let_def)
    then have "0 \<le> drop_bit 7 v'" by (rule step)
    then show ?thesis by simp
  qed
qed

section \<open>Writers and readers at an offset\<close>

fun read_many :: "(byte list \<Rightarrow> nat \<Rightarrow> ('a \<times> nat) res) \<Rightarrow> nat \<Rightarrow> byte list \<Rightarrow> nat \<Rightarrow> ('a list \<times> nat) res" where
  "read_many read 0 data offset = Inr ([], offset)"
| "read_many read (Suc n) data offset =
     rbind (read data offset) (\<lambda>(x, off). rbind (read_many read n data off) (\<lambda>(xs, end). Inr (x # xs, end)))"

lemma read_indexes_many: "read_indexes n data offset = read_many read_message_index n data offset"
  by (induction n arbitrary: offset) simp_all

locale offset_codec =
  fixes valid :: "'a \<Rightarrow> bool" and enc :: "'a \<Rightarrow> byte list" and read :: "byte list \<Rightarrow> nat \<Rightarrow> ('a \<times> nat) res"
  assumes read_enc: "valid x \<Longrightarrow> read (pre @ enc x @ post) (length pre) = Inr (x, length pre + length (enc x))"
begin

lemma read_front: "valid x \<Longrightarrow> read (enc x @ post) 0 = Inr (x, length (enc x))"
  using read_enc[of x "[]" post] by simp

lemma prefix_free: "valid x \<Longrightarrow> valid y \<Longrightarrow> enc x @ p = enc y @ q \<Longrightarrow> x = y \<and> p = q"
  using read_front[of x p] read_front[of y q] by auto

lemma read_many_enc:
  "list_all valid xs \<Longrightarrow> read_many read (length xs) (pre @ concat (map enc xs) @ post) (length pre) =
     Inr (xs, length pre + length (concat (map enc xs)))"
proof (induction xs arbitrary: pre)
  case (Cons x xs)
  then show ?case
    using read_enc[of x pre "concat (map enc xs) @ post"] Cons.IH[of "pre @ enc x"] by simp
qed simp

end

interpretation varint_codec: offset_codec "\<lambda>v. 0 \<le> v \<and> v < 2 ^ 70" "\<lambda>v. the (varint v)" "read_varint label"
  for label
  by unfold_locales (simp add: read_varint_encoded)

lemma unzigzag_zigzag: "- (2 ^ 63) \<le> v \<Longrightarrow> v < 2 ^ 63 \<Longrightarrow> unzigzag (zigzag v) = v"
proof -
  assume *: "- (2 ^ 63) \<le> v" "v < 2 ^ 63"
  show ?thesis
  proof (cases "v < 0")
    case True
    then have "drop_bit 63 v = - 1" using * by (simp add: drop_bit_eq_div int_div_neg_eq)
    then have z: "zigzag v = - 2 * v - 1" by (simp add: zigzag_def push_bit_eq_mult not_eq_complement)
    have "zigzag v AND 1 = 1" unfolding z by (simp add: and_one_eq mod_eq_0_iff_dvd) presburger
    moreover have "drop_bit 1 (zigzag v) = - v - 1" unfolding z by (simp add: drop_bit_eq_div)
    ultimately show ?thesis by (simp add: unzigzag_def not_eq_complement)
  next
    case False
    then have "drop_bit 63 v = 0" using * by (simp add: drop_bit_eq_div)
    then show ?thesis by (simp add: zigzag_def unzigzag_def push_bit_eq_mult drop_bit_eq_div and_one_eq)
  qed
qed

lemma zigzag_bounds: "- (2 ^ 63) \<le> v \<Longrightarrow> v < 2 ^ 63 \<Longrightarrow> 0 \<le> zigzag v \<and> zigzag v < 2 ^ 70"
proof -
  assume *: "- (2 ^ 63) \<le> v" "v < 2 ^ 63"
  show ?thesis
  proof (cases "v < 0")
    case True
    then have "drop_bit 63 v = - 1" using * by (simp add: drop_bit_eq_div int_div_neg_eq)
    then have "zigzag v = - 2 * v - 1" by (simp add: zigzag_def push_bit_eq_mult not_eq_complement)
    then show ?thesis using * True by simp
  next
    case False
    then have "drop_bit 63 v = 0" using * by (simp add: drop_bit_eq_div)
    then show ?thesis using * False by (simp add: zigzag_def push_bit_eq_mult)
  qed
qed

interpretation index_codec: offset_codec "\<lambda>v. - (2 ^ 63) \<le> v \<and> v < 2 ^ 63" "\<lambda>v. the (varint (zigzag v))" read_message_index
  by unfold_locales
    (use unzigzag_zigzag zigzag_bounds in \<open>auto simp: read_message_index_def varint_codec.read_enc\<close>)

section \<open>Paths of names and indexes\<close>

lemma name_index_nth: "name_index x ns = Inr i \<Longrightarrow> i < length ns \<and> ns ! i = x"
  by (induction ns arbitrary: i) (auto simp: res_simps split: if_splits)

lemma name_path_index_path: "index_path ns ms = Inr is \<Longrightarrow> name_path is ms = Inr ns"
proof (induction ns arbitrary: ms "is")
  case (Cons n ns)
  then obtain i js where i: "name_index n (map message_label ms) = Inr i"
      "index_path ns (nested_types (ms ! i)) = Inr js" "is = int i # js"
    by (auto simp: res_simps)
  moreover from i(1) have "i < length ms" "message_label (ms ! i) = n"
    by (auto dest!: name_index_nth)
  ultimately show ?case using Cons.IH[OF i(2)] by (simp add: py_nth_def)
qed simp

lemma index_path_shape: "index_path ns ms = Inr is \<Longrightarrow> length is = length ns \<and> (\<forall>i \<in> set is. 0 \<le> i)"
  by (induction ns arbitrary: ms "is") (auto simp: res_simps)

lemma join_split: "join [sep] (split_on sep s) = s"
proof (induction s)
  case (Cons c s)
  obtain w ws where w: "split_on sep s = w # ws" by (cases "split_on sep s") auto
  show ?case using Cons w by (cases ws) auto
qed simp

lemma join_cons: "ws \<noteq> [] \<Longrightarrow> join sep (w # ws) = w @ sep @ join sep ws"
  by (cases ws) simp_all

lemma written_indexes:
  assumes "list_all (\<lambda>v. 0 \<le> v \<and> v < 2 ^ 63) vs"
  shows "those (map (varint \<circ> zigzag) vs) = Some (map (\<lambda>v. the (varint (zigzag v))) vs)"
  using assms
proof (induction vs)
  case (Cons v vs)
  have "varint (zigzag v) \<noteq> None" using Cons.prems zigzag_bounds[of v] by (simp add: varint_nonneg)
  with Cons show ?case by auto
qed simp

lemma parse_written_indexes:
  assumes "is \<noteq> []" and "int (length is) \<le> MAX_MESSAGE_INDEXES" and "list_all (\<lambda>i. 0 \<le> i \<and> i < 2 ^ 63) is"
  shows "parse_message_indexes (concat (map (\<lambda>v. the (varint (zigzag v))) (int (length is) # is)) @ payload)
     = Inr (is, payload)"
proof -
  let ?enc = "\<lambda>v. the (varint (zigzag v))"
  have n: "int (length is) < 2 ^ 63" using assms(2) by (simp add: MAX_MESSAGE_INDEXES_def)
  have "read_message_index (?enc (int (length is)) @ concat (map ?enc is) @ payload) 0 =
      Inr (int (length is), length (?enc (int (length is))))"
    using n by (intro index_codec.read_front) simp
  moreover have "list_all (\<lambda>v. - (2 ^ 63) \<le> v \<and> v < 2 ^ 63) is"
    using assms(3) by (auto simp: list_all_iff)
  then have "read_indexes (length is) (?enc (int (length is)) @ concat (map ?enc is) @ payload)
      (length (?enc (int (length is)))) =
      Inr (is, length (?enc (int (length is))) + length (concat (map ?enc is)))"
    unfolding read_indexes_many by (rule index_codec.read_many_enc)
  moreover have "\<not> list_ex (\<lambda>i. i < 0) is" using assms(3) by (auto simp: list_all_iff list_ex_iff)
  ultimately show ?thesis
    using assms(1,2) by (simp add: parse_message_indexes_def)
qed

lemma parse_first_index: "parse_message_indexes (0 # payload) = Inr ([0], payload)"
  using index_codec.read_front[of 0 payload]
  by (simp add: parse_message_indexes_def varint_def zigzag_def varint_loop.simps MAX_MESSAGE_INDEXES_def)

section \<open>Errors of the readers\<close>

lemma read_varint_shifts_error:
  "read_varint_shifts lbl data shifts v off = Inl e \<Longrightarrow> \<exists>m. e = DeserializationError m"
  by (induction shifts arbitrary: v off) (auto simp: Let_def split: if_splits)

lemma read_varint_error: "read_varint lbl data off = Inl e \<Longrightarrow> \<exists>m. e = DeserializationError m"
  unfolding read_varint_def by (rule read_varint_shifts_error)

lemma utf8_decode_error: "utf8_decode bs = Inl e \<Longrightarrow> e = UnicodeDecodeError"
proof (induction bs arbitrary: e rule: utf8_decode.induct)
  case (1 bs)
  show ?case
    using 1(2) 1(1) unfolding utf8_decode.simps[of bs]
    by (auto simp: res_simps split: if_splits option.splits)
qed

lemma type_ref_body_error:
  "type_ref_body payload = Inl e \<Longrightarrow> (\<exists>m. e = DeserializationError m) \<or> e = UnicodeDecodeError"
  unfolding type_ref_body_def
  by (auto simp: res_simps Let_def split: if_splits dest: read_varint_error utf8_decode_error)

lemma type_ref_body_rest:
  "type_ref_body payload = Inr (Some (name, rest)) \<Longrightarrow> \<exists>k>0. rest = drop k payload"
  unfolding type_ref_body_def
  by (auto simp: res_simps Let_def split: if_splits) (metis add_gr_0 zero_less_nat_eq linorder_not_le)

lemma utf8_encode_latin: "\<exists>bs. utf8_encode (map code s) = Inr bs \<and> length bs \<le> 2 * length s"
proof (induction s)
  case (Cons c s)
  have "code c < 256" by simp
  then have "code c < 2048" by linarith
  then have "\<exists>b. utf8_char (code c) = Inr b \<and> length b \<le> 2" by (simp add: utf8_char_def)
  with Cons show ?case by (auto simp: utf8_encode_def res_simps)
qed (simp add: utf8_encode_def)

lemma varint_bytes_length: "n < 2 ^ (7 * k) \<Longrightarrow> 0 < k \<Longrightarrow> length (varint_bytes n) \<le> k"
proof (induction n arbitrary: k rule: varint_bytes.induct)
  case (1 n)
  show ?case
  proof (cases "n < 128")
    case True
    then show ?thesis using 1(3) by (subst varint_bytes.simps) simp
  next
    case False
    obtain j where j: "k = Suc j" using 1(3) by (cases k) auto
    with 1(2) have "n div 128 < 2 ^ (7 * j)" by (simp add: power_add less_mult_imp_div_less mult.commute)
    moreover have "0 < j" using 1(2) False j by (cases j) auto
    ultimately show ?thesis using 1(1)[OF False] False j by (subst varint_bytes.simps) simp
  qed
qed

lemma varint_length: "0 \<le> v \<Longrightarrow> v < 2 ^ (7 * k) \<Longrightarrow> 0 < k \<Longrightarrow> length (the (varint v)) \<le> k"
  using varint_bytes_length[of "nat v" k] by (simp add: varint_nonneg nat_less_iff)

lemma type_ref_body_written:
  assumes "varint (int (length bs)) = Some len" and "varint (int (length (10 # len @ bs))) = Some sz"
    and "utf8_decode bs = Inr name" and bound: "int (length (10 # len @ bs)) < 2 ^ 70"
  shows "type_ref_body (sz @ (10 # len @ bs) @ payload) = Inr (Some (name, payload))"
proof -
  let ?ref = "10 # len @ bs"
  have outer: "read_varint l (sz @ ?ref @ payload) 0 = Inr (int (length ?ref), length sz)" for l
    using varint_codec.read_front[of "int (length ?ref)" l "?ref @ payload"] assms(2) bound by simp
  have tag: "read_varint l ?ref 0 = Inr (10, 1)" for l
    using varint_codec.read_front[of 10 l "len @ bs"] by (simp add: varint_def varint_loop.simps)
  have "int (length bs) < 2 ^ 70" using bound by simp
  then have inner: "read_varint l ?ref (Suc 0) = Inr (int (length bs), Suc (length len))" for l
    using varint_codec.read_enc[of "int (length bs)" l "[10]" bs] assms(1) by simp
  have slice: "drop (length sz) (take (length sz + length r) (sz @ r @ payload)) = r"
    "drop (length sz + length r) (sz @ r @ payload) = payload" for r :: "byte list" by simp_all
  have fits: "\<not> (int (length ?ref) \<le> 0 \<or> length (sz @ ?ref @ payload) < length sz + length ?ref)" by simp
  show ?thesis
    unfolding type_ref_body_def outer rbind_simps Let_def prod.case nat_int slice if_not_P[OF fits] tag
    using inner assms(3) by (simp add: TYPE_REF_NAME_TAG_def)
qed

section \<open>The Registry header\<close>

lemma registry_header_packed:
  assumes "0 \<le> i" and "i < 2 ^ 32"
  shows "registry_header_pack 0 i = Inr (0 # pack_be 4 i)"
    and "registry_header (0 # pack_be 4 i @ payload) = Inr (0, i)"
  using assms
  by (simp_all add: registry_header_pack_def registry_header_def SCHEMA_REGISTRY_HEADER_SIZE_def
      be_value_pack to_signed_def del: pack_be.simps)

lemma has_registry_header_packed:
  "0 \<le> i \<Longrightarrow> i < 2 ^ 32 \<Longrightarrow> has_registry_header (0 # pack_be 4 i @ payload) = Inr (payload \<noteq> [])"
  by (simp add: has_registry_header_def registry_header_packed SCHEMA_REGISTRY_HEADER_SIZE_def
      SCHEMA_REGISTRY_MAGIC_BYTE_def del: pack_be.simps)

section \<open>Properties\<close>

text \<open>C8: the message indexes the producer writes before a Protobuf payload are read back exactly,
  whatever payload follows, and name the same message again in the subject's schema; the
  writer's loops end.\<close>

theorem message_indexes_roundtrip:
  assumes indexes: "message_indexes rootf d = Inr is"
    and bounds: "int (length is) \<le> MAX_MESSAGE_INDEXES" "list_all (\<lambda>i. i < 2 ^ 63) is"
    and full_name: "md_full_name d = join ''.'' (filter (\<lambda>n. n \<noteq> [])
      (fd_package rootf # split_on CHR ''.'' (relative_name d (fd_package rootf))))"
  shows "\<exists>written. confluent_message_indexes rootf d = Inr (Some written) \<and>
    (\<forall>payload. parse_message_indexes (written @ payload) = Inr (is, payload)) \<and>
    message_name rootf is = Inr (md_full_name d)"
proof -
  let ?names = "split_on CHR ''.'' (relative_name d (fd_package rootf))"
  have path: "index_path ?names (fd_messages rootf) = Inr is"
    using indexes by (simp add: message_indexes_def split: if_splits)
  then have shape: "is \<noteq> []" "list_all (\<lambda>i. 0 \<le> i \<and> i < 2 ^ 63) is"
    using index_path_shape[OF path] bounds(2) by (auto simp: list_all_iff)
  have n: "int (length is) < 2 ^ 63" using bounds(1) by (simp add: MAX_MESSAGE_INDEXES_def)
  have name: "message_name rootf is = Inr (md_full_name d)"
    using name_path_index_path[OF path] full_name by (simp add: message_name_def)
  show ?thesis
  proof (cases "is = [0]")
    case True
    then show ?thesis using name indexes parse_first_index by (simp add: confluent_message_indexes_def)
  next
    case False
    have "those (map (varint \<circ> zigzag) (int (length is) # is)) =
        Some (map (\<lambda>v. the (varint (zigzag v))) (int (length is) # is))"
      using n shape(2) by (intro written_indexes) simp
    then show ?thesis
      using name indexes False parse_written_indexes[OF shape(1) bounds(1) shape(2)]
      by (simp add: confluent_message_indexes_def del: list.map)
  qed
qed

theorem message_indexes_roundtrip_witness:
  "\<exists>written. confluent_message_indexes
      \<lparr>fd_name = ''a.proto'', fd_package = ''p'',
       fd_messages = [Message ''A'' [], Message ''B'' [Message ''C'' [], Message ''D'' []]], fd_dependency = []\<rparr>
      \<lparr>md_full_name = ''p.B.D'', md_file_name = ''a.proto'', md_file_package = ''p''\<rparr> = Inr (Some written) \<and>
    (\<forall>payload. parse_message_indexes (written @ payload) = Inr ([1, 1], payload)) \<and>
    message_name
      \<lparr>fd_name = ''a.proto'', fd_package = ''p'',
       fd_messages = [Message ''A'' [], Message ''B'' [Message ''C'' [], Message ''D'' []]], fd_dependency = []\<rparr>
      [1, 1] = Inr ''p.B.D''"
  using message_indexes_roundtrip[of
      "\<lparr>fd_name = ''a.proto'', fd_package = ''p'',
        fd_messages = [Message ''A'' [], Message ''B'' [Message ''C'' [], Message ''D'' []]], fd_dependency = []\<rparr>"
      "\<lparr>md_full_name = ''p.B.D'', md_file_name = ''a.proto'', md_file_package = ''p''\<rparr>" "[1, 1]"]
  by (simp add: message_indexes_def relative_name_def remove_prefix_def starts_with_def MAX_MESSAGE_INDEXES_def)

text \<open>The type reference the producer writes before an Apicurio Protobuf payload is split off
  again with the message's name in its package, whatever payload follows.\<close>

theorem type_ref_roundtrip:
  assumes "int (length (md_full_name d)) < 2 ^ 60"
  shows "\<exists>written. apicurio_type_ref d = Inr (Some written) \<and>
    (\<forall>payload. parse_type_ref (written @ payload) =
       Inr (Some (map code (relative_name d (md_file_package d))), payload))"
proof -
  let ?name = "relative_name d (md_file_package d)"
  obtain bs where bs: "utf8_encode (map code ?name) = Inr bs" "length bs \<le> 2 * length ?name"
    using utf8_encode_latin by blast
  have "length ?name \<le> length (md_full_name d)" by (simp add: relative_name_def remove_prefix_def)
  then have n: "int (length bs) < 2 ^ 61" using bs(2) assms by simp
  have decoded: "utf8_decode bs = Inr (map code ?name)"
    using bs(1) by (rule utf8_decode_encode) (simp add: valid_text_def list_all_iff less_imp_le[OF less_trans[OF code_less]])
  have "varint (int (length bs)) = Some (the (varint (int (length bs))))" by (simp add: varint_nonneg)
  moreover have "length (the (varint (int (length bs)))) \<le> 10"
    using n varint_length[of "int (length bs)" 10] by simp
  ultimately obtain len where len: "varint (int (length bs)) = Some len" "length len \<le> 10" by metis
  let ?ref = "10 # len @ bs"
  obtain sz where sz: "varint (int (length ?ref)) = Some sz" by (simp add: varint_nonneg)
  have "int (length ?ref) < 2 ^ 70" using n len(2) by simp
  then have "type_ref_body (sz @ ?ref @ payload) = Inr (Some (map code ?name, payload))" for payload
    using type_ref_body_written[OF len(1) sz decoded] by simp
  then have "parse_type_ref ((sz @ ?ref) @ payload) = Inr (Some (map code ?name), payload)" for payload
    by (simp add: parse_type_ref_def)
  moreover have "apicurio_type_ref d = Inr (Some (sz @ ?ref))"
    using bs(1) len(1) sz by (simp add: apicurio_type_ref_def TYPE_REF_NAME_TAG_def Let_def)
  ultimately show ?thesis by blast
qed

theorem type_ref_roundtrip_witness:
  "\<exists>written. apicurio_type_ref \<lparr>md_full_name = ''p.B.D'', md_file_name = ''a.proto'', md_file_package = ''p''\<rparr>
      = Inr (Some written) \<and>
    (\<forall>payload. parse_type_ref (written @ payload) = Inr (Some [66, 46, 68], payload))"
  using type_ref_roundtrip[of "\<lparr>md_full_name = ''p.B.D'', md_file_name = ''a.proto'', md_file_package = ''p''\<rparr>"]
  by (simp add: relative_name_def remove_prefix_def starts_with_def code_def)

text \<open>Splitting a type reference never fails: an input without a well-formed reference comes
  back whole and unnamed, and a named one loses a non-empty prefix.\<close>

theorem parse_type_ref_total:
  "\<exists>name rest k. parse_type_ref payload = Inr (name, rest) \<and> rest = drop k payload \<and>
     (if name = None then k = 0 else 0 < k)"
proof (cases "type_ref_body payload")
  case (Inl e)
  then have "parse_type_ref payload = Inr (None, payload)"
    using type_ref_body_error[OF Inl] by (auto simp: parse_type_ref_def)
  then show ?thesis by (intro exI[of _ None] exI[of _ payload] exI[of _ 0]) simp
next
  case (Inr r)
  show ?thesis
  proof (cases r)
    case None
    then show ?thesis using Inr by (intro exI[of _ None] exI[of _ payload] exI[of _ 0]) (simp add: parse_type_ref_def)
  next
    case (Some nr)
    obtain name rest where nr: "nr = (name, rest)" by (cases nr)
    then obtain k where "k > 0" "rest = drop k payload" using Inr Some type_ref_body_rest by blast
    then show ?thesis using Inr Some nr
      by (intro exI[of _ "Some name"] exI[of _ rest] exI[of _ k]) (simp add: parse_type_ref_def)
  qed
qed

text \<open>The varint writer returns exactly on the non-negative integers: it shifts a negative
  one forever.\<close>

theorem varint_terminates:
  "(\<exists>bs. varint v = Some bs) \<longleftrightarrow> 0 \<le> v"
  using varint_nonneg[of v] varint_loop_some[of "[]" v] by (auto simp: varint_def)

end
