(* ===== verification/Cli_Options.thy ===== *)
theory Cli_Options
  imports Registry_Selection Models
begin

text \<open>
  The command line: \<open>cli/properties.py\<close> (property=value pairs and lists of entries),
  \<open>cli/validation.py\<close> (the validation of the serializer and deserializer options, format by
  format), and the option callbacks of \<open>main.py\<close>. What the checks read from outside is the record
  \<open>cli_env\<close>: the file system, the loaders of schema files, the URL parser and the texts of
  exceptions. A \<open>BadParameter\<close> and a \<open>MissingParameter\<close> carry their message or hint; the parameter
  the message is attributed to is left out. The one character outside the modelled range, an
  ellipsis in a message, is written as three dots.
\<close>

section \<open>Properties\<close>

definition py_list :: "string list \<Rightarrow> string" where
  "py_list xs = ''['' @ join '', '' (map py_repr xs) @ '']''"

definition properties_to_dict :: "string list \<Rightarrow> config res" where
  "properties_to_dict pairs =
     (if list_ex (\<lambda>p. CHR ''='' \<notin> set p) pairs then Inl (BadParameter ''Should be property=value.'')
      else Inr (dict_of (map (partition_on CHR ''='') pairs)))"

definition capitalize :: "string \<Rightarrow> string" where
  "capitalize s = (case s of [] \<Rightarrow> [] | c # cs \<Rightarrow> upper_char c # lower cs)"

fun join_items :: "string \<Rightarrow> string \<Rightarrow> string list \<Rightarrow> string list \<Rightarrow> string list res" where
  "join_items label raw [] entries = Inr entries"
| "join_items label raw (item # items) entries =
     (let entry = strip item in
      if entry = [] then Inl (BadParameter (''Empty '' @ label @ '' in '' @ py_repr raw @ ''.''))
      else if entry \<in> set entries
      then Inl (BadParameter (capitalize label @ '' '' @ py_repr entry @ '' was specified more than once.''))
      else join_items label raw items (entries @ [entry]))"

fun join_raws :: "string \<Rightarrow> string list \<Rightarrow> string list \<Rightarrow> string list res" where
  "join_raws label [] entries = Inr entries"
| "join_raws label (raw # raws) entries =
     rbind (join_items label raw (split_on CHR '','' raw) entries) (join_raws label raws)"

definition join_entries :: "string \<Rightarrow> string list \<Rightarrow> string res" where
  "join_entries label values = rbind (join_raws label values []) (\<lambda>entries. Inr (join '','' entries))"

definition join_bootstrap_servers :: "string list \<Rightarrow> string option res" where
  "join_bootstrap_servers value =
     (if value = [] then Inr None else map_sum id Some (join_entries ''broker'' value))"

definition protobuf_properties_to_dict :: "string list \<Rightarrow> config res" where
  "protobuf_properties_to_dict value =
     rbind (properties_to_dict value) (\<lambda>config.
       let includes = map snd (filter (\<lambda>p. fst p = PROTOBUF_INCLUDE) (map (partition_on CHR ''='') value)) in
       if includes = [] then Inr config
       else rbind (join_entries ''include folder'' includes) (\<lambda>entries. Inr (dput PROTOBUF_INCLUDE entries config)))"

section \<open>Option callbacks of main\<close>

definition producer_kafka_config :: "string option \<Rightarrow> string option \<Rightarrow> bool \<Rightarrow> config" where
  "producer_kafka_config acks compression idempotence =
     (case acks of None \<Rightarrow> [] | Some a \<Rightarrow> [(ACKS, a)])
     @ (case compression of None \<Rightarrow> [] | Some c \<Rightarrow> [(COMPRESSION_TYPE, c)])
     @ (if idempotence then [(ENABLE_IDEMPOTENCE, ''true'')] else [])"

definition string_to_deserializer_type :: "string \<Rightarrow> format res" where
  "string_to_deserializer_type value =
     (if value \<notin> set deserialization_str_list
      then Inl (BadParameter (''Should be one of '' @ py_list deserialization_str_list))
      else format_from_str value)"

text \<open>A full match of \<open>PARTITION_SELECTION_PATTERN\<close>: the partition and the text of the offset.\<close>

definition digits :: "string \<Rightarrow> bool" where
  "digits s \<longleftrightarrow> s \<noteq> [] \<and> list_all is_decimal s"

definition match_partition_selection :: "string \<Rightarrow> (string \<times> string option) option" where
  "match_partition_selection raw =
     (let (p, offset) = partition_on CHR '':'' raw in
      if \<not> digits p then None
      else if CHR '':'' \<notin> set raw then Some (p, None)
      else if digits offset \<or> offset = EARLIEST then Some (p, Some offset) else None)"

definition partition_selection_problem :: "string \<Rightarrow> exn" where
  "partition_selection_problem raw =
     BadParameter (''Should be <partition>[:<absolute-offset|earliest>] with non-negative numbers; got ''
       @ py_repr raw @ ''.'')"

fun parse_selections :: "string list \<Rightarrow> int set \<Rightarrow> partition_selection list \<Rightarrow> partition_selection list res" where
  "parse_selections [] seen selections = Inr selections"
| "parse_selections (raw # raws) seen selections =
     (case match_partition_selection raw of
        None \<Rightarrow> Inl (partition_selection_problem raw)
      | Some (p, raw_offset) \<Rightarrow>
          (let part = digits_value p in
           if part \<in> seen
           then Inl (BadParameter (''Partition '' @ show_int part @ '' was specified more than once.''))
           else (let offset = (case raw_offset of
                       None \<Rightarrow> None
                     | Some t \<Rightarrow> Some (if t = EARLIEST then FROM_EARLIEST else AT_OFFSET (digits_value t))) in
                 parse_selections raws (insert part seen)
                   (selections @ [\<lparr>ps_partition = part, ps_offset = offset\<rparr>]))))"

definition parse_partition_selections :: "string list \<Rightarrow> partition_selection list res" where
  "parse_partition_selections value = parse_selections value {} []"

section \<open>Validation\<close>

record cli_env =
  env_path_exists :: "string \<Rightarrow> bool"
  env_path_is_dir :: "string \<Rightarrow> bool"
  env_load_json_schema :: "string \<Rightarrow> unit res"
  env_load_avro_schema :: "string \<Rightarrow> unit res"
  env_load_message_classes :: "config \<Rightarrow> string list res"
  env_parse_url :: "string \<Rightarrow> (string \<times> bool) res"
  env_load_cert :: "cert_source \<Rightarrow> unit res"
  env_show_exn :: "exn \<Rightarrow> string"

abbreviation uses :: "format \<Rightarrow> format \<Rightarrow> format \<Rightarrow> bool" where
  "uses fmt key_format value_format \<equiv> fmt = key_format \<or> fmt = value_format"

definition require_usage :: "format \<Rightarrow> format \<Rightarrow> format \<Rightarrow> unit res" where
  "require_usage fmt key_format value_format =
     raise_if (\<not> uses fmt key_format value_format)
       (MissingParameter (quoted (''-k '' @ format_str fmt) @ '' and/or '' @ quoted (''-v '' @ format_str fmt)))"

definition require_configured :: "config \<Rightarrow> config \<Rightarrow> config \<Rightarrow> format \<Rightarrow> format \<Rightarrow> unit res" where
  "require_configured registry_config avro_config protobuf_config key_format value_format =
     rbind (raise_if (avro_config = [] \<and> uses F_AVRO key_format value_format)
              (MissingParameter (quoted ''--avro''))) (\<lambda>_.
     rbind (raise_if (registry_config = [] \<and> uses F_REGISTRY key_format value_format)
              (ClickException ''Schema Registry configuration is required. Use --registry or the [registry] section in --config-file.'')) (\<lambda>_.
     raise_if (protobuf_config = [] \<and> uses F_PROTOBUF key_format value_format)
       (MissingParameter (quoted ''--protobuf''))))"

definition require_field_properties :: "config \<Rightarrow> format \<Rightarrow> format \<Rightarrow> format \<Rightarrow> string \<Rightarrow> string \<Rightarrow> unit res" where
  "require_field_properties config fmt key_format value_format option example =
     rbind (raise_if (\<not> din ''value'' config \<and> value_format = fmt)
              (MissingParameter (quoted (option @ '' value='' @ example)))) (\<lambda>_.
     raise_if (\<not> din ''key'' config \<and> key_format = fmt)
       (MissingParameter (quoted (option @ '' key='' @ example))))"

definition validate_properties :: "config \<Rightarrow> string list \<Rightarrow> unit res" where
  "validate_properties config valid =
     raise_if (list_ex (\<lambda>p. p \<notin> set valid) (dkeys config))
       (BadParameter (''Valid properties: '' @ py_list valid @ ''.''))"

fun normalize_choices :: "config \<Rightarrow> string list \<Rightarrow> string list \<Rightarrow> string \<Rightarrow> config res" where
  "normalize_choices normalized [] choices label = Inr normalized"
| "normalize_choices normalized (p # ps) choices label =
     (case dget normalized p of
        None \<Rightarrow> normalize_choices normalized ps choices label
      | Some raw \<Rightarrow>
          (let value = replace_char CHR ''_'' CHR ''-'' (lower raw) in
           if value \<notin> set choices
           then Inl (BadParameter (label @ '' should be one of '' @ py_list choices @ ''.''))
           else normalize_choices (dput p value normalized) ps choices label))"

definition validate_field_scope :: "config \<Rightarrow> string \<Rightarrow> format \<Rightarrow> format \<Rightarrow> format \<Rightarrow> string \<Rightarrow> unit res" where
  "validate_field_scope config property_name fmt key_format value_format option =
     rbind (raise_if (din (''key.'' @ property_name) config \<and> key_format \<noteq> fmt)
              (BadParameter (option @ '' key.'' @ property_name @ '' requires '' @ quoted (''-k '' @ format_str fmt) @ ''.''))) (\<lambda>_.
     raise_if (din (''value.'' @ property_name) config \<and> value_format \<noteq> fmt)
       (BadParameter (option @ '' value.'' @ property_name @ '' requires '' @ quoted (''-v '' @ format_str fmt) @ ''.'')))"

definition validate_file :: "cli_env \<Rightarrow> string \<Rightarrow> unit res" where
  "validate_file env path =
     rbind (raise_if (\<not> env_path_exists env path) (BadParameter (''File '' @ py_repr path @ '' should exist.''))) (\<lambda>_.
     raise_if (env_path_is_dir env path) (BadParameter (''Path '' @ py_repr path @ '' is a directory.'')))"

fun schema_error_as_parameter :: "'a res \<Rightarrow> 'a res" where
  "schema_error_as_parameter (Inl (SchemaError m)) = Inl (BadParameter m)"
| "schema_error_as_parameter r = r"

definition check_schema_files :: "cli_env \<Rightarrow> config \<Rightarrow> (string \<Rightarrow> unit res) \<Rightarrow> unit res" where
  "check_schema_files env config load =
     rbind (map_res (\<lambda>field_name.
              case dget config field_name of
                None \<Rightarrow> Inr ()
              | Some path \<Rightarrow> rbind (validate_file env path) (\<lambda>_. schema_error_as_parameter (load path)))
            [''value'', ''key'']) (\<lambda>_. Inr ())"

text \<open>The errors of the Apicurio configuration become parameter errors.\<close>

definition registry_error_as_parameter :: "cli_env \<Rightarrow> 'a res \<Rightarrow> 'a res" where
  "registry_error_as_parameter env r =
     (case r of
        Inr x \<Rightarrow> Inr x
      | Inl e \<Rightarrow> if is_value_error e \<or> is_os_error e then Inl (BadParameter (env_show_exn env e)) else Inl e)"

definition normalize_registry :: "cli_env \<Rightarrow> config \<Rightarrow> format \<Rightarrow> format \<Rightarrow> (config \<times> apicurio_config option) res" where
  "normalize_registry env registry_config key_format value_format =
     (if registry_config = [] then Inr ([], None)
      else rbind (require_usage F_REGISTRY key_format value_format) (\<lambda>_.
        let provider = lower (dget_or registry_config ''provider'' CONFLUENT_OPTION) in
        if provider \<notin> set REGISTRY_PROVIDERS
        then Inl (BadParameter (''Registry provider should be one of '' @ py_list REGISTRY_PROVIDERS @ ''.''))
        else
          (let normalized = (if din ''provider'' registry_config then dput ''provider'' provider registry_config
                             else registry_config);
               apicurio_properties = filter (starts_with APICURIO_PREFIX) (dkeys normalized) in
           if provider = CONFLUENT_OPTION \<and> apicurio_properties \<noteq> []
           then Inl (BadParameter (''apicurio.registry.* properties require provider='' @ APICURIO_OPTION @ ''.''))
           else if provider \<noteq> APICURIO_OPTION then Inr (normalized, None)
           else map_sum id (\<lambda>c. (normalized, Some c))
                  (registry_error_as_parameter env
                     (apicurio_from_dict (env_parse_url env) (env_load_cert env) normalized)))))"

fun register_field :: "cli_env \<Rightarrow> config \<Rightarrow> string \<Rightarrow> (string \<times> message_field \<times> format) list \<Rightarrow> string list res" where
  "register_field env selection provider [] = Inr []"
| "register_field env selection provider ((flag, field, fmt) # rest) =
     (if fmt \<noteq> F_REGISTRY
      then (case find (starts_with (field_str field @ ''.'')) (dkeys selection) of
              Some scoped \<Rightarrow>
                Inl (BadParameter (''--registry '' @ scoped @ '' requires '' @ quoted (flag @ '' registry'') @ ''.''))
            | None \<Rightarrow> register_field env selection provider rest)
      else
        (case selection_from_config selection provider field of
           Inl e \<Rightarrow> Inl (if is_value_error e then BadParameter (env_show_exn env e) else e)
         | Inr sel \<Rightarrow>
             rbind (register_field env selection provider rest) (\<lambda>registering.
               Inr (if sel_auto_register sel then field_str field # registering else registering))))"

definition normalize_producer_registry ::
  "cli_env \<Rightarrow> config \<Rightarrow> format \<Rightarrow> format \<Rightarrow> (config \<times> apicurio_config option \<times> string list) res" where
  "normalize_producer_registry env registry_config key_format value_format =
     (let (client_config, selection) = split_registry_config registry_config in
      rbind (normalize_registry env client_config key_format value_format) (\<lambda>(normalized, apicurio).
        if selection = [] then Inr (normalized, apicurio, [])
        else rbind (require_usage F_REGISTRY key_format value_format) (\<lambda>_.
          let provider = dget_or normalized ''provider'' CONFLUENT_OPTION in
          rbind (register_field env selection provider
                   [(''-k'', KEY, key_format), (''-v'', VALUE, value_format)]) (\<lambda>registering.
            Inr (dmerge normalized selection, apicurio, registering)))))"

definition normalize_bytes :: "config \<Rightarrow> format \<Rightarrow> format \<Rightarrow> config res" where
  "normalize_bytes bytes_config key_format value_format =
     (if bytes_config = [] then Inr []
      else rbind (validate_properties bytes_config BYTES_CONFIGS) (\<lambda>_.
        rbind (normalize_choices bytes_config BYTES_CONFIGS BYTES_ENCODINGS ''Bytes encoding'') (\<lambda>normalized.
        rbind (require_usage F_BYTES key_format value_format) (\<lambda>_.
        rbind (validate_field_scope normalized ''encoding'' F_BYTES key_format value_format ''--bytes'') (\<lambda>_.
        Inr normalized)))))"

definition normalize_fallback :: "config \<Rightarrow> config res" where
  "normalize_fallback fallback_config =
     rbind (validate_properties fallback_config FALLBACK_CONFIGS) (\<lambda>_.
       normalize_choices fallback_config FALLBACK_CONFIGS BYTES_ENCODINGS ''Fallback encoding'')"

definition validate_schema_scope :: "config \<Rightarrow> format \<Rightarrow> format \<Rightarrow> format \<Rightarrow> string \<Rightarrow> unit res" where
  "validate_schema_scope config fmt key_format value_format option =
     rbind (raise_if (din ''key'' config \<and> key_format \<noteq> fmt)
              (BadParameter (option @ '' key requires '' @ quoted (''-k '' @ format_str fmt) @ ''.''))) (\<lambda>_.
     raise_if (din ''value'' config \<and> value_format \<noteq> fmt)
       (BadParameter (option @ '' value requires '' @ quoted (''-v '' @ format_str fmt) @ ''.'')))"

definition normalize_json :: "cli_env \<Rightarrow> config \<Rightarrow> format \<Rightarrow> format \<Rightarrow> string list \<Rightarrow> config res" where
  "normalize_json env json_config key_format value_format valid =
     (if json_config = [] then Inr []
      else rbind (validate_properties json_config valid) (\<lambda>_.
        rbind (normalize_choices json_config FRAMING_CONFIGS DESERIALIZER_FRAMINGS ''JSON framing'') (\<lambda>normalized.
        rbind (require_usage F_JSON key_format value_format) (\<lambda>_.
        rbind (validate_field_scope normalized ''framing'' F_JSON key_format value_format ''--json'') (\<lambda>_.
        rbind (validate_schema_scope normalized F_JSON key_format value_format ''--json'') (\<lambda>_.
        rbind (check_schema_files env normalized (env_load_json_schema env)) (\<lambda>_. Inr normalized)))))))"

definition normalize_avro :: "cli_env \<Rightarrow> config \<Rightarrow> format \<Rightarrow> format \<Rightarrow> config res" where
  "normalize_avro env avro_config key_format value_format =
     (if avro_config = [] then Inr []
      else rbind (validate_properties avro_config AVRO_DESERIALIZER_CONFIGS) (\<lambda>_.
        rbind (normalize_choices avro_config FRAMING_CONFIGS DESERIALIZER_FRAMINGS ''Avro framing'') (\<lambda>normalized.
        rbind (require_usage F_AVRO key_format value_format) (\<lambda>_.
        rbind (require_field_properties normalized F_AVRO key_format value_format ''--avro'' ''my-schema.avsc'') (\<lambda>_.
        rbind (map_res (\<lambda>f. case dget normalized f of None \<Rightarrow> Inr () | Some path \<Rightarrow> validate_file env path)
                 [''value'', ''key'']) (\<lambda>_.
        rbind (validate_field_scope normalized ''framing'' F_AVRO key_format value_format ''--avro'') (\<lambda>_.
        Inr normalized)))))))"

definition validate_protobuf_includes :: "cli_env \<Rightarrow> config \<Rightarrow> unit res" where
  "validate_protobuf_includes env config =
     (case dget config PROTOBUF_INCLUDE of
        None \<Rightarrow> Inr ()
      | Some folders \<Rightarrow>
          if \<not> din ''source'' config then Inl (BadParameter ''Use include with source.'')
          else rbind (map_res (\<lambda>folder. raise_if (\<not> env_path_is_dir env folder)
                        (BadParameter (''Folder '' @ py_repr folder @ '' should exist.'')))
                     (split_on CHR '','' folders)) (\<lambda>_. Inr ()))"

definition require_protobuf_schema :: "cli_env \<Rightarrow> config \<Rightarrow> unit res" where
  "require_protobuf_schema env config =
     (case filter (\<lambda>n. din n config) PROTOBUF_SCHEMA_CONFIGS of
        [] \<Rightarrow> Inl (MissingParameter (quoted ''--protobuf descriptor=my-descriptor'' @ '' or '' @ quoted ''--protobuf source=my.proto''))
      | [g] \<Rightarrow> rbind (validate_file env (dget_or config g [])) (\<lambda>_. validate_protobuf_includes env config)
      | _ \<Rightarrow> Inl (BadParameter ''Use either descriptor or source, not both.''))"

definition local_message_class :: "cli_env \<Rightarrow> config \<Rightarrow> string \<Rightarrow> unit res" where
  "local_message_class env protobuf_config message_name =
     rbind (env_load_message_classes env protobuf_config) (\<lambda>names.
       raise_if (message_name \<notin> set names)
         (SchemaError (''Protobuf message '' @ message_name @ '' isn't in ''
            @ (case dget protobuf_config ''source'' of
                 Some p \<Rightarrow> p
               | None \<Rightarrow> (case dget protobuf_config ''descriptor'' of Some p \<Rightarrow> p | None \<Rightarrow> ''None'')))))"

definition check_protobuf_messages :: "cli_env \<Rightarrow> config \<Rightarrow> unit res" where
  "check_protobuf_messages env config =
     rbind (map_res (\<lambda>f. case dget config f of
                None \<Rightarrow> Inr ()
              | Some m \<Rightarrow> schema_error_as_parameter (local_message_class env config m)) [''value'', ''key''])
       (\<lambda>_. Inr ())"

definition normalize_protobuf :: "cli_env \<Rightarrow> config \<Rightarrow> format \<Rightarrow> format \<Rightarrow> config res" where
  "normalize_protobuf env protobuf_config key_format value_format =
     (if protobuf_config = [] then Inr []
      else rbind (validate_properties protobuf_config PROTOBUF_DESERIALIZER_CONFIGS) (\<lambda>_.
        rbind (normalize_choices protobuf_config FRAMING_CONFIGS DESERIALIZER_FRAMINGS ''Protobuf framing'') (\<lambda>normalized.
        rbind (require_usage F_PROTOBUF key_format value_format) (\<lambda>_.
        rbind (require_protobuf_schema env normalized) (\<lambda>_.
        rbind (require_field_properties normalized F_PROTOBUF key_format value_format ''--protobuf'' ''MyMessage'') (\<lambda>_.
        rbind (check_protobuf_messages env normalized) (\<lambda>_.
        rbind (validate_field_scope normalized ''framing'' F_PROTOBUF key_format value_format ''--protobuf'') (\<lambda>_.
        Inr normalized))))))))"

definition normalize_producer_avro :: "cli_env \<Rightarrow> config \<Rightarrow> format \<Rightarrow> format \<Rightarrow> config res" where
  "normalize_producer_avro env avro_config key_format value_format =
     (if avro_config = [] then Inr []
      else rbind (validate_properties avro_config AVRO_SERIALIZER_CONFIGS) (\<lambda>_.
        rbind (require_usage F_AVRO key_format value_format) (\<lambda>_.
        rbind (require_field_properties avro_config F_AVRO key_format value_format ''--avro'' ''my-schema.avsc'') (\<lambda>_.
        rbind (validate_schema_scope avro_config F_AVRO key_format value_format ''--avro'') (\<lambda>_.
        rbind (check_schema_files env avro_config (env_load_avro_schema env)) (\<lambda>_. Inr avro_config))))))"

definition normalize_producer_protobuf :: "cli_env \<Rightarrow> config \<Rightarrow> format \<Rightarrow> format \<Rightarrow> config res" where
  "normalize_producer_protobuf env protobuf_config key_format value_format =
     (if protobuf_config = [] then Inr []
      else rbind (validate_properties protobuf_config PROTOBUF_SERIALIZER_CONFIGS) (\<lambda>_.
        rbind (require_usage F_PROTOBUF key_format value_format) (\<lambda>_.
        rbind (require_protobuf_schema env protobuf_config) (\<lambda>_.
        rbind (require_field_properties protobuf_config F_PROTOBUF key_format value_format ''--protobuf'' ''MyMessage'') (\<lambda>_.
        rbind (validate_schema_scope protobuf_config F_PROTOBUF key_format value_format ''--protobuf'') (\<lambda>_.
        rbind (check_protobuf_messages env protobuf_config) (\<lambda>_. Inr protobuf_config)))))))"

text \<open>One field of \<open>schema_file_formats\<close>: \<open>found\<close> are the formats whose properties name a file for it.\<close>

definition schema_file_format :: "(format \<times> config) list \<Rightarrow> string list \<Rightarrow> string \<Rightarrow> format \<Rightarrow> format res" where
  "schema_file_format configs registering field_name fmt =
     (let found = map fst (filter (\<lambda>(f, config). din field_name config) configs) in
      if field_name \<notin> set registering
      then (if fmt = F_REGISTRY \<and> found \<noteq> []
            then Inl (BadParameter (''--'' @ format_str (hd found) @ '' '' @ field_name @ '' with a Registry ''
                   @ field_name @ '' is the schema to register; enable auto.register.schemas or apicurio.registry.auto-register.''))
            else Inr fmt)
      else if length found \<noteq> 1
      then Inl (BadParameter (''Registering the '' @ field_name @ '' schema needs exactly one schema file: --avro ''
             @ field_name @ ''=..., --json '' @ field_name @ ''=..., or --protobuf '' @ field_name
             @ ''=... with descriptor= or source=.''))
      else Inr (hd found))"

definition schema_file_formats ::
  "format \<Rightarrow> format \<Rightarrow> string list \<Rightarrow> config \<Rightarrow> config \<Rightarrow> config \<Rightarrow> (format \<times> format) res" where
  "schema_file_formats key_format value_format registering avro json protobuf =
     (let configs = [(F_AVRO, avro), (F_JSON, json), (F_PROTOBUF, protobuf)] in
      rbind (schema_file_format configs registering ''key'' key_format) (\<lambda>k.
        rbind (schema_file_format configs registering ''value'' value_format) (\<lambda>v. Inr (k, v))))"

definition require_protobuf_source :: "config \<Rightarrow> string list \<Rightarrow> unit res" where
  "require_protobuf_source protobuf_config registering =
     raise_if (din ''descriptor'' protobuf_config \<and> list_ex (\<lambda>f. din f protobuf_config) registering)
       (BadParameter ''Registering Protobuf in Apicurio needs --protobuf source=my.proto.'')"

record option_configs =
  oc_registry :: config
  oc_apicurio :: "apicurio_config option"
  oc_protobuf :: config
  oc_avro :: config
  oc_json :: config
  oc_bytes :: config
  oc_fallback :: config

definition normalize_deserializer_options ::
  "cli_env \<Rightarrow> format \<Rightarrow> format \<Rightarrow> option_configs \<Rightarrow> option_configs res" where
  "normalize_deserializer_options env k v o1 =
     rbind (require_configured (oc_registry o1) (oc_avro o1) (oc_protobuf o1) k v) (\<lambda>_.
     rbind (normalize_registry env (oc_registry o1) k v) (\<lambda>(registry, apicurio).
     rbind (normalize_bytes (oc_bytes o1) k v) (\<lambda>bytes.
     rbind (normalize_fallback (oc_fallback o1)) (\<lambda>fallback.
     rbind (normalize_json env (oc_json o1) k v JSON_DESERIALIZER_CONFIGS) (\<lambda>json.
     rbind (normalize_avro env (oc_avro o1) k v) (\<lambda>avro.
     rbind (normalize_protobuf env (oc_protobuf o1) k v) (\<lambda>protobuf.
     Inr \<lparr>oc_registry = registry, oc_apicurio = apicurio, oc_protobuf = protobuf, oc_avro = avro,
          oc_json = json, oc_bytes = bytes, oc_fallback = fallback\<rparr>)))))))"

definition normalize_serializer_options ::
  "cli_env \<Rightarrow> format \<Rightarrow> format \<Rightarrow> option_configs \<Rightarrow> option_configs res" where
  "normalize_serializer_options env k v o1 =
     rbind (require_configured (oc_registry o1) (oc_avro o1) (oc_protobuf o1) k v) (\<lambda>_.
     rbind (normalize_producer_registry env (oc_registry o1) k v) (\<lambda>(registry, apicurio, registering).
     rbind (schema_file_formats k v registering (oc_avro o1) (oc_json o1) (oc_protobuf o1)) (\<lambda>(fk, fv).
     rbind (normalize_json env (oc_json o1) fk fv JSON_SERIALIZER_CONFIGS) (\<lambda>json.
     rbind (normalize_producer_avro env (oc_avro o1) fk fv) (\<lambda>avro.
     rbind (normalize_producer_protobuf env (oc_protobuf o1) fk fv) (\<lambda>protobuf.
     rbind (if apicurio \<noteq> None then require_protobuf_source protobuf registering else Inr ()) (\<lambda>_.
     rbind (normalize_bytes (oc_bytes o1) k v) (\<lambda>bytes.
     Inr \<lparr>oc_registry = registry, oc_apicurio = apicurio, oc_protobuf = protobuf, oc_avro = avro,
          oc_json = json, oc_bytes = bytes, oc_fallback = []\<rparr>))))))))"

section \<open>Lemmas\<close>

definition entry_ok :: "string \<Rightarrow> bool" where "entry_ok e \<longleftrightarrow> e \<noteq> [] \<and> strip e = e"

lemma join_items_entries:
  "join_items label raw items entries = Inr out \<Longrightarrow> distinct entries \<Longrightarrow> list_all entry_ok entries \<Longrightarrow>
   distinct out \<and> list_all entry_ok out \<and> out = entries @ map strip items"
proof (induction items arbitrary: entries)
  case (Cons i items)
  have i: "strip i \<noteq> []" "strip i \<notin> set entries" "join_items label raw items (entries @ [strip i]) = Inr out"
    using Cons.prems(1) by (auto simp: Let_def split: if_splits)
  then have "entry_ok (strip i)" by (simp add: entry_ok_def)
  then have "distinct (entries @ [strip i])" "list_all entry_ok (entries @ [strip i])"
    using Cons.prems i by simp_all
  from Cons.IH[OF i(3) this] show ?case unfolding list.map append_assoc append_Cons append_Nil .
qed simp

lemma join_raws_entries:
  "join_raws label raws entries = Inr out \<Longrightarrow> distinct entries \<Longrightarrow> list_all entry_ok entries \<Longrightarrow>
   distinct out \<and> list_all entry_ok out \<and>
   out = entries @ concat (map (\<lambda>raw. map strip (split_on CHR '','' raw)) raws)"
proof (induction raws arbitrary: entries)
  case (Cons raw raws)
  then obtain mid where mid: "join_items label raw (split_on CHR '','' raw) entries = Inr mid"
    "join_raws label raws mid = Inr out" by (auto simp: res_simps)
  have m: "distinct mid" "list_all entry_ok mid" "mid = entries @ map strip (split_on CHR '','' raw)"
    using join_items_entries[OF mid(1) Cons.prems(2,3)] by blast+
  from Cons.IH[OF mid(2) m(1,2)] show ?case unfolding m(3) list.map concat.simps append_assoc by blast
qed simp

lemma join_items_distinct:
  "distinct (entries @ items) \<Longrightarrow> list_all entry_ok items \<Longrightarrow>
   join_items label raw items entries = Inr (entries @ items)"
  by (induction items arbitrary: entries) (auto simp: Let_def entry_ok_def)

lemma normalize_choices_keys: "normalize_choices c ps choices label = Inr n \<Longrightarrow> dkeys n = dkeys c"
proof (induction ps arbitrary: c)
  case (Cons p ps)
  have "dget c p = Some raw \<Longrightarrow> dkeys (dput p v c) = dkeys c" for raw v
    by (simp add: AList.update_keys) (metis map_of_SomeD in_set_zipE fst_conv image_eqI)
  with Cons show ?case by (auto simp: Let_def split: option.splits if_splits)
qed simp

lemma normalize_choices_other: "normalize_choices c ps choices label = Inr n \<Longrightarrow> k \<notin> set ps \<Longrightarrow> dget n k = dget c k"
  by (induction ps arbitrary: c) (auto simp: Let_def dget_dput split: option.splits if_splits)

lemma normalize_choices_valid:
  "normalize_choices c ps choices label = Inr n \<Longrightarrow> distinct ps \<Longrightarrow> p \<in> set ps \<Longrightarrow> dget n p = Some v \<Longrightarrow> v \<in> set choices"
proof (induction ps arbitrary: c)
  case (Cons q ps)
  show ?case
  proof (cases "p = q")
    case True
    then show ?thesis using Cons.prems
      by (auto simp: Let_def normalize_choices_other dget_dput split: option.splits if_splits)
  next
    case False
    then show ?thesis using Cons by (auto simp: Let_def split: option.splits if_splits)
  qed
qed simp

lemma normalize_choices_idem:
  assumes "\<And>p v. p \<in> set ps \<Longrightarrow> dget n p = Some v \<Longrightarrow> v \<in> set choices \<and> replace_char CHR ''_'' CHR ''-'' (lower v) = v"
  shows "normalize_choices n ps choices label = Inr n"
  using assms
proof (induction ps)
  case (Cons p ps)
  have p: "dget n p = Some v \<Longrightarrow> v \<in> set choices \<and> replace_char CHR ''_'' CHR ''-'' (lower v) = v" for v
    using Cons.prems[of p v] by simp
  have "normalize_choices n ps choices label = Inr n" by (rule Cons.IH) (rule Cons.prems; simp)
  then show ?case using p by (cases "dget n p") (simp_all add: dput_same)
qed simp

lemma encodings_normal:
  assumes "v \<in> set BYTES_ENCODINGS"
  shows "replace_char CHR ''_'' CHR ''-'' (lower v) = v \<and> (\<exists>e. encoding_from_str v = Inr e)"
proof -
  obtain e where e: "v = encoding_str e"
    using assms by (auto simp: BYTES_ENCODINGS_def intro: that[of BASE64] that[of HEX] that[of BYTE_ARRAY] that[of ESCAPED])
  have "replace_char CHR ''_'' CHR ''-'' (lower (encoding_str e)) = encoding_str e"
    by (cases e; simp only:; code_simp)
  then show ?thesis using e encoding_from_str_of_str by blast
qed

lemma validate_properties_Inr: "validate_properties config valid = Inr u \<longleftrightarrow> set (dkeys config) \<subseteq> set valid"
  by (auto simp: validate_properties_def list_ex_iff res_simps)

lemma normalize_bytes_Inr:
  assumes "normalize_bytes c k v = Inr n" and "c \<noteq> []"
  shows "normalize_choices c BYTES_CONFIGS BYTES_ENCODINGS ''Bytes encoding'' = Inr n
    \<and> set (dkeys n) \<subseteq> set BYTES_CONFIGS \<and> n \<noteq> [] \<and> require_usage F_BYTES k v = Inr ()
    \<and> validate_field_scope n ''encoding'' F_BYTES k v ''--bytes'' = Inr ()"
proof -
  have c: "normalize_choices c BYTES_CONFIGS BYTES_ENCODINGS ''Bytes encoding'' = Inr n"
    using assms by (auto simp: normalize_bytes_def res_simps)
  have "set (dkeys c) \<subseteq> set BYTES_CONFIGS" "require_usage F_BYTES k v = Inr ()"
    "validate_field_scope n ''encoding'' F_BYTES k v ''--bytes'' = Inr ()"
    using assms by (auto simp: normalize_bytes_def res_simps validate_properties_Inr)
  with c normalize_choices_keys[OF c] assms(2) show ?thesis by auto
qed

lemma scoped_encoding_valid:
  assumes "\<And>p v. p \<in> set BYTES_CONFIGS \<Longrightarrow> dget n p = Some v \<Longrightarrow> v \<in> set BYTES_ENCODINGS"
  shows "\<exists>e. encoding_from_config n field = Inr e"
proof -
  have k: "dget n ''encoding'' = Some v \<Longrightarrow> v \<in> set BYTES_ENCODINGS"
    "dget n (field_str field @ ''.encoding'') = Some v \<Longrightarrow> field \<noteq> NONE \<Longrightarrow> v \<in> set BYTES_ENCODINGS" for v
    by (rule assms[of "''encoding''"]; simp add: BYTES_CONFIGS_def)
      (rule assms[of "field_str field @ ''.encoding''"]; cases field; simp add: BYTES_CONFIGS_def)
  have b: "encoding_str BASE64 \<in> set BYTES_ENCODINGS" by (simp add: BYTES_ENCODINGS_def)
  have "scoped_property n ''encoding'' field (encoding_str BASE64) \<in> set BYTES_ENCODINGS"
  proof (cases "field \<noteq> NONE \<and> din (field_str field @ ''.encoding'') n")
    case True
    then show ?thesis using k(2) by (auto simp: scoped_property_def Let_def din_iff_get simp del: encoding_strs)
  next
    case False
    then show ?thesis using k(1) b
      by (cases "dget n ''encoding''") (auto simp: scoped_property_def Let_def dget_or_def simp del: encoding_strs)
  qed
  then show ?thesis using encodings_normal by (auto simp: encoding_from_config_def)
qed

section \<open>Properties\<close>

text \<open>Validated byte encodings always work later: after the CLI accepts the \<open>--bytes\<close>
  properties, each field's encoding is found without an error, and validating the normalized
  properties again changes nothing.\<close>

theorem validated_bytes_encoding:
  assumes "normalize_bytes c k v = Inr n"
  shows "(\<forall>field. \<exists>e. encoding_from_config n field = Inr e) \<and> normalize_bytes n k v = Inr n"
proof (cases "c = []")
  case True
  then have "n = []" using assms by (simp add: normalize_bytes_def)
  then show ?thesis using scoped_encoding_valid[of "[]"] by (simp add: normalize_bytes_def)
next
  case False
  note n = normalize_bytes_Inr[OF assms False]
  have valid: "p \<in> set BYTES_CONFIGS \<Longrightarrow> dget n p = Some w \<Longrightarrow> w \<in> set BYTES_ENCODINGS" for p w
    using normalize_choices_valid[of c BYTES_CONFIGS BYTES_ENCODINGS "''Bytes encoding''" n p w] n
    by (simp add: BYTES_CONFIGS_def)
  have "normalize_choices n BYTES_CONFIGS BYTES_ENCODINGS ''Bytes encoding'' = Inr n"
    using valid encodings_normal by (intro normalize_choices_idem) blast
  moreover have "validate_properties n BYTES_CONFIGS = Inr ()" using n by (simp add: validate_properties_Inr)
  ultimately show ?thesis
    using n scoped_encoding_valid[OF valid] by (simp add: normalize_bytes_def)
qed

theorem validated_bytes_encoding_witness:
  "encoding_from_config [(''key.encoding'', ''byte-array'')] KEY = Inr BYTE_ARRAY \<and>
   normalize_bytes [(''key.encoding'', ''byte-array'')] F_BYTES F_STRING = Inr [(''key.encoding'', ''byte-array'')]"
proof -
  have n: "normalize_bytes [(''key.encoding'', ''Byte_Array'')] F_BYTES F_STRING = Inr [(''key.encoding'', ''byte-array'')]"
    by code_simp
  have e: "encoding_from_config [(''key.encoding'', ''byte-array'')] KEY = Inr BYTE_ARRAY" by code_simp
  show ?thesis using validated_bytes_encoding[OF n] e by simp
qed

text \<open>Repeated comma-separated entries (brokers, include folders) are flattened in order: the
  joined text splits into exactly the stripped entries, none empty and none twice, and joining it
  again gives the same text.\<close>

theorem join_entries_flattens:
  assumes "join_entries label raws = Inr out" and "raws \<noteq> []"
  shows "split_on CHR '','' out = concat (map (\<lambda>raw. map strip (split_on CHR '','' raw)) raws) \<and>
    distinct (split_on CHR '','' out) \<and> (\<forall>e \<in> set (split_on CHR '','' out). e \<noteq> [] \<and> strip e = e) \<and>
    join_entries label [out] = Inr out"
proof -
  obtain entries where e: "join_raws label raws [] = Inr entries" "out = join '','' entries"
    using assms(1) by (auto simp: join_entries_def res_simps)
  have ok: "distinct entries" "list_all entry_ok entries"
    "entries = concat (map (\<lambda>raw. map strip (split_on CHR '','' raw)) raws)"
    using join_raws_entries[OF e(1) distinct.simps(1)[THEN iffD2, OF TrueI] list.pred_inject(1)]
    unfolding append_Nil by blast+
  have "entries \<noteq> []" using ok(3) assms(2) by (cases raws) auto
  moreover have "\<forall>w \<in> set entries. CHR '','' \<notin> set w"
    using ok(3) set_strip split_on_parts by fastforce
  ultimately have s: "split_on CHR '','' out = entries" unfolding e(2) by (rule split_join)
  have "join_raws label [out] [] = Inr entries"
    using ok by (simp add: s join_items_distinct)
  then show ?thesis using s ok e(2) by (simp add: join_entries_def list_all_iff entry_ok_def)
qed

theorem join_entries_flattens_witness:
  "split_on CHR '','' ''a:1,b:2,c:3'' = [''a:1'', ''b:2'', ''c:3''] \<and>
   join_entries ''broker'' [''a:1,b:2,c:3''] = Inr ''a:1,b:2,c:3''"
proof -
  have j: "join_entries ''broker'' [''a:1, b:2'', '' c:3 ''] = Inr ''a:1,b:2,c:3''" by code_simp
  have s: "split_on CHR '','' ''a:1,b:2,c:3'' = [''a:1'', ''b:2'', ''c:3'']" by code_simp
  have "join_entries ''broker'' [''a:1,b:2,c:3''] = Inr ''a:1,b:2,c:3''"
    using join_entries_flattens[OF j] by blast
  with s show ?thesis by (intro conjI)
qed

section \<open>Partition selections\<close>

definition show_selection :: "partition_selection \<Rightarrow> string" where
  "show_selection s = show_int (ps_partition s) @
     (case ps_offset s of
        None \<Rightarrow> [] | Some FROM_EARLIEST \<Rightarrow> CHR '':'' # EARLIEST | Some (AT_OFFSET n) \<Rightarrow> CHR '':'' # show_int n)"

definition selections_valid :: "partition_selection list \<Rightarrow> bool" where
  "selections_valid sels \<longleftrightarrow> distinct (map ps_partition sels) \<and>
     list_all (\<lambda>s. 0 \<le> ps_partition s \<and> (case ps_offset s of Some (AT_OFFSET n) \<Rightarrow> 0 \<le> n | _ \<Rightarrow> True)) sels"

lemma digits_show: "0 \<le> n \<Longrightarrow> digits (show_int n) \<and> digits_value (show_int n) = n"
  by (simp add: digits_def show_int_def show_nat_decimal digits_value_show_nat)

lemma digits_no_colon: "digits s \<Longrightarrow> CHR '':'' \<notin> set s"
  by (auto simp: digits_def list_all_iff is_decimal_def code_def)

lemma partition_on_none: "sep \<notin> set s \<Longrightarrow> partition_on sep s = (s, [])"
proof -
  assume "sep \<notin> set s"
  then have *: "dropWhile (\<lambda>c. c \<noteq> sep) s = []" "takeWhile (\<lambda>c. c \<noteq> sep) s = s"
    by (auto simp: dropWhile_eq_Nil_conv takeWhile_eq_all_conv)
  show ?thesis unfolding partition_on_def * by simp
qed

lemma earliest_not_digits: "\<not> digits EARLIEST"
  by (simp add: digits_def EARLIEST_def is_decimal_def code_def)

lemma match_shown:
  assumes "0 \<le> ps_partition s" and "case ps_offset s of Some (AT_OFFSET n) \<Rightarrow> 0 \<le> n | _ \<Rightarrow> True"
  shows "match_partition_selection (show_selection s) =
     Some (show_int (ps_partition s), map_option (\<lambda>x. case x of FROM_EARLIEST \<Rightarrow> EARLIEST | AT_OFFSET n \<Rightarrow> show_int n) (ps_offset s))"
proof -
  have p: "digits (show_int (ps_partition s))" "CHR '':'' \<notin> set (show_int (ps_partition s))"
    using digits_show[OF assms(1)] digits_no_colon by blast+
  show ?thesis
  proof (cases "ps_offset s")
    case None
    then show ?thesis using p by (simp add: match_partition_selection_def show_selection_def partition_on_none)
  next
    case (Some x)
    then show ?thesis
      using p assms(2) digits_show
      by (cases x) (simp_all add: match_partition_selection_def show_selection_def partition_on_append)
  qed
qed

lemma parse_selections_shown:
  "selections_valid sels \<Longrightarrow> ps_partition ` set sels \<inter> seen = {} \<Longrightarrow>
   parse_selections (map show_selection sels) seen acc = Inr (acc @ sels)"
proof (induction sels arbitrary: seen acc)
  case (Cons s sels)
  have s: "0 \<le> ps_partition s" "case ps_offset s of Some (AT_OFFSET n) \<Rightarrow> 0 \<le> n | _ \<Rightarrow> True"
    "selections_valid sels" "ps_partition s \<notin> ps_partition ` set sels"
    using Cons.prems(1) by (auto simp: selections_valid_def)
  have "n \<ge> 0 \<Longrightarrow> show_int n \<noteq> EARLIEST" for n using digits_show earliest_not_digits by metis
  note earliest = this
  have r: "\<lparr>ps_partition = ps_partition s, ps_offset = ps_offset s\<rparr> = s" by (cases s) simp
  from earliest have "(case map_option (\<lambda>x. case x of FROM_EARLIEST \<Rightarrow> EARLIEST | AT_OFFSET n \<Rightarrow> show_int n) (ps_offset s) of
        None \<Rightarrow> None | Some t \<Rightarrow> Some (if t = EARLIEST then FROM_EARLIEST else AT_OFFSET (digits_value t))) = ps_offset s"
    using s(2) digits_show by (auto split: option.split start_offset.splits)
  moreover have "parse_selections (map show_selection sels) (insert (ps_partition s) seen)
      (acc @ [\<lparr>ps_partition = ps_partition s, ps_offset = ps_offset s\<rparr>]) = Inr (acc @ s # sels)"
    unfolding r using Cons.IH[OF s(3), of "insert (ps_partition s) seen" "acc @ [s]"] Cons.prems(2) s(4) by auto
  ultimately show ?case
    using Cons.prems(2) digits_show[OF s(1)] 
    by (simp add: match_shown[OF s(1,2)] Let_def del: case_map_option)
qed simp

lemma match_digits: "match_partition_selection raw = Some (p, t) \<Longrightarrow>
    digits p \<and> (case t of None \<Rightarrow> True | Some x \<Rightarrow> digits x \<or> x = EARLIEST)"
  by (auto simp: match_partition_selection_def split: if_splits prod.splits)

lemma parse_selections_valid:
  "parse_selections raws seen acc = Inr sels \<Longrightarrow> selections_valid acc \<Longrightarrow> ps_partition ` set acc = seen \<Longrightarrow> selections_valid sels"
proof (induction raws arbitrary: seen acc)
  case (Cons raw raws)
  then obtain p t where m: "match_partition_selection raw = Some (p, t)" by (auto split: option.splits)
  let ?o = "case t of None \<Rightarrow> None | Some t \<Rightarrow> Some (if t = EARLIEST then FROM_EARLIEST else AT_OFFSET (digits_value t))"
  let ?s = "\<lparr>ps_partition = digits_value p, ps_offset = ?o\<rparr>"
  have new: "digits_value p \<notin> seen" "parse_selections raws (insert (digits_value p) seen) (acc @ [?s]) = Inr sels"
    using Cons.prems(1) m by (auto simp: Let_def split: if_splits)
  have "0 \<le> digits_value p" "\<forall>x. t = Some x \<longrightarrow> x \<noteq> EARLIEST \<longrightarrow> 0 \<le> digits_value x"
    using match_digits[OF m] by (auto simp: digits_def digits_value_nonneg)
  then have "selections_valid (acc @ [?s])"
    using Cons.prems(2,3) new(1) by (auto simp: selections_valid_def split: option.split)
  then show ?case using Cons.IH[OF new(2)] Cons.prems(3) by simp
qed simp

section \<open>Properties\<close>

text \<open>The \<open>--partition\<close> option accepts exactly the lists of distinct partitions with
  non-negative offsets: every accepted command line gives such a list, and every such list is
  accepted when written in the option's own syntax, and read back as it was.\<close>

theorem partition_selections_exact:
  "((\<exists>raws. parse_partition_selections raws = Inr sels) \<longleftrightarrow> selections_valid sels) \<and>
   (selections_valid sels \<longrightarrow> parse_partition_selections (map show_selection sels) = Inr sels)"
  using parse_selections_shown[of sels "{}" "[]"] parse_selections_valid[of _ "{}" "[]" sels]
  by (auto simp: parse_partition_selections_def selections_valid_def)

theorem partition_selections_exact_witness:
  "parse_partition_selections [''3:earliest'', ''0:17'', ''2''] =
     Inr [\<lparr>ps_partition = 3, ps_offset = Some FROM_EARLIEST\<rparr>, \<lparr>ps_partition = 0, ps_offset = Some (AT_OFFSET 17)\<rparr>,
          \<lparr>ps_partition = 2, ps_offset = None\<rparr>]"
proof -
  let ?sels = "[\<lparr>ps_partition = 3, ps_offset = Some FROM_EARLIEST\<rparr>, \<lparr>ps_partition = 0, ps_offset = Some (AT_OFFSET 17)\<rparr>,
      \<lparr>ps_partition = 2, ps_offset = None\<rparr>]"
  have "selections_valid ?sels" by (simp add: selections_valid_def)
  moreover have "map show_selection ?sels = [''3:earliest'', ''0:17'', ''2'']"
    by (simp add: show_selection_def show_int_def show_nat.simps EARLIEST_def, code_simp)
  ultimately show ?thesis using partition_selections_exact[of ?sels] by simp
qed

end
