(* ===== verification/Deserializers.thy ===== *)
theory Deserializers
  imports Schemas Protobuf_Wire Cli_Options
begin

text \<open>
  The consumer's deserializers: JSON, Avro and Protobuf with local schema files
  (\<open>deserializers/local.py\<close>), the Confluent and Apicurio Registry deserializers
  (\<open>deserializers/confluent.py\<close>, \<open>deserializers/apicurio.py\<close>) and the pool that hands them out
  (\<open>deserializers/pool.py\<close>).

  The libraries that decode a payload are the record \<open>codec_lib\<close>: JSON, JSON Schema validators
  of type \<open>'v\<close>, Avro schemas of type \<open>'s\<close> and Protobuf message classes of type \<open>'m\<close>. A
  deserializer's caches are its state. The objects \<open>_confluent_deserializers\<close> keeps hold nothing
  but their message class, so they are left out.
\<close>

record ('v, 's, 'm) codec_lib =
  cl_json_loads :: "byte list \<Rightarrow> pyval res"
  cl_validation_error :: "'v \<Rightarrow> pyval \<Rightarrow> string option res"
  cl_read_avro :: "'s \<Rightarrow> byte list \<Rightarrow> pyval res"
  cl_parse_message :: "'m \<Rightarrow> byte list \<Rightarrow> pyval res"
  cl_confluent_protobuf :: "'m \<Rightarrow> byte list \<Rightarrow> string \<Rightarrow> message_field \<Rightarrow> pyval res"
  cl_show_exn :: "exn \<Rightarrow> string"

section \<open>Local schema files\<close>

definition local_payload :: "byte list \<Rightarrow> config \<Rightarrow> message_field \<Rightarrow> string \<Rightarrow> byte list res" where
  "local_payload data config context deserializer_name =
     (let framing = scoped_property config ''framing'' context ''raw'' in
      if framing = ''raw'' then Inr data
      else if framing \<in> set REGISTRY_PROVIDERS then
        rbind (has_registry_header data) (\<lambda>framed.
          if framed then Inr (drop SCHEMA_REGISTRY_HEADER_SIZE data)
          else Inl (DeserializationError (capitalize framing @ '' '' @ deserializer_name @ '' framing header not found'')))
      else Inl (DeserializationError (''Unsupported '' @ deserializer_name @ '' framing: '' @ framing)))"

record 'v json_deserializer =
  jd_config :: config
  jd_key_validator :: "'v option"
  jd_value_validator :: "'v option"

definition json_new :: "(string \<Rightarrow> 'v res) \<Rightarrow> config \<Rightarrow> 'v json_deserializer res" where
  "json_new load config =
     (let validator = (\<lambda>name. case dget config name of None \<Rightarrow> Inr None | Some path \<Rightarrow> map_sum id Some (load path)) in
      rbind (validator ''key'') (\<lambda>k. rbind (validator ''value'') (\<lambda>v.
        Inr \<lparr>jd_config = config, jd_key_validator = k, jd_value_validator = v\<rparr>)))"

definition json_deserialize ::
  "('v, 's, 'm) codec_lib \<Rightarrow> 'v json_deserializer \<Rightarrow> byte list \<Rightarrow> message_field \<Rightarrow> pyval res" where
  "json_deserialize lib d data context =
     rbind (local_payload data (jd_config d) context ''JSON'') (\<lambda>payload.
     rbind (cl_json_loads lib payload) (\<lambda>content.
     case (case context of NONE \<Rightarrow> None | KEY \<Rightarrow> jd_key_validator d | VALUE \<Rightarrow> jd_value_validator d) of
       None \<Rightarrow> Inr content
     | Some validator \<Rightarrow>
         rbind (cl_validation_error lib validator content) (\<lambda>err.
           case err of None \<Rightarrow> Inr content | Some m \<Rightarrow> Inl (DeserializationError m))))"

record 's avro_deserializer =
  ad_config :: config
  ad_schemas :: "(string, 's) pydict"

definition avro_new :: "config \<Rightarrow> 's avro_deserializer" where
  "avro_new config = \<lparr>ad_config = config, ad_schemas = []\<rparr>"

definition avro_schema_at ::
  "(string \<Rightarrow> 's res) \<Rightarrow> string \<Rightarrow> (string, 's) pydict \<Rightarrow> 's res \<times> (string, 's) pydict" where
  "avro_schema_at load schema_path schemas =
     (case dget schemas schema_path of
        Some s \<Rightarrow> (Inr s, schemas)
      | None \<Rightarrow>
          (case load schema_path of
             Inl e \<Rightarrow> (Inl e, schemas)
           | Inr s \<Rightarrow> (Inr s, dput schema_path s schemas)))"

definition avro_deserialize ::
  "('v, 's, 'm) codec_lib \<Rightarrow> (string \<Rightarrow> 's res) \<Rightarrow> 's avro_deserializer \<Rightarrow> byte list \<Rightarrow> message_field
     \<Rightarrow> pyval res \<times> 's avro_deserializer" where
  "avro_deserialize lib load d data context =
     (case rbind (require_context context) (\<lambda>_.
             case dget (ad_config d) (if context = KEY then ''key'' else ''value'') of
               None \<Rightarrow> Inl (DeserializationError (''Avro schema was not provided for context '' @ upper (field_str context)))
             | Some path \<Rightarrow> rbind (local_payload data (ad_config d) context ''Avro'') (\<lambda>payload. Inr (path, payload))) of
        Inl e \<Rightarrow> (Inl e, d)
      | Inr (path, payload) \<Rightarrow>
          (case avro_schema_at load path (ad_schemas d) of
             (Inl e, schemas) \<Rightarrow> (Inl e, d\<lparr>ad_schemas := schemas\<rparr>)
           | (Inr s, schemas) \<Rightarrow>
               (deserialize_avro (cl_show_exn lib) (cl_read_avro lib s payload), d\<lparr>ad_schemas := schemas\<rparr>)))"

record 'm protobuf_deserializer =
  pd_config :: config
  pd_classes :: "(string, 'm) pydict option"

definition protobuf_new :: "config \<Rightarrow> 'm protobuf_deserializer" where
  "protobuf_new config = \<lparr>pd_config = config, pd_classes = None\<rparr>"

definition protobuf_class ::
  "(config \<Rightarrow> (string, 'm) pydict res) \<Rightarrow> 'm protobuf_deserializer \<Rightarrow> message_field
     \<Rightarrow> 'm res \<times> 'm protobuf_deserializer" where
  "protobuf_class load d context =
     (case dget (pd_config d) (if context = KEY then ''key'' else ''value'') of
        None \<Rightarrow> (Inl (DeserializationError (''Protobuf message name not provided for context '' @ upper (field_str context))), d)
      | Some class_name \<Rightarrow>
          if \<not> din ''descriptor'' (pd_config d) \<and> \<not> din ''source'' (pd_config d)
          then (Inl (DeserializationError ''Descriptor not found''), d)
          else
            (let find = (\<lambda>classes d'. case dget classes class_name of
                   None \<Rightarrow> (Inl (DeserializationError ''Deserialization class not found''), d')
                 | Some m \<Rightarrow> (Inr m, d')) in
             case pd_classes d of
               Some classes \<Rightarrow> find classes d
             | None \<Rightarrow>
                 (case load (pd_config d) of
                    Inl e \<Rightarrow> (Inl e, d)
                  | Inr classes \<Rightarrow> find classes (d\<lparr>pd_classes := Some classes\<rparr>))))"

definition protobuf_deserialize ::
  "('v, 's, 'm) codec_lib \<Rightarrow> (config \<Rightarrow> (string, 'm) pydict res) \<Rightarrow> 'm protobuf_deserializer \<Rightarrow> byte list
     \<Rightarrow> string option \<Rightarrow> message_field \<Rightarrow> pyval res \<times> 'm protobuf_deserializer" where
  "protobuf_deserialize lib load d data topic context =
     (case require_field topic context of
        Inl e \<Rightarrow> (Inl e, d)
      | Inr t \<Rightarrow>
          (case protobuf_class load d context of
             (Inl e, d') \<Rightarrow> (Inl e, d')
           | (Inr m, d') \<Rightarrow>
               (let framing = scoped_property (pd_config d) ''framing'' context ''raw'' in
                (if framing = CONFLUENT_OPTION then cl_confluent_protobuf lib m data t context
                 else if framing = APICURIO_OPTION then
                   rbind (local_payload data (pd_config d) context ''Protobuf'') (\<lambda>framed.
                     rbind (parse_type_ref framed) (\<lambda>(_, payload). cl_parse_message lib m payload))
                 else if framing = ''raw'' then cl_parse_message lib m data
                 else Inl (DeserializationError (''Unsupported Protobuf framing: '' @ framing)), d'))))"

section \<open>Confluent Registry\<close>

definition minimum_length :: nat where "minimum_length = SCHEMA_REGISTRY_HEADER_SIZE + 1"

definition confluent_frame :: "byte list \<Rightarrow> string option \<Rightarrow> message_field \<Rightarrow> (string \<times> int) res" where
  "confluent_frame data topic context =
     rbind (require_field topic context) (\<lambda>t.
     if length data < minimum_length
     then Inl (DeserializationError (''Expecting data framing of length '' @ show_nat minimum_length
            @ '' bytes or more but total data size is '' @ show_nat (length data)
            @ '' bytes. This message was not produced with a Confluent Schema Registry serializer''))
     else rbind (registry_header data) (\<lambda>(magic, schema_id).
       if magic \<noteq> SCHEMA_REGISTRY_MAGIC_BYTE
       then Inl (DeserializationError (''Unexpected magic byte '' @ show_int magic
              @ ''. This message was not produced with a Confluent Schema Registry serializer''))
       else Inr (t, schema_id)))"

text \<open>The state: the schemas by ID, the metadata cache, and the state of the Registry client.\<close>

type_synonym metadata_cache = "(int \<times> string \<times> message_field, confluent_schema option) pydict"

record 'c confluent_state =
  co_schemas :: "'c schemas_state"
  co_metadata :: metadata_cache

record ('m, 'c) confluent_lib =
  cf_client :: "'c registry_client"
  cf_schema_versions :: "int \<Rightarrow> (string option \<times> int option) list res"
  cf_json :: "byte list \<Rightarrow> string \<Rightarrow> message_field \<Rightarrow> pyval res"
  cf_avro :: "byte list \<Rightarrow> string \<Rightarrow> message_field \<Rightarrow> pyval res"
  cf_descriptors :: "int \<Rightarrow> file_descriptor res"
  cf_find_message :: "file_descriptor \<Rightarrow> string \<Rightarrow> 'm res"

definition confluent_schema_of ::
  "('m, 'c) confluent_lib \<Rightarrow> 'c confluent_state \<Rightarrow> byte list \<Rightarrow> string option \<Rightarrow> message_field
     \<Rightarrow> (string \<times> int \<times> schema_type) res \<times> 'c confluent_state" where
  "confluent_schema_of cf st data topic context =
     (case confluent_frame data topic context of
        Inl e \<Rightarrow> (Inl e, st)
      | Inr (t, schema_id) \<Rightarrow>
          (case confluent_schema_type (cf_client cf) schema_id (co_schemas st) of
             (Inl e, schemas) \<Rightarrow> (Inl e, st\<lparr>co_schemas := schemas\<rparr>)
           | (Inr ty, schemas) \<Rightarrow> (Inr (t, schema_id, ty), st\<lparr>co_schemas := schemas\<rparr>)))"

definition confluent_content ::
  "('v, 's, 'm) codec_lib \<Rightarrow> ('m, 'c) confluent_lib \<Rightarrow> byte list \<Rightarrow> string \<Rightarrow> message_field \<Rightarrow> int \<Rightarrow> schema_type
     \<Rightarrow> pyval res" where
  "confluent_content lib cf data topic context schema_id ty =
     (case ty of
        ST_JSON \<Rightarrow> cf_json cf data topic context
      | ST_AVRO \<Rightarrow> deserialize_avro (cl_show_exn lib) (cf_avro cf data topic context)
      | ST_PROTOBUF \<Rightarrow>
          rbind (cf_descriptors cf schema_id) (\<lambda>descriptor.
          rbind (parse_message_indexes (drop SCHEMA_REGISTRY_HEADER_SIZE data)) (\<lambda>(indexes, payload).
          rbind (message_name descriptor indexes) (\<lambda>name.
          rbind (cf_find_message cf descriptor name) (\<lambda>m. cl_parse_message lib m payload)))))"

text \<open>A registration is named when its subject and version are both known.\<close>

fun named_registrations :: "(string option \<times> int option) list \<Rightarrow> (string \<times> int) list" where
  "named_registrations [] = []"
| "named_registrations ((Some s, Some v) # rs) = (s, v) # named_registrations rs"
| "named_registrations (r # rs) = named_registrations rs"

definition only :: "'a list \<Rightarrow> 'a option" where
  "only xs = (if length xs = 1 then Some (hd xs) else None)"

definition conventional_name :: "string \<Rightarrow> message_field \<Rightarrow> string" where
  "conventional_name topic context = topic @ ''-'' @ field_str context"

definition confluent_select ::
  "int \<Rightarrow> schema_type \<Rightarrow> string \<Rightarrow> message_field \<Rightarrow> (string option \<times> int option) list \<Rightarrow> confluent_schema option" where
  "confluent_select schema_id ty topic context registrations =
     (let candidates = named_registrations registrations;
          selected = (case only candidates of
            Some r \<Rightarrow> Some r
          | None \<Rightarrow> only (filter (\<lambda>(s, v). s = conventional_name topic context) candidates)) in
      map_option (\<lambda>(s, v). \<lparr>cs_id = schema_id, cs_subject = s, cs_version = v, cs_type = schema_type_value ty\<rparr>) selected)"

definition confluent_metadata ::
  "('m, 'c) confluent_lib \<Rightarrow> int \<Rightarrow> schema_type \<Rightarrow> string \<Rightarrow> message_field \<Rightarrow> metadata_cache
     \<Rightarrow> confluent_schema option res \<times> metadata_cache" where
  "confluent_metadata cf schema_id ty topic context cache =
     (let key = (schema_id, topic, context) in
      case dget cache key of
        Some result \<Rightarrow> (Inr result, cache)
      | None \<Rightarrow>
          (case cf_schema_versions cf schema_id of
             Inr registrations \<Rightarrow>
               (let result = confluent_select schema_id ty topic context registrations in
                (Inr result, dput key result cache))
           | Inl e \<Rightarrow>
               if schema_metadata_exception e then (Inr None, dput key None cache) else (Inl e, cache)))"

definition confluent_deserialize ::
  "('v, 's, 'm) codec_lib \<Rightarrow> ('m, 'c) confluent_lib \<Rightarrow> 'c confluent_state \<Rightarrow> byte list \<Rightarrow> string option
     \<Rightarrow> message_field \<Rightarrow> pyval res \<times> 'c confluent_state" where
  "confluent_deserialize lib cf st data topic context =
     (case confluent_schema_of cf st data topic context of
        (Inl e, st') \<Rightarrow> (Inl e, st')
      | (Inr (t, schema_id, ty), st') \<Rightarrow> (confluent_content lib cf data t context schema_id ty, st'))"

definition confluent_deserialize_with_metadata ::
  "('v, 's, 'm) codec_lib \<Rightarrow> ('m, 'c) confluent_lib \<Rightarrow> 'c confluent_state \<Rightarrow> byte list \<Rightarrow> string option
     \<Rightarrow> message_field \<Rightarrow> (pyval \<times> confluent_schema option) res \<times> 'c confluent_state" where
  "confluent_deserialize_with_metadata lib cf st data topic context =
     (case confluent_schema_of cf st data topic context of
        (Inl e, st') \<Rightarrow> (Inl e, st')
      | (Inr (t, schema_id, ty), st') \<Rightarrow>
          (case confluent_content lib cf data t context schema_id ty of
             Inl e \<Rightarrow> (Inl e, st')
           | Inr content \<Rightarrow>
               (case confluent_metadata cf schema_id ty t context (co_metadata st') of
                  (Inl e, cache) \<Rightarrow> (Inl e, st'\<lparr>co_metadata := cache\<rparr>)
                | (Inr schema, cache) \<Rightarrow> (Inr (content, schema), st'\<lparr>co_metadata := cache\<rparr>))))"

section \<open>Apicurio Registry\<close>

definition apicurio_frame :: "byte list \<Rightarrow> string option \<Rightarrow> message_field \<Rightarrow> (string \<times> int \<times> byte list) res" where
  "apicurio_frame data topic context =
     rbind (require_field topic context) (\<lambda>t.
     if length data \<le> SCHEMA_REGISTRY_HEADER_SIZE
     then Inl (DeserializationError (''Expecting Apicurio data framing of length '' @ show_nat minimum_length
            @ '' bytes or more but total data size is '' @ show_nat (length data) @ '' bytes''))
     else rbind (registry_header data) (\<lambda>(magic, artifact_id).
       if magic \<noteq> SCHEMA_REGISTRY_MAGIC_BYTE
       then Inl (DeserializationError (''Unexpected Apicurio magic byte: '' @ show_int magic))
       else Inr (t, artifact_id, drop SCHEMA_REGISTRY_HEADER_SIZE data)))"

record ('v, 's, 'm) apicurio_lib =
  al_get_artifact :: "int \<Rightarrow> apicurio_artifact res"
  al_json_validator :: "apicurio_artifact \<Rightarrow> 'v res"
  al_avro_schema :: "apicurio_artifact \<Rightarrow> 's res"
  al_descriptors :: "apicurio_artifact \<Rightarrow> file_descriptor res"
  al_find_message :: "file_descriptor \<Rightarrow> utext \<Rightarrow> 'm res"
  al_first_message :: "file_descriptor \<Rightarrow> 'm res"
  al_metadata :: "int \<Rightarrow> (string, string) pydict list res"

text \<open>A JSON payload may follow a type reference; when the rest is not JSON the whole payload is read.
  \<open>JSONDecodeError\<close> and \<open>UnicodeDecodeError\<close> are value errors.\<close>

definition apicurio_json ::
  "('v, 's, 'm) codec_lib \<Rightarrow> ('v, 's, 'm) apicurio_lib \<Rightarrow> apicurio_artifact \<Rightarrow> byte list \<Rightarrow> pyval res" where
  "apicurio_json lib al artifact payload =
     rbind (parse_type_ref payload) (\<lambda>(_, json_payload).
     rbind (case cl_json_loads lib json_payload of
              Inl e \<Rightarrow> if is_value_error e then cl_json_loads lib payload else Inl e
            | Inr content \<Rightarrow> Inr content) (\<lambda>content.
     rbind (al_json_validator al artifact) (\<lambda>validator.
     rbind (cl_validation_error lib validator content) (\<lambda>err.
       case err of None \<Rightarrow> Inr content | Some m \<Rightarrow> Inl (DeserializationError m)))))"

definition apicurio_protobuf ::
  "('v, 's, 'm) codec_lib \<Rightarrow> ('v, 's, 'm) apicurio_lib \<Rightarrow> apicurio_artifact \<Rightarrow> byte list \<Rightarrow> pyval res" where
  "apicurio_protobuf lib al artifact payload =
     rbind (al_descriptors al artifact) (\<lambda>descriptor.
     rbind (parse_type_ref payload) (\<lambda>(name, message_payload).
       case name of
         None \<Rightarrow> rbind (al_first_message al descriptor) (\<lambda>m. cl_parse_message lib m payload)
       | Some n \<Rightarrow> rbind (al_find_message al descriptor n) (\<lambda>m. cl_parse_message lib m message_payload)))"

definition apicurio_content ::
  "('v, 's, 'm) codec_lib \<Rightarrow> ('v, 's, 'm) apicurio_lib \<Rightarrow> apicurio_artifact \<Rightarrow> byte list \<Rightarrow> pyval res" where
  "apicurio_content lib al artifact payload =
     (case schema_type_of (aa_type artifact) of
        Some ST_JSON \<Rightarrow> apicurio_json lib al artifact payload
      | Some ST_AVRO \<Rightarrow>
          rbind (al_avro_schema al artifact) (\<lambda>schema.
            deserialize_avro (cl_show_exn lib) (cl_read_avro lib schema payload))
      | Some ST_PROTOBUF \<Rightarrow> apicurio_protobuf lib al artifact payload
      | None \<Rightarrow> Inl (DeserializationError ''Schema type not supported''))"

definition apicurio_selected :: "string \<Rightarrow> message_field \<Rightarrow> (string, string) pydict list \<Rightarrow> (string, string) pydict option" where
  "apicurio_selected topic context registrations =
     (let candidates = filter (\<lambda>v. truthy (dget v ''artifactId'') \<and> truthy (dget v ''version'')) registrations in
      case only (filter (\<lambda>v. dget v ''artifactId'' = Some (conventional_name topic context)) candidates) of
        Some v \<Rightarrow> Some v
      | None \<Rightarrow> only candidates)"

definition apicurio_metadata ::
  "('v, 's, 'm) apicurio_lib \<Rightarrow> apicurio_artifact \<Rightarrow> string \<Rightarrow> message_field \<Rightarrow> apicurio_schema res" where
  "apicurio_metadata al artifact topic context =
     (let bare = \<lparr>as_id = aa_id artifact, as_id_kind = aa_id_kind artifact, as_type = aa_type artifact,
                  as_group = None, as_artifact = None, as_version = None\<rparr> in
      case al_metadata al (aa_id artifact) of
        Inl e \<Rightarrow> if schema_metadata_exception e then Inr bare else Inl e
      | Inr registrations \<Rightarrow>
          Inr (case apicurio_selected topic context registrations of
                 None \<Rightarrow> bare
               | Some v \<Rightarrow> bare\<lparr>as_group := Some (if truthy (dget v ''groupId'') then dget_or v ''groupId'' [] else ''default''),
                     as_artifact := dget v ''artifactId'', as_version := dget v ''version''\<rparr>))"

definition apicurio_deserialize ::
  "('v, 's, 'm) codec_lib \<Rightarrow> ('v, 's, 'm) apicurio_lib \<Rightarrow> byte list \<Rightarrow> string option \<Rightarrow> message_field \<Rightarrow> pyval res" where
  "apicurio_deserialize lib al data topic context =
     rbind (apicurio_frame data topic context) (\<lambda>(t, artifact_id, payload).
     rbind (al_get_artifact al artifact_id) (\<lambda>artifact. apicurio_content lib al artifact payload))"

definition apicurio_deserialize_with_metadata ::
  "('v, 's, 'm) codec_lib \<Rightarrow> ('v, 's, 'm) apicurio_lib \<Rightarrow> byte list \<Rightarrow> string option \<Rightarrow> message_field
     \<Rightarrow> (pyval \<times> apicurio_schema) res" where
  "apicurio_deserialize_with_metadata lib al data topic context =
     rbind (apicurio_frame data topic context) (\<lambda>(t, artifact_id, payload).
     rbind (al_get_artifact al artifact_id) (\<lambda>artifact.
     rbind (apicurio_content lib al artifact payload) (\<lambda>content.
     rbind (apicurio_metadata al artifact t context) (\<lambda>schema. Inr (content, schema)))))"

section \<open>The pool\<close>

datatype registry_backend = ConfluentBackend config | ApicurioBackend apicurio_config

text \<open>The constructors of the Registry clients, \<open>SchemaRegistryClient\<close> and \<open>ApicurioClient\<close>, may raise.\<close>

record registry_clients =
  rc_confluent :: "config \<Rightarrow> unit res"
  rc_apicurio :: "apicurio_config \<Rightarrow> unit res"

definition confluent_deserializer_new :: "registry_clients \<Rightarrow> config \<Rightarrow> registry_backend res" where
  "confluent_deserializer_new clients registry_config =
     (let confluent_config = ddel ''provider'' registry_config in
      map_sum id (\<lambda>_. ConfluentBackend confluent_config) (rc_confluent clients confluent_config))"

definition registry_deserializer_new ::
  "cli_env \<Rightarrow> registry_clients \<Rightarrow> config \<Rightarrow> apicurio_config option \<Rightarrow> registry_backend res" where
  "registry_deserializer_new env clients registry_config apicurio_config =
     (let provider = lower (dget_or registry_config ''provider'' CONFLUENT_OPTION) in
      if provider = CONFLUENT_OPTION then confluent_deserializer_new clients registry_config
      else if provider = APICURIO_OPTION then
        rbind (case apicurio_config of
                 Some c \<Rightarrow> Inr c
               | None \<Rightarrow> apicurio_from_dict (env_parse_url env) (env_load_cert env) registry_config)
          (\<lambda>c. map_sum id (\<lambda>_. ApicurioBackend c) (rc_apicurio clients c))
      else Inl (DeserializationError (''Unsupported registry provider: '' @ provider @ ''; expected one of ''
             @ py_list REGISTRY_PROVIDERS)))"

record pool =
  pool_registry :: "registry_backend option"
  pool_avro :: "config option"
  pool_protobuf :: "config option"
  pool_json :: config

definition pool_new :: "cli_env \<Rightarrow> registry_clients \<Rightarrow> option_configs \<Rightarrow> pool res" where
  "pool_new env clients o1 =
     rbind (if oc_registry o1 = [] then Inr None
            else map_sum id Some (registry_deserializer_new env clients (oc_registry o1) (oc_apicurio o1))) (\<lambda>registry.
     rbind (json_new (env_load_json_schema env) (oc_json o1)) (\<lambda>_.
     Inr \<lparr>pool_registry = registry,
          pool_avro = (if oc_avro o1 = [] then None else Some (oc_avro o1)),
          pool_protobuf = (if oc_protobuf o1 = [] then None else Some (oc_protobuf o1)),
          pool_json = oc_json o1\<rparr>))"

definition pool_get :: "pool \<Rightarrow> format \<Rightarrow> unit res" where
  "pool_get p f =
     (case f of
        F_REGISTRY \<Rightarrow> raise_if (pool_registry p = None) (DeserializationError ''Schema Registry is not configured'')
      | F_AVRO \<Rightarrow> raise_if (pool_avro p = None) (DeserializationError ''Avro is not configured'')
      | F_PROTOBUF \<Rightarrow> raise_if (pool_protobuf p = None) (DeserializationError ''Protobuf is not configured'')
      | _ \<Rightarrow> Inr ())"

section \<open>Lemmas\<close>

lemma avro_schema_at_fetch: "avro_schema_at load path schemas = dict_memo.fetch load path schemas"
  by (simp add: avro_schema_at_def dict_memo.fetch_def dict_memo_get_def dict_memo_put_def split: option.split sum.split)

text \<open>The schema cache is transparent: a coherent cache answers what loading the file would.\<close>

lemma avro_schema_at_transparent:
  "dict_memo.coherent load schemas \<Longrightarrow> fst (avro_schema_at load path schemas) = load path \<and>
     dict_memo.coherent load (snd (avro_schema_at load path schemas))"
  unfolding avro_schema_at_fetch using dict_memo.fetch_transparent[where c = schemas and f = load and k = path] by simp

lemma confluent_metadata_total:
  assumes "\<forall>i e. cf_schema_versions cf i = Inl e \<longrightarrow> schema_metadata_exception e"
  shows "\<exists>r cache'. confluent_metadata cf schema_id ty topic context cache = (Inr r, cache')"
  using assms by (auto simp: confluent_metadata_def Let_def split: option.split sum.split)

lemma providers_lower: "p \<in> set REGISTRY_PROVIDERS \<Longrightarrow> lower p = p"
  by (auto simp: REGISTRY_PROVIDERS_def APICURIO_OPTION_def CONFLUENT_OPTION_def lower_def lower_char_def code_def)

lemma provider_options: "CONFLUENT_OPTION \<noteq> APICURIO_OPTION" "lower CONFLUENT_OPTION = CONFLUENT_OPTION"
  by (simp_all add: APICURIO_OPTION_def CONFLUENT_OPTION_def lower_def lower_char_def code_def)

lemma schema_error_as_parameter_Inr: "schema_error_as_parameter r = Inr x \<longleftrightarrow> r = Inr x"
  by (induction r rule: schema_error_as_parameter.induct) auto

lemma check_schema_files_Inr:
  "check_schema_files env config load = Inr u \<Longrightarrow> dget config n = Some path \<Longrightarrow> n = ''key'' \<or> n = ''value'' \<Longrightarrow> load path = Inr ()"
  by (auto simp: check_schema_files_def res_simps schema_error_as_parameter_Inr split: option.splits)

lemma validated_json_schemas:
  assumes "normalize_json env c k v valid = Inr n"
  shows "\<exists>d. json_new (env_load_json_schema env) n = Inr d"
proof (cases "c = []")
  case True
  then show ?thesis using assms by (simp add: normalize_json_def json_new_def)
next
  case False
  then have "check_schema_files env n (env_load_json_schema env) = Inr ()"
    using assms by (auto simp: normalize_json_def res_simps)
  then show ?thesis
    using check_schema_files_Inr[of env n "env_load_json_schema env" "()" "''key''"]
      check_schema_files_Inr[of env n "env_load_json_schema env" "()" "''value''"]
    by (auto simp: json_new_def Let_def split: option.split)
qed

lemma normalize_registry_backend:
  assumes "normalize_registry env config k v = Inr (n, a)" and "config \<noteq> []"
  shows "n \<noteq> [] \<and> (case registry_deserializer_new env clients n a of
      Inl e \<Rightarrow> rc_confluent clients (ddel ''provider'' n) = Inl e \<or> (\<exists>c. a = Some c \<and> rc_apicurio clients c = Inl e)
    | Inr _ \<Rightarrow> True)"
proof -
  let ?p = "lower (dget_or config ''provider'' CONFLUENT_OPTION)"
  have p: "?p \<in> set REGISTRY_PROVIDERS"
    using assms by (auto simp: normalize_registry_def Let_def res_simps split: if_splits)
  have n: "n = (if din ''provider'' config then dput ''provider'' ?p config else config)"
    and a: "?p = APICURIO_OPTION \<Longrightarrow> \<exists>c. a = Some c"
    using assms p provider_options(1)
    by (auto simp: normalize_registry_def Let_def res_simps split: if_splits)
  have "dget_or n ''provider'' CONFLUENT_OPTION = (if din ''provider'' config then ?p else CONFLUENT_OPTION)"
    by (auto simp: n dget_or_def dict_simps split: option.split)
  moreover have "\<not> din ''provider'' config \<Longrightarrow> ?p = CONFLUENT_OPTION"
    by (simp add: dget_or_def din_iff_get provider_options)
  ultimately have "lower (dget_or n ''provider'' CONFLUENT_OPTION) = ?p"
    using p by (simp add: providers_lower provider_options)
  then have "case registry_deserializer_new env clients n a of
      Inl e \<Rightarrow> rc_confluent clients (ddel ''provider'' n) = Inl e \<or> (\<exists>c. a = Some c \<and> rc_apicurio clients c = Inl e)
    | Inr _ \<Rightarrow> True"
    using p a provider_options(1)
    by (auto simp: registry_deserializer_new_def confluent_deserializer_new_def Let_def REGISTRY_PROVIDERS_def res_simps split: sum.split)
  moreover have "n \<noteq> []" using n assms(2) by (cases config) auto
  ultimately show ?thesis by simp
qed

lemma pool_get_configured:
  assumes "normalize_deserializer_options env k v o1 = Inr opts" and "pool_new env clients opts = Inr p"
    and "f = k \<or> f = v"
  shows "pool_get p f = Inr ()"
proof -
  have req: "require_configured (oc_registry o1) (oc_avro o1) (oc_protobuf o1) k v = Inr ()"
    using assms(1) by (auto simp: normalize_deserializer_options_def res_simps)
  have reg: "normalize_registry env (oc_registry o1) k v = Inr (oc_registry opts, oc_apicurio opts)"
    using assms(1) by (auto simp: normalize_deserializer_options_def res_simps)
  have avro: "normalize_avro env (oc_avro o1) k v = Inr (oc_avro opts)"
    and proto: "normalize_protobuf env (oc_protobuf o1) k v = Inr (oc_protobuf opts)"
    using assms(1) by (auto simp: normalize_deserializer_options_def res_simps)
  have used: "f = F_AVRO \<Longrightarrow> oc_avro o1 \<noteq> []" "f = F_REGISTRY \<Longrightarrow> oc_registry o1 \<noteq> []"
    "f = F_PROTOBUF \<Longrightarrow> oc_protobuf o1 \<noteq> []"
    using req assms(3) by (auto simp: require_configured_def res_simps)
  have "oc_avro o1 \<noteq> [] \<Longrightarrow> oc_avro opts \<noteq> []"
    using avro by (auto simp: normalize_avro_def res_simps dest!: normalize_choices_keys)
  moreover have "oc_protobuf o1 \<noteq> [] \<Longrightarrow> oc_protobuf opts \<noteq> []"
    using proto by (auto simp: normalize_protobuf_def res_simps dest!: normalize_choices_keys)
  moreover have "oc_registry o1 \<noteq> [] \<Longrightarrow> oc_registry opts \<noteq> []"
    using normalize_registry_backend[OF reg] by simp
  ultimately show ?thesis
    using assms(2) used by (cases f) (auto simp: pool_get_def pool_new_def res_simps split: if_splits)
qed

text \<open>The client of the Registry refused its properties.\<close>

definition client_refused :: "registry_clients \<Rightarrow> option_configs \<Rightarrow> exn \<Rightarrow> bool" where
  "client_refused clients opts e \<longleftrightarrow> oc_registry opts \<noteq> [] \<and>
     (rc_confluent clients (ddel ''provider'' (oc_registry opts)) = Inl e \<or>
      (\<exists>c. oc_apicurio opts = Some c \<and> rc_apicurio clients c = Inl e))"

lemma validated_pool:
  assumes "normalize_deserializer_options env k v o1 = Inr opts"
  shows "case pool_new env clients opts of
      Inl e \<Rightarrow> client_refused clients opts e
    | Inr p \<Rightarrow> pool_get p k = Inr () \<and> pool_get p v = Inr () \<and> pool_get p F_STRING = Inr ()"
proof (cases "pool_new env clients opts")
  case (Inl e)
  have reg: "normalize_registry env (oc_registry o1) k v = Inr (oc_registry opts, oc_apicurio opts)"
    and json: "normalize_json env (oc_json o1) k v JSON_DESERIALIZER_CONFIGS = Inr (oc_json opts)"
    using assms by (auto simp: normalize_deserializer_options_def res_simps)
  have "oc_registry opts \<noteq> [] \<Longrightarrow> oc_registry o1 \<noteq> []" using reg by (auto simp: normalize_registry_def)
  then show ?thesis
    using Inl validated_json_schemas[OF json] normalize_registry_backend[OF reg, of clients]
    by (cases "oc_registry opts = []") (auto simp: pool_new_def client_refused_def res_simps split: sum.splits)
next
  case (Inr p)
  then show ?thesis using pool_get_configured[OF assms Inr] by (simp add: pool_get_def)
qed

section \<open>Properties\<close>

text \<open>C13: options the CLI accepts leave one reason why the consumer's deserializers cannot be built: the constructor of
  the Registry's client refuses its properties (for Confluent a missing or invalid URL or an unknown
  property, which the options are not checked for). Otherwise, and always without a Registry, the
  pool is built, its provider supported and its JSON schemas found, and it has the deserializer of the
  key's, of the value's and of the headers' format.\<close>

theorem validated_options_deserialize:
  assumes "normalize_deserializer_options env k v o1 = Inr opts"
  shows "case pool_new env clients opts of
      Inl e \<Rightarrow> oc_registry opts \<noteq> [] \<and> client_refused clients opts e
    | Inr p \<Rightarrow> (oc_registry opts \<noteq> [] \<longrightarrow> pool_registry p \<noteq> None) \<and>
        pool_get p k = Inr () \<and> pool_get p v = Inr () \<and> pool_get p F_STRING = Inr ()"
  using validated_pool[OF assms, of clients]
  by (cases "pool_new env clients opts") (auto simp: client_refused_def pool_new_def res_simps split: if_splits)

definition sample_env :: cli_env where
  "sample_env =
     \<lparr>env_path_exists = (\<lambda>_. True), env_path_is_dir = (\<lambda>_. False), env_load_json_schema = (\<lambda>_. Inr ()),
      env_load_avro_schema = (\<lambda>_. Inr ()), env_load_message_classes = (\<lambda>_. Inr [''M'']),
      env_parse_url = (\<lambda>_. Inr (''http'', True)), env_load_cert = (\<lambda>_. Inr ()), env_show_exn = (\<lambda>_. [])\<rparr>"

definition sample_options :: option_configs where
  "sample_options =
     \<lparr>oc_registry = [(''url'', ''http://r''), (''provider'', ''Confluent'')], oc_apicurio = None, oc_protobuf = [],
      oc_avro = [(''key'', ''k.avsc''), (''key.framing'', ''RAW'')], oc_json = [], oc_bytes = [], oc_fallback = []\<rparr>"

text \<open>A client that needs a URL: accepted options that have one build the pool, and accepted options without one do not.\<close>

definition sample_clients :: registry_clients where
  "sample_clients =
     \<lparr>rc_confluent = (\<lambda>config. if din ''url'' config then Inr () else Inl (ValueError ''Missing required configuration property url'')),
      rc_apicurio = (\<lambda>_. Inr ())\<rparr>"

lemma sample_options_accepted:
  "normalize_deserializer_options sample_env F_AVRO F_REGISTRY sample_options =
     Inr (sample_options\<lparr>oc_registry := [(''url'', ''http://r''), (''provider'', ''confluent'')],
       oc_avro := [(''key'', ''k.avsc''), (''key.framing'', ''raw'')]\<rparr>)"
  by code_simp

lemma options_without_url_accepted:
  "normalize_deserializer_options sample_env F_AVRO F_REGISTRY (sample_options\<lparr>oc_registry := [(''basic.auth.user.info'', ''property'')]\<rparr>) =
     Inr (sample_options\<lparr>oc_registry := [(''basic.auth.user.info'', ''property'')], oc_avro := [(''key'', ''k.avsc''), (''key.framing'', ''raw'')]\<rparr>)"
  by code_simp

theorem validated_options_deserialize_witness:
  "(\<exists>p. pool_new sample_env sample_clients (sample_options\<lparr>oc_registry := [(''url'', ''http://r''), (''provider'', ''confluent'')],
       oc_avro := [(''key'', ''k.avsc''), (''key.framing'', ''raw'')]\<rparr>) = Inr p \<and> pool_get p F_REGISTRY = Inr ()) \<and>
   pool_new sample_env sample_clients (sample_options\<lparr>oc_registry := [(''basic.auth.user.info'', ''property'')],
       oc_avro := [(''key'', ''k.avsc''), (''key.framing'', ''raw'')]\<rparr>) = Inl (ValueError ''Missing required configuration property url'')"
proof -
  have "\<not> client_refused sample_clients (sample_options\<lparr>oc_registry := [(''url'', ''http://r''), (''provider'', ''confluent'')],
       oc_avro := [(''key'', ''k.avsc''), (''key.framing'', ''raw'')]\<rparr>) e" for e
    by (simp add: client_refused_def sample_clients_def sample_options_def din_def)
  moreover have "pool_new sample_env sample_clients (sample_options\<lparr>oc_registry := [(''basic.auth.user.info'', ''property'')],
       oc_avro := [(''key'', ''k.avsc''), (''key.framing'', ''raw'')]\<rparr>) = Inl (ValueError ''Missing required configuration property url'')"
    by code_simp
  ultimately show ?thesis
    using validated_options_deserialize[OF sample_options_accepted, of sample_clients] by (auto split: sum.splits)
qed

text \<open>Looking up a schema's name never changes what a record shows: with the metadata errors
  the Registry clients raise, reading content together with its metadata gives exactly the content,
  or exactly the error, of reading the content alone, for both providers.\<close>

theorem metadata_never_breaks_content:
  assumes "\<forall>i e. cf_schema_versions cf i = Inl e \<longrightarrow> schema_metadata_exception e"
    and "\<forall>i e. al_metadata al i = Inl e \<longrightarrow> schema_metadata_exception e"
  shows "map_sum id fst (fst (confluent_deserialize_with_metadata lib cf st data topic context)) =
      fst (confluent_deserialize lib cf st data topic context) \<and>
    map_sum id fst (apicurio_deserialize_with_metadata lib al data topic context) =
      apicurio_deserialize lib al data topic context"
proof
  obtain r st' where r: "confluent_schema_of cf st data topic context = (r, st')"
    by (cases "confluent_schema_of cf st data topic context")
  show "map_sum id fst (fst (confluent_deserialize_with_metadata lib cf st data topic context)) =
      fst (confluent_deserialize lib cf st data topic context)"
  proof (cases r)
    case (Inr x)
    obtain t i ty where x: "x = (t, i, ty)" by (cases x)
    obtain m c where m: "confluent_metadata cf i ty t context (co_metadata st') = (Inr m, c)"
      using confluent_metadata_total[OF assms(1)] by blast
    show ?thesis
      by (simp add: confluent_deserialize_with_metadata_def confluent_deserialize_def r Inr x m split: sum.split)
  qed (simp add: confluent_deserialize_with_metadata_def confluent_deserialize_def r)
  have m: "apicurio_metadata al artifact t context \<noteq> Inl e" for artifact t e
    using assms(2) by (auto simp: apicurio_metadata_def Let_def split: sum.split)
  show "map_sum id fst (apicurio_deserialize_with_metadata lib al data topic context) =
      apicurio_deserialize lib al data topic context"
    unfolding apicurio_deserialize_with_metadata_def apicurio_deserialize_def
    by (cases "apicurio_frame data topic context")
      (auto simp: m rbind_def split: sum.split prod.split)
qed

definition sample_codec :: "(unit, unit, unit) codec_lib" where
  "sample_codec =
     \<lparr>cl_json_loads = (\<lambda>b. Inr (PBytes b)), cl_validation_error = (\<lambda>_ _. Inr None), cl_read_avro = (\<lambda>_ b. Inr (PBytes b)),
      cl_parse_message = (\<lambda>_ b. Inr (PBytes b)), cl_confluent_protobuf = (\<lambda>_ b _ _. Inr (PBytes b)), cl_show_exn = (\<lambda>_. [])\<rparr>"

definition sample_confluent :: "(unit, (int, reg_schema) pydict) confluent_lib" where
  "sample_confluent =
     \<lparr>cf_client = caching_client, cf_schema_versions = (\<lambda>_. Inl (SchemaRegistryError 404 ''not found'')),
      cf_json = (\<lambda>b _ _. Inr (PBytes b)), cf_avro = (\<lambda>b _ _. Inr (PBytes b)),
      cf_descriptors = (\<lambda>_. Inr \<lparr>fd_name = ''default'', fd_package = [], fd_messages = [Message ''M'' []], fd_dependency = []\<rparr>),
      cf_find_message = (\<lambda>_ _. Inr ())\<rparr>"

definition sample_apicurio_lib :: "(unit, unit, unit) apicurio_lib" where
  "sample_apicurio_lib =
     \<lparr>al_get_artifact = (\<lambda>i. Inr \<lparr>aa_id = i, aa_id_kind = ''contentId'', aa_content = [], aa_type = ''AVRO'', aa_references = []\<rparr>),
      al_json_validator = (\<lambda>_. Inr ()), al_avro_schema = (\<lambda>_. Inr ()),
      al_descriptors = (\<lambda>_. Inr \<lparr>fd_name = [], fd_package = [], fd_messages = [], fd_dependency = []\<rparr>),
      al_find_message = (\<lambda>_ _. Inr ()), al_first_message = (\<lambda>_. Inr ()),
      al_metadata = (\<lambda>_. Inl (ApicurioRegistryError None ''down''))\<rparr>"

theorem metadata_never_breaks_content_witness:
  "map_sum id fst (fst (confluent_deserialize_with_metadata sample_codec sample_confluent
      \<lparr>co_schemas = ([], []), co_metadata = []\<rparr> [0, 0, 0, 0, 7, 0, 9] (Some ''t'') VALUE)) = Inr (PBytes [9]) \<and>
   map_sum id fst (apicurio_deserialize_with_metadata sample_codec sample_apicurio_lib [0, 0, 0, 0, 7, 9] (Some ''t'') KEY)
     = Inr (PBytes [9])"
proof -
  have c: "fst (confluent_deserialize sample_codec sample_confluent \<lparr>co_schemas = ([], []), co_metadata = []\<rparr>
      [0, 0, 0, 0, 7, 0, 9] (Some ''t'') VALUE) = Inr (PBytes [9])"
    and a: "apicurio_deserialize sample_codec sample_apicurio_lib [0, 0, 0, 0, 7, 9] (Some ''t'') KEY = Inr (PBytes [9])"
    by code_simp+
  have "\<forall>i e. cf_schema_versions sample_confluent i = Inl e \<longrightarrow> schema_metadata_exception e"
    "\<forall>i e. al_metadata sample_apicurio_lib i = Inl e \<longrightarrow> schema_metadata_exception e"
    by (simp_all add: sample_confluent_def sample_apicurio_lib_def schema_metadata_exception_def
        deserialization_exception_def)
  from metadata_never_breaks_content[OF this, of sample_codec "\<lparr>co_schemas = ([], []), co_metadata = []\<rparr>"
      "[0, 0, 0, 0, 7, 0, 9]" "Some ''t''" VALUE]
    metadata_never_breaks_content[OF this, of sample_codec "\<lparr>co_schemas = ([], []), co_metadata = []\<rparr>"
      "[0, 0, 0, 0, 7, 9]" "Some ''t''" KEY]
  show ?thesis using c a by simp
qed

text \<open>A Registry schema's name is looked up at most once per schema, topic and field: after one
  lookup, whether it found a name, found none or failed, later records get the same answer without
  another request.\<close>

theorem metadata_looked_up_once:
  assumes "confluent_metadata cf schema_id ty topic context cache = (Inr r, cache')"
  shows "\<forall>cf' ty'. confluent_metadata cf' schema_id ty' topic context cache' = (Inr r, cache')"
  using assms
  by (auto simp: confluent_metadata_def Let_def dget_dput split: option.splits sum.splits if_splits)

theorem metadata_looked_up_once_witness:
  "\<forall>cf' ty'. confluent_metadata (cf' :: (unit, (int, reg_schema) pydict) confluent_lib) 7 ty' ''t'' KEY [((7, ''t'', KEY), None)]
     = (Inr None, [((7, ''t'', KEY), None)])"
proof (rule metadata_looked_up_once)
  show "confluent_metadata sample_confluent 7 ST_AVRO ''t'' KEY [] = (Inr None, [((7, ''t'', KEY), None)])"
    by code_simp
qed

text \<open>The header the producer writes before a Registry payload is exactly what the consumer's
  local framing removes, for every schema ID and every payload but the empty one, which it refuses.\<close>

theorem framed_payload_roundtrip:
  assumes "0 \<le> schema_id" and "schema_id < 2 ^ 32"
    and "scoped_property config ''framing'' context ''raw'' \<in> set REGISTRY_PROVIDERS"
  shows "\<exists>header. registry_header_pack SCHEMA_REGISTRY_MAGIC_BYTE schema_id = Inr header \<and>
    (\<forall>payload. local_payload (header @ payload) config context name =
       (if payload \<noteq> [] then Inr payload
        else Inl (DeserializationError (capitalize (scoped_property config ''framing'' context ''raw'') @ '' '' @ name
               @ '' framing header not found''))))"
proof -
  have raw: "''raw'' \<notin> set REGISTRY_PROVIDERS"
    by (simp add: REGISTRY_PROVIDERS_def APICURIO_OPTION_def CONFLUENT_OPTION_def)
  show ?thesis
    using assms raw has_registry_header_packed[of schema_id "[]"]
    by (auto simp: registry_header_packed local_payload_def Let_def has_registry_header_packed
        SCHEMA_REGISTRY_MAGIC_BYTE_def SCHEMA_REGISTRY_HEADER_SIZE_def simp del: pack_be.simps)
qed

theorem framed_payload_roundtrip_witness:
  "\<exists>header. registry_header_pack SCHEMA_REGISTRY_MAGIC_BYTE 258 = Inr header \<and>
    local_payload (header @ [9]) [(''key.framing'', ''confluent'')] KEY ''Avro'' = Inr [9]"
  using framed_payload_roundtrip[of 258 "[(''key.framing'', ''confluent'')]" KEY "''Avro''"]
  by (auto simp: scoped_property_def din_def REGISTRY_PROVIDERS_def CONFLUENT_OPTION_def)

end
