(* ===== verification/Registry_Serializer.thy ===== *)
theory Registry_Serializer
  imports Registry_Selection Apicurio_Client Protobuf_Wire Deserializers
begin

text \<open>
  Encoding with a registered schema (the second half of \<open>serializers/registry.py\<close>): the two
  resolvers, which register a schema document with its references or look a schema up, the
  serializer of one field.

  Registering walks the same tree of documents for both registries; \<open>register\<close> is that walk, over
  the request that registers one document (\<open>send\<close>) and the name a reference is registered under
  (\<open>sub\<close>). The registries' clients are parameters, records of actions on a world, as are the
  encoders of the three formats and the parsers of schemas.
\<close>

section \<open>Documents\<close>

type_synonym ('k, 'r) registered = "('k \<times> schema_document, 'r) pydict"

fun register ::
    "('k \<Rightarrow> schema_document \<Rightarrow> (string \<times> 'r) list \<Rightarrow> ('r, 'w) act) \<Rightarrow> ('k \<Rightarrow> string \<Rightarrow> 'k) \<Rightarrow> 'k \<Rightarrow> schema_document
       \<Rightarrow> ('r, ('k, 'r) registered \<times> 'w) act"
  and register_references ::
    "('k \<Rightarrow> schema_document \<Rightarrow> (string \<times> 'r) list \<Rightarrow> ('r, 'w) act) \<Rightarrow> ('k \<Rightarrow> string \<Rightarrow> 'k) \<Rightarrow> 'k \<Rightarrow> (string \<times> schema_document) list
       \<Rightarrow> ((string \<times> 'r) list, ('k, 'r) registered \<times> 'w) act" where
  "register send sub name (SchemaDocument ty content refs) (done, w) =
     (case dget done (name, SchemaDocument ty content refs) of
        Some r \<Rightarrow> (Inr r, (done, w))
      | None \<Rightarrow>
          (case register_references send sub name refs (done, w) of
             (Inl e, s) \<Rightarrow> (Inl e, s)
           | (Inr versions, (done1, w1)) \<Rightarrow>
               (case send name (SchemaDocument ty content refs) versions w1 of
                  (Inl e, w2) \<Rightarrow> (Inl e, (done1, w2))
                | (Inr r, w2) \<Rightarrow> (Inr r, (dput (name, SchemaDocument ty content refs) r done1, w2)))))"
| "register_references send sub name [] s = (Inr [], s)"
| "register_references send sub name ((n, d) # refs) s =
     (case register send sub (sub name n) d s of
        (Inl e, s1) \<Rightarrow> (Inl e, s1)
      | (Inr r, s1) \<Rightarrow>
          (case register_references send sub name refs s1 of
             (Inl e, s2) \<Rightarrow> (Inl e, s2)
           | (Inr rs, s2) \<Rightarrow> (Inr ((n, r) # rs), s2)))"

section \<open>Resolved schemas\<close>

record schema_summary =
  ss_name :: string
  ss_version :: string
  ss_id :: int
  ss_type :: string

type_synonym encoder = "pyval \<Rightarrow> byte list res"

record resolved_schema =
  rv_summary :: schema_summary
  rv_encode :: encoder

definition encode_json :: "('v \<Rightarrow> pyval \<Rightarrow> string option) \<Rightarrow> (pyval \<Rightarrow> byte list) \<Rightarrow> 'v \<Rightarrow> encoder" where
  "encode_json validation_error compact_json validator content =
     (case validation_error validator content of
        Some e \<Rightarrow> Inl (SerializationError e)
      | None \<Rightarrow> Inr (compact_json content))"

text \<open>\<open>_framed\<close> and \<open>_with_prefix\<close>.\<close>

definition with_prefix :: "byte list \<Rightarrow> encoder \<Rightarrow> encoder" where
  "with_prefix prefix encode content = rbind (encode content) (\<lambda>payload. Inr (prefix @ payload))"

definition subject_name :: "string \<Rightarrow> message_field \<Rightarrow> string" where
  "subject_name topic field = topic @ ''-'' @ field_str field"

text \<open>What the encoders need: Avro, JSON and Protobuf schemas and their encoders, and the message descriptors.\<close>

record ('a, 'v, 'd) encoders =
  en_avro :: "'a \<Rightarrow> encoder"
  en_json :: "'v \<Rightarrow> encoder"
  en_protobuf :: "message_descriptor \<Rightarrow> encoder"
  en_first_message :: "'d \<Rightarrow> file_descriptor \<Rightarrow> message_descriptor res"
  en_find_message :: "'d \<Rightarrow> file_descriptor \<Rightarrow> string \<Rightarrow> message_descriptor res"

definition protobuf_message ::
  "('a, 'v, 'd) encoders \<Rightarrow> 'd \<Rightarrow> file_descriptor \<Rightarrow> string option \<Rightarrow> message_descriptor res" where
  "protobuf_message en pool root_file name =
     (case name of None \<Rightarrow> en_first_message en pool root_file | Some n \<Rightarrow> en_find_message en pool root_file n)"

text \<open>The prefix that names a message. \<open>None\<close> is a varint loop without end, which
  \<open>varint_terminates\<close> excludes for the lengths and indexes written here.\<close>

definition message_prefix :: "byte list option res \<Rightarrow> byte list res" where
  "message_prefix r =
     rbind r (\<lambda>prefix. case prefix of None \<Rightarrow> Inl (OtherException ''no result'') | Some p \<Rightarrow> Inr p)"

section \<open>Confluent\<close>

record ('a, 'v, 'd, 'w) confluent_api =
  cn_latest :: "string \<Rightarrow> (int option \<times> string, 'w) act"
  cn_register :: "string \<Rightarrow> schema_document \<Rightarrow> (string \<times> string \<times> int) list \<Rightarrow> bool \<Rightarrow> (int option \<times> int option, 'w) act"
  cn_lookup :: "string \<Rightarrow> schema_document \<Rightarrow> (string \<times> string \<times> int) list \<Rightarrow> bool \<Rightarrow> (int option, 'w) act"
  cn_versions :: "int \<Rightarrow> ((string option \<times> string) list, 'w) act"
  cn_schema_type :: "int \<Rightarrow> (schema_type, 'w) act"
  cn_avro :: "int \<Rightarrow> ('a, 'w) act"
  cn_json :: "int \<Rightarrow> ('v, 'w) act"
  cn_protobuf :: "int \<Rightarrow> (file_descriptor \<times> 'd, 'w) act"

text \<open>One registration: the references carry the versions their documents got.\<close>

definition confluent_send ::
  "('a, 'v, 'd, 'w) confluent_api \<Rightarrow> bool \<Rightarrow> string \<Rightarrow> schema_document \<Rightarrow> (string \<times> (int \<times> int)) list \<Rightarrow> (int \<times> int, 'w) act" where
  "confluent_send api normal subject document versions =
     (let references = map (\<lambda>(n, r). (n, n, snd r)) versions in
      abind (cn_register api subject document references normal) (\<lambda>(schema_id, version).
      abind (case version of Some v \<Rightarrow> areturn (Some v) | None \<Rightarrow> cn_lookup api subject document references normal) (\<lambda>version'.
        case (schema_id, version') of
          (Some i, Some v) \<Rightarrow> areturn (i, v)
        | _ \<Rightarrow> alift (Inl (SchemaError (''Schema Registry returned no ID or version for '' @ subject))))))"

definition confluent_register ::
  "('a, 'v, 'd, 'w) confluent_api \<Rightarrow> bool \<Rightarrow> string \<Rightarrow> schema_document \<Rightarrow> (int \<times> int, (string, int \<times> int) registered \<times> 'w) act" where
  "confluent_register api normal subject document =
     register (confluent_send api normal) (\<lambda>_ n. n) subject document"

text \<open>The code writes an em dash here, which is outside the range of \<open>char\<close>; only its being no version matters.\<close>

definition NO_VERSION :: string where "NO_VERSION = ''-''"

definition confluent_version :: "('a, 'v, 'd, 'w) confluent_api \<Rightarrow> int \<Rightarrow> string \<Rightarrow> (string, 'w) act" where
  "confluent_version api schema_id subject =
     abind (cn_versions api schema_id) (\<lambda>registrations.
       areturn (case find (\<lambda>(s, _). s = Some subject) registrations of None \<Rightarrow> NO_VERSION | Some (_, v) \<Rightarrow> v))"

definition confluent_encoder ::
  "('a, 'v, 'd) encoders \<Rightarrow> ('a, 'v, 'd, 'w) confluent_api \<Rightarrow> int \<Rightarrow> schema_type \<Rightarrow> schema_selection \<Rightarrow> (encoder, 'w) act" where
  "confluent_encoder en api schema_id ty selection =
     (case ty of
        ST_AVRO \<Rightarrow> abind (cn_avro api schema_id) (\<lambda>a. areturn (en_avro en a))
      | ST_JSON \<Rightarrow> abind (cn_json api schema_id) (\<lambda>v. areturn (en_json en v))
      | ST_PROTOBUF \<Rightarrow>
          abind (cn_protobuf api schema_id) (\<lambda>(root_file, pool).
          abind (alift (protobuf_message en pool root_file (sel_protobuf_message selection))) (\<lambda>m.
            abind (alift (message_prefix (confluent_message_indexes root_file m))) (\<lambda>prefix.
              areturn (with_prefix prefix (en_protobuf en m))))))"

text \<open>An action of the client, next to the registered documents.\<close>

definition on_world :: "('x, 'w) act \<Rightarrow> ('x, 'd \<times> 'w) act" where
  "on_world f s = (case f (snd s) of (r, w) \<Rightarrow> (r, (fst s, w)))"

definition confluent_resolve ::
  "('a, 'v, 'd) encoders \<Rightarrow> ('a, 'v, 'd, 'w) confluent_api \<Rightarrow> string \<Rightarrow> message_field \<Rightarrow> schema_selection
     \<Rightarrow> schema_document option \<Rightarrow> (resolved_schema, (string, int \<times> int) registered \<times> 'w) act" where
  "confluent_resolve en api topic field selection document =
     (let subject = subject_name topic field in
      abind (case document of
          Some d \<Rightarrow>
            abind (confluent_register api (sel_normalize selection) subject d) (\<lambda>(i, v). areturn (i, show_int v))
        | None \<Rightarrow>
            (case sel_schema_id selection of
               None \<Rightarrow>
                 abind (on_world (cn_latest api subject)) (\<lambda>(schema_id, version).
                   case schema_id of
                     None \<Rightarrow> alift (Inl (SchemaError (''Subject '' @ subject @ '' has no schema ID'')))
                   | Some i \<Rightarrow> areturn (i, version))
             | Some i \<Rightarrow> abind (on_world (confluent_version api i subject)) (\<lambda>version. areturn (i, version)))) (\<lambda>(schema_id, version).
      abind (on_world (cn_schema_type api schema_id)) (\<lambda>ty.
      abind (on_world (confluent_encoder en api schema_id ty selection)) (\<lambda>encode.
      abind (alift (registry_header_pack SCHEMA_REGISTRY_MAGIC_BYTE schema_id)) (\<lambda>header.
        areturn \<lparr>rv_summary = \<lparr>ss_name = subject, ss_version = version, ss_id = schema_id, ss_type = schema_type_value ty\<rparr>,
                 rv_encode = with_prefix header encode\<rparr>)))))"

section \<open>Apicurio\<close>

record ('a, 'v, 'd, 'w) apicurio_api =
  an_use_content_id :: bool
  an_create :: "string \<Rightarrow> string \<Rightarrow> schema_document \<Rightarrow> apicurio_reference list \<Rightarrow> (apicurio_version, 'w) act"
  an_version :: "string \<Rightarrow> string \<Rightarrow> string \<Rightarrow> (apicurio_version, 'w) act"
  an_artifact :: "int \<Rightarrow> (apicurio_artifact, 'w) act"
  an_avro :: "apicurio_artifact \<Rightarrow> ('a, 'w) act"
  an_json :: "apicurio_artifact \<Rightarrow> ('v, 'w) act"
  an_protobuf :: "apicurio_artifact \<Rightarrow> (file_descriptor \<times> 'd, 'w) act"

text \<open>\<open>_status\<close>: the HTTP status behind a client error.\<close>

definition error_status :: "exn \<Rightarrow> int option" where
  "error_status e = (case e of ApicurioRegistryError status _ \<Rightarrow> status | _ \<Rightarrow> None)"

definition refused :: "int list \<Rightarrow> exn \<Rightarrow> bool" where
  "refused statuses e \<longleftrightarrow> (case error_status e of Some n \<Rightarrow> n \<in> set statuses | None \<Rightarrow> False)"

definition recast_act :: "(exn \<Rightarrow> bool) \<Rightarrow> exn \<Rightarrow> ('x, 'w) act \<Rightarrow> ('x, 'w) act" where
  "recast_act caught replacement f w =
     (case f w of (Inl e, w') \<Rightarrow> (Inl (if caught e then replacement else e), w') | (Inr x, w') \<Rightarrow> (Inr x, w'))"

definition apicurio_send ::
  "('a, 'v, 'd, 'w) apicurio_api \<Rightarrow> string \<times> string \<Rightarrow> schema_document \<Rightarrow> (string \<times> apicurio_version) list
     \<Rightarrow> (apicurio_version, 'w) act" where
  "apicurio_send api name document versions =
     (let (gid, artifact_id) = name;
          references = map (\<lambda>(n, v). \<lparr>ar_name = n, ar_group = gid, ar_artifact = n, ar_version = av_version v\<rparr>) versions in
      recast_act (refused [401, 403])
        (SchemaError (''Apicurio refused to register '' @ artifact_id @ ''; registering needs write access''))
        (an_create api gid artifact_id document references))"

definition apicurio_register ::
  "('a, 'v, 'd, 'w) apicurio_api \<Rightarrow> string \<Rightarrow> string \<Rightarrow> schema_document
     \<Rightarrow> (apicurio_version, (string \<times> string, apicurio_version) registered \<times> 'w) act" where
  "apicurio_register api gid artifact_id document =
     register (apicurio_send api) (\<lambda>(g, _) n. (g, n)) (gid, artifact_id) document"

definition apicurio_version_of ::
  "('a, 'v, 'd, 'w) apicurio_api \<Rightarrow> schema_selection \<Rightarrow> string \<Rightarrow> string \<Rightarrow> (apicurio_version, 'w) act" where
  "apicurio_version_of api selection artifact_id name =
     recast_act (refused [404]) (SchemaError (''Apicurio artifact '' @ name @ '' has no such version''))
       (an_version api (sel_group selection) artifact_id
          (case sel_version selection of None \<Rightarrow> APICURIO_LATEST_VERSION
             | Some v \<Rightarrow> if v = [] then APICURIO_LATEST_VERSION else v))"

definition apicurio_encoder ::
  "('a, 'v, 'd) encoders \<Rightarrow> ('a, 'v, 'd, 'w) apicurio_api \<Rightarrow> apicurio_artifact \<Rightarrow> schema_selection \<Rightarrow> (encoder, 'w) act" where
  "apicurio_encoder en api artifact selection =
     (if schema_type_of (aa_type artifact) = Some ST_AVRO
      then abind (an_avro api artifact) (\<lambda>a. areturn (en_avro en a))
      else if schema_type_of (aa_type artifact) = Some ST_JSON
      then abind (an_json api artifact) (\<lambda>v. areturn (en_json en v))
      else
        abind (an_protobuf api artifact) (\<lambda>(root_file, pool).
        abind (alift (protobuf_message en pool root_file (sel_protobuf_message selection))) (\<lambda>m.
          abind (alift (message_prefix (apicurio_type_ref m))) (\<lambda>prefix.
            areturn (with_prefix prefix (en_protobuf en m))))))"

definition apicurio_resolve ::
  "('a, 'v, 'd) encoders \<Rightarrow> ('a, 'v, 'd, 'w) apicurio_api \<Rightarrow> string \<Rightarrow> message_field \<Rightarrow> schema_selection
     \<Rightarrow> schema_document option \<Rightarrow> (resolved_schema, (string \<times> string, apicurio_version) registered \<times> 'w) act" where
  "apicurio_resolve en api topic field selection document =
     (let artifact_id = (case sel_artifact selection of None \<Rightarrow> subject_name topic field
            | Some a \<Rightarrow> if a = [] then subject_name topic field else a);
          name = (if sel_group selection = APICURIO_DEFAULT_GROUP then artifact_id
            else sel_group selection @ ''/'' @ artifact_id) in
      abind (case document of
          Some d \<Rightarrow> apicurio_register api (sel_group selection) artifact_id d
        | None \<Rightarrow> on_world (apicurio_version_of api selection artifact_id name)) (\<lambda>version.
      let schema_id = (if an_use_content_id api then av_content_id version else av_global_id version) in
      abind (on_world (an_artifact api schema_id)) (\<lambda>artifact.
      abind (on_world (apicurio_encoder en api artifact selection)) (\<lambda>encode.
      abind (alift (registry_header_pack SCHEMA_REGISTRY_MAGIC_BYTE schema_id)) (\<lambda>header.
        areturn \<lparr>rv_summary = \<lparr>ss_name = name, ss_version = av_version version, ss_id = schema_id, ss_type = aa_type artifact\<rparr>,
                 rv_encode = with_prefix header encode\<rparr>)))))"

section \<open>The serializer of a field\<close>

definition registry_exception :: "exn \<Rightarrow> bool" where
  "registry_exception e \<longleftrightarrow>
     (case e of SchemaRegistryError _ _ \<Rightarrow> True | _ \<Rightarrow> False) \<or> is_http_error e \<or> is_os_error e \<or> is_value_error e"

definition registry_problem :: "(exn \<Rightarrow> string) \<Rightarrow> exn \<Rightarrow> bool \<Rightarrow> string" where
  "registry_problem show_exn e registering =
     (case e of
        SchemaRegistryError status message \<Rightarrow>
          ''Schema Registry error: '' @ message
          @ (if registering \<and> status \<in> {401, 403} then ''; registering needs write access to the subject'' else [])
      | _ \<Rightarrow> ''Schema '' @ (if registering then ''registration'' else ''lookup'') @ '' failed: '' @ show_exn e)"

definition LOOKING_UP :: string where "LOOKING_UP = ''Looking up the schema''"
definition REGISTERING :: string where "REGISTERING = ''Registering the schema''"

record registry_serializer =
  rz_registering :: bool
  rz_resolved :: "resolved_schema option"
  rz_problem :: "string option"

definition serializer_new :: "bool \<Rightarrow> registry_serializer" where
  "serializer_new registering = \<lparr>rz_registering = registering, rz_resolved = None, rz_problem = None\<rparr>"

definition needs_schema :: "registry_serializer \<Rightarrow> bool" where
  "needs_schema z \<longleftrightarrow> rz_resolved z = None"

definition serializer_schema :: "registry_serializer \<Rightarrow> schema_summary option" where
  "serializer_schema z = map_option rv_summary (rz_resolved z)"

definition serializer_resolve ::
  "(exn \<Rightarrow> string) \<Rightarrow> resolved_schema res \<Rightarrow> registry_serializer \<Rightarrow> unit res \<times> registry_serializer" where
  "serializer_resolve show_exn outcome z =
     (case outcome of
        Inr r \<Rightarrow> (Inr (), z\<lparr>rz_resolved := Some r, rz_problem := None\<rparr>)
      | Inl e \<Rightarrow>
          if registry_exception e then (Inr (), z\<lparr>rz_problem := Some (registry_problem show_exn e (rz_registering z))\<rparr>)
          else (Inl e, z))"

definition serializer_serialize :: "(string \<Rightarrow> pyval res) \<Rightarrow> registry_serializer \<Rightarrow> string \<Rightarrow> byte list res" where
  "serializer_serialize parse_json z content =
     rbind (parse_json content) (\<lambda>v.
       case rz_resolved z of
         Some r \<Rightarrow> rv_encode r v
       | None \<Rightarrow>
           Inl (SerializationError (case rz_problem z of
              Some p \<Rightarrow> if p = [] then (if rz_registering z then REGISTERING else LOOKING_UP) else p
            | None \<Rightarrow> if rz_registering z then REGISTERING else LOOKING_UP)))"

section \<open>Lemmas\<close>

subsection \<open>Registering documents\<close>

text \<open>A sent of the documents sent: every registration adds its own.\<close>

definition logs_sends :: "('k \<Rightarrow> schema_document \<Rightarrow> (string \<times> 'r) list \<Rightarrow> ('r, 'w) act) \<Rightarrow> ('w \<Rightarrow> ('k \<times> schema_document) list) \<Rightarrow> bool" where
  "logs_sends send sent \<longleftrightarrow> (\<forall>k d vs w r w'. send k d vs w = (Inr r, w') \<longrightarrow> sent w' = sent w @ [(k, d)])"

text \<open>The documents in \<open>new\<close> come after everything they refer to.\<close>

definition dependencies_first :: "('k \<Rightarrow> string \<Rightarrow> 'k) \<Rightarrow> ('k \<times> schema_document) set \<Rightarrow> ('k \<times> schema_document) list \<Rightarrow> bool" where
  "dependencies_first sub known new \<longleftrightarrow>
     (\<forall>i < length new. \<forall>(n, d) \<in> set (doc_references (snd (new ! i))).
        (sub (fst (new ! i)) n, d) \<in> known \<union> set (take i new))"

lemma dependencies_first_append:
  "dependencies_first sub known a \<Longrightarrow> dependencies_first sub (known \<union> set a) b \<Longrightarrow> dependencies_first sub known (a @ b)"
proof -
  assume a: "dependencies_first sub known a" and b: "dependencies_first sub (known \<union> set a) b"
  show ?thesis
    unfolding dependencies_first_def
  proof (intro allI impI)
    fix i assume i: "i < length (a @ b)"
    show "\<forall>(n, d) \<in> set (doc_references (snd ((a @ b) ! i))). (sub (fst ((a @ b) ! i)) n, d) \<in> known \<union> set (take i (a @ b))"
    proof (cases "i < length a")
      case True
      then show ?thesis using a by (auto simp: dependencies_first_def nth_append)
    next
      case False
      then have "(a @ b) ! i = b ! (i - length a)" "i - length a < length b" "set (take i (a @ b)) = set a \<union> set (take (i - length a) b)"
        using i by (auto simp: nth_append)
      then show ?thesis using b by (auto simp: dependencies_first_def)
    qed
  qed
qed

definition registered_in_order ::
  "nat \<Rightarrow> ('k \<Rightarrow> string \<Rightarrow> 'k) \<Rightarrow> ('w \<Rightarrow> ('k \<times> schema_document) list) \<Rightarrow> ('k, 'r) registered \<times> 'w \<Rightarrow> ('k, 'r) registered \<times> 'w \<Rightarrow> bool" where
  "registered_in_order bound sub sent s s' \<longleftrightarrow>
     (\<exists>new. sent (snd s') = sent (snd s) @ new \<and> distinct new \<and> (\<forall>p \<in> set new. size (snd p) < bound) \<and> set new \<inter> set (dkeys (fst s)) = {} \<and>
        set (dkeys (fst s')) = set (dkeys (fst s)) \<union> set new \<and> dependencies_first sub (set (dkeys (fst s))) new \<and>
        (\<forall>p r. dget (fst s) p = Some r \<longrightarrow> dget (fst s') p = Some r))"

lemma registered_in_order_refl: "registered_in_order bound sub sent s s"
  by (auto simp: registered_in_order_def dependencies_first_def intro!: exI[of _ "[]"])

lemma registered_in_order_trans:
  assumes "registered_in_order bound sub sent s s1" and "registered_in_order bound sub sent s1 s2"
  shows "registered_in_order bound sub sent s s2"
proof -
  obtain a where a: "sent (snd s1) = sent (snd s) @ a" "distinct a" "set a \<inter> set (dkeys (fst s)) = {}"
    "set (dkeys (fst s1)) = set (dkeys (fst s)) \<union> set a" "dependencies_first sub (set (dkeys (fst s))) a"
    "\<forall>p r. dget (fst s) p = Some r \<longrightarrow> dget (fst s1) p = Some r" "\<forall>p \<in> set a. size (snd p) < bound"
    using assms(1) by (auto simp: registered_in_order_def)
  obtain b where b: "sent (snd s2) = sent (snd s1) @ b" "distinct b" "set b \<inter> set (dkeys (fst s1)) = {}"
    "set (dkeys (fst s2)) = set (dkeys (fst s1)) \<union> set b" "dependencies_first sub (set (dkeys (fst s1))) b"
    "\<forall>p r. dget (fst s1) p = Some r \<longrightarrow> dget (fst s2) p = Some r" "\<forall>p \<in> set b. size (snd p) < bound"
    using assms(2) by (auto simp: registered_in_order_def)
  show ?thesis
    unfolding registered_in_order_def
  proof (intro exI[of _ "a @ b"] conjI)
    show "distinct (a @ b)" using a(2,4) b(2,3) by auto
    show "dependencies_first sub (set (dkeys (fst s))) (a @ b)"
      using a(4,5) b(5) by (intro dependencies_first_append) simp_all
  qed (use a b in auto)
qed

lemma registered_in_order_mono:
  "registered_in_order n sub sent s s' \<Longrightarrow> n \<le> m \<Longrightarrow> registered_in_order m sub sent s s'"
  unfolding registered_in_order_def by (meson order_less_le_trans)

lemma reference_size: "(n, d) \<in> set refs \<Longrightarrow> size d < size (SchemaDocument ty content refs)"
  by (induction refs) auto

lemma register_order:
  assumes "logs_sends send sent"
  shows "register send sub name doc s = (Inr r, s') \<Longrightarrow>
      registered_in_order (Suc (size doc)) sub sent s s' \<and> dget (fst s') (name, doc) = Some r"
    and "register_references send sub name refs s = (Inr rs, s') \<Longrightarrow> (\<And>n d. (n, d) \<in> set refs \<Longrightarrow> size d < bound) \<Longrightarrow>
      registered_in_order bound sub sent s s' \<and> map fst rs = map fst refs \<and>
      (\<forall>(n, d) \<in> set refs. (sub name n, d) \<in> set (dkeys (fst s')))"
  using assms
proof (induction send sub name doc s and send sub name refs s arbitrary: r s' and rs s' bound rule: register_register_references.induct)
  case (1 send sub name ty content refs d w)
  let ?doc = "SchemaDocument ty content refs"
  show ?case
  proof (cases "dget d (name, ?doc)")
    case (Some r0)
    then show ?thesis using 1(2) by (auto simp: registered_in_order_refl)
  next
    case None
    obtain versions d1 w1 where v: "register_references send sub name refs (d, w) = (Inr versions, (d1, w1))"
      and sd: "\<exists>w2. send name ?doc versions w1 = (Inr r, w2) \<and> s' = (dput (name, ?doc) r d1, w2)"
      using 1(2) None by (auto split: prod.splits sum.splits)
    have ih: "registered_in_order (size ?doc) sub sent (d, w) (d1, w1)" "\<forall>(n, d) \<in> set refs. (sub name n, d) \<in> set (dkeys d1)"
      using 1(1)[OF None v, of "size ?doc"] reference_size[of _ _ refs ty content] 1(3) by simp_all
    obtain w2 where w2: "send name ?doc versions w1 = (Inr r, w2)" "s' = (dput (name, ?doc) r d1, w2)" using sd by blast
    have sent: "sent w2 = sent w1 @ [(name, ?doc)]" using 1(3) w2(1) by (auto simp: logs_sends_def)
    have fresh: "(name, ?doc) \<notin> set (dkeys d1)"
    proof
      assume "(name, ?doc) \<in> set (dkeys d1)"
      then have "(name, ?doc) \<in> set (dkeys d) \<or> size ?doc < size ?doc"
        using ih(1) unfolding registered_in_order_def fst_conv snd_conv by (metis UnE snd_conv)
      then show False using None unfolding map_of_eq_None_iff by simp
    qed
    have "registered_in_order (Suc (size ?doc)) sub sent (d1, w1) s'"
      unfolding registered_in_order_def
      using sent fresh ih(2)
      by (intro exI[of _ "[(name, ?doc)]"]) (auto simp: w2 keyset_dput dependencies_first_def dget_dput map_of_eq_None_iff[symmetric])
    then show ?thesis
      using registered_in_order_trans[OF registered_in_order_mono[OF ih(1)]] by (simp add: w2 dget_dput)
  qed
next
  case (2 send sub name s)
  then show ?case by (auto simp: registered_in_order_refl)
next
  case (3 send sub name n d refs s)
  obtain r s1 rs2 where r: "register send sub (sub name n) d s = (Inr r, s1)"
    and rest: "register_references send sub name refs s1 = (Inr rs2, s')" and rs: "rs = (n, r) # rs2"
    using 3(3) by (auto split: prod.splits sum.splits)
  have a: "registered_in_order (Suc (size d)) sub sent s s1" "dget (fst s1) (sub name n, d) = Some r"
    using 3(1)[OF r 3(5)] by simp_all
  have smaller: "\<And>n d. (n, d) \<in> set refs \<Longrightarrow> size d < bound" by (meson list.set_intros(2) 3(4))
  have "registered_in_order bound sub sent s1 s' \<and> map fst rs2 = map fst refs \<and>
      (\<forall>(n, d) \<in> set refs. (sub name n, d) \<in> set (dkeys (fst s')))"
    by (rule 3(2)[OF r[symmetric] refl rest]) (erule smaller, rule 3(5))
  then have b: "registered_in_order bound sub sent s1 s'" "map fst rs2 = map fst refs"
    "\<forall>(n, d) \<in> set refs. (sub name n, d) \<in> set (dkeys (fst s'))" by blast+
  have "registered_in_order bound sub sent s s1"
    using registered_in_order_mono[OF a(1)] 3(4)[of n d] by simp
  from registered_in_order_trans[OF this b(1)] have "registered_in_order bound sub sent s s'" .
  moreover have "dget (fst s') (sub name n, d) = Some r"
    using a(2) b(1) by (auto simp: registered_in_order_def)
  then have "(sub name n, d) \<in> set (dkeys (fst s'))" by (metis map_of_SomeD image_eqI fst_conv set_map)
  ultimately show ?case using b(2,3) rs by auto
qed

lemma register_again:
  "dget (fst s) (name, doc) = Some r \<Longrightarrow> register send sub name doc (fst s, w) = (Inr r, (fst s, w))"
  by (cases doc) simp

text \<open>The versions a document is sent with are its references' own.\<close>

lemma register_references_map:
  "register_references send sub name refs s = (Inr rs, s') \<Longrightarrow> map fst rs = map fst refs"
  by (induction refs arbitrary: s rs) (auto split: prod.splits sum.splits)

subsection \<open>Frames\<close>

lemma with_prefix_Inr: "with_prefix prefix encode content = Inr bytes \<longleftrightarrow> (\<exists>payload. encode content = Inr payload \<and> bytes = prefix @ payload)"
  by (auto simp: with_prefix_def res_simps)

lemma registry_header_pack_Inr:
  "registry_header_pack SCHEMA_REGISTRY_MAGIC_BYTE i = Inr header \<longleftrightarrow> 0 \<le> i \<and> i < 2 ^ 32 \<and> header = 0 # pack_be 4 i"
  by (auto simp: registry_header_pack_def SCHEMA_REGISTRY_MAGIC_BYTE_def simp del: pack_be.simps)

lemma confluent_resolve_Inr:
  assumes "confluent_resolve en api topic field selection document s = (Inr r, s')"
  shows "\<exists>encode. 0 \<le> ss_id (rv_summary r) \<and> ss_id (rv_summary r) < 2 ^ 32 \<and> ss_name (rv_summary r) = subject_name topic field \<and>
    rv_encode r = with_prefix (0 # pack_be 4 (ss_id (rv_summary r))) encode"
  using assms
  by (auto simp: confluent_resolve_def Let_def res_simps registry_header_pack_Inr simp del: pack_be.simps)

section \<open>Properties\<close>

text \<open>C6: registering a schema document sends every document of its tree at most once and only after all
  documents it refers to, skips those registered before, and remembers the result: registering it
  again makes no request.\<close>

theorem documents_registered_in_order:
  assumes "register send sub name doc s = (Inr r, s')" and "logs_sends send sent"
  shows "(\<exists>new. sent (snd s') = sent (snd s) @ new \<and> distinct new \<and> set new \<inter> set (dkeys (fst s)) = {} \<and>
      dependencies_first sub (set (dkeys (fst s))) new) \<and>
    (\<forall>w. register send sub name doc (fst s', w) = (Inr r, (fst s', w)))"
proof -
  note o = register_order(1)[OF assms(2,1)]
  then have "\<forall>w. register send sub name doc (fst s', w) = (Inr r, (fst s', w))" using register_again by metis
  with o show ?thesis unfolding registered_in_order_def by blast
qed

definition sample_document :: schema_document where
  "sample_document =
     (let base = SchemaDocument ST_AVRO ''base'' [] in
      SchemaDocument ST_AVRO ''order'' [(''money'', SchemaDocument ST_AVRO ''money'' [(''base'', base)]), (''base'', base)])"

definition sample_send :: "string \<Rightarrow> schema_document \<Rightarrow> (string \<times> nat) list \<Rightarrow> (nat, (string \<times> schema_document) list) act" where
  "sample_send name doc versions w = (Inr (length w), w @ [(name, doc)])"

theorem documents_registered_in_order_witness:
  "\<exists>s'. register sample_send (\<lambda>_ n. n) ''t-value'' sample_document ([], []) = (Inr 2, s') \<and>
     map fst (snd s') = [''base'', ''money'', ''t-value''] \<and> distinct (snd s') \<and>
     register sample_send (\<lambda>_ n. n) ''t-value'' sample_document (fst s', []) = (Inr 2, (fst s', []))"
proof -
  have r: "map_prod id (map fst \<circ> snd) (register sample_send (\<lambda>_ n. n) ''t-value'' sample_document ([], []))
      = (Inr 2, [''base'', ''money'', ''t-value''])" by code_simp
  then obtain s' where s: "register sample_send (\<lambda>_ n. n) ''t-value'' sample_document ([], []) = (Inr 2, s')"
    "map fst (snd s') = [''base'', ''money'', ''t-value'']"
    by (cases "register sample_send (\<lambda>_ n. n) ''t-value'' sample_document ([], [])") auto
  have "logs_sends sample_send (\<lambda>w. w)" by (auto simp: logs_sends_def sample_send_def)
  from documents_registered_in_order[OF s(1) this] s show ?thesis by auto
qed

text \<open>C37: what the producer frames the consumer reads: a payload encoded with a resolved Confluent schema
  carries the schema's ID, which is a 32-bit number, and the Registry deserializer finds that ID
  and the same topic again, unless the content has no bytes at all.\<close>

theorem registry_frame_roundtrip:
  assumes "confluent_resolve en api topic field selection document s = (Inr r, s')"
    and "rv_encode r content = Inr data" and "field \<noteq> NONE"
  shows "(if length data = 5 then \<exists>e. confluent_frame data (Some topic) field = Inl e
    else confluent_frame data (Some topic) field = Inr (topic, ss_id (rv_summary r)))"
proof -
  let ?i = "ss_id (rv_summary r)"
  obtain payload where i: "0 \<le> ?i" "?i < 2 ^ 32" and d: "data = 0 # pack_be 4 ?i @ payload"
    using confluent_resolve_Inr[OF assms(1)] assms(2) by (auto simp: with_prefix_Inr)
  have "length data = 5 + length payload" by (simp add: d del: pack_be.simps)
  then show ?thesis
    using registry_header_packed(2)[OF i, of payload] assms(3) unfolding d
    by (simp add: confluent_frame_def require_field_def require_context_def minimum_length_def SCHEMA_REGISTRY_HEADER_SIZE_def
        SCHEMA_REGISTRY_MAGIC_BYTE_def del: pack_be.simps)
qed

definition sample_encoders :: "(unit, unit, unit) encoders" where
  "sample_encoders =
     \<lparr>en_avro = (\<lambda>_ v. Inr (if v = PNone then [] else [7])), en_json = (\<lambda>_ _. Inr [1]), en_protobuf = (\<lambda>_ _. Inr []),
      en_first_message = (\<lambda>_ _. Inl (SchemaError [])), en_find_message = (\<lambda>_ _ _. Inl (SchemaError []))\<rparr>"

definition sample_confluent_api :: "(unit, unit, unit, nat) confluent_api" where
  "sample_confluent_api =
     \<lparr>cn_latest = (\<lambda>_ w. (Inr (Some 258, ''4''), Suc w)), cn_register = (\<lambda>_ _ _ _ w. (Inr (Some 1, Some 1), Suc w)),
      cn_lookup = (\<lambda>_ _ _ _ w. (Inr None, Suc w)), cn_versions = (\<lambda>_ w. (Inr [], Suc w)),
      cn_schema_type = (\<lambda>_ w. (Inr ST_AVRO, w)), cn_avro = (\<lambda>_ w. (Inr (), w)), cn_json = (\<lambda>_ w. (Inr (), w)),
      cn_protobuf = (\<lambda>_ w. (Inl (SchemaError []), w))\<rparr>"

definition latest_selection :: schema_selection where
  "latest_selection = \<lparr>sel_schema_id = None, sel_group = ''default'', sel_artifact = None, sel_version = None,
     sel_protobuf_message = None, sel_auto_register = False, sel_normalize = False\<rparr>"

theorem registry_frame_roundtrip_witness:
  "\<exists>r s'. confluent_resolve sample_encoders sample_confluent_api ''t'' VALUE latest_selection None ([], 0) = (Inr r, s') \<and>
     rv_encode r (PInt 1) = Inr [0, 0, 0, 1, 2, 7] \<and> confluent_frame [0, 0, 0, 1, 2, 7] (Some ''t'') VALUE = Inr (''t'', 258)"
proof -
  have "map_prod (map_sum id (\<lambda>r. (ss_id (rv_summary r), rv_encode r (PInt 1)))) snd
      (confluent_resolve sample_encoders sample_confluent_api ''t'' VALUE latest_selection None ([], 0))
      = (Inr (258, Inr [0, 0, 0, 1, 2, 7]), 1)" by code_simp
  then obtain r s' where r: "confluent_resolve sample_encoders sample_confluent_api ''t'' VALUE latest_selection None ([], 0) = (Inr r, s')"
    "rv_encode r (PInt 1) = Inr [0, 0, 0, 1, 2, 7]" "ss_id (rv_summary r) = 258"
    by (cases "confluent_resolve sample_encoders sample_confluent_api ''t'' VALUE latest_selection None ([], 0)") (auto simp: map_sum_eq)
  from registry_frame_roundtrip[OF r(1,2)] r show ?thesis by simp
qed

text \<open>A field's Registry serializer never loses a schema: a registry failure is kept as a problem and not
  raised, a schema resolved before stays in use, and content is refused, with the problem or what is
  pending, only until a first schema is resolved.\<close>

theorem serializer_keeps_schema:
  assumes "serializer_resolve show_exn outcome z = (r, z')"
  shows "(rz_resolved z \<noteq> None \<longrightarrow> rz_resolved z' \<noteq> None) \<and>
    (r \<noteq> Inr () \<longrightarrow> z' = z \<and> (\<exists>e. outcome = Inl e \<and> \<not> registry_exception e)) \<and>
    (\<forall>e. outcome = Inl e \<longrightarrow> rz_resolved z' = rz_resolved z) \<and>
    (\<forall>v s. parse s = Inr v \<longrightarrow>
       (needs_schema z' \<longleftrightarrow> rz_resolved z' = None) \<and>
       (\<forall>s'. rz_resolved z' = Some s' \<longrightarrow> serializer_serialize parse z' s = rv_encode s' v) \<and>
       (rz_resolved z' = None \<longrightarrow> (\<exists>m. serializer_serialize parse z' s = Inl (SerializationError m) \<and> m \<noteq> [])))"
  using assms
  by (auto simp: serializer_resolve_def needs_schema_def serializer_serialize_def REGISTERING_def LOOKING_UP_def
      split: sum.splits if_splits option.splits)

theorem serializer_keeps_schema_witness:
  "\<exists>m. serializer_serialize (\<lambda>_. Inr PNone) (snd (serializer_resolve (\<lambda>_. ''gone'') (Inl (OSError ''x'')) (serializer_new True))) ''null''
     = Inl (SerializationError m) \<and> m \<noteq> []"
  using serializer_keeps_schema[of "\<lambda>_. ''gone''" "Inl (OSError ''x'')" "serializer_new True" _ _ "\<lambda>_. Inr PNone", OF surjective_pairing]
  by (auto simp: serializer_resolve_def serializer_new_def registry_exception_def)

end
