(* ===== verification/Serializer_Pool.thy ===== *)
theory Serializer_Pool
  imports Registry_Serializer
begin

text \<open>
  The pool that builds the producer's serializers (\<open>serializers/pool.py\<close>): which serializer a
  field gets, the local schema it registers, and the one Registry client its fields share. The
  lemmas carry what \<open>cli/validation.py\<close> accepts (theory \<open>Cli_Options\<close>) over to the pool.
\<close>

section \<open>The pool\<close>

text \<open>Which serializer a field gets, with what it was built from.\<close>

datatype 'c field_serializer =
    FixedSerializer format
  | BytesSerializer bytes_encoding
  | JsonSchemaSerializer string
  | PlainJsonSerializer
  | AvroFileSerializer string
  | ProtobufSerializer string
  | FieldRegistrySerializer 'c schema_selection "schema_document option"

record schema_files =
  sf_json :: "string \<Rightarrow> unit res"
  sf_avro :: "string \<Rightarrow> unit res"
  sf_protobuf :: "config \<Rightarrow> string \<Rightarrow> unit res"
  sf_avro_document :: "string \<Rightarrow> schema_document res"
  sf_json_document :: "string \<Rightarrow> schema_document res"
  sf_protobuf_document :: "config \<Rightarrow> string \<Rightarrow> bool \<Rightarrow> schema_document res"

definition FIXED_SERIALIZERS :: "format list" where
  "FIXED_SERIALIZERS = [F_STRING, F_BOOLEAN, F_INTEGER, F_LONG, F_FLOAT, F_DOUBLE]"

definition item :: "config \<Rightarrow> string \<Rightarrow> string res" where
  "item config name = (case dget config name of None \<Rightarrow> Inl (KeyError name) | Some v \<Rightarrow> Inr v)"

definition registration_document ::
  "schema_files \<Rightarrow> option_configs \<Rightarrow> message_field \<Rightarrow> string \<Rightarrow> (schema_document \<times> string option) res" where
  "registration_document files opts field provider =
     (let name = field_str field in
      case (dget (oc_avro opts) name, dget (oc_json opts) name, dget (oc_protobuf opts) name) of
        (Some path, _, _) \<Rightarrow> rbind (sf_avro_document files path) (\<lambda>d. Inr (d, None))
      | (None, Some path, _) \<Rightarrow> rbind (sf_json_document files path) (\<lambda>d. Inr (d, None))
      | (None, None, Some m) \<Rightarrow>
          rbind (sf_protobuf_document files (oc_protobuf opts) m (provider = APICURIO_OPTION)) (\<lambda>d. Inr (d, Some m))
      | (None, None, None) \<Rightarrow>
          Inl (SchemaError (''Registering the '' @ name @ '' schema needs --avro, --json, or --protobuf'')))"

text \<open>The client of the provider, as \<open>schema_resolver\<close> chooses it: \<open>confluent\<close> and \<open>apicurio\<close> build one, which may fail.\<close>

definition schema_resolver ::
  "(config \<Rightarrow> apicurio_config res) \<Rightarrow> (config \<Rightarrow> 'c res) \<Rightarrow> (apicurio_config \<Rightarrow> 'c res) \<Rightarrow> config \<Rightarrow> apicurio_config option \<Rightarrow> 'c res" where
  "schema_resolver from_dict confluent apicurio registry_config apicurio_config =
     (let (client_config, _) = split_registry_config registry_config in
      if lower (dget_or client_config ''provider'' CONFLUENT_OPTION) = APICURIO_OPTION
      then rbind (case apicurio_config of Some c \<Rightarrow> Inr c | None \<Rightarrow> from_dict client_config) apicurio
      else confluent (filter (\<lambda>p. fst p \<noteq> ''provider'') client_config))"

text \<open>The pool's state is the resolver the Registry serializers share, once there is one.\<close>

definition pool_resolver :: "'c res \<Rightarrow> ('c, 'c option) act" where
  "pool_resolver made resolver =
     (case resolver of
        Some r \<Rightarrow> (Inr r, resolver)
      | None \<Rightarrow> (case made of Inl e \<Rightarrow> (Inl e, None) | Inr r \<Rightarrow> (Inr r, Some r)))"

definition field_selection ::
  "schema_files \<Rightarrow> option_configs \<Rightarrow> message_field \<Rightarrow> (schema_selection \<times> schema_document option) res" where
  "field_selection files opts field =
     (let (client_config, selection_config) = split_registry_config (oc_registry opts);
          provider = lower (dget_or client_config ''provider'' CONFLUENT_OPTION) in
      rbind (selection_from_config selection_config provider field) (\<lambda>selection.
        if sel_auto_register selection
        then rbind (registration_document files opts field provider) (\<lambda>(document, message).
               Inr (case message of None \<Rightarrow> selection | Some m \<Rightarrow> selection\<lparr>sel_protobuf_message := Some m\<rparr>, Some document))
        else Inr (selection, None)))"

definition pool_registry_serializer ::
  "schema_files \<Rightarrow> 'c res \<Rightarrow> option_configs \<Rightarrow> message_field \<Rightarrow> ('c field_serializer, 'c option) act" where
  "pool_registry_serializer files made opts field =
     abind (alift (field_selection files opts field)) (\<lambda>(selection, document).
     abind (pool_resolver made) (\<lambda>resolver. areturn (FieldRegistrySerializer resolver selection document)))"

definition serializer_pool_get ::
  "schema_files \<Rightarrow> 'c res \<Rightarrow> option_configs \<Rightarrow> format \<Rightarrow> message_field \<Rightarrow> ('c field_serializer, 'c option) act" where
  "serializer_pool_get files made opts f field =
     (let name = field_str field in
      if f \<in> set FIXED_SERIALIZERS then areturn (FixedSerializer f)
      else
        (case f of
           F_BYTES \<Rightarrow> alift (map_sum id BytesSerializer (encoding_from_config (oc_bytes opts) field))
         | F_JSON \<Rightarrow>
             (case dget (oc_json opts) name of
                None \<Rightarrow> areturn PlainJsonSerializer
              | Some path \<Rightarrow> alift (rbind (sf_json files path) (\<lambda>_. Inr (JsonSchemaSerializer path))))
         | F_AVRO \<Rightarrow>
             alift (rbind (item (oc_avro opts) name) (\<lambda>path. rbind (sf_avro files path) (\<lambda>_. Inr (AvroFileSerializer path))))
         | F_PROTOBUF \<Rightarrow>
             alift (rbind (item (oc_protobuf opts) name) (\<lambda>m.
               rbind (sf_protobuf files (oc_protobuf opts) m) (\<lambda>_. Inr (ProtobufSerializer m))))
         | F_REGISTRY \<Rightarrow> pool_registry_serializer files made opts field
         | _ \<Rightarrow> areturn PlainJsonSerializer))"

section \<open>Lemmas\<close>

text \<open>The file readers of the pool are those the options were checked with.\<close>

definition files_as_checked :: "cli_env \<Rightarrow> schema_files \<Rightarrow> bool" where
  "files_as_checked env files \<longleftrightarrow>
     sf_json files = env_load_json_schema env \<and> sf_avro files = env_load_avro_schema env \<and>
     sf_protobuf files = local_message_class env"

text \<open>What is left to fail: reading the document a field registers, and making the provider's client.\<close>

definition document_error :: "schema_files \<Rightarrow> option_configs \<Rightarrow> message_field \<Rightarrow> exn \<Rightarrow> bool" where
  "document_error files opts field e \<longleftrightarrow>
     (\<exists>path. dget (oc_avro opts) (field_str field) = Some path \<and> sf_avro_document files path = Inl e) \<or>
     (\<exists>path. dget (oc_json opts) (field_str field) = Some path \<and> sf_json_document files path = Inl e) \<or>
     (\<exists>m source. dget (oc_protobuf opts) (field_str field) = Some m \<and> sf_protobuf_document files (oc_protobuf opts) m source = Inl e)"

definition client_error :: "(config \<Rightarrow> 'c res) \<Rightarrow> (apicurio_config \<Rightarrow> 'c res) \<Rightarrow> option_configs \<Rightarrow> exn \<Rightarrow> bool" where
  "client_error confluent apicurio opts e \<longleftrightarrow>
     confluent (filter (\<lambda>p. fst p \<noteq> ''provider'') (fst (split_registry_config (oc_registry opts)))) = Inl e \<or>
     (\<exists>c. oc_apicurio opts = Some c \<and> apicurio c = Inl e)"

lemma dmerge_append: "distinct (dkeys a @ dkeys b) \<Longrightarrow> dmerge a b = a @ b"
proof (induction b arbitrary: a)
  case (Cons p b)
  then show ?case using Cons.IH[of "a @ [p]"] by (cases p) (auto simp: dput_fresh din_def)
qed simp

lemma split_of_parts:
  assumes "distinct (dkeys a @ dkeys b)"
    and "\<forall>k \<in> set (dkeys a). selection_property k = None" and "\<forall>k \<in> set (dkeys b). selection_property k \<noteq> None"
  shows "split_registry_config (dmerge a b) = (a, b)"
proof -
  have "filter (\<lambda>p. selection_property (fst p) = None) (a @ b) = a"
    and "filter (\<lambda>p. selection_property (fst p) \<noteq> None) (a @ b) = b"
    using assms(2,3) by (auto intro!: filter_none filter_True)
  then show ?thesis using assms(1) by (simp add: dmerge_append split_registry_config_filter)
qed

lemma check_protobuf_messages_Inr:
  "check_protobuf_messages env config = Inr u \<Longrightarrow> dget config n = Some m \<Longrightarrow> n = ''key'' \<or> n = ''value'' \<Longrightarrow>
   local_message_class env config m = Inr ()"
  by (auto simp: check_protobuf_messages_def res_simps schema_error_as_parameter_Inr split: option.splits)

lemma provider_kept:
  assumes "normalize_registry env config k v = Inr (n, a)"
  shows "lower (dget_or n ''provider'' CONFLUENT_OPTION) = dget_or n ''provider'' CONFLUENT_OPTION"
    and "ddistinct config \<Longrightarrow> ddistinct n \<and> set (dkeys n) = set (dkeys config)"
proof -
  let ?p = "lower (dget_or config ''provider'' CONFLUENT_OPTION)"
  have n: "n = [] \<and> config = [] \<or> ?p \<in> set REGISTRY_PROVIDERS \<and> n = (if din ''provider'' config then dput ''provider'' ?p config else config)"
    using assms by (auto simp: normalize_registry_def Let_def res_simps split: if_splits)
  then show "lower (dget_or n ''provider'' CONFLUENT_OPTION) = dget_or n ''provider'' CONFLUENT_OPTION"
    by (cases "din ''provider'' config")
      (auto simp: dget_or_def dict_simps providers_lower provider_options din_iff_get split: option.splits)
  show "ddistinct config \<Longrightarrow> ddistinct n \<and> set (dkeys n) = set (dkeys config)"
    using n by (cases "''provider'' \<in> fst ` set config") (elim disjE; simp add: keyset_dput din_def distinct_update insert_absorb)+
qed

lemma provider_client:
  assumes "normalize_registry env config k v = Inr (n, a)" and "lower (dget_or n ''provider'' CONFLUENT_OPTION) = APICURIO_OPTION"
  shows "a \<noteq> None"
proof -
  let ?p = "lower (dget_or config ''provider'' CONFLUENT_OPTION)"
  have kept: "?p = APICURIO_OPTION"
    if "config \<noteq> []" "n = (if din ''provider'' config then dput ''provider'' ?p config else config)" "?p \<in> set REGISTRY_PROVIDERS"
    using assms(2) that by (cases "din ''provider'' config") (auto simp: dget_or_def dict_simps providers_lower split: option.splits)
  show ?thesis
  proof (cases "config = []")
    case True
    then show ?thesis using assms provider_options by (simp add: normalize_registry_def dget_or_def)
  next
    case False
    then have "?p \<in> set REGISTRY_PROVIDERS" "n = (if din ''provider'' config then dput ''provider'' ?p config else config)"
      using assms(1) by (auto simp: normalize_registry_def Let_def res_simps split: if_splits)
    from kept[OF False this(2,1)] show ?thesis
      using assms(1) False provider_options(1) by (auto simp: normalize_registry_def Let_def res_simps split: if_splits)
  qed
qed

lemma register_field_Inr:
  "register_field env selection provider rows = Inr registering \<Longrightarrow> (flag, field, F_REGISTRY) \<in> set rows \<Longrightarrow>
   \<exists>sel. selection_from_config selection provider field = Inr sel \<and> (sel_auto_register sel \<longrightarrow> field_str field \<in> set registering)"
proof (induction env selection provider rows arbitrary: registering rule: register_field.induct)
  case (2 env selection provider flag' field' fmt rest)
  then show ?case by (cases "fmt = F_REGISTRY") (fastforce simp: res_simps split: sum.splits option.splits if_splits)+
qed simp

lemma register_field_only:
  "register_field env selection provider rows = Inr registering \<Longrightarrow> n \<in> set registering \<Longrightarrow>
   \<exists>flag field. n = field_str field \<and> (flag, field, F_REGISTRY) \<in> set rows"
  by (induction env selection provider rows arbitrary: registering rule: register_field.induct)
    (fastforce simp: res_simps split: if_splits sum.splits option.splits)+

lemma empty_selection: "\<exists>sel. selection_from_config [] provider field = Inr sel \<and> \<not> sel_auto_register sel"
  by (auto simp: selection_from_config_def confluent_selection_def apicurio_selection_def selection_value_def
      selection_boolean_def selection_schema_id_def res_simps)

text \<open>What the accepted options hold of the Registry.\<close>

lemma serializer_registry:
  assumes "normalize_producer_registry env config k v = Inr (registry, apicurio, registering)" and "ddistinct config"
    and "f = F_REGISTRY" and "f = k \<and> field = KEY \<or> f = v \<and> field = VALUE"
  shows "\<exists>client selection sel. split_registry_config registry = (client, selection) \<and>
    selection_from_config selection (lower (dget_or client ''provider'' CONFLUENT_OPTION)) field = Inr sel \<and>
    (sel_auto_register sel \<longrightarrow> field_str field \<in> set registering) \<and>
    (lower (dget_or client ''provider'' CONFLUENT_OPTION) = APICURIO_OPTION \<longrightarrow> apicurio \<noteq> None)"
proof -
  obtain client selection where s: "split_registry_config config = (client, selection)" by fastforce
  obtain n where n: "normalize_registry env client k v = Inr (n, apicurio)"
    and rest: "selection = [] \<and> registry = n \<and> registering = [] \<or>
      register_field env selection (dget_or n ''provider'' CONFLUENT_OPTION) [(''-k'', KEY, k), (''-v'', VALUE, v)] = Inr registering \<and>
      registry = dmerge n selection"
    using assms(1) s by (auto simp: normalize_producer_registry_def Let_def res_simps split: if_splits)
  have parts: "client = filter (\<lambda>p. selection_property (fst p) = None) config"
    "selection = filter (\<lambda>p. selection_property (fst p) \<noteq> None) config"
    using s split_registry_config_filter[OF assms(2)] by simp_all
  have dc: "ddistinct client" "ddistinct selection"
    using assms(2) unfolding parts by (simp_all add: distinct_map_filter)
  note prov = provider_kept[OF n]
  have made: "lower (dget_or n ''provider'' CONFLUENT_OPTION) = APICURIO_OPTION \<longrightarrow> apicurio \<noteq> None" using provider_client[OF n] by blast
  have dn: "distinct (dkeys n)" "set (dkeys n) = set (dkeys client)" using prov(2)[OF dc(1)] by simp_all
  have keys: "\<forall>x \<in> set (dkeys n). selection_property x = None" "\<forall>x \<in> set (dkeys selection). selection_property x \<noteq> None"
    unfolding dn(2) by (auto simp: parts)
  have "distinct (dkeys n @ dkeys selection)"
    unfolding distinct_append using dn(1) dc(2) keys by (metis disjoint_iff)
  from split_of_parts[OF this keys] have split: "split_registry_config (dmerge n selection) = (n, selection)" .
  show ?thesis
  proof (cases "selection = []")
    case True
    then have "split_registry_config registry = (n, [])"
      using rest split by auto
    then show ?thesis using made empty_selection by blast
  next
    case False
    then have r: "register_field env selection (dget_or n ''provider'' CONFLUENT_OPTION) [(''-k'', KEY, k), (''-v'', VALUE, v)] = Inr registering"
      and d: "registry = dmerge n selection" using rest by simp_all
    have "\<exists>flag. (flag, field, F_REGISTRY) \<in> set [(''-k'', KEY, k), (''-v'', VALUE, v)]" using assms(3,4) by auto
    then show ?thesis using register_field_Inr[OF r] split d prov(1) made by metis
  qed
qed

lemma registering_only:
  assumes "normalize_producer_registry env config k v = Inr (registry, apicurio, registering)" and "n \<in> set registering"
  shows "n = ''key'' \<and> k = F_REGISTRY \<or> n = ''value'' \<and> v = F_REGISTRY"
proof -
  obtain client selection where s: "split_registry_config config = (client, selection)" by fastforce
  obtain provider where "register_field env selection provider [(''-k'', KEY, k), (''-v'', VALUE, v)] = Inr registering"
    using assms s by (auto simp: normalize_producer_registry_def Let_def res_simps split: if_splits)
  from register_field_only[OF this assms(2)] show ?thesis by auto
qed

lemma schema_file_formats_Inr:
  "schema_file_formats k v registering avro json protobuf = Inr (fk, fv) \<longleftrightarrow>
   schema_file_format [(F_AVRO, avro), (F_JSON, json), (F_PROTOBUF, protobuf)] registering ''key'' k = Inr fk \<and>
   schema_file_format [(F_AVRO, avro), (F_JSON, json), (F_PROTOBUF, protobuf)] registering ''value'' v = Inr fv"
  by (auto simp: schema_file_formats_def Let_def res_simps)

lemma schema_file_format_Inr:
  "schema_file_format configs registering n fmt = Inr x \<Longrightarrow> n \<notin> set registering \<Longrightarrow> x = fmt"
  "schema_file_format configs registering n fmt = Inr x \<Longrightarrow> n \<in> set registering \<Longrightarrow> \<exists>(f, config) \<in> set configs. din n config"
proof -
  show "schema_file_format configs registering n fmt = Inr x \<Longrightarrow> n \<notin> set registering \<Longrightarrow> x = fmt"
    by (simp add: schema_file_format_def split: if_splits)
  assume "schema_file_format configs registering n fmt = Inr x" and "n \<in> set registering"
  then have "length (filter (\<lambda>(f, config). din n config) configs) = 1"
    by (simp add: schema_file_format_def Let_def split: if_splits)
  then have "filter (\<lambda>(f, config). din n config) configs \<noteq> []" by auto
  then show "\<exists>(f, config) \<in> set configs. din n config" by (auto simp: filter_empty_conv)
qed

lemma serializer_schema_files:
  assumes "normalize_serializer_options env k v o1 = Inr opts" and "f = k \<and> field = KEY \<or> f = v \<and> field = VALUE"
  shows "(f = F_JSON \<longrightarrow> (\<forall>path. dget (oc_json opts) (field_str field) = Some path \<longrightarrow> env_load_json_schema env path = Inr ())) \<and>
    (f = F_AVRO \<longrightarrow> (\<exists>path. dget (oc_avro opts) (field_str field) = Some path \<and> env_load_avro_schema env path = Inr ())) \<and>
    (f = F_PROTOBUF \<longrightarrow> (\<exists>m. dget (oc_protobuf opts) (field_str field) = Some m \<and> local_message_class env (oc_protobuf opts) m = Inr ())) \<and>
    (\<exists>e. encoding_from_config (oc_bytes opts) field = Inr e)"
proof -
  obtain registering fk fv where steps: "require_configured (oc_registry o1) (oc_avro o1) (oc_protobuf o1) k v = Inr ()"
    "normalize_producer_registry env (oc_registry o1) k v = Inr (oc_registry opts, oc_apicurio opts, registering)"
    "schema_file_formats k v registering (oc_avro o1) (oc_json o1) (oc_protobuf o1) = Inr (fk, fv)"
    "normalize_json env (oc_json o1) fk fv JSON_SERIALIZER_CONFIGS = Inr (oc_json opts)"
    "normalize_producer_avro env (oc_avro o1) fk fv = Inr (oc_avro opts)"
    "normalize_producer_protobuf env (oc_protobuf o1) fk fv = Inr (oc_protobuf opts)"
    "normalize_bytes (oc_bytes o1) k v = Inr (oc_bytes opts)"
    using assms(1) by (auto simp: normalize_serializer_options_def res_simps)
  have only: "n \<in> set registering \<Longrightarrow> n = ''key'' \<and> k = F_REGISTRY \<or> n = ''value'' \<and> v = F_REGISTRY" for n
    by (rule registering_only[OF steps(2)])
  have kept: "f \<noteq> F_REGISTRY \<Longrightarrow> (field = KEY \<longrightarrow> fk = f) \<and> (field = VALUE \<longrightarrow> fv = f)"
    using assms(2) only[of "''key''"] only[of "''value''"] schema_file_format_Inr(1)
      steps(3)[unfolded schema_file_formats_Inr] by fastforce
  have names: "field_str field = ''key'' \<and> field = KEY \<or> field_str field = ''value'' \<and> field = VALUE"
    using assms(2) by auto
  have used: "f = F_AVRO \<Longrightarrow> oc_avro o1 \<noteq> []" "f = F_PROTOBUF \<Longrightarrow> oc_protobuf o1 \<noteq> []"
    using steps(1) assms(2) by (auto simp: require_configured_def res_simps)
  have j: "oc_json o1 \<noteq> [] \<Longrightarrow> check_schema_files env (oc_json opts) (env_load_json_schema env) = Inr ()" "oc_json o1 = [] \<Longrightarrow> oc_json opts = []"
    using steps(4) by (auto simp: normalize_json_def res_simps)
  have a: "oc_avro o1 \<noteq> [] \<Longrightarrow> check_schema_files env (oc_avro opts) (env_load_avro_schema env) = Inr () \<and>
      (fk = F_AVRO \<longrightarrow> din ''key'' (oc_avro opts)) \<and> (fv = F_AVRO \<longrightarrow> din ''value'' (oc_avro opts))"
    using steps(5) by (auto simp: normalize_producer_avro_def require_field_properties_def res_simps)
  have p: "oc_protobuf o1 \<noteq> [] \<Longrightarrow> check_protobuf_messages env (oc_protobuf opts) = Inr () \<and>
      (fk = F_PROTOBUF \<longrightarrow> din ''key'' (oc_protobuf opts)) \<and> (fv = F_PROTOBUF \<longrightarrow> din ''value'' (oc_protobuf opts))"
    using steps(6) by (auto simp: normalize_producer_protobuf_def require_field_properties_def res_simps)
  have "f = F_JSON \<longrightarrow> (\<forall>path. dget (oc_json opts) (field_str field) = Some path \<longrightarrow> env_load_json_schema env path = Inr ())"
    using j names check_schema_files_Inr[OF j(1)] by (cases "oc_json o1 = []") auto
  moreover have "f = F_AVRO \<longrightarrow> (\<exists>path. dget (oc_avro opts) (field_str field) = Some path \<and> env_load_avro_schema env path = Inr ())"
    using a[OF used(1)] names kept check_schema_files_Inr[OF conjunct1[OF a[OF used(1)]]] by (auto simp: din_iff_get)
  moreover have "f = F_PROTOBUF \<longrightarrow> (\<exists>m. dget (oc_protobuf opts) (field_str field) = Some m \<and> local_message_class env (oc_protobuf opts) m = Inr ())"
    using p[OF used(2)] names kept check_protobuf_messages_Inr[OF conjunct1[OF p[OF used(2)]]] by (auto simp: din_iff_get)
  moreover have "\<exists>e. encoding_from_config (oc_bytes opts) field = Inr e"
    using validated_bytes_encoding[OF steps(7)] by blast
  ultimately show ?thesis by blast
qed

lemma serializer_document:
  assumes "normalize_serializer_options env k v o1 = Inr opts"
    and "normalize_producer_registry env (oc_registry o1) k v = Inr (registry, apicurio, registering)"
    and "field_str field \<in> set registering"
  shows "case registration_document files opts field provider of Inl e \<Rightarrow> document_error files opts field e | Inr _ \<Rightarrow> True"
proof -
  obtain fk fv where steps: 
    "schema_file_formats k v registering (oc_avro o1) (oc_json o1) (oc_protobuf o1) = Inr (fk, fv)"
    "normalize_json env (oc_json o1) fk fv JSON_SERIALIZER_CONFIGS = Inr (oc_json opts)"
    "normalize_producer_avro env (oc_avro o1) fk fv = Inr (oc_avro opts)"
    "normalize_producer_protobuf env (oc_protobuf o1) fk fv = Inr (oc_protobuf opts)"
    using assms(1,2) by (auto simp: normalize_serializer_options_def res_simps)
  have "din (field_str field) (oc_avro o1) \<or> din (field_str field) (oc_json o1) \<or> din (field_str field) (oc_protobuf o1)"
    using steps(1)[unfolded schema_file_formats_Inr] registering_only[OF assms(2,3)] schema_file_format_Inr(2)[OF _ assms(3)]
    by fastforce
  moreover have "oc_avro opts = oc_avro o1" "oc_protobuf opts = oc_protobuf o1" "dkeys (oc_json opts) = dkeys (oc_json o1)"
    using steps(2-4) by (auto simp: normalize_producer_avro_def normalize_producer_protobuf_def normalize_json_def res_simps
        dest!: normalize_choices_keys split: if_splits)
  then have "din (field_str field) (oc_avro o1) = din (field_str field) (oc_avro opts)" 
    "din (field_str field) (oc_protobuf o1) = din (field_str field) (oc_protobuf opts)" 
    "din (field_str field) (oc_json o1) = din (field_str field) (oc_json opts)" by (simp_all add: din_def)
  ultimately show ?thesis
    by (auto simp: registration_document_def document_error_def Let_def din_iff_get res_simps split: option.splits sum.splits)
qed

section \<open>Properties\<close>


definition producer_options :: option_configs where
  "producer_options = sample_options\<lparr>
     oc_registry := [(''url'', ''http://r''), (''value.auto.register.schemas'', ''true''), (''provider'', ''Confluent'')],
     oc_avro := [(''value'', ''v.avsc'')], oc_bytes := [(''key.encoding'', ''HEX'')]\<rparr>"

definition checked_files :: schema_files where
  "checked_files = \<lparr>sf_json = env_load_json_schema sample_env, sf_avro = env_load_avro_schema sample_env,
     sf_protobuf = local_message_class sample_env, sf_avro_document = (\<lambda>path. Inr (SchemaDocument ST_AVRO path [])),
     sf_json_document = (\<lambda>path. Inr (SchemaDocument ST_JSON path [])),
     sf_protobuf_document = (\<lambda>_ m _. Inr (SchemaDocument ST_PROTOBUF m []))\<rparr>"

lemma serializer_options_accepted: "\<exists>opts. normalize_serializer_options sample_env F_BYTES F_REGISTRY producer_options = Inr opts"
proof -
  have "isl (normalize_serializer_options sample_env F_BYTES F_REGISTRY producer_options) = False" by code_simp
  then show ?thesis by (cases "normalize_serializer_options sample_env F_BYTES F_REGISTRY producer_options") auto
qed


end
