(* ===== verification/Kafka_Client.thy ===== *)
theory Kafka_Client
  imports Models
begin

text \<open>
  What the services use of the Kafka client: error codes and special offsets (the numbers of the
  Kafka protocol and of librdkafka, as \<open>confluent_kafka\<close> documents them), topic partitions and
  polled messages. A \<open>KafkaError\<close> is its code and its text.
\<close>

type_synonym kafka_error = "int \<times> string"

definition kafka_exception :: "kafka_error \<Rightarrow> exn" where
  "kafka_exception e = KafkaException (fst e) (snd e)"

definition GROUP_AUTHORIZATION_FAILED :: int where "GROUP_AUTHORIZATION_FAILED = 30"
definition SASL_AUTHENTICATION_FAILED :: int where "SASL_AUTHENTICATION_FAILED = 58"
definition TOPIC_AUTHORIZATION_FAILED :: int where "TOPIC_AUTHORIZATION_FAILED = 29"
definition CLUSTER_AUTHORIZATION_FAILED :: int where "CLUSTER_AUTHORIZATION_FAILED = 31"
definition TRANSACTIONAL_ID_AUTHORIZATION_FAILED :: int where "TRANSACTIONAL_ID_AUTHORIZATION_FAILED = 53"
definition LOCAL_UNKNOWN_TOPIC :: int where "LOCAL_UNKNOWN_TOPIC = - 188"
definition UNKNOWN_TOPIC_OR_PART :: int where "UNKNOWN_TOPIC_OR_PART = 3"
definition MSG_SIZE_TOO_LARGE :: int where "MSG_SIZE_TOO_LARGE = 10"
definition RECORD_LIST_TOO_LARGE :: int where "RECORD_LIST_TOO_LARGE = 18"
definition LOCAL_MSG_TIMED_OUT :: int where "LOCAL_MSG_TIMED_OUT = - 192"
definition LOCAL_TIMED_OUT :: int where "LOCAL_TIMED_OUT = - 185"
definition REQUEST_TIMED_OUT :: int where "REQUEST_TIMED_OUT = 7"

lemmas kafka_codes =
  GROUP_AUTHORIZATION_FAILED_def SASL_AUTHENTICATION_FAILED_def TOPIC_AUTHORIZATION_FAILED_def
  CLUSTER_AUTHORIZATION_FAILED_def TRANSACTIONAL_ID_AUTHORIZATION_FAILED_def LOCAL_UNKNOWN_TOPIC_def
  UNKNOWN_TOPIC_OR_PART_def MSG_SIZE_TOO_LARGE_def RECORD_LIST_TOO_LARGE_def LOCAL_MSG_TIMED_OUT_def
  LOCAL_TIMED_OUT_def REQUEST_TIMED_OUT_def

definition OFFSET_BEGINNING :: int where "OFFSET_BEGINNING = - 2"
definition OFFSET_END :: int where "OFFSET_END = - 1"
definition OFFSET_INVALID :: int where "OFFSET_INVALID = - 1001"

record topic_partition =
  tp_topic :: string
  tp_partition :: int
  tp_offset :: int
  tp_error :: "kafka_error option"

record kafka_message =
  km_error :: "kafka_error option"
  km_partition :: int
  km_offset :: int
  km_key :: "byte list option"
  km_value :: "byte list option"
  km_headers :: "(string \<times> byte list option) list"

end
