(* ===== verification/Consumer_Service.thy ===== *)
theory Consumer_Service
  imports Kafka_Client "HOL-Library.Sublist"
begin

text \<open>
  The consumer service (\<open>consumer_service.py\<close>): partition assignment, the conversion and filtering
  of polled messages, and the loop that fills one page of records.

  The Kafka consumer is a stream of poll results: \<open>polls i n\<close> is what the \<open>i\<close>-th call of
  \<open>consume(n)\<close> returns, together with the callbacks it runs (an assignment, errors). Deserializers
  are called through \<open>call\<close> on a state of type \<open>'s\<close>, as in the theory \<open>Models\<close>. The loop goes on
  as long as records that do not match keep coming, so it is a partial function: \<open>None\<close> is a
  loop that never returns. The two retry bounds are the rounded-up quotients of the timeouts,
  at least one. Locks, logging and times of day are not modelled.
\<close>

section \<open>State\<close>

record 'i consumer =
  c_topic :: string
  c_page_size :: nat
  c_partitions :: "partition_selection list"
  c_manually_assigned :: bool
  c_key_deserialization :: format
  c_value_deserialization :: format
  c_key_encoding :: bytes_encoding
  c_value_encoding :: bytes_encoding
  c_fallback_encoding :: bytes_encoding
  c_key_deserializer :: 'i
  c_value_deserializer :: 'i
  c_header_deserializer :: 'i
  c_stable :: bool
  c_error :: "kafka_error option"
  c_started :: bool

definition consumer_authorization_codes :: "int list" where
  "consumer_authorization_codes =
     [GROUP_AUTHORIZATION_FAILED, SASL_AUTHENTICATION_FAILED, TOPIC_AUTHORIZATION_FAILED]"

definition on_consumer_error :: "kafka_error \<Rightarrow> 'i consumer \<Rightarrow> 'i consumer" where
  "on_consumer_error e c = (if fst e \<in> set consumer_authorization_codes then c\<lparr>c_error := Some e\<rparr> else c)"

definition on_assign :: "'i consumer \<Rightarrow> 'i consumer" where
  "on_assign c = c\<lparr>c_stable := True\<rparr>"

text \<open>The error to raise, which is raised once.\<close>

definition raise_consumer_error :: "'i consumer \<Rightarrow> unit res \<times> 'i consumer" where
  "raise_consumer_error c =
     (case c_error c of
        None \<Rightarrow> (Inr (), c)
      | Some e \<Rightarrow> (Inl (kafka_exception e), c\<lparr>c_error := None\<rparr>))"

section \<open>Assignment\<close>

definition manually_assigned :: "partition_selection list \<Rightarrow> string option \<Rightarrow> bool" where
  "manually_assigned partitions offset_reset \<longleftrightarrow> partitions \<noteq> [] \<or> offset_reset = Some EARLIEST"

definition assignment_offset :: "partition_selection \<Rightarrow> int" where
  "assignment_offset s =
     (case ps_offset s of Some FROM_EARLIEST \<Rightarrow> OFFSET_BEGINNING | None \<Rightarrow> OFFSET_END | Some (AT_OFFSET n) \<Rightarrow> n)"

definition assignment ::
  "string \<Rightarrow> (int \<Rightarrow> (int \<times> int) res) \<Rightarrow> int list \<Rightarrow> partition_selection \<Rightarrow> topic_partition res" where
  "assignment topic watermarks available s =
     (if ps_partition s \<notin> set available
      then Inl (PartitionSelectionError (''Partition '' @ show_int (ps_partition s)
             @ '' does not exist in topic '' @ py_repr topic))
      else
        (let tp = \<lparr>tp_topic = topic, tp_partition = ps_partition s, tp_offset = assignment_offset s, tp_error = None\<rparr> in
         case ps_offset s of
           Some (AT_OFFSET n) \<Rightarrow>
             rbind (watermarks (ps_partition s)) (\<lambda>(low, high).
               if \<not> (low \<le> n \<and> n \<le> high)
               then Inl (PartitionSelectionError (''Offset '' @ show_int n @ '' is out of range for partition ''
                      @ show_int (ps_partition s) @ ''; available offsets are '' @ show_int low @ '' through '' @ show_int high))
               else Inr tp)
         | _ \<Rightarrow> Inr tp))"

text \<open>Topic metadata: absent, an error, or the partition numbers.\<close>

type_synonym topic_metadata = "kafka_error option \<times> int list"

definition available_partitions :: "string \<Rightarrow> topic_metadata option res \<Rightarrow> int list res" where
  "available_partitions topic metadata =
     rbind metadata (\<lambda>m.
       case m of
         None \<Rightarrow> Inl (PartitionSelectionError (''Topic '' @ py_repr topic @ '' does not exist''))
       | Some (Some e, _) \<Rightarrow> Inl (kafka_exception e)
       | Some (None, partitions) \<Rightarrow> Inr (remdups partitions))"

text \<open>The assignments of a manually assigned consumer, \<open>None\<close> for a subscription.\<close>

definition start_consuming ::
  "topic_metadata option res \<Rightarrow> (int \<Rightarrow> (int \<times> int) res) \<Rightarrow> 'i consumer
     \<Rightarrow> topic_partition list option res \<times> 'i consumer" where
  "start_consuming metadata watermarks c =
     (if \<not> c_manually_assigned c then (Inr None, c)
      else
        (case rbind (available_partitions (c_topic c) metadata) (\<lambda>available.
                let selections = (if c_partitions c \<noteq> [] then c_partitions c
                      else map (\<lambda>p. \<lparr>ps_partition = p, ps_offset = Some FROM_EARLIEST\<rparr>) (sort available)) in
                map_res (assignment (c_topic c) watermarks available) selections) of
           Inl e \<Rightarrow> (Inl e, c)
         | Inr assignments \<Rightarrow> (Inr (Some assignments), on_assign c)))"

definition start ::
  "topic_metadata option res \<Rightarrow> (int \<Rightarrow> (int \<times> int) res) \<Rightarrow> 'i consumer
     \<Rightarrow> topic_partition list option res \<times> 'i consumer" where
  "start metadata watermarks c =
     (if c_started c then (Inr None, c)
      else (case start_consuming metadata watermarks c of
              (Inl e, c') \<Rightarrow> (Inl e, c')
            | (Inr a, c') \<Rightarrow> (Inr a, c'\<lparr>c_started := True\<rparr>)))"

section \<open>Records from messages\<close>

definition record_from_message ::
  "('i, 's) deser_call \<Rightarrow> 'i consumer \<Rightarrow> kafka_message \<Rightarrow> 's \<Rightarrow> 'i message res \<times> 's" where
  "record_from_message call c m s =
     (case km_error m of
        Some e \<Rightarrow> (Inl (kafka_exception e), s)
      | None \<Rightarrow>
          (let r = \<lparr>r_topic = c_topic c, r_partition = km_partition m, r_offset = km_offset m,
                 r_key = km_key m, r_value = km_value m,
                 r_headers = map (\<lambda>(k, v). \<lparr>h_key = k, h_value = v, h_deserializer = Some (c_header_deserializer c),
                    h_encoding = c_fallback_encoding c, h_deserialization = F_STRING,
                    h_deserialized = None, h_error = None\<rparr>) (km_headers m),
                 r_key_deserialization = c_key_deserialization c,
                 r_value_deserialization = c_value_deserialization c,
                 r_key_deserializer = Some (c_key_deserializer c),
                 r_value_deserializer = Some (c_value_deserializer c),
                 r_key_encoding = c_key_encoding c, r_value_encoding = c_value_encoding c,
                 r_fallback_encoding = c_fallback_encoding c, r_key_outcome = None, r_value_outcome = None\<rparr> in
           case resolve_deserializations call r s of
             (Inl e, _, s') \<Rightarrow> (Inl e, s')
           | (Inr _, r', s') \<Rightarrow> (Inr r', s')))"

text \<open>\<open>any(filters.header in header.value_str() ...)\<close>: headers are read until one matches.\<close>

fun any_header_matches ::
  "('i, 's) deser_call \<Rightarrow> (pyval \<Rightarrow> string) \<Rightarrow> string \<Rightarrow> 'i header list \<Rightarrow> 's
     \<Rightarrow> bool res \<times> 'i header list \<times> 's" where
  "any_header_matches call show_val wanted [] s = (Inr False, [], s)"
| "any_header_matches call show_val wanted (h # hs) s =
     (case header_value_deserialized call h s of
        (Inl e, h', s') \<Rightarrow> (Inl e, h' # hs, s')
      | (Inr v, h', s') \<Rightarrow>
          if contains wanted (content_str show_val v (h_encoding h')) then (Inr True, h' # hs, s')
          else (case any_header_matches call show_val wanted hs s' of
                  (r, hs', s'') \<Rightarrow> (r, h' # hs', s'')))"

definition outcome_contains :: "(pyval \<Rightarrow> string) \<Rightarrow> string \<Rightarrow> outcome option \<Rightarrow> bool" where
  "outcome_contains show_val wanted out =
     (case out of None \<Rightarrow> False | Some k \<Rightarrow> contains wanted (outcome_str show_val k))"

text \<open>\<open>_matches\<close> on a record whose key and value are resolved.\<close>

definition matches ::
  "('i, 's) deser_call \<Rightarrow> (pyval \<Rightarrow> string) \<Rightarrow> record_filters \<Rightarrow> 'i message \<Rightarrow> 's
     \<Rightarrow> bool res \<times> 'i message \<times> 's" where
  "matches call show_val f r s =
     (if rf_partition f \<noteq> None \<and> Some (r_partition r) \<noteq> rf_partition f then (Inr False, r, s)
      else if rf_key f \<noteq> [] \<and> \<not> outcome_contains show_val (rf_key f) (r_key_outcome r) then (Inr False, r, s)
      else if rf_value f \<noteq> [] \<and> \<not> outcome_contains show_val (rf_value f) (r_value_outcome r) then (Inr False, r, s)
      else if rf_header f = [] then (Inr True, r, s)
      else (case any_header_matches call show_val (rf_header f) (r_headers r) s of
              (b, hs, s') \<Rightarrow> (b, r\<lparr>r_headers := hs\<rparr>, s')))"

text \<open>One message converted and filtered: the record and whether it matches.\<close>

definition convert ::
  "('i, 's) deser_call \<Rightarrow> (pyval \<Rightarrow> string) \<Rightarrow> 'i consumer \<Rightarrow> record_filters \<Rightarrow> kafka_message \<Rightarrow> 's
     \<Rightarrow> ('i message \<times> bool) res \<times> 's" where
  "convert call show_val c f m s =
     (case record_from_message call c m s of
        (Inl e, s') \<Rightarrow> (Inl e, s')
      | (Inr r, s') \<Rightarrow>
          (case matches call show_val f r s' of
             (Inl e, _, s'') \<Rightarrow> (Inl e, s'')
           | (Inr b, r', s'') \<Rightarrow> (Inr (r', b), s'')))"

fun records_from_batch ::
  "(kafka_message \<Rightarrow> 's \<Rightarrow> ('i message \<times> bool) res \<times> 's) \<Rightarrow> kafka_message list \<Rightarrow> nat \<Rightarrow> 's
     \<Rightarrow> ('i message list \<times> nat) res \<times> 's" where
  "records_from_batch conv [] limit s = (Inr ([], 0), s)"
| "records_from_batch conv (m # ms) limit s =
     (case conv m s of
        (Inl e, s') \<Rightarrow> (Inl e, s')
      | (Inr (r, ok), s') \<Rightarrow>
          if ok \<and> limit \<le> 1 then (Inr ([r], 1), s')
          else (case records_from_batch conv ms (if ok then limit - 1 else limit) s' of
                  (Inl e, s'') \<Rightarrow> (Inl e, s'')
                | (Inr (rs, scanned), s'') \<Rightarrow> (Inr (if ok then r # rs else rs, Suc scanned), s'')))"

section \<open>The page loop\<close>

record poll_event =
  pe_messages :: "kafka_message list"
  pe_assigned :: bool
  pe_errors :: "kafka_error list"

text \<open>The callbacks one poll runs.\<close>

definition run_callbacks :: "poll_event \<Rightarrow> 'i consumer \<Rightarrow> 'i consumer" where
  "run_callbacks ev c = fold on_consumer_error (pe_errors ev) (if pe_assigned ev then on_assign c else c)"

definition retry_bound :: "rat \<Rightarrow> nat" where
  "retry_bound q = max 1 (nat \<lceil>q\<rceil>)"

partial_function (option) consume_loop ::
  "(kafka_message \<Rightarrow> 's \<Rightarrow> ('i message \<times> bool) res \<times> 's) \<Rightarrow> (nat \<Rightarrow> nat \<Rightarrow> poll_event) \<Rightarrow> nat \<Rightarrow> nat
     \<Rightarrow> 'i consumer \<Rightarrow> nat \<Rightarrow> 's \<Rightarrow> 'i message list \<Rightarrow> nat \<Rightarrow> nat
     \<Rightarrow> ('i message list res \<times> 'i consumer \<times> nat \<times> 's) option" where
  "consume_loop conv polls max_poll max_stab c i s records poll_retries stab_retries =
     (if length records < c_page_size c \<and> poll_retries < max_poll \<and> stab_retries < max_stab
      then
        (let limit = c_page_size c - length records; ev = polls i limit in
         case raise_consumer_error (run_callbacks ev c) of
           (Inl e, c1) \<Rightarrow> Some (Inl e, c1, Suc i, s)
         | (Inr _, c1) \<Rightarrow>
             if \<not> c_stable c1
             then consume_loop conv polls max_poll max_stab c1 (Suc i) s records poll_retries (Suc stab_retries)
             else if pe_messages ev = []
             then consume_loop conv polls max_poll max_stab c1 (Suc i) s records (Suc poll_retries) 0
             else (case records_from_batch conv (pe_messages ev) limit s of
                     (Inl e, s') \<Rightarrow> Some (Inl e, c1, Suc i, s')
                   | (Inr (matched, scanned), s') \<Rightarrow>
                       consume_loop conv polls max_poll max_stab c1 (Suc i) s' (records @ matched) 0 0))
      else Some (Inr records, c, i, s))"

definition consume ::
  "('i, 's) deser_call \<Rightarrow> (pyval \<Rightarrow> string) \<Rightarrow> rat \<Rightarrow> rat \<Rightarrow> (nat \<Rightarrow> nat \<Rightarrow> poll_event)
     \<Rightarrow> topic_metadata option res \<Rightarrow> (int \<Rightarrow> (int \<times> int) res) \<Rightarrow> record_filters \<Rightarrow> 'i consumer \<Rightarrow> nat \<Rightarrow> 's
     \<Rightarrow> ('i message list res \<times> 'i consumer \<times> nat \<times> 's) option" where
  "consume call show_val idle assign polls metadata watermarks f c i s =
     (case start metadata watermarks c of
        (Inl e, c') \<Rightarrow> Some (Inl e, c', i, s)
      | (Inr _, c') \<Rightarrow>
          consume_loop (convert call show_val c' f) polls (retry_bound idle) (retry_bound assign) c' i s [] 0 0)"

section \<open>Lemmas\<close>

lemma c_stable_fold [simp]: "c_stable (fold on_consumer_error es c) = c_stable c"
  by (induction es arbitrary: c) (auto simp: on_consumer_error_def)

lemma c_page_size_fold [simp]: "c_page_size (fold on_consumer_error es c) = c_page_size c"
  by (induction es arbitrary: c) (auto simp: on_consumer_error_def)

lemma run_callbacks_page [simp]: "c_page_size (run_callbacks ev c) = c_page_size c"
  by (simp add: run_callbacks_def on_assign_def)

lemma run_callbacks_stable [simp]: "c_stable (run_callbacks ev c) = (c_stable c \<or> pe_assigned ev)"
  by (simp add: run_callbacks_def on_assign_def)

lemma raise_consumer_error_page [simp]: "raise_consumer_error c = (r, c') \<Longrightarrow> c_page_size c' = c_page_size c"
  by (auto simp: raise_consumer_error_def split: option.splits)

lemma raise_consumer_error_Inr: "raise_consumer_error c = (Inr u, c') \<Longrightarrow> c' = c \<and> c_error c = None"
  by (auto simp: raise_consumer_error_def split: option.splits)

definition position :: "'i message \<Rightarrow> int \<times> int" where
  "position r = (r_partition r, r_offset r)"

definition message_position :: "kafka_message \<Rightarrow> int \<times> int" where
  "message_position m = (km_partition m, km_offset m)"

text \<open>A batch gives at most the asked number of records, in the order of the messages.\<close>

lemma records_from_batch_spec:
  assumes conv: "\<And>m s r b s'. conv m s = (Inr (r, b), s') \<Longrightarrow> position r = message_position m \<and> (b \<longrightarrow> P r)"
    and "0 < limit"
  shows "records_from_batch conv ms limit s = (Inr (rs, scanned), s') \<Longrightarrow>
    length rs \<le> limit \<and> scanned \<le> length ms \<and> (length rs < limit \<longrightarrow> scanned = length ms) \<and>
    subseq (map position rs) (map message_position (take scanned ms)) \<and> list_all P rs"
  using assms(2)
proof (induction ms arbitrary: limit s rs scanned)
  case (Cons m ms)
  obtain res s1 where c: "conv m s = (res, s1)" by (cases "conv m s")
  with Cons.prems(1) obtain r ok where res: "res = Inr (r, ok)" by (cases res) auto
  note r = conv[OF c[unfolded res]]
  show ?case
  proof (cases "ok \<and> limit \<le> 1")
    case True
    then show ?thesis using Cons.prems c res r by auto
  next
    case False
    then obtain rs' scanned' where rest: "records_from_batch conv ms (if ok then limit - 1 else limit) s1 = (Inr (rs', scanned'), s')"
      and out: "rs = (if ok then r # rs' else rs')" "scanned = Suc scanned'"
      using Cons.prems(1) c res by (auto split: prod.splits sum.splits)
    have "0 < (if ok then limit - 1 else limit)" using False Cons.prems(2) by auto
    from Cons.IH[OF rest this] show ?thesis
      using out r Cons.prems(2) by (auto split: if_splits)
  qed
qed simp

lemma convert_position:
  assumes "convert call show_val c f m s = (Inr (r, b), s')"
  shows "position r = message_position m \<and> (b \<longrightarrow> rf_partition f \<noteq> None \<longrightarrow> rf_partition f = Some (r_partition r))"
proof -
  obtain r1 s1 where r1: "record_from_message call c m s = (Inr r1, s1)"
    using assms by (auto simp: convert_def split: prod.splits sum.splits)
  then have "position r1 = message_position m"
    by (auto simp: record_from_message_def Let_def position_def message_position_def resolve_deserializations_def
        key_outcome_def value_outcome_def split: option.splits prod.splits sum.splits)
  moreover obtain r2 where "matches call show_val f r1 s1 = (Inr b, r2, s')" "r = r2"
    using assms r1 by (auto simp: convert_def split: prod.splits sum.splits)
  moreover from this have "r_partition r = r_partition r1 \<and> r_offset r = r_offset r1 \<and>
      (b \<longrightarrow> rf_partition f \<noteq> None \<longrightarrow> rf_partition f = Some (r_partition r))"
    by (auto simp: matches_def split: if_splits prod.splits)
  ultimately show ?thesis by (auto simp: position_def)
qed

text \<open>The messages a run of polls returned, with the limit of each poll.\<close>

fun polled :: "(nat \<Rightarrow> nat \<Rightarrow> poll_event) \<Rightarrow> nat \<Rightarrow> nat list \<Rightarrow> kafka_message list" where
  "polled polls i [] = []"
| "polled polls i (n # ns) = pe_messages (polls i n) @ polled polls (Suc i) ns"

definition page_of ::
  "(nat \<Rightarrow> nat \<Rightarrow> poll_event) \<Rightarrow> ('i message \<Rightarrow> bool) \<Rightarrow> nat \<Rightarrow> nat \<Rightarrow> 'i message list \<Rightarrow> 'i message list \<Rightarrow> nat \<Rightarrow> bool"
  where
  "page_of polls P page i records rs i' \<longleftrightarrow>
     length rs \<le> page \<and> list_all P rs \<and>
     (\<exists>limits new. rs = records @ new \<and> i' = i + length limits \<and>
        subseq (map position new) (map message_position (polled polls i limits)))"

lemma page_of_refl: "length records \<le> page \<Longrightarrow> list_all P records \<Longrightarrow> page_of polls P page i records records i"
  unfolding page_of_def by (auto intro!: exI[of _ "[]"])

lemma page_of_step:
  assumes "page_of polls P page (Suc i) (records @ matched) rs i'"
    and "subseq (map position matched) (map message_position (pe_messages (polls i n)))"
  shows "page_of polls P page i records rs i'"
proof -
  obtain limits new where *: "length rs \<le> page" "list_all P rs" "rs = (records @ matched) @ new"
    "i' = Suc i + length limits" "subseq (map position new) (map message_position (polled polls (Suc i) limits))"
    using assms(1) by (auto simp: page_of_def)
  then have "subseq (map position (matched @ new)) (map message_position (polled polls i (n # limits)))"
    using assms(2) by (simp add: list_emb_append_mono)
  with * show ?thesis unfolding page_of_def
    by (intro conjI exI[of _ "n # limits"] exI[of _ "matched @ new"]) simp_all
qed

lemma subseq_take: "subseq xs (map f (take n ys)) \<Longrightarrow> subseq xs (map f ys)"
  using subseq_map[OF prefix_imp_subseq[OF take_is_prefix[of n ys]], of f] by (auto intro: subseq_order.order_trans)

lemma consume_loop_page:
  assumes "consume_loop conv polls mp ms c i s records pr sr = Some (Inr rs, c', i', s')"
    and "\<And>m s r b s'. conv m s = (Inr (r, b), s') \<Longrightarrow> position r = message_position m \<and> (b \<longrightarrow> P r)"
    and "length records \<le> c_page_size c" and "list_all P records"
  shows "page_of polls P (c_page_size c) i records rs i'"
proof -
  have "\<forall>rs0 c0 i0 s0. (Inr rs :: _ res, c', i', s') = (Inr rs0, c0, i0, s0) \<longrightarrow>
      (\<forall>m s r b s'. conv m s = (Inr (r, b), s') \<longrightarrow> position r = message_position m \<and> (b \<longrightarrow> P r)) \<longrightarrow>
      length records \<le> c_page_size c \<longrightarrow> list_all P records \<longrightarrow> page_of polls P (c_page_size c) i records rs0 i0"
  proof (rule consume_loop.raw_induct[where P = "\<lambda>conv polls mp ms c i s records pr sr out.
      \<forall>rs c' i' s'. out = (Inr rs, c', i', s') \<longrightarrow>
      (\<forall>m s r b s'. conv m s = (Inr (r, b), s') \<longrightarrow> position r = message_position m \<and> (b \<longrightarrow> P r)) \<longrightarrow>
      length records \<le> c_page_size c \<longrightarrow> list_all P records \<longrightarrow> page_of polls P (c_page_size c) i records rs i'",
      OF _ assms(1)], intro allI impI, goal_cases)
    case (1 loop conv polls mp ms c i s records pr sr out rs c' i' s')
    note IH = 1(1) and body = 1(2) and out = 1(3) and conv = 1(4) and len = 1(5) and recs = 1(6)
    let ?limit = "c_page_size c - length records"
    let ?ev = "polls i ?limit"
    obtain r1 c1 where cb: "raise_consumer_error (run_callbacks ?ev c) = (r1, c1)"
      by (cases "raise_consumer_error (run_callbacks ?ev c)")
    have page: "c_page_size c1 = c_page_size c" using raise_consumer_error_page[OF cb] by simp
    show ?case
    proof (cases "length records < c_page_size c \<and> pr < mp \<and> sr < ms")
      case False
      then show ?thesis using body out len recs page_of_refl[OF len recs, of polls i] by auto
    next
      case go: True
      then obtain u where u: "r1 = Inr u" using body out cb by (cases r1) (auto simp: Let_def)
      consider (unstable) "\<not> c_stable c1" | (idle) "c_stable c1" "pe_messages ?ev = []"
        | (batch) "c_stable c1" "pe_messages ?ev \<noteq> []" by blast
      then show ?thesis
      proof cases
        case unstable
        then have "loop conv polls mp ms c1 (Suc i) s records pr (Suc sr) = Some (Inr rs, c', i', s')"
          using body out cb u go by (simp add: Let_def)
        from IH[OF this] conv len recs page have "page_of polls P (c_page_size c) (Suc i) (records @ []) rs i'" by simp
        then show ?thesis by (rule page_of_step[where n = ?limit]) simp
      next
        case idle
        then have "loop conv polls mp ms c1 (Suc i) s records (Suc pr) 0 = Some (Inr rs, c', i', s')"
          using body out cb u go by (simp add: Let_def)
        from IH[OF this] conv len recs page have "page_of polls P (c_page_size c) (Suc i) (records @ []) rs i'" by simp
        then show ?thesis by (rule page_of_step[where n = ?limit]) simp
      next
        case batch
        then obtain matched scanned s1 where b: "records_from_batch conv (pe_messages ?ev) ?limit s = (Inr (matched, scanned), s1)"
          "loop conv polls mp ms c1 (Suc i) s1 (records @ matched) 0 0 = Some (Inr rs, c', i', s')"
          using body out cb u go by (auto simp: Let_def split: prod.splits sum.splits)
        have "0 < ?limit" using go by simp
        from records_from_batch_spec[where P = P, OF _ this b(1)] conv
        have m: "length matched \<le> ?limit" "list_all P matched"
          "subseq (map position matched) (map message_position (take scanned (pe_messages ?ev)))" by blast+
        have "length records + length matched \<le> c_page_size c" using m(1) go by linarith
        then have "length (records @ matched) \<le> c_page_size c1" "list_all P (records @ matched)"
          using m(2) recs page by simp_all
        with IH[OF b(2)] conv page have "page_of polls P (c_page_size c) (Suc i) (records @ matched) rs i'" by simp
        then show ?thesis using page_of_step subseq_take[OF m(3)] by blast
      qed
    qed
  qed
  then show ?thesis using assms(2-4) by blast
qed

text \<open>The loop ends, before the poll of number \<open>n\<close>.\<close>

definition ends_by :: "nat \<Rightarrow> ('r \<times> 'c \<times> nat \<times> 's) option \<Rightarrow> bool" where
  "ends_by n out \<longleftrightarrow> (\<exists>r c i s. out = Some (r, c, i, s) \<and> i \<le> n)"

lemma ends_by_simps [simp]: "ends_by n (Some (r, c, i, s)) \<longleftrightarrow> i \<le> n"
  by (simp add: ends_by_def)

lemma ends_by_weaken: "ends_by n out \<Longrightarrow> n \<le> m \<Longrightarrow> ends_by m out"
  by (auto simp: ends_by_def)

lemma raise_consumer_error_stable: "raise_consumer_error c = (Inr u, c') \<Longrightarrow> c_stable c' = c_stable c"
  using raise_consumer_error_Inr by metis

text \<open>Once the polls stay silent the loop ends: the polls left are those of an assignment still awaited and those of the silence.\<close>

lemma consume_loop_silent:
  assumes "\<forall>j \<ge> i. \<forall>n. pe_messages (polls j n) = []"
  shows "ends_by (i + (mp - pr) + (if c_stable c then 0 else ms - sr)) (consume_loop conv polls mp ms c i s records pr sr)"
  using assms
proof (induction "(mp - pr) + (if c_stable c then 0 else ms - sr)" arbitrary: c i pr sr rule: less_induct)
  case less
  show ?case
  proof (cases "length records < c_page_size c \<and> pr < mp \<and> sr < ms")
    case False
    then show ?thesis by (subst consume_loop.simps) auto
  next
    case go: True
    let ?ev = "polls i (c_page_size c - length records)"
    obtain r c1 where r: "raise_consumer_error (run_callbacks ?ev c) = (r, c1)" by fastforce
    show ?thesis
    proof (cases r)
      case (Inl e)
      moreover have "Suc i \<le> i + (mp - pr) + (if c_stable c then 0 else ms - sr)" using go by arith
      ultimately show ?thesis using go r by (subst consume_loop.simps) (simp add: Let_def)
    next
      case (Inr u)
      have later: "\<forall>j \<ge> Suc i. \<forall>n. pe_messages (polls j n) = []" using less.prems by simp
      have stable: "c_stable c1 \<longleftrightarrow> c_stable c \<or> pe_assigned ?ev" using r Inr raise_consumer_error_stable by fastforce
      have silent: "pe_messages ?ev = []" using less.prems by simp
      show ?thesis
      proof (cases "c_stable c1")
        case True
        then have "mp - Suc pr + (if c_stable c1 then 0 else ms - 0) < (mp - pr) + (if c_stable c then 0 else ms - sr)" using go by auto
        from less.hyps[OF this later] True go r Inr silent show ?thesis
          by (subst consume_loop.simps) (auto simp: Let_def elim!: ends_by_weaken)
      next
        case False
        then have "mp - pr + (if c_stable c1 then 0 else ms - Suc sr) < (mp - pr) + (if c_stable c then 0 else ms - sr)" using go stable by auto
        from less.hyps[OF this later] False stable go r Inr show ?thesis
          by (subst consume_loop.simps) (auto simp: Let_def elim!: ends_by_weaken)
      qed
    qed
  qed
qed

lemma consume_loop_falls_silent:
  assumes "\<forall>j \<ge> k. \<forall>n. pe_messages (polls j n) = []"
  shows "ends_by (max i k + mp + ms) (consume_loop conv polls mp ms c i s records pr sr)"
proof (induction "k - i" arbitrary: c i s records pr sr)
  case 0
  then have "ends_by (i + (mp - pr) + (if c_stable c then 0 else ms - sr)) (consume_loop conv polls mp ms c i s records pr sr)"
    using assms by (intro consume_loop_silent) simp
  then show ?case by (rule ends_by_weaken) auto
next
  case (Suc d)
  have "ends_by (max (Suc i) k + mp + ms) (consume_loop conv polls mp ms c' (Suc i) s' records' pr' sr')" for c' s' records' pr' sr'
    using Suc.hyps(2) by (intro Suc.hyps(1)) simp
  moreover have "max (Suc i) k = max i k" using Suc.hyps(2) by simp
  ultimately have rest: "ends_by (max i k + mp + ms) (consume_loop conv polls mp ms c' (Suc i) s' records' pr' sr')" for c' s' records' pr' sr'
    by metis
  have "Suc i \<le> max i k + mp + ms" using Suc.hyps(2) by simp
  then show ?case using rest by (subst consume_loop.simps) (simp add: Let_def split: prod.split sum.split)
qed

section \<open>Properties\<close>

text \<open>C2: one page of the consumer is in order and within bounds: it holds at most the page size,
  every record is of the filtered partition when one is asked for, and the records are the polled
  messages in the order they were polled, none twice and none invented.\<close>

theorem consume_page:
  assumes "consume call show_val idle assign polls metadata watermarks f c i s = Some (Inr records, c', i', s')"
  shows "length records \<le> c_page_size c \<and>
    (\<forall>r \<in> set records. \<forall>p. rf_partition f = Some p \<longrightarrow> r_partition r = p) \<and>
    (\<exists>limits. i' = i + length limits \<and>
       subseq (map position records) (map message_position (polled polls i limits)))"
proof -
  obtain a c1 where st: "start metadata watermarks c = (Inr a, c1)"
    and loop: "consume_loop (convert call show_val c1 f) polls (retry_bound idle) (retry_bound assign) c1 i s [] 0 0
      = Some (Inr records, c', i', s')"
    using assms by (auto simp: consume_def split: prod.splits sum.splits)
  have "c_page_size c1 = c_page_size c"
    using st by (auto simp: start_def start_consuming_def on_assign_def split: if_splits sum.splits prod.splits)
  moreover have "page_of polls (\<lambda>r. rf_partition f \<noteq> None \<longrightarrow> rf_partition f = Some (r_partition r)) (c_page_size c1) i [] records i'"
    using convert_position[of call show_val c1 f] by (intro consume_loop_page[OF loop]) (blast, simp_all)
  ultimately show ?thesis by (auto simp: page_of_def list_all_iff)
qed

definition sample_consumer :: "nat consumer" where
  "sample_consumer =
     \<lparr>c_topic = ''t'', c_page_size = 2, c_partitions = [], c_manually_assigned = False,
      c_key_deserialization = F_BYTES, c_value_deserialization = F_BYTES, c_key_encoding = HEX, c_value_encoding = HEX,
      c_fallback_encoding = HEX, c_key_deserializer = 0, c_value_deserializer = 0, c_header_deserializer = 0,
      c_stable = False, c_error = None, c_started = False\<rparr>"

definition bytes_call :: "(nat, nat) deser_call" where
  "bytes_call d data topic field s = (Inr (PBytes data, None), Suc s)"

definition sample_polls :: "nat \<Rightarrow> nat \<Rightarrow> poll_event" where
  "sample_polls i n = \<lparr>pe_messages = (if i = 1 then
       [\<lparr>km_error = None, km_partition = 0, km_offset = 4, km_key = None, km_value = Some [1], km_headers = []\<rparr>,
        \<lparr>km_error = None, km_partition = 1, km_offset = 7, km_key = None, km_value = Some [2], km_headers = []\<rparr>] else []),
     pe_assigned = (i = 0), pe_errors = []\<rparr>"

lemma consume_loop_stop:
  "\<not> (length records < c_page_size c \<and> pr < mp \<and> sr < ms) \<Longrightarrow>
     consume_loop conv polls mp ms c i s records pr sr = Some (Inr records, c, i, s)"
  by (subst consume_loop.simps) auto

lemma consume_loop_go:
  "length records < c_page_size c \<Longrightarrow> pr < mp \<Longrightarrow> sr < ms \<Longrightarrow>
     consume_loop conv polls mp ms c i s records pr sr =
       (let limit = c_page_size c - length records; ev = polls i limit in
         case raise_consumer_error (run_callbacks ev c) of
           (Inl e, c1) \<Rightarrow> Some (Inl e, c1, Suc i, s)
         | (Inr _, c1) \<Rightarrow>
             if \<not> c_stable c1 then consume_loop conv polls mp ms c1 (Suc i) s records pr (Suc sr)
             else if pe_messages ev = [] then consume_loop conv polls mp ms c1 (Suc i) s records (Suc pr) 0
             else (case records_from_batch conv (pe_messages ev) limit s of
                     (Inl e, s') \<Rightarrow> Some (Inl e, c1, Suc i, s')
                   | (Inr (matched, scanned), s') \<Rightarrow>
                       consume_loop conv polls mp ms c1 (Suc i) s' (records @ matched) 0 0))"
  by (subst consume_loop.simps) simp

definition sample_messages :: "kafka_message list" where
  "sample_messages = pe_messages (sample_polls 1 0)"

lemma sample_batch:
  "map_prod (map_sum id (\<lambda>(rs, n). (map position rs, n))) id
     (records_from_batch (convert bytes_call (\<lambda>_. []) sample_consumer (EMPTY_RECORD_FILTERS\<lparr>rf_partition := Some 1\<rparr>))
       sample_messages 2 0) = (Inr ([(1, 7)], 2), 2)"
  by code_simp

lemma sample_page:
  "map_option (\<lambda>(r, c, i, s). (map_sum id (map position) r, i, s))
     (consume bytes_call (\<lambda>_. []) 2 1 sample_polls (Inr None) (\<lambda>_. Inr (0, 0))
       (EMPTY_RECORD_FILTERS\<lparr>rf_partition := Some 1\<rparr>) sample_consumer 0 0) = Some (Inr [(1, 7)], 4, 2)"
  by (simp add: consume_def start_def start_consuming_def sample_consumer_def consume_loop_stop consume_loop_go
      retry_bound_def sample_polls_def run_callbacks_def on_assign_def raise_consumer_error_def convert_def
      record_from_message_def bytes_call_def EMPTY_RECORD_FILTERS_def matches_def Let_def resolve_deserializations_def
      key_outcome_def value_outcome_def deserialize_outcome_def position_def)

theorem consume_page_witness:
  "\<exists>records c' s'. consume bytes_call (\<lambda>_. []) 2 1 sample_polls (Inr None) (\<lambda>_. Inr (0, 0))
      (EMPTY_RECORD_FILTERS\<lparr>rf_partition := Some 1\<rparr>) sample_consumer 0 0 = Some (Inr records, c', 4, s') \<and>
     map position records = [(1, 7)] \<and> length records \<le> 2 \<and> (\<forall>r \<in> set records. r_partition r = 1)"
proof -
  obtain records c' i' s' where r: "consume bytes_call (\<lambda>_. []) 2 1 sample_polls (Inr None) (\<lambda>_. Inr (0, 0))
      (EMPTY_RECORD_FILTERS\<lparr>rf_partition := Some 1\<rparr>) sample_consumer 0 0 = Some (Inr records, c', i', s')"
    and p: "map position records = [(1, 7)]" "i' = 4"
    using sample_page by (auto split: prod.splits simp: map_sum_eq)
  from consume_page[OF r] r p show ?thesis by (auto simp: sample_consumer_def EMPTY_RECORD_FILTERS_def)
qed

text \<open>C29: a page request always returns once the topic falls silent: if from some poll on no messages arrive, the loop ends,
  assigned or not, with the page it has or an error, at the latest when it has polled as often again as the
  retry bounds of an idle topic and of a missing assignment allow.\<close>

theorem consume_returns:
  assumes "\<forall>j \<ge> k. \<forall>n. pe_messages (polls j n) = []"
  shows "\<exists>r c' i' s'. consume call show_val idle assign polls metadata watermarks f c i s = Some (r, c', i', s') \<and>
    i' \<le> max i k + retry_bound idle + retry_bound assign"
proof -
  obtain r c1 where st: "start metadata watermarks c = (r, c1)" by (cases "start metadata watermarks c")
  have "ends_by (max i k + retry_bound idle + retry_bound assign)
      (consume_loop (convert call show_val c1 f) polls (retry_bound idle) (retry_bound assign) c1 i s [] 0 0)"
    by (rule consume_loop_falls_silent[OF assms])
  then show ?thesis using st by (cases r) (auto simp: consume_def ends_by_def)
qed

theorem consume_returns_witness:
  "\<exists>r c' i' s'. consume bytes_call (\<lambda>_. []) 2 1 sample_polls (Inr None) (\<lambda>_. Inr (0, 0)) EMPTY_RECORD_FILTERS
     sample_consumer 0 (0 :: nat) = Some (r, c', i', s') \<and> i' \<le> 5"
  using consume_returns[of 2 sample_polls bytes_call "\<lambda>_. []" 2 1 "Inr None" "\<lambda>_. Inr (0, 0)" EMPTY_RECORD_FILTERS sample_consumer 0 0]
  by (simp add: sample_polls_def retry_bound_def)



end
