(* ===== verification/Producer_Service.thy ===== *)
theory Producer_Service
  imports Kafka_Client
begin

text \<open>
  The producer service (\<open>producer_service.py\<close>): the classification of failed deliveries, the
  settings the client uses, the wait for one acknowledgement, and the states the service goes
  through when the event loop, the worker thread of a delivery and the closing thread interleave.

  The Kafka producer is a parameter: \<open>queue\<close> is how its \<open>produce\<close> call ends, \<open>reports i\<close> are
  the delivery reports its \<open>i\<close>-th \<open>poll\<close> hands to the callback. \<open>now i\<close> is the \<open>i\<close>-th reading of
  \<open>perf_counter\<close> in the wait (in seconds) and \<open>closing i\<close> the flag read before it. The wait is a partial
  function, \<open>None\<close> being a wait that never ends; logging is not modelled.
\<close>

section \<open>Failed deliveries\<close>

definition POLL_INTERVAL_SECONDS :: rat where "POLL_INTERVAL_SECONDS = 1 / 10"

definition AUTHORIZATION_ERROR_CODES :: "int list" where
  "AUTHORIZATION_ERROR_CODES =
     [CLUSTER_AUTHORIZATION_FAILED, SASL_AUTHENTICATION_FAILED, TOPIC_AUTHORIZATION_FAILED,
      TRANSACTIONAL_ID_AUTHORIZATION_FAILED]"

definition TOPIC_NOT_FOUND_ERROR_CODES :: "int list" where
  "TOPIC_NOT_FOUND_ERROR_CODES = [LOCAL_UNKNOWN_TOPIC, UNKNOWN_TOPIC_OR_PART]"

definition RECORD_TOO_LARGE_ERROR_CODES :: "int list" where
  "RECORD_TOO_LARGE_ERROR_CODES = [MSG_SIZE_TOO_LARGE, RECORD_LIST_TOO_LARGE]"

definition TIMEOUT_ERROR_CODES :: "int list" where
  "TIMEOUT_ERROR_CODES = [LOCAL_MSG_TIMED_OUT, LOCAL_TIMED_OUT, REQUEST_TIMED_OUT]"

definition CLIENT_SIZE_LIMIT_MESSAGE :: string where
  "CLIENT_SIZE_LIMIT_MESSAGE = ''The record exceeds the producer's message.max.bytes''"

definition BROKER_SIZE_LIMIT_MESSAGE :: string where
  "BROKER_SIZE_LIMIT_MESSAGE =
     ''The broker rejected the record: it exceeds the topic's max.message.bytes or the broker's message.max.bytes''"

fun failure_title :: "delivery_failure \<Rightarrow> string" where
  "failure_title AUTHORIZATION = ''Authorization Error''"
| "failure_title TOPIC_NOT_FOUND = ''Topic Not Found''"
| "failure_title RECORD_TOO_LARGE = ''Record Too Large''"
| "failure_title TIMEOUT = ''Delivery Timeout''"
| "failure_title BROKER = ''Delivery Error''"

definition delivery_error :: "kafka_error \<Rightarrow> exn" where
  "delivery_error e =
     (let code = fst e in
      if code \<in> set RECORD_TOO_LARGE_ERROR_CODES then DeliveryError RECORD_TOO_LARGE BROKER_SIZE_LIMIT_MESSAGE
      else DeliveryError
        (if code \<in> set AUTHORIZATION_ERROR_CODES then AUTHORIZATION
         else if code \<in> set TOPIC_NOT_FOUND_ERROR_CODES then TOPIC_NOT_FOUND
         else if code \<in> set TIMEOUT_ERROR_CODES then TIMEOUT
         else BROKER) (snd e))"

section \<open>Records, deliveries and settings\<close>

record outgoing_record =
  or_key :: "byte list option"
  or_value :: "byte list option"
  or_headers :: "(string \<times> string option) list"
  or_partition :: "int option"

text \<open>A timestamp is its number of milliseconds.\<close>

record delivery =
  dl_partition :: int
  dl_offset :: int
  dl_timestamp :: "int option"

definition delivery_summary :: "(int \<Rightarrow> string) \<Rightarrow> delivery \<Rightarrow> string list" where
  "delivery_summary clock_text d =
     [''Delivered'', ''Partition '' @ show_int (dl_partition d), ''Offset '' @ show_int (dl_offset d)]
     @ (case dl_timestamp d of None \<Rightarrow> [] | Some t \<Rightarrow> [clock_text t])"

text \<open>What the callback is given: a failure, or the message's partition, offset and timestamp.\<close>

record report_message =
  rm_partition :: int
  rm_offset :: int
  rm_timestamp_type :: int
  rm_milliseconds :: int

type_synonym delivery_report = "kafka_error option \<times> report_message"

definition TIMESTAMP_NOT_AVAILABLE :: int where "TIMESTAMP_NOT_AVAILABLE = 0"

definition report_timestamp :: "report_message \<Rightarrow> int option" where
  "report_timestamp m =
     (if rm_timestamp_type m = TIMESTAMP_NOT_AVAILABLE then None else Some (rm_milliseconds m))"

definition client_setting :: "(string, string) pydict \<Rightarrow> string \<Rightarrow> string res" where
  "client_setting kafka_config name =
     (if din name kafka_config then Inr (lower (dget_or kafka_config name []))
      else
        (case dget PRODUCER_SETTING_ALIASES name of
           Some alias \<Rightarrow>
             if din alias kafka_config then Inr (lower (dget_or kafka_config alias []))
             else (case dget PRODUCER_SETTING_DEFAULTS name of None \<Rightarrow> Inl (KeyError name) | Some v \<Rightarrow> Inr v)
         | None \<Rightarrow> (case dget PRODUCER_SETTING_DEFAULTS name of None \<Rightarrow> Inl (KeyError name) | Some v \<Rightarrow> Inr v)))"

section \<open>One delivery\<close>

datatype queue_outcome = Queued | QueueFull | Rejected kafka_error

text \<open>What \<open>produce\<close> is called with: the partition is passed only when the record has one.\<close>

record produce_call =
  pc_topic :: string
  pc_key :: "byte list option"
  pc_value :: "byte list option"
  pc_headers :: "(string \<times> string option) list"
  pc_partition :: "int option"

definition produce_options :: "string \<Rightarrow> outgoing_record \<Rightarrow> produce_call" where
  "produce_options topic r =
     \<lparr>pc_topic = topic, pc_key = or_key r, pc_value = or_value r, pc_headers = or_headers r,
      pc_partition = or_partition r\<rparr>"

definition queue_error :: "queue_outcome \<Rightarrow> unit res" where
  "queue_error q =
     (case q of
        Queued \<Rightarrow> Inr ()
      | QueueFull \<Rightarrow> Inl (DeliveryError BROKER ''The local producer queue is full'')
      | Rejected e \<Rightarrow>
          if fst e \<in> set RECORD_TOO_LARGE_ERROR_CODES
          then Inl (DeliveryError RECORD_TOO_LARGE CLIENT_SIZE_LIMIT_MESSAGE)
          else Inl (delivery_error e))"

text \<open>One turn of the wait: the failure it ends with, or the timeout of the next poll.\<close>

definition wait_step :: "(rat \<Rightarrow> string) \<Rightarrow> bool \<Rightarrow> rat \<Rightarrow> rat \<Rightarrow> rat \<Rightarrow> rat res" where
  "wait_step seconds_text closing now deadline delivery_timeout =
     (if closing
      then Inl (DeliveryError TIMEOUT ''Kaskade closed before the broker acknowledged the record'')
      else
        (let remaining = deadline - now in
         if remaining \<le> 0
         then Inl (DeliveryError TIMEOUT (''No broker acknowledgement within '' @ seconds_text delivery_timeout
                @ '' seconds; the record may still be delivered''))
         else Inr (min remaining POLL_INTERVAL_SECONDS)))"

partial_function (option) wait_report ::
  "(nat \<Rightarrow> rat \<Rightarrow> rat res) \<Rightarrow> (nat \<Rightarrow> rat) \<Rightarrow> (nat \<Rightarrow> rat \<Rightarrow> delivery_report list) \<Rightarrow> nat \<Rightarrow> delivery_report list
     \<Rightarrow> delivery_report res option" where
  "wait_report turn now reports i outcome =
     (case outcome of
        r # _ \<Rightarrow> Some (Inr r)
      | [] \<Rightarrow>
          (case turn i (now i) of
             Inl e \<Rightarrow> Some (Inl e)
           | Inr timeout \<Rightarrow> wait_report turn now reports (Suc i) (outcome @ reports i timeout)))"

definition delivery_of_report :: "delivery_report \<Rightarrow> delivery res" where
  "delivery_of_report r =
     (case r of
        (Some e, _) \<Rightarrow> Inl (delivery_error e)
      | (None, m) \<Rightarrow> Inr \<lparr>dl_partition = rm_partition m, dl_offset = rm_offset m, dl_timestamp = report_timestamp m\<rparr>)"

text \<open>\<open>_produce\<close>. The deadline is taken after the record is queued; a report may already be there then.\<close>

definition produce_record ::
  "(rat \<Rightarrow> string) \<Rightarrow> rat \<Rightarrow> queue_outcome \<Rightarrow> delivery_report list \<Rightarrow> rat \<Rightarrow> (nat \<Rightarrow> bool) \<Rightarrow> (nat \<Rightarrow> rat)
     \<Rightarrow> (nat \<Rightarrow> rat \<Rightarrow> delivery_report list) \<Rightarrow> delivery res option" where
  "produce_record seconds_text delivery_timeout queue early queued_at closing now reports =
     (case queue_error queue of
        Inl e \<Rightarrow> Some (Inl e)
      | Inr _ \<Rightarrow>
          (let deadline = queued_at + delivery_timeout in
           map_option (\<lambda>r. rbind r delivery_of_report)
             (wait_report (\<lambda>i t. wait_step seconds_text (closing i) t deadline delivery_timeout) now reports 0 early)))"

section \<open>The service\<close>

text \<open>
  The worker thread of a delivery is idle, about to queue its record, at the head of the wait,
  past its checks and about to poll, or done with a result that the event loop has not picked up.
  \<open>sv_client\<close> says whether the client exists and \<open>sv_outcome\<close> holds the reports of the current
  delivery; the last two fields only record what happened. A check and the poll after it are two
  steps, because the closing thread may run between them.
\<close>

datatype worker = Idle | Starting outgoing_record | Waiting rat | Polling rat | Finished "delivery res"

record service =
  sv_client :: bool
  sv_delivering :: bool
  sv_closing :: bool
  sv_worker :: worker
  sv_outcome :: "delivery_report list"
  sv_queued :: nat
  sv_results :: "delivery res list"

definition new_service :: service where
  "new_service =
     \<lparr>sv_client = False, sv_delivering = False, sv_closing = False, sv_worker = Idle, sv_outcome = [],
      sv_queued = 0, sv_results = []\<rparr>"

definition start_client :: "service \<Rightarrow> service" where
  "start_client s = s\<lparr>sv_client := True\<rparr>"

text \<open>The first half of \<open>produce\<close>: the lock is tried, never waited for.\<close>

definition produce_begin :: "outgoing_record \<Rightarrow> service \<Rightarrow> unit res \<times> service" where
  "produce_begin r s =
     (if sv_delivering s then (Inl DeliveryInProgressError, s)
      else (Inr (), s\<lparr>sv_delivering := True, sv_worker := Starting r\<rparr>))"

definition queue_step :: "queue_outcome \<Rightarrow> rat \<Rightarrow> service \<Rightarrow> service" where
  "queue_step queue deadline s =
     (let s1 = start_client s in
      case queue_error queue of
        Inl e \<Rightarrow> s1\<lparr>sv_worker := Finished (Inl e)\<rparr>
      | Inr _ \<Rightarrow> s1\<lparr>sv_worker := Waiting deadline, sv_outcome := [], sv_queued := Suc (sv_queued s)\<rparr>)"

text \<open>One turn of the wait, up to the poll.\<close>

definition wait_turn :: "(rat \<Rightarrow> string) \<Rightarrow> rat \<Rightarrow> rat \<Rightarrow> rat \<Rightarrow> service \<Rightarrow> service" where
  "wait_turn seconds_text delivery_timeout now deadline s =
     (case sv_outcome s of
        r # _ \<Rightarrow> s\<lparr>sv_worker := Finished (delivery_of_report r)\<rparr>
      | [] \<Rightarrow>
          (case wait_step seconds_text (sv_closing s) now deadline delivery_timeout of
             Inl e \<Rightarrow> s\<lparr>sv_worker := Finished (Inl e)\<rparr>
           | Inr _ \<Rightarrow> s\<lparr>sv_worker := Polling deadline\<rparr>))"

text \<open>The poll: \<open>self._producer.poll(...)\<close> on a client that is gone is an \<open>AttributeError\<close>.\<close>

definition poll_turn :: "rat \<Rightarrow> service \<Rightarrow> service" where
  "poll_turn deadline s =
     (if sv_client s then s\<lparr>sv_worker := Waiting deadline\<rparr>
      else s\<lparr>sv_worker := Finished (Inl AttributeError)\<rparr>)"

text \<open>\<open>on_delivery\<close>, which a poll or the flush of \<open>close\<close> calls while the client exists.\<close>

definition on_delivery :: "delivery_report \<Rightarrow> service \<Rightarrow> service" where
  "on_delivery r s = s\<lparr>sv_outcome := sv_outcome s @ [r]\<rparr>"

text \<open>The second half of \<open>produce\<close>: the lock is released with the result.\<close>

definition produce_end :: "delivery res \<Rightarrow> service \<Rightarrow> service" where
  "produce_end res s = s\<lparr>sv_delivering := False, sv_worker := Idle, sv_results := res # sv_results s\<rparr>"

definition close_begin :: "service \<Rightarrow> service" where
  "close_begin s = s\<lparr>sv_closing := True\<rparr>"

definition close_end :: "service \<Rightarrow> service" where
  "close_end s = (if sv_client s then s\<lparr>sv_client := False\<rparr> else s)"

inductive service_step :: "(rat \<Rightarrow> string) \<Rightarrow> rat \<Rightarrow> service \<Rightarrow> service \<Rightarrow> bool" for text_of timeout where
  begin_step: "service_step text_of timeout s (snd (produce_begin r s))"
| start_step: "service_step text_of timeout s (start_client s)"
| queue_step: "sv_worker s = Starting r \<Longrightarrow> service_step text_of timeout s (queue_step q (queued_at + timeout) s)"
| wait_step: "sv_worker s = Waiting d \<Longrightarrow> service_step text_of timeout s (wait_turn text_of timeout now d s)"
| poll_step: "sv_worker s = Polling d \<Longrightarrow> service_step text_of timeout s (poll_turn d s)"
| report_step: "sv_client s \<Longrightarrow> service_step text_of timeout s (on_delivery r s)"
| end_step: "sv_worker s = Finished res \<Longrightarrow> service_step text_of timeout s (produce_end res s)"
| closing_step: "service_step text_of timeout s (close_begin s)"
| closed_step: "sv_closing s \<Longrightarrow> service_step text_of timeout s (close_end s)"

inductive_cases service_stepE: "service_step text_of timeout s s'"

inductive reachable :: "(rat \<Rightarrow> string) \<Rightarrow> rat \<Rightarrow> service \<Rightarrow> bool" for text_of timeout where
  reach_new: "reachable text_of timeout new_service"
| reach_step: "reachable text_of timeout s \<Longrightarrow> service_step text_of timeout s s' \<Longrightarrow> reachable text_of timeout s'"

section \<open>Lemmas\<close>

lemmas delivery_codes =
  AUTHORIZATION_ERROR_CODES_def TOPIC_NOT_FOUND_ERROR_CODES_def RECORD_TOO_LARGE_ERROR_CODES_def TIMEOUT_ERROR_CODES_def

lemma wait_step_simps:
  "wait_step txt True t d dt = Inl e \<longleftrightarrow> e = DeliveryError TIMEOUT ''Kaskade closed before the broker acknowledged the record''"
  "wait_step txt b t d dt = Inr timeout \<longleftrightarrow> \<not> b \<and> t < d \<and> timeout = min (d - t) POLL_INTERVAL_SECONDS"
  by (auto simp: wait_step_def Let_def)

text \<open>Where the report a wait returns comes from: the first one that arrived.\<close>

definition first_report ::
  "(nat \<Rightarrow> rat \<Rightarrow> rat res) \<Rightarrow> (nat \<Rightarrow> rat) \<Rightarrow> (nat \<Rightarrow> rat \<Rightarrow> delivery_report list) \<Rightarrow> nat \<Rightarrow> delivery_report list
     \<Rightarrow> delivery_report \<Rightarrow> bool" where
  "first_report turn now reports i outcome r \<longleftrightarrow>
     (case outcome of
        r' # _ \<Rightarrow> r = r'
      | [] \<Rightarrow> \<exists>k \<ge> i. \<exists>timeout. turn k (now k) = Inr timeout \<and> reports k timeout \<noteq> [] \<and> r = hd (reports k timeout) \<and>
          (\<forall>j. i \<le> j \<and> j < k \<longrightarrow> (\<exists>t. turn j (now j) = Inr t \<and> reports j t = [])))"

lemma first_report_step:
  assumes "turn i (now i) = Inr timeout" and "first_report turn now reports (Suc i) (reports i timeout) r"
  shows "first_report turn now reports i [] r"
proof (cases "reports i timeout")
  case Nil
  with assms obtain k t where "Suc i \<le> k" "turn k (now k) = Inr t" "reports k t \<noteq> []" "r = hd (reports k t)"
    "\<forall>j. Suc i \<le> j \<and> j < k \<longrightarrow> (\<exists>t. turn j (now j) = Inr t \<and> reports j t = [])"
    by (auto simp: first_report_def)
  moreover from this Nil assms(1) have "\<forall>j. i \<le> j \<and> j < k \<longrightarrow> (\<exists>t. turn j (now j) = Inr t \<and> reports j t = [])"
    by (metis Suc_leI le_neq_implies_less)
  ultimately show ?thesis unfolding first_report_def by (auto intro!: exI[of _ k] dest: Suc_leD)
next
  case (Cons r' rs)
  then show ?thesis using assms by (auto simp: first_report_def intro!: exI[of _ i])
qed

lemma wait_report_first:
  assumes "wait_report turn now reports i outcome = Some (Inr r)"
  shows "first_report turn now reports i outcome r"
proof -
  have "\<forall>r0. (Inr r :: _ res) = Inr r0 \<longrightarrow> first_report turn now reports i outcome r0"
  proof (rule wait_report.raw_induct[where P = "\<lambda>turn now reports i outcome out.
      \<forall>r. out = Inr r \<longrightarrow> first_report turn now reports i outcome r", OF _ assms], intro allI impI, goal_cases)
    case (1 loop turn now reports i outcome out r)
    note IH = 1(1) and body = 1(2) and out = 1(3)
    show ?case
    proof (cases outcome)
      case (Cons r' rs)
      then show ?thesis using body out by (simp add: first_report_def)
    next
      case Nil
      then obtain timeout where t: "turn i (now i) = Inr timeout" "loop turn now reports (Suc i) (reports i timeout) = Some (Inr r)"
        using body out by (cases "turn i (now i)") auto
      then show ?thesis using IH[OF t(2)] first_report_step Nil by blast
    qed
  qed
  then show ?thesis by blast
qed

lemma wait_report_ends:
  assumes "i \<le> k" and "\<exists>e. turn k (now k) = Inl e"
  shows "wait_report turn now reports i outcome \<noteq> None"
  using assms(1)
proof (induction "k - i" arbitrary: i outcome)
  case 0
  then show ?case using assms(2) by (subst wait_report.simps) (auto split: list.split)
next
  case (Suc n)
  then have "Suc i \<le> k" "n = k - Suc i" by simp_all
  then have "wait_report turn now reports (Suc i) outcome' \<noteq> None" for outcome' using Suc.hyps(1) by blast
  then show ?case by (subst wait_report.simps) (auto split: list.split sum.split)
qed

text \<open>The invariant of the service.\<close>

definition service_ok :: "service \<Rightarrow> bool" where
  "service_ok s \<longleftrightarrow>
     (sv_delivering s \<longleftrightarrow> sv_worker s \<noteq> Idle) \<and>
     sv_queued s \<le> length (sv_results s)
       + (case sv_worker s of Idle \<Rightarrow> 0 | Starting _ \<Rightarrow> 0 | _ \<Rightarrow> 1) \<and>
     ((\<exists>d. sv_worker s = Waiting d \<or> sv_worker s = Polling d) \<longrightarrow> sv_client s \<or> sv_closing s) \<and>
     (sv_worker s = Finished (Inl AttributeError) \<longrightarrow> sv_closing s) \<and>
     (Inl AttributeError \<in> set (sv_results s) \<longrightarrow> sv_closing s)"

lemmas service_ops =
  produce_begin_def start_client_def queue_step_def wait_turn_def poll_turn_def on_delivery_def produce_end_def
  close_begin_def close_end_def

lemma queue_error_delivery: "queue_error q = Inl e \<Longrightarrow> \<exists>f m. e = DeliveryError f m"
  by (auto simp: queue_error_def delivery_error_def Let_def split: queue_outcome.splits if_splits)

lemma wait_step_delivery: "wait_step txt b t d dt = Inl e \<Longrightarrow> \<exists>f m. e = DeliveryError f m"
  by (auto simp: wait_step_def Let_def split: if_splits)

lemma delivery_of_report_error: "delivery_of_report r = Inl e \<Longrightarrow> \<exists>f m. e = DeliveryError f m"
  by (auto simp: delivery_of_report_def delivery_error_def Let_def split: prod.splits option.splits if_splits)

lemma service_step_ok: "service_step text_of timeout s s' \<Longrightarrow> service_ok s \<Longrightarrow> service_ok s'"
  by (erule service_stepE)
    (auto simp: service_ok_def service_ops Let_def split: sum.splits list.splits worker.splits if_splits
      dest: queue_error_delivery wait_step_delivery delivery_of_report_error)

lemma reachable_ok: "reachable text_of timeout s \<Longrightarrow> service_ok s"
  by (induction rule: reachable.induct) (simp add: service_ok_def new_service_def, blast intro: service_step_ok)

section \<open>Properties\<close>

text \<open>C3: at most one record is between \<open>produce\<close> and its result, whatever the interleaving of the
  event loop, the delivery's worker and the closing thread: a second request is refused and
  changes nothing, and every queued record but the one being delivered has got its result.\<close>

theorem single_delivery:
  assumes "reachable text_of timeout s"
  shows "(sv_delivering s \<longleftrightarrow> sv_worker s \<noteq> Idle) \<and>
    (sv_worker s \<noteq> Idle \<longrightarrow> produce_begin r s = (Inl DeliveryInProgressError, s)) \<and>
    sv_queued s \<le> Suc (length (sv_results s)) \<and>
    (sv_worker s = Idle \<longrightarrow> sv_queued s \<le> length (sv_results s))"
  using reachable_ok[OF assms]
  by (cases "sv_worker s") (auto simp: service_ok_def produce_begin_def)

text \<open>A delivery in progress.\<close>

definition busy_service :: service where
  "busy_service = queue_step Queued 45 (snd (produce_begin \<lparr>or_key = None, or_value = Some [1], or_headers = [], or_partition = None\<rparr> new_service))"

lemma busy_reachable: "reachable text_of 45 busy_service"
proof -
  let ?s = "snd (produce_begin \<lparr>or_key = None, or_value = Some [1], or_headers = [], or_partition = None\<rparr> new_service)"
  have "reachable text_of 45 ?s" by (intro reach_step[OF reach_new] begin_step)
  moreover have "service_step text_of 45 ?s (queue_step Queued (0 + 45) ?s)"
    by (rule service_step.queue_step) (simp add: produce_begin_def new_service_def)
  ultimately show ?thesis unfolding busy_service_def by (metis reach_step add_0)
qed

theorem single_delivery_witness:
  "sv_worker busy_service = Waiting 45 \<and>
   produce_begin \<lparr>or_key = None, or_value = None, or_headers = [], or_partition = None\<rparr> busy_service
     = (Inl DeliveryInProgressError, busy_service) \<and> sv_queued busy_service \<le> Suc (length (sv_results busy_service))"
proof -
  have w: "sv_worker busy_service = Waiting 45" by code_simp
  show ?thesis using single_delivery[OF busy_reachable[of "\<lambda>_. []"]] w by simp
qed

text \<open>A delivery fails with anything but a \<open>DeliveryError\<close> only while the service closes: the
  closing thread may drop the client between a waiting worker's check and its poll, and then
  the poll raises an \<open>AttributeError\<close>, which does happen.\<close>

theorem poll_after_close:
  "\<not> (\<exists>s. reachable text_of timeout s \<and> Inl AttributeError \<in> set (sv_results s) \<and> \<not> sv_closing s) \<and>
   (\<exists>s. reachable text_of timeout s \<and> sv_results s = [Inl AttributeError])"
proof
  show "\<not> (\<exists>s. reachable text_of timeout s \<and> Inl AttributeError \<in> set (sv_results s) \<and> \<not> sv_closing s)"
    using reachable_ok by (auto simp: service_ok_def)
  let ?r = "\<lparr>or_key = None, or_value = None, or_headers = [], or_partition = None\<rparr>"
  let ?s1 = "snd (produce_begin ?r new_service)"
  let ?s2 = "queue_step Queued (0 + timeout) ?s1"
  let ?s3 = "wait_turn text_of timeout (timeout - 1) (0 + timeout) ?s2"
  let ?s4 = "close_end (close_begin ?s3)"
  let ?s6 = "produce_end (Inl AttributeError) (poll_turn (0 + timeout) ?s4)"
  note step = reach_step[where text_of = text_of and timeout = timeout]
  have s1: "reachable text_of timeout ?s1" by (rule step[OF reach_new begin_step])
  have w1: "sv_worker ?s1 = Starting ?r" by (simp add: service_ops new_service_def)
  have s2: "reachable text_of timeout ?s2" by (rule step[OF s1 service_step.queue_step[OF w1]])
  have w2: "sv_worker ?s2 = Waiting (0 + timeout)" by (simp add: service_ops new_service_def queue_error_def)
  have s3: "reachable text_of timeout ?s3" by (rule step[OF s2 service_step.wait_step[OF w2]])
  have s4: "reachable text_of timeout (close_begin ?s3)" by (rule step[OF s3 closing_step])
  have s5: "reachable text_of timeout ?s4"
    by (rule step[OF s4 closed_step]) (simp add: close_begin_def)
  have w5: "sv_worker ?s4 = Polling (0 + timeout)"
    by (simp add: service_ops new_service_def queue_error_def wait_step_def)
  have s6: "reachable text_of timeout (poll_turn (0 + timeout) ?s4)" by (rule step[OF s5 poll_step[OF w5]])
  have w6: "sv_worker (poll_turn (0 + timeout) ?s4) = Finished (Inl AttributeError)"
    by (simp add: service_ops new_service_def queue_error_def wait_step_def)
  have s7: "reachable text_of timeout ?s6" by (rule step[OF s6 end_step[OF w6]])
  have "sv_results ?s6 = [Inl AttributeError]"
    by (simp add: service_ops new_service_def queue_error_def wait_step_def)
  with s7 show "\<exists>s. reachable text_of timeout s \<and> sv_results s = [Inl AttributeError]" by blast
qed

text \<open>C14: a delivery is returned only for an acknowledgement: the record was queued, and the first report
  that arrived, no poll before it having brought any, has no error and gives the delivery's position; until it came
  the service was not closing and the deadline had not passed.\<close>

theorem produce_acknowledged:
  assumes "produce_record txt timeout queue early queued_at closing now reports = Some (Inr d)"
  shows "queue = Queued \<and>
    (let polled = (\<lambda>k. reports k (min (queued_at + timeout - now k) POLL_INTERVAL_SECONDS)) in
     \<exists>m. (if early \<noteq> [] then hd early = (None, m)
      else \<exists>k. polled k \<noteq> [] \<and> hd (polled k) = (None, m) \<and> (\<forall>j < k. polled j = []) \<and>
        (\<forall>j \<le> k. \<not> closing j \<and> now j < queued_at + timeout)) \<and>
    d = \<lparr>dl_partition = rm_partition m, dl_offset = rm_offset m, dl_timestamp = report_timestamp m\<rparr>)"
proof -
  let ?turn = "\<lambda>i t. wait_step txt (closing i) t (queued_at + timeout) timeout"
  let ?polled = "\<lambda>k. reports k (min (queued_at + timeout - now k) POLL_INTERVAL_SECONDS)"
  obtain r where q: "queue_error queue = Inr ()" and r: "wait_report ?turn now reports 0 early = Some (Inr r)"
    and d: "delivery_of_report r = Inr d"
    using assms by (auto simp: produce_record_def Let_def res_simps split: sum.splits)
  have "queue = Queued" using q by (auto simp: queue_error_def split: queue_outcome.splits if_splits)
  moreover obtain m where m: "r = (None, m)"
    and dm: "d = \<lparr>dl_partition = rm_partition m, dl_offset = rm_offset m, dl_timestamp = report_timestamp m\<rparr>"
    using d by (auto simp: delivery_of_report_def split: prod.splits option.splits)
  moreover have "if early \<noteq> [] then hd early = (None, m)
      else \<exists>k. ?polled k \<noteq> [] \<and> hd (?polled k) = (None, m) \<and> (\<forall>j < k. ?polled j = []) \<and>
        (\<forall>j \<le> k. \<not> closing j \<and> now j < queued_at + timeout)"
  proof (cases early)
    case Nil
    then obtain k timeout' where k: "?turn k (now k) = Inr timeout'" "reports k timeout' \<noteq> []" "r = hd (reports k timeout')"
      "\<forall>j < k. \<exists>t. ?turn j (now j) = Inr t \<and> reports j t = []"
      using wait_report_first[OF r] unfolding first_report_def Nil list.case by blast
    then have "\<forall>j \<le> k. \<not> closing j \<and> now j < queued_at + timeout"
      by (metis le_neq_implies_less wait_step_simps(2))
    moreover have "\<forall>j < k. ?polled j = []" using k(4) by (auto simp: wait_step_simps)
    ultimately show ?thesis using Nil k m by (auto simp: wait_step_simps)
  qed (use wait_report_first[OF r] m in \<open>simp add: first_report_def\<close>)
  ultimately show ?thesis unfolding Let_def by blast
qed

definition ack_message :: report_message where
  "ack_message = \<lparr>rm_partition = 3, rm_offset = 41, rm_timestamp_type = 1, rm_milliseconds = 5\<rparr>"

theorem produce_acknowledged_witness:
  "produce_record (\<lambda>_. []) 45 Queued [] 10 (\<lambda>_. False) (\<lambda>i. 10 + of_nat i) (\<lambda>i _. if i = 1 then [(None, ack_message)] else [])
     = Some (Inr \<lparr>dl_partition = 3, dl_offset = 41, dl_timestamp = Some 5\<rparr>) \<and>
   (\<exists>m. \<exists>k. hd (if k = 1 then [(None, ack_message)] else []) = (None :: kafka_error option, m) \<and> k = (1 :: nat) \<and> rm_offset m = 41)"
proof -
  have p: "produce_record (\<lambda>_. []) 45 Queued [] 10 (\<lambda>_. False) (\<lambda>i. 10 + of_nat i) (\<lambda>i _. if i = 1 then [(None, ack_message)] else [])
     = Some (Inr \<lparr>dl_partition = 3, dl_offset = 41, dl_timestamp = Some 5\<rparr>)"
    by (simp add: produce_record_def queue_error_def wait_report.simps wait_step_def delivery_of_report_def
        report_timestamp_def ack_message_def TIMESTAMP_NOT_AVAILABLE_def)
  from produce_acknowledged[OF p] p show ?thesis by (auto simp: Let_def split: if_splits)
qed

text \<open>C30: a delivery always ends: once the clock has passed the deadline, or the service is closing,
  the wait returns, whatever was reported.\<close>

theorem produce_ends:
  assumes "closing k \<or> queued_at + timeout \<le> now k"
  shows "\<exists>r. produce_record txt timeout queue early queued_at closing now reports = Some r"
proof -
  let ?turn = "\<lambda>i t. wait_step txt (closing i) t (queued_at + timeout) timeout"
  have "\<exists>e. ?turn k (now k) = Inl e" using assms by (auto simp: wait_step_def Let_def)
  then have "wait_report ?turn now reports 0 early \<noteq> None" by (intro wait_report_ends) simp
  then show ?thesis by (auto simp: produce_record_def Let_def split: sum.splits)
qed

theorem produce_ends_witness:
  "\<exists>r. produce_record (\<lambda>_. []) 45 Queued [] 10 (\<lambda>_. False) (\<lambda>i. 10 + of_nat i / 10) (\<lambda>_ _. []) = Some r"
  by (rule produce_ends[where k = 450]) simp

text \<open>Every failed delivery report has one kind, decided by its code alone whatever the order of
  the tests, and carries the broker's text except when the record is too large.\<close>

theorem delivery_classified:
  "\<exists>f m. delivery_error e = DeliveryError f m \<and>
    (f = RECORD_TOO_LARGE \<longleftrightarrow> fst e \<in> set RECORD_TOO_LARGE_ERROR_CODES) \<and>
    (f = AUTHORIZATION \<longleftrightarrow> fst e \<in> set AUTHORIZATION_ERROR_CODES) \<and>
    (f = TOPIC_NOT_FOUND \<longleftrightarrow> fst e \<in> set TOPIC_NOT_FOUND_ERROR_CODES) \<and>
    (f = TIMEOUT \<longleftrightarrow> fst e \<in> set TIMEOUT_ERROR_CODES) \<and>
    m = (if f = RECORD_TOO_LARGE then BROKER_SIZE_LIMIT_MESSAGE else snd e)"
  by (auto simp: delivery_error_def Let_def delivery_codes kafka_codes)

end
