(* ===== verification/Commands.thy ===== *)
theory Commands
  imports Connection Record_Source Serializer_Pool Consumer_Service Producer_Service
begin

text \<open>
  The three commands of \<open>main.py\<close> from their parsed options to a running application: the settings
  records of the consumer and of the producer, the constructors of \<open>KaskadeApp\<close>, \<open>KaskadeConsumer\<close> and
  \<open>KaskadeProducer\<close> as far as they can fail, and the errors each command reports.

  What the commands read from outside is the record \<open>outside\<close>: the settings file, the configuration
  file, the source file, the AWS signer and the option checks' environment. Creating a Kafka client
  is \<open>create\<close>, which may raise; \<open>metadata\<close> and \<open>watermarks\<close> are as in the theory \<open>Consumer_Service\<close>.
\<close>

section \<open>Settings of the commands\<close>

record consumer_settings =
  cs_topic :: string
  cs_kafka :: kafka_config
  cs_key :: format
  cs_value :: format
  cs_options :: option_configs
  cs_partitions :: "partition_selection list"
  cs_timeouts :: timeout_config

record producer_settings =
  prs_topic :: string
  prs_kafka :: kafka_config
  prs_key :: format
  prs_value :: format
  prs_options :: option_configs
  prs_partition :: "int option"
  prs_timeouts :: timeout_config

section \<open>The application\<close>

text \<open>\<open>KaskadeApp.__init__\<close>: the custom themes of the settings join the known ones.\<close>

definition app_themes :: "'x env \<Rightarrow> string list \<Rightarrow> app_settings \<Rightarrow> string list" where
  "app_themes env builtin settings =
     builtin @ map fst (KASKADE_THEMES @ fst (parse_custom_themes env builtin (as_custom_themes settings)))"

definition app_settings_of :: "'x env \<Rightarrow> string list \<Rightarrow> app_settings \<Rightarrow> app_settings" where
  "app_settings_of env builtin settings =
     resolve_theme (settings\<lparr>as_warnings := as_warnings settings @
       snd (parse_custom_themes env builtin (as_custom_themes settings))\<rparr>) (app_themes env builtin settings)"

section \<open>The consumer application\<close>

text \<open>The client configuration \<open>ConsumerService.__init__\<close> builds, and its group.\<close>

definition consumer_config :: "string \<Rightarrow> kafka_config \<Rightarrow> kafka_config" where
  "consumer_config default_group_id kafka_config =
     (let config = dmerge kafka_config [(ENABLE_AUTO_COMMIT, KBool False), (MAX_POLL_INTERVAL_MS, KInt MILLISECONDS_24H),
            (''error_cb'', KErrorCallback)] in
      if din GROUP_ID config then config else dput GROUP_ID (KText default_group_id) config)"

definition new_consumer :: "(kafka_config \<Rightarrow> unit res) \<Rightarrow> pool \<Rightarrow> string \<Rightarrow> consumer_settings \<Rightarrow> format consumer res" where
  "new_consumer create p default_group_id s =
     rbind (encoding_from_config (oc_bytes (cs_options s)) KEY) (\<lambda>key_encoding.
     rbind (encoding_from_config (oc_bytes (cs_options s)) VALUE) (\<lambda>value_encoding.
     rbind (encoding_from_config (oc_fallback (cs_options s)) NONE) (\<lambda>fallback_encoding.
     rbind (create (consumer_config default_group_id (cs_kafka s))) (\<lambda>_.
     rbind (pool_get p (cs_key s)) (\<lambda>_.
     rbind (pool_get p (cs_value s)) (\<lambda>_.
     rbind (pool_get p F_STRING) (\<lambda>_.
       Inr \<lparr>c_topic = cs_topic s, c_page_size = 25, c_partitions = cs_partitions s,
         c_manually_assigned = manually_assigned (cs_partitions s)
           (case dget (cs_kafka s) AUTO_OFFSET_RESET of Some (KText t) \<Rightarrow> Some t | _ \<Rightarrow> None),
         c_key_deserialization = cs_key s, c_value_deserialization = cs_value s,
         c_key_encoding = key_encoding, c_value_encoding = value_encoding, c_fallback_encoding = fallback_encoding,
         c_key_deserializer = cs_key s, c_value_deserializer = cs_value s, c_header_deserializer = F_STRING,
         c_stable = False, c_error = None, c_started = False\<rparr>)))))))"

definition consumer_app ::
  "cli_env \<Rightarrow> registry_clients \<Rightarrow> (kafka_config \<Rightarrow> unit res) \<Rightarrow> topic_metadata option res \<Rightarrow> (int \<Rightarrow> (int \<times> int) res) \<Rightarrow> string
     \<Rightarrow> consumer_settings \<Rightarrow> (topic_partition list option \<times> format consumer) res" where
  "consumer_app env clients create metadata watermarks default_group_id s =
     rbind (pool_new env clients (cs_options s)) (\<lambda>p.
     rbind (new_consumer create p default_group_id s) (\<lambda>c.
       case start metadata watermarks c of (r, c') \<Rightarrow> rbind r (\<lambda>assigned. Inr (assigned, c'))))"

section \<open>The producer application\<close>

definition producer_app ::
  "(kafka_config \<Rightarrow> unit res) \<Rightarrow> schema_files \<Rightarrow> 'c res \<Rightarrow> producer_settings
     \<Rightarrow> (service \<times> 'c field_serializer \<times> 'c field_serializer) res" where
  "producer_app create files made s =
     rbind (create (prs_kafka s)) (\<lambda>_.
       fst (abind (serializer_pool_get files made (prs_options s) (prs_key s) KEY) (\<lambda>key_serializer.
            abind (serializer_pool_get files made (prs_options s) (prs_value s) VALUE) (\<lambda>value_serializer.
              areturn (start_client new_service, key_serializer, value_serializer))) None))"

section \<open>The commands\<close>

record 'x outside =
  o_env :: "'x env"
  o_cli :: cli_env
  o_class_name :: "exn \<Rightarrow> string"
  o_sign :: token_signer
  o_load_ini :: "string \<Rightarrow> config_file res"
  o_settings_path :: string
  o_settings_document :: "pyval res option"
  o_read_text :: "string \<Rightarrow> string res"
  o_json_loads :: "string \<Rightarrow> json_outcome"

text \<open>The options all commands share, as the option callbacks leave them.\<close>

record common_options =
  co_bootstrap :: "string option"
  co_config_file :: "string option"
  co_kafka :: config
  co_aws :: config
  co_timeout :: config
  co_theme :: "string option"

definition validate_admin_refresh_interval :: "int option \<Rightarrow> int option res" where
  "validate_admin_refresh_interval v =
     (case v of
        None \<Rightarrow> Inr None
      | Some i \<Rightarrow>
          if is_valid_admin_refresh_interval i then Inr (Some i)
          else Inl (BadParameter (''Should be 0 or at least '' @ show_int MIN_ADMIN_REFRESH_INTERVAL_SECONDS @ '' seconds.'')))"

definition command_connection :: "'x outside \<Rightarrow> common_options \<Rightarrow> config \<Rightarrow> config \<Rightarrow> connection res" where
  "command_connection out o1 kafka registry =
     rbind (load_config_file (env_show_exn (o_cli out)) (o_load_ini out) (co_config_file o1)) (\<lambda>file_config.
       resolve_connection (env_show_exn (o_cli out)) (o_class_name out) (o_sign out) file_config (co_bootstrap o1)
         (map (map_prod id KText) kafka) (co_aws o1) registry)"

definition command_settings ::
  "'x outside \<Rightarrow> common_options \<Rightarrow> string list \<Rightarrow> int option \<Rightarrow> bool \<Rightarrow> app_settings res" where
  "command_settings out o1 properties refresh_interval read_only =
     resolve_app_settings (env_show_exn (o_cli out)) (py_float.truncate (o_env out))
       (load_settings (o_env out) (env_show_exn (o_cli out)) (o_settings_path out) (o_settings_document out))
       properties (co_timeout o1) (co_theme o1) refresh_interval read_only"

definition admin_command :: "'x outside \<Rightarrow> common_options \<Rightarrow> int option \<Rightarrow> bool \<Rightarrow> (kafka_config \<times> app_settings) res" where
  "admin_command out o1 refresh_interval read_only =
     rbind (command_connection out o1 (co_kafka o1) []) (\<lambda>c.
     rbind (command_settings out o1 ADMIN_TIMEOUT_PROPERTIES refresh_interval read_only) (\<lambda>settings.
       Inr (cn_kafka c, settings)))"

definition consumer_prepare ::
  "'x outside \<Rightarrow> common_options \<Rightarrow> string \<Rightarrow> format \<Rightarrow> format \<Rightarrow> option_configs \<Rightarrow> bool \<Rightarrow> partition_selection list
     \<Rightarrow> (consumer_settings \<times> app_settings) res" where
  "consumer_prepare out o1 topic_name key_format value_format opts earliest partitions =
     rbind (command_connection out o1 (co_kafka o1) (oc_registry opts)) (\<lambda>c.
     rbind (command_settings out o1 CONSUMER_TIMEOUT_PROPERTIES None False) (\<lambda>settings.
     let kafka = (if earliest then dmerge (cn_kafka c) [(AUTO_OFFSET_RESET, KText EARLIEST)] else cn_kafka c) in
     rbind (normalize_deserializer_options (o_cli out) key_format value_format (opts\<lparr>oc_registry := cn_registry c\<rparr>)) (\<lambda>options.
       Inr (\<lparr>cs_topic = topic_name, cs_kafka = kafka, cs_key = key_format, cs_value = value_format, cs_options = options,
              cs_partitions = partitions, cs_timeouts = as_timeouts settings\<rparr>, settings))))"

definition reported :: "(exn \<Rightarrow> string) \<Rightarrow> exn \<Rightarrow> exn" where
  "reported show_exn e =
     (case e of
        PartitionSelectionError _ \<Rightarrow> BadParameter (show_exn e)
      | _ \<Rightarrow> if is_kafka_exception e \<or> is_value_error e then ClickException (show_exn e) else e)"

definition consumer_command ::
  "'x outside \<Rightarrow> registry_clients \<Rightarrow> (kafka_config \<Rightarrow> unit res) \<Rightarrow> topic_metadata option res \<Rightarrow> (int \<Rightarrow> (int \<times> int) res) \<Rightarrow> string
     \<Rightarrow> common_options \<Rightarrow> string \<Rightarrow> format \<Rightarrow> format \<Rightarrow> option_configs \<Rightarrow> bool \<Rightarrow> partition_selection list
     \<Rightarrow> (topic_partition list option \<times> format consumer) res" where
  "consumer_command out clients create metadata watermarks group_id o1 topic_name key_format value_format opts earliest partitions =
     rbind (consumer_prepare out o1 topic_name key_format value_format opts earliest partitions) (\<lambda>(s, _).
       map_sum (reported (env_show_exn (o_cli out))) id (consumer_app (o_cli out) clients create metadata watermarks group_id s))"

definition error_message :: "(exn \<Rightarrow> string) \<Rightarrow> exn \<Rightarrow> string" where
  "error_message show_exn e = (case e of KafkaException _ m \<Rightarrow> m | _ \<Rightarrow> show_exn e)"

definition producer_prepare ::
  "'x outside \<Rightarrow> common_options \<Rightarrow> string \<Rightarrow> format \<Rightarrow> format \<Rightarrow> option_configs
     \<Rightarrow> string option \<Rightarrow> string option \<Rightarrow> bool \<Rightarrow> int option \<Rightarrow> string option
     \<Rightarrow> (producer_settings \<times> app_settings \<times> record_draft option) res" where
  "producer_prepare out o1 topic_name key_format value_format opts acks compression idempotence part source =
     rbind (command_connection out o1 (dmerge (co_kafka o1) (producer_kafka_config acks compression idempotence))
              (oc_registry opts)) (\<lambda>c.
     rbind (normalize_serializer_options (o_cli out) key_format value_format (opts\<lparr>oc_registry := cn_registry c\<rparr>)) (\<lambda>options.
     rbind (command_settings out o1 PRODUCER_TIMEOUT_PROPERTIES None False) (\<lambda>settings.
     rbind (case source of
              None \<Rightarrow> Inr None
            | Some path \<Rightarrow>
                (case load_draft (env_show_exn (o_cli out)) (o_read_text out) (o_json_loads out) path of
                   Inl (SourceError m) \<Rightarrow> Inl (BadParameter (env_show_exn (o_cli out) (SourceError m)))
                 | r \<Rightarrow> map_sum id Some r)) (\<lambda>draft.
       Inr (\<lparr>prs_topic = topic_name, prs_kafka = cn_kafka c, prs_key = key_format, prs_value = value_format,
              prs_options = options, prs_partition = part, prs_timeouts = as_timeouts settings\<rparr>, settings, draft)))))"

definition producer_command ::
  "'x outside \<Rightarrow> (kafka_config \<Rightarrow> unit res) \<Rightarrow> schema_files \<Rightarrow> 'c res \<Rightarrow> common_options \<Rightarrow> string \<Rightarrow> format \<Rightarrow> format
     \<Rightarrow> option_configs \<Rightarrow> string option \<Rightarrow> string option \<Rightarrow> bool \<Rightarrow> int option \<Rightarrow> string option
     \<Rightarrow> ((service \<times> 'c field_serializer \<times> 'c field_serializer) \<times> record_draft option) res" where
  "producer_command out create files made o1 topic_name key_format value_format opts acks compression idempotence part source =
     rbind (producer_prepare out o1 topic_name key_format value_format opts acks compression idempotence part source) (\<lambda>(s, _, draft).
       case producer_app create files made s of
         Inr app \<Rightarrow> Inr (app, draft)
       | Inl e \<Rightarrow> Inl (if is_kafka_exception e \<or> is_value_error e
                       then ClickException (error_message (env_show_exn (o_cli out)) e) else e))"

section \<open>Lemmas\<close>

lemma consumer_config_get:
  "dget (consumer_config g kafka) k =
     (if k = ENABLE_AUTO_COMMIT then Some (KBool False)
      else if k = MAX_POLL_INTERVAL_MS then Some (KInt MILLISECONDS_24H)
      else if k = ''error_cb'' then Some KErrorCallback
      else if k = GROUP_ID \<and> \<not> din GROUP_ID kafka then Some (KText g)
      else dget kafka k)"
proof -
  have n: "GROUP_ID \<noteq> ENABLE_AUTO_COMMIT" "GROUP_ID \<noteq> MAX_POLL_INTERVAL_MS" "GROUP_ID \<noteq> ''error_cb''"
    "ENABLE_AUTO_COMMIT \<noteq> MAX_POLL_INTERVAL_MS" "ENABLE_AUTO_COMMIT \<noteq> ''error_cb''" "MAX_POLL_INTERVAL_MS \<noteq> ''error_cb''"
    by (simp_all add: GROUP_ID_def ENABLE_AUTO_COMMIT_def MAX_POLL_INTERVAL_MS_def)
  then show ?thesis by (simp add: consumer_config_def Let_def dget_dput din_iff_get)
qed

lemma validated_fallback_encoding:
  assumes "normalize_fallback c = Inr n"
  shows "\<exists>e. encoding_from_config n NONE = Inr e"
proof -
  have "dget n ''encoding'' = Some v \<Longrightarrow> v \<in> set BYTES_ENCODINGS" for v
    using assms normalize_choices_valid[of c FALLBACK_CONFIGS BYTES_ENCODINGS "''Fallback encoding''" n "''encoding''" v]
    by (auto simp: normalize_fallback_def res_simps FALLBACK_CONFIGS_def)
  moreover have "encoding_str BASE64 \<in> set BYTES_ENCODINGS" by (simp add: BYTES_ENCODINGS_def)
  ultimately have "dget_or n ''encoding'' (encoding_str BASE64) \<in> set BYTES_ENCODINGS"
    by (auto simp: dget_or_def split: option.split)
  then show ?thesis using encodings_normal by (simp add: encoding_from_config_def scoped_property_def)
qed

lemma validated_encodings:
  assumes "normalize_deserializer_options env k v o1 = Inr opts"
  shows "(\<forall>field. \<exists>e. encoding_from_config (oc_bytes opts) field = Inr e) \<and> (\<exists>e. encoding_from_config (oc_fallback opts) NONE = Inr e)"
proof -
  have "normalize_bytes (oc_bytes o1) k v = Inr (oc_bytes opts)" and "normalize_fallback (oc_fallback o1) = Inr (oc_fallback opts)"
    using assms by (auto simp: normalize_deserializer_options_def res_simps)
  then show ?thesis using validated_bytes_encoding validated_fallback_encoding by blast
qed

text \<open>The Kafka problems that keep a consumer from starting.\<close>

definition start_problem :: "topic_metadata option res \<Rightarrow> (int \<Rightarrow> (int \<times> int) res) \<Rightarrow> exn \<Rightarrow> bool" where
  "start_problem metadata watermarks e \<longleftrightarrow>
     (\<exists>m. e = PartitionSelectionError m) \<or> metadata = Inl e \<or> (\<exists>p. watermarks p = Inl e) \<or>
     (\<exists>err partitions. metadata = Inr (Some (Some err, partitions)) \<and> e = kafka_exception err)"

lemma assignment_problem: "map_res (assignment t w av) sels = Inl e \<Longrightarrow> (\<exists>m. e = PartitionSelectionError m) \<or> (\<exists>p. w p = Inl e)"
  by (induction sels) (auto simp: res_simps assignment_def Let_def split: if_splits option.splits start_offset.splits)

lemma available_problem:
  "available_partitions topic metadata = Inl e \<Longrightarrow> (\<exists>m. e = PartitionSelectionError m) \<or> metadata = Inl e \<or>
     (\<exists>err partitions. metadata = Inr (Some (Some err, partitions)) \<and> e = kafka_exception err)"
  unfolding available_partitions_def rbind_def
  by (cases metadata; cases "projr metadata") (auto split: option.splits)

lemma start_outcome:
  assumes "\<not> c_started c"
  shows "case start metadata watermarks c of
    (Inl e, _) \<Rightarrow> start_problem metadata watermarks e
  | (Inr assigned, c') \<Rightarrow> c_started c' \<and> (assigned \<noteq> None \<longleftrightarrow> c_manually_assigned c)"
proof (cases "start_consuming metadata watermarks c")
  case (Pair r c1)
  show ?thesis
  proof (cases r)
    case (Inl e)
    then have "start_problem metadata watermarks e"
      using Pair assignment_problem[of "c_topic c" watermarks] available_problem[of "c_topic c" metadata e]
      by (auto simp: start_consuming_def start_problem_def Let_def res_simps split: if_splits sum.splits)
    then show ?thesis using assms Pair Inl by (simp add: start_def)
  next
    case (Inr a)
    then have "a \<noteq> None \<longleftrightarrow> c_manually_assigned c"
      using Pair by (auto simp: start_consuming_def split: if_splits sum.splits)
    then show ?thesis using assms Pair Inr by (simp add: start_def)
  qed
qed

section \<open>Properties\<close>

text \<open>Kaskade never commits offsets and never loses its place in the group for being slow to read: whatever the user
  configures, the consumer's client has auto commit off, the longest poll interval and a group, the
  user's own or a fresh one; every other property is the user's.\<close>

theorem consumer_never_commits:
  "dget (consumer_config g kafka) ENABLE_AUTO_COMMIT = Some (KBool False) \<and>
   dget (consumer_config g kafka) MAX_POLL_INTERVAL_MS = Some (KInt MILLISECONDS_24H) \<and>
   dget (consumer_config g kafka) GROUP_ID = Some (dget_or kafka GROUP_ID (KText g)) \<and>
   (\<forall>k. k \<in> {ENABLE_AUTO_COMMIT, MAX_POLL_INTERVAL_MS, GROUP_ID, ''error_cb''} \<or>
      dget (consumer_config g kafka) k = dget kafka k)"
  by (simp add: consumer_config_get din_iff_get dget_or_def ENABLE_AUTO_COMMIT_def MAX_POLL_INTERVAL_MS_def GROUP_ID_def
      split: option.split)

text \<open>C40: options the consumer command accepts start a consumer: once the Kafka client can be created, the only problems
  left are Kafka's (the topic, a partition or an offset that do not exist, or a broker's error) and, with a
  Registry, its client's constructor refusing the properties, which the options are not checked for; the
  consumer that starts has its partitions assigned exactly when asked to read chosen ones or from the
  beginning, which \<open>--earliest\<close> always asks for.\<close>

theorem consumer_command_starts:
  assumes "consumer_prepare out o1 topic_name k v opts earliest partitions = Inr (s, settings)"
    and "create (consumer_config g (cs_kafka s)) = Inr ()"
  shows "case consumer_app (o_cli out) clients create metadata watermarks g s of
      Inl e \<Rightarrow> client_refused clients (cs_options s) e \<or> start_problem metadata watermarks e
    | Inr (assigned, c) \<Rightarrow> c_started c \<and> (earliest \<or> partitions \<noteq> [] \<longrightarrow> assigned \<noteq> None) \<and>
        (assigned \<noteq> None \<longleftrightarrow> partitions \<noteq> [] \<or> dget (cs_kafka s) AUTO_OFFSET_RESET = Some (KText EARLIEST))"
proof -
  obtain o2 where opts: "normalize_deserializer_options (o_cli out) k v o2 = Inr (cs_options s)"
    and s: "cs_key s = k" "cs_value s = v" "cs_partitions s = partitions"
    and kafka: "earliest \<Longrightarrow> dget (cs_kafka s) AUTO_OFFSET_RESET = Some (KText EARLIEST)"
    using assms(1) by (auto simp: consumer_prepare_def Let_def res_simps dget_dput)
  obtain ke ve fe where enc: "encoding_from_config (oc_bytes (cs_options s)) KEY = Inr ke"
    "encoding_from_config (oc_bytes (cs_options s)) VALUE = Inr ve" "encoding_from_config (oc_fallback (cs_options s)) NONE = Inr fe"
    using validated_encodings[OF opts] by blast
  have reset: "(case dget (cs_kafka s) AUTO_OFFSET_RESET of Some (KText t) \<Rightarrow> Some t | _ \<Rightarrow> None) = Some EARLIEST \<longleftrightarrow>
      dget (cs_kafka s) AUTO_OFFSET_RESET = Some (KText EARLIEST)"
    by (auto split: option.split kafka_value.split)
  show ?thesis
  proof (cases "pool_new (o_cli out) clients (cs_options s)")
    case (Inl e)
    then show ?thesis using validated_pool[OF opts, of clients] by (simp add: consumer_app_def)
  next
    case (Inr p)
    then have p: "pool_get p k = Inr ()" "pool_get p v = Inr ()" "pool_get p F_STRING = Inr ()"
      using validated_pool[OF opts, of clients] by simp_all
    obtain c where c: "new_consumer create p g s = Inr c" and started: "\<not> c_started c"
      and manual: "c_manually_assigned c \<longleftrightarrow> partitions \<noteq> [] \<or> dget (cs_kafka s) AUTO_OFFSET_RESET = Some (KText EARLIEST)"
      by (simp add: new_consumer_def enc p assms(2) s manually_assigned_def reset)
    show ?thesis
      using start_outcome[OF started, of metadata watermarks] kafka
      by (auto simp: consumer_app_def Inr c manual split: prod.splits sum.splits)
  qed
qed

definition sample_outside :: "unit outside" where
  "sample_outside =
     \<lparr>o_env = \<lparr>fl_text = (\<lambda>_. None), fl_int = (\<lambda>i. Some (Fin (of_int i))), se_str = (\<lambda>_. []), se_repr = (\<lambda>_. []),
         se_named_key = (\<lambda>_. False), se_character = (\<lambda>_. False), se_printable = (\<lambda>_. True), se_color = (\<lambda>_. None), \<dots> = ()\<rparr>,
      o_cli = sample_env, o_class_name = (\<lambda>_. []), o_sign = (\<lambda>_. Inr (''token'', 1)), o_load_ini = (\<lambda>_. Inr []),
      o_settings_path = ''settings.yaml'', o_settings_document = None, o_read_text = (\<lambda>_. Inr []),
      o_json_loads = (\<lambda>_. JsonDocument (PDict []))\<rparr>"

definition sample_common :: common_options where
  "sample_common = \<lparr>co_bootstrap = Some ''h:1'', co_config_file = None, co_kafka = [], co_aws = [], co_timeout = [], co_theme = None\<rparr>"

theorem consumer_command_starts_witness:
  "\<exists>s settings. consumer_prepare sample_outside sample_common ''t'' F_STRING F_STRING
      \<lparr>oc_registry = [], oc_apicurio = None, oc_protobuf = [], oc_avro = [], oc_json = [], oc_bytes = [], oc_fallback = []\<rparr>
      True [] = Inr (s, settings) \<and>
    (case consumer_app (o_cli sample_outside) sample_clients (\<lambda>_. Inr ()) (Inr (Some (None, [0, 1]))) (\<lambda>_. Inr (0, 9)) ''g'' s of
       Inl e \<Rightarrow> start_problem (Inr (Some (None, [0, 1]))) (\<lambda>_. Inr (0, 9)) e
     | Inr (assigned, c) \<Rightarrow> c_started c \<and> assigned \<noteq> None)"
proof -
  let ?p = "consumer_prepare sample_outside sample_common ''t'' F_STRING F_STRING
      \<lparr>oc_registry = [], oc_apicurio = None, oc_protobuf = [], oc_avro = [], oc_json = [], oc_bytes = [], oc_fallback = []\<rparr> True []"
  have "map_sum id (\<lambda>(s, _). oc_registry (cs_options s)) ?p = Inr []" by code_simp
  then obtain s settings where p: "?p = Inr (s, settings)" and registry: "oc_registry (cs_options s) = []"
    by (cases ?p) auto
  show ?thesis
    using consumer_command_starts[OF p, where clients = sample_clients, of "\<lambda>_. Inr ()" "''g''" "Inr (Some (None, [0, 1]))" "\<lambda>_. Inr (0, 9)"] p
    by (intro exI[of _ s] exI[of _ settings] conjI) (auto simp: client_refused_def registry split: sum.splits prod.splits)
qed

text \<open>The application always starts in a theme it has registered: the configured one when there is such a theme,
  the default one, with a warning, when there is not.\<close>

theorem app_theme_registered:
  "\<exists>t. as_theme (app_settings_of env builtin settings) = Some t \<and> t \<in> set (app_themes env builtin settings) \<and>
     t = (case as_theme settings of Some c \<Rightarrow> if c \<in> set (app_themes env builtin settings) then c else DEFAULT_THEME | None \<Rightarrow> DEFAULT_THEME) \<and>
     set (as_warnings settings) \<subseteq> set (as_warnings (app_settings_of env builtin settings))"
proof -
  have "DEFAULT_THEME \<in> set (app_themes env builtin settings)"
    by (simp add: app_themes_def KASKADE_THEMES_def EVA01_BERSERK_THEME_def)
  then show ?thesis by (auto simp: app_settings_of_def resolve_theme_def split: option.split)
qed

end
