(* ===== verification/Schema_Documents.thy ===== *)
theory Schema_Documents
  imports Schemas Protobuf_Wire Walks
begin

text \<open>
  Local schema files with the documents they refer to (\<open>schemas/registration.py\<close>,
  \<open>schemas/json_schema.py\<close>) and the descriptor pool of a Protobuf file (\<open>schemas/protobuf.py\<close>).

  Reading files, parsing Avro and JSON, compiling \<open>.proto\<close> files and resolving URIs belong to other
  packages and are parameters. The recursion through references is the code's own, and nothing
  bounds its depth: these are walks (theory \<open>Walks\<close>). The lemmas state when some fuel is enough, and
  \<open>avro_document_never_ends\<close> when none is.
\<close>

section \<open>Paths\<close>

text \<open>The parts of a POSIX path, without empty and \<open>.\<close> parts, as \<open>PurePosixPath.parts\<close> has them.\<close>

definition path_parts :: "string \<Rightarrow> string list" where
  "path_parts p = filter (\<lambda>x. x \<notin> {[], ''.''}) (split_on CHR ''/'' p)"

definition absolute_path :: "string \<Rightarrow> bool" where
  "absolute_path p \<longleftrightarrow> starts_with ''/'' p"

definition path_name :: "string \<Rightarrow> string" where
  "path_name p = (let parts = path_parts p in if parts = [] then [] else last parts)"

definition join_path :: "string \<Rightarrow> string list \<Rightarrow> string" where
  "join_path folder parts = join ''/'' (folder # parts)"

definition local_reference_path :: "string \<Rightarrow> string \<Rightarrow> string res" where
  "local_reference_path folder uri =
     (if absolute_path uri \<or> ''..'' \<in> set (path_parts uri)
      then Inl (SchemaError (''JSON Schema reference '' @ uri @ '' must stay next to the schema''))
      else Inr (join_path folder (path_parts uri)))"

definition safe_proto_path :: "string \<Rightarrow> string \<Rightarrow> string res" where
  "safe_proto_path root_folder name =
     (if absolute_path name \<or> ''..'' \<in> set (path_parts name)
      then Inl (SchemaError (''Unsafe Protobuf reference name: '' @ name))
      else Inr (join_path root_folder (path_parts name)))"

section \<open>Avro files\<close>

text \<open>
  What \<open>parse_schema\<close> does with the named types known so far: it adds the types the schema
  defines, reports a type it does not know, or finds the schema invalid.
\<close>

datatype 's avro_parse = ParsedAvro "(string, 's) pydict" | UnknownAvro string | InvalidAvro string

record 's avro_files =
  af_read :: "string \<Rightarrow> (string \<times> 's) res"
  af_is_file :: "string \<Rightarrow> bool"
  af_parse :: "'s \<Rightarrow> (string, 's) pydict \<Rightarrow> 's avro_parse"

type_synonym 's avro_loaded = "(string, schema_document \<times> (string, 's) pydict) pydict"

definition avsc_path :: "string \<Rightarrow> string \<Rightarrow> string" where
  "avsc_path folder name = join_path folder [name @ ''.avsc'']"

text \<open>\<open>_avro_document\<close> reads the file; \<open>avro_loop\<close> is its loop.\<close>

fun avro_document_of ::
    "nat \<Rightarrow> 's avro_files \<Rightarrow> string \<Rightarrow> string \<Rightarrow> string list
       \<Rightarrow> (schema_document \<times> (string, 's) pydict, 's avro_loaded) walk"
  and avro_loop ::
    "nat \<Rightarrow> 's avro_files \<Rightarrow> string \<Rightarrow> string \<Rightarrow> string \<Rightarrow> 's \<Rightarrow> (string, 's) pydict \<Rightarrow> (string \<times> schema_document) list
       \<Rightarrow> string list \<Rightarrow> (schema_document \<times> (string, 's) pydict, 's avro_loaded) walk" where
  "avro_document_of 0 fs path folder visiting = out_of_fuel"
| "avro_document_of (Suc n) fs path folder visiting =
     wbind (wlift (af_read fs path)) (\<lambda>(content, schema). avro_loop n fs path folder content schema [] [] visiting)"
| "avro_loop 0 fs path folder content schema known references visiting = out_of_fuel"
| "avro_loop (Suc n) fs path folder content schema known references visiting =
     (case af_parse fs schema known of
        InvalidAvro m \<Rightarrow> wraise (SchemaError (''Invalid Avro schema in '' @ path @ '': '' @ m))
      | ParsedAvro named \<Rightarrow> wreturn (SchemaDocument ST_AVRO content references, named)
      | UnknownAvro name \<Rightarrow>
          if name \<in> set visiting
          then wraise (SchemaError (''Avro types '' @ name @ '' and '' @ path_name path @ '' reference each other''))
          else
            wbind (wcached name
                (if \<not> af_is_file fs (avsc_path folder name)
                 then wraise (SchemaError (''Avro type '' @ name @ '' isn't defined; expected '' @ name @ ''.avsc next to the schema''))
                 else avro_document_of n fs (avsc_path folder name) folder (visiting @ [name])))
              (\<lambda>(document, named).
                avro_loop n fs path folder content schema (dmerge known named) (references @ [(name, document)]) visiting))"

definition avro_document :: "nat \<Rightarrow> 's avro_files \<Rightarrow> string \<Rightarrow> string \<Rightarrow> schema_document res option" where
  "avro_document n fs path folder =
     map_option (\<lambda>(r, _). map_sum id fst r) (avro_document_of n fs path folder [] [])"

section \<open>JSON Schema files\<close>

text \<open>\<open>_references\<close>: the \<open>$ref\<close> strings of a document, outermost first.\<close>

fun json_references :: "pyval \<Rightarrow> string list" where
  "json_references (PDict kvs) =
     (case map_of kvs (PStr ''$ref'') of Some (PStr r) \<Rightarrow> [r] | _ \<Rightarrow> []) @ concat (map (\<lambda>kv. json_references (snd kv)) kvs)"
| "json_references (PList vs) = concat (map json_references vs)"
| "json_references _ = []"

text \<open>
  \<open>relative base reference\<close> is the document a reference names, \<open>urldefrag(urljoin(base, reference)).url\<close>,
  and \<open>None\<close> when that is empty or has a scheme.
\<close>

definition local_references :: "(string \<Rightarrow> string \<Rightarrow> string option) \<Rightarrow> pyval \<Rightarrow> string \<Rightarrow> string list" where
  "local_references relative document base =
     fold (\<lambda>reference uris. case relative base reference of
         None \<Rightarrow> uris
       | Some uri \<Rightarrow> if uri \<in> set uris then uris else uris @ [uri]) (json_references document) []"

record json_files =
  jf_read :: "string \<Rightarrow> (string \<times> pyval) res"
  jf_relative :: "string \<Rightarrow> string \<Rightarrow> string option"
  jf_check :: "string \<Rightarrow> unit res"

type_synonym json_loaded = "(string, schema_document) pydict"

fun json_document_of ::
  "nat \<Rightarrow> json_files \<Rightarrow> string \<Rightarrow> string \<Rightarrow> string \<Rightarrow> string list \<Rightarrow> (schema_document, json_loaded) walk" where
  "json_document_of 0 fs path folder uri visiting = out_of_fuel"
| "json_document_of (Suc n) fs path folder uri visiting =
     wbind (wlift (jf_read fs path)) (\<lambda>(content, schema).
     wbind (wmap (\<lambda>reference.
         if reference \<in> set visiting \<or> reference = uri
         then wraise (SchemaError (''JSON Schema references '' @ reference @ '' and '' @ path_name path @ '' form a cycle''))
         else
           wbind (wcached reference
               (wbind (wlift (local_reference_path folder reference)) (\<lambda>p.
                 json_document_of n fs p folder reference (visiting @ [uri]))))
             (\<lambda>document. wreturn (reference, document)))
       (local_references (jf_relative fs) schema uri)) (\<lambda>references.
     wbind (wlift (if uri = [] then jf_check fs content else Inr ())) (\<lambda>_.
       wreturn (SchemaDocument ST_JSON content references))))"

definition json_document :: "nat \<Rightarrow> json_files \<Rightarrow> string \<Rightarrow> string \<Rightarrow> schema_document res option" where
  "json_document n fs path folder = map_option fst (json_document_of n fs path folder [] [] [])"

section \<open>Protobuf files\<close>

definition BUILTIN_PREFIX :: string where "BUILTIN_PREFIX = ''google/protobuf/''"

definition is_builtin :: "string \<Rightarrow> bool" where
  "is_builtin name \<longleftrightarrow> starts_with BUILTIN_PREFIX name"

text \<open>The serialized descriptors (Confluent) or the source text in the first folder that has it (Apicurio).\<close>

record proto_files =
  pf_serialized :: "file_descriptor \<Rightarrow> string"
  pf_is_file :: "string \<Rightarrow> bool"
  pf_read :: "string \<Rightarrow> string res"

definition proto_text :: "proto_files \<Rightarrow> string \<Rightarrow> string list \<Rightarrow> string res" where
  "proto_text fs name folders =
     (let found = (case find (pf_is_file fs) (map (\<lambda>d. join_path d [name]) folders) of
          Some p \<Rightarrow> p | None \<Rightarrow> join_path (hd folders) [name]) in
      map_sum (\<lambda>_. SchemaError (''Unable to read '' @ name)) id (pf_read fs found))"

type_synonym proto_loaded = "(string, schema_document) pydict"

fun protobuf_document_of ::
  "nat \<Rightarrow> proto_files \<Rightarrow> (string, file_descriptor) pydict \<Rightarrow> string list \<Rightarrow> string \<Rightarrow> (schema_document, proto_loaded) walk" where
  "protobuf_document_of 0 fs files folders name = out_of_fuel"
| "protobuf_document_of (Suc n) fs files folders name =
     wbind (wlift (case dget files name of None \<Rightarrow> Inl (KeyError name) | Some d \<Rightarrow> Inr d)) (\<lambda>descriptor.
     wbind (wmap (\<lambda>dependency.
         wbind (wcached dependency (protobuf_document_of n fs files folders dependency))
           (\<lambda>document. wreturn (dependency, document)))
       (filter (\<lambda>d. \<not> is_builtin d) (fd_dependency descriptor))) (\<lambda>references.
     wbind (wlift (if folders \<noteq> [] then proto_text fs name folders else Inr (pf_serialized fs descriptor))) (\<lambda>content.
       wreturn (SchemaDocument ST_PROTOBUF content references))))"

text \<open>\<open>message_file\<close> is the file that declares the message, as the generated classes know it.\<close>

definition protobuf_document ::
  "nat \<Rightarrow> proto_files \<Rightarrow> (file_descriptor list \<Rightarrow> string \<Rightarrow> string option) \<Rightarrow> file_descriptor list res
     \<Rightarrow> (string \<Rightarrow> string) \<Rightarrow> string list \<Rightarrow> config \<Rightarrow> string \<Rightarrow> bool \<Rightarrow> schema_document res option" where
  "protobuf_document n fs message_file descriptor_set parent includes config message as_source =
     (case descriptor_set of
        Inl e \<Rightarrow> Some (Inl e)
      | Inr descriptors \<Rightarrow>
          (let files = dict_of (map (\<lambda>d. (fd_name d, d)) descriptors) in
           case message_file descriptors message of
             None \<Rightarrow> Some (Inl (SchemaError (''Protobuf message '' @ message @ '' isn't in the schema'')))
           | Some file_name \<Rightarrow>
               if as_source
               then (case dget config ''source'' of
                       None \<Rightarrow> Some (Inl (SchemaError ''Registering Protobuf in Apicurio needs --protobuf source=my.proto''))
                     | Some source \<Rightarrow>
                         map_option fst (protobuf_document_of n fs files (parent source # includes) file_name []))
               else map_option fst (protobuf_document_of n fs files [] file_name [])))"

section \<open>Descriptor pools\<close>

text \<open>
  The pool is a parameter: adding a descriptor may fail. The files bundled with protobuf are
  \<open>bundled name\<close>, with the names they import. \<open>added\<close> is the set of names added, in order.
\<close>

record 'p pool_api =
  pa_add :: "file_descriptor \<Rightarrow> 'p \<Rightarrow> 'p res"
  pa_bundled :: "string \<Rightarrow> string list option"
  pa_add_bundled :: "string \<Rightarrow> 'p \<Rightarrow> 'p"

type_synonym 'p pool_state = "string list \<times> 'p"

definition pool_added :: "string \<Rightarrow> (unit, 'p pool_state) walk \<Rightarrow> (unit, 'p pool_state) walk" where
  "pool_added name m st = (if name \<in> set (fst st) then Some (Inr (), st) else m st)"

fun add_default_descriptor :: "nat \<Rightarrow> 'p pool_api \<Rightarrow> string \<Rightarrow> (unit, 'p pool_state) walk" where
  "add_default_descriptor 0 api name = out_of_fuel"
| "add_default_descriptor (Suc n) api name =
     pool_added name
       (case pa_bundled api name of
          None \<Rightarrow> wraise (SchemaError (''Protobuf schema reference not found: '' @ name))
        | Some deps \<Rightarrow>
            wbind (wmap (add_default_descriptor n api) deps) (\<lambda>_ (added, pool).
              Some (Inr (), (added @ [name], pa_add_bundled api name pool))))"

definition pool_error :: "file_descriptor \<Rightarrow> exn \<Rightarrow> exn" where
  "pool_error d e =
     (if is_value_error e \<or> e = TypeError then SchemaError (''Invalid Protobuf descriptor: '' @ fd_name d) else e)"

fun add_descriptor ::
  "nat \<Rightarrow> 'p pool_api \<Rightarrow> (string, file_descriptor) pydict \<Rightarrow> string list \<Rightarrow> file_descriptor \<Rightarrow> (unit, 'p pool_state) walk" where
  "add_descriptor 0 api descriptors visiting descriptor = out_of_fuel"
| "add_descriptor (Suc n) api descriptors visiting descriptor =
     pool_added (fd_name descriptor)
       (if fd_name descriptor \<in> set visiting then wraise (SchemaError ''Cyclic Protobuf schema reference'')
        else
          wbind (wmap (\<lambda>dependency.
              case dget descriptors dependency of
                Some referenced \<Rightarrow> add_descriptor n api descriptors (fd_name descriptor # visiting) referenced
              | None \<Rightarrow> add_default_descriptor n api dependency) (fd_dependency descriptor)) (\<lambda>_ (added, pool).
            case pa_add api descriptor pool of
              Inl e \<Rightarrow> Some (Inl (pool_error descriptor e), (added, pool))
            | Inr pool1 \<Rightarrow> Some (Inr (), (added @ [fd_name descriptor], pool1))))"

definition descriptor_pool ::
  "nat \<Rightarrow> 'p pool_api \<Rightarrow> 'p \<Rightarrow> file_descriptor \<Rightarrow> (string, file_descriptor) pydict \<Rightarrow> 'p res option" where
  "descriptor_pool n api empty_pool rootf descriptors =
     map_option (\<lambda>(r, (_, pool)). rbind r (\<lambda>_. Inr pool)) (add_descriptor n api descriptors [] rootf ([], empty_pool))"

definition find_message ::
  "(string \<Rightarrow> message_descriptor option) \<Rightarrow> file_descriptor \<Rightarrow> string \<Rightarrow> message_descriptor res" where
  "find_message lookup rootf name =
     (case lookup name of
        Some m \<Rightarrow> Inr m
      | None \<Rightarrow>
          (case lookup (join ''.'' (filter (\<lambda>p. p \<noteq> []) [fd_package rootf, name])) of
             Some m \<Rightarrow> Inr m
           | None \<Rightarrow> Inl (SchemaError (''Protobuf message not found: '' @ name))))"

definition first_message :: "(string \<Rightarrow> message_descriptor option) \<Rightarrow> file_descriptor \<Rightarrow> message_descriptor res" where
  "first_message lookup rootf =
     (case fd_messages rootf of
        [] \<Rightarrow> Inl (SchemaError ''Protobuf schema contains no messages'')
      | m # _ \<Rightarrow> find_message lookup rootf (message_label m))"

section \<open>Lemmas\<close>

subsection \<open>Fuel\<close>

lemma avro_wle:
  "n \<le> k \<Longrightarrow> wle (avro_document_of n fs path folder visiting) (avro_document_of k fs path folder visiting)"
  "n \<le> k \<Longrightarrow> wle (avro_loop n fs path folder content schema known references visiting)
     (avro_loop k fs path folder content schema known references visiting)"
proof (induction n fs path folder visiting and n fs path folder content schema known references visiting
    arbitrary: k and k rule: avro_document_of_avro_loop.induct)
  case (2 n fs path folder visiting)
  then show ?case by (cases k) (auto intro!: wle_intros simp del: wlift_simps)
next
  case (4 n fs path folder content schema known references visiting)
  then show ?case by (cases k) (auto intro!: wle_intros simp del: wlift_simps split: avro_parse.split)
qed auto

lemma json_wle:
  "n \<le> k \<Longrightarrow> wle (json_document_of n fs path folder uri visiting) (json_document_of k fs path folder uri visiting)"
proof (induction n arbitrary: k path uri visiting)
  case (Suc n)
  then show ?case by (cases k) (auto intro!: wle_intros simp del: wlift_simps)
qed simp

lemma protobuf_wle:
  "n \<le> k \<Longrightarrow> wle (protobuf_document_of n fs files folders name) (protobuf_document_of k fs files folders name)"
proof (induction n arbitrary: k name)
  case (Suc n)
  then show ?case by (cases k) (auto intro!: wle_intros simp del: wlift_simps)
qed simp

lemma pool_added_wle: "wle m m' \<Longrightarrow> wle (pool_added name m) (pool_added name m')"
  by (auto simp: wle_def pool_added_def)

lemma add_default_wle: "n \<le> k \<Longrightarrow> wle (add_default_descriptor n api name) (add_default_descriptor k api name)"
proof (induction n arbitrary: k name)
  case (Suc n)
  then show ?case by (cases k) (simp_all add: pool_added_wle wle_intros split: option.split del: wlift_simps)
qed simp

lemma add_descriptor_wle:
  "n \<le> k \<Longrightarrow> wle (add_descriptor n api descriptors visiting d) (add_descriptor k api descriptors visiting d)"
proof (induction n arbitrary: k visiting d)
  case (Suc n)
  then show ?case by (cases k) (simp_all add: pool_added_wle wle_intros add_default_wle split: option.split del: wlift_simps)
qed simp

lemma document_wmono [simp]:
  "wmono (\<lambda>n. avro_document_of n fs path folder visiting)"
  "wmono (\<lambda>n. avro_loop n fs path folder content schema known references visiting)"
  "wmono (\<lambda>n. json_document_of n js path folder uri visiting)"
  "wmono (\<lambda>n. protobuf_document_of n ps files folders name)"
  "wmono (\<lambda>n. add_default_descriptor n api name)"
  "wmono (\<lambda>n. add_descriptor n api descriptors visiting d)"
  by (simp_all add: wmono_def avro_wle json_wle protobuf_wle add_default_wle add_descriptor_wle)

lemmas document_more =
  wmonoD[OF document_wmono(1)] wmonoD[OF document_wmono(3)] wmonoD[OF document_wmono(6)]

subsection \<open>Avro types in files of their own\<close>

text \<open>
  What the walk needs of the parser and of the folder: the parser reports as unknown only types it is not given, the
  folder has finitely many files, and what the parser makes of the file \<open><name>.avsc\<close> defines the type \<open><name>\<close>.
\<close>

definition avro_folder :: "'s avro_files \<Rightarrow> string \<Rightarrow> bool" where
  "avro_folder fs folder \<longleftrightarrow> finite {name. af_is_file fs (avsc_path folder name)} \<and>
     (\<forall>s known name. af_parse fs s known = UnknownAvro name \<longrightarrow> \<not> din name known) \<and>
     (\<forall>name content s known named. af_is_file fs (avsc_path folder name) \<longrightarrow> af_read fs (avsc_path folder name) = Inr (content, s) \<longrightarrow>
        af_parse fs s known = ParsedAvro named \<longrightarrow> din name named)"

definition loaded_defined :: "'s avro_files \<Rightarrow> string \<Rightarrow> 's avro_loaded \<Rightarrow> bool" where
  "loaded_defined fs folder loaded \<longleftrightarrow>
     (\<forall>name d named. dget loaded name = Some (d, named) \<longrightarrow> af_is_file fs (avsc_path folder name) \<and> din name named)"

lemma avro_ends:
  assumes folder: "avro_folder fs folder"
  shows "wends (loaded_defined fs folder) (\<lambda>(d, named). \<exists>content schema known. af_read fs path = Inr (content, schema) \<and>
      af_parse fs schema known = ParsedAvro named) (\<lambda>n. avro_document_of n fs path folder visiting)"
proof (induction "card ({name. af_is_file fs (avsc_path folder name)} - set visiting)" arbitrary: path visiting rule: less_induct)
  case less
  let ?N = "{name. af_is_file fs (avsc_path folder name)}"
  have fin: "finite ?N" using folder by (simp add: avro_folder_def)
  have loop: "wends (loaded_defined fs folder) (\<lambda>(d, named). \<exists>known. af_parse fs schema known = ParsedAvro named)
      (\<lambda>n. avro_loop n fs path folder content schema known references visiting)" for content schema known references
  proof (induction "card (?N - set (dkeys known))" arbitrary: known references rule: less_induct)
    case inner: less
    have "wends (loaded_defined fs folder) (\<lambda>(d, named). \<exists>known. af_parse fs schema known = ParsedAvro named)
      (\<lambda>n. avro_loop (Suc n) fs path folder content schema known references visiting)"
    proof (cases "af_parse fs schema known")
      case (UnknownAvro name)
      have new: "\<not> din name known" using folder UnknownAvro unfolding avro_folder_def by blast
      have found: "wends (loaded_defined fs folder) (\<lambda>(d, named). name \<in> ?N \<and> din name named)
          (\<lambda>n. wcached name (if \<not> af_is_file fs (avsc_path folder name) then wraise e
             else avro_document_of n fs (avsc_path folder name) folder (visiting @ [name])))" if "name \<notin> set visiting" for e
      proof (rule wends_cached)
        show "wends (loaded_defined fs folder) (\<lambda>(d, named). name \<in> ?N \<and> din name named)
          (\<lambda>n. if \<not> af_is_file fs (avsc_path folder name) then wraise e
             else avro_document_of n fs (avsc_path folder name) folder (visiting @ [name]))"
        proof (cases "af_is_file fs (avsc_path folder name)")
          case True
          then have "card (?N - set (visiting @ [name])) < card (?N - set visiting)"
            using that fin by (intro psubset_card_mono) auto
          from less[OF this, of "avsc_path folder name"]
          have "wends (loaded_defined fs folder) (\<lambda>(d, named). name \<in> ?N \<and> din name named)
              (\<lambda>n. avro_document_of n fs (avsc_path folder name) folder (visiting @ [name]))"
            by (rule wends_weaken) (use folder True in \<open>fastforce simp: avro_folder_def\<close>)
          then show ?thesis using True by simp
        qed simp
      qed (auto simp: loaded_defined_def dget_dput)
      have step: "wends (loaded_defined fs folder) (\<lambda>(d, named). \<exists>known. af_parse fs schema known = ParsedAvro named)
          (\<lambda>n. avro_loop n fs path folder content schema (dmerge known named) (references @ [(name, document)]) visiting)"
        if "name \<in> ?N" "din name named" for named document
        using that new fin by (intro inner psubset_card_mono) (auto simp: din_def keyset_dmerge)
      show ?thesis
        unfolding avro_loop.simps UnknownAvro avro_parse.case
        using found step
        by (cases "name \<in> set visiting")
          (auto simp del: wlift_simps intro!: wends_lift wends_bind[where Q = "\<lambda>(d, named). name \<in> ?N \<and> din name named"] wmono_intros split: prod.split)
    qed (auto intro!: wends_lift simp del: wlift_simps)
    then show ?case by (rule wends_Suc)
  qed
  show ?case
    by (rule wends_Suc, unfold avro_document_of.simps)
      (auto simp del: wlift_simps intro!: wends_bind[where Q = "\<lambda>x. af_read fs path = Inr x"] wends_lift wends_weaken[OF loop] split: prod.split)
qed


text \<open>A loop that asks for the same unknown type again and again.\<close>

lemma dmerge_same: "\<forall>(k, v) \<in> set e. dget d k = Some v \<Longrightarrow> dmerge d e = d"
proof (induction e)
  case (Cons p e)
  have "dput k v d = d" if "dget d k = Some v" for k v
    using that by (induction d) (auto split: if_splits)
  then show ?case using Cons by (cases p) auto
qed simp

lemma dmerge_nil: "ddistinct e \<Longrightarrow> dmerge [] e = e"
proof (induction e rule: rev_induct)
  case (snoc p e)
  then show ?case by (cases p) (auto simp: dmerge_def dput_fresh din_def)
qed simp

lemma avro_loop_again:
  assumes again: "af_parse fs schema named = UnknownAvro name" and "ddistinct named" and "name \<notin> set visiting"
  shows "dget loaded name = Some (document, named) \<Longrightarrow>
    avro_loop n fs path folder content schema named references visiting loaded = None"
proof (induction n arbitrary: references)
  case (Suc n)
  have "dmerge named named = named" using assms(2) by (intro dmerge_same) (auto simp: map_of_eq_Some_iff)
  then show ?case using Suc.IH[OF Suc.prems] again assms(3) Suc.prems by (simp add: wbind_def wcached_def)
qed simp

subsection \<open>JSON Schema files\<close>

text \<open>The tree of files behind a document: what was read and which files its references name.\<close>

inductive json_tree :: "json_files \<Rightarrow> string \<Rightarrow> string \<Rightarrow> string \<Rightarrow> schema_document \<Rightarrow> bool" for fs folder where
  "jf_read fs path = Inr (content, schema) \<Longrightarrow>
   list_all2 (\<lambda>r (r', d). r' = r \<and> (\<exists>p. local_reference_path folder r = Inr p \<and> json_tree fs folder p r d))
     (local_references (jf_relative fs) schema uri) refs \<Longrightarrow>
   json_tree fs folder path uri (SchemaDocument ST_JSON content refs)"

definition loaded_trees :: "json_files \<Rightarrow> string \<Rightarrow> json_loaded \<Rightarrow> bool" where
  "loaded_trees fs folder loaded \<longleftrightarrow>
     (\<forall>r d. dget loaded r = Some d \<longrightarrow> (\<exists>p. local_reference_path folder r = Inr p \<and> json_tree fs folder p r d))"

definition readable_references :: "json_files \<Rightarrow> string \<Rightarrow> string set" where
  "readable_references fs folder =
     {r. (\<exists>base reference. jf_relative fs base reference = Some r) \<and>
         (\<exists>p x. local_reference_path folder r = Inr p \<and> jf_read fs p = Inr x)}"

lemma local_references_relative:
  "r \<in> set (local_references relative document base) \<Longrightarrow> \<exists>reference. relative base reference = Some r"
proof -
  let ?add = "\<lambda>reference uris. case relative base reference of
      None \<Rightarrow> uris | Some uri \<Rightarrow> if uri \<in> set uris then uris else uris @ [uri]"
  have "\<forall>r \<in> set (fold ?add refs acc). r \<in> set acc \<or> (\<exists>reference. relative base reference = Some r)" for refs acc
  proof (induction refs arbitrary: acc)
    case (Cons x refs)
    show ?case using Cons[of "?add x acc"] by (auto split: option.splits if_splits)
  qed simp
  from this[of "json_references document" "[]"]
  show "r \<in> set (local_references relative document base) \<Longrightarrow> ?thesis"
    by (simp add: local_references_def)
qed

lemma json_ends:
  assumes fin: "finite (readable_references fs folder)"
  shows "wends (loaded_trees fs folder) (json_tree fs folder path uri) (\<lambda>n. json_document_of n fs path folder uri visiting)"
proof (induction "card (readable_references fs folder - set (visiting @ [uri]))" arbitrary: path uri visiting rule: less_induct)
  case less
  let ?I = "loaded_trees fs folder"
  have reference: "wends ?I (\<lambda>d. \<exists>p. local_reference_path folder r = Inr p \<and> json_tree fs folder p r d)
      (\<lambda>n. wcached r (wbind (wlift (local_reference_path folder r)) (\<lambda>p. json_document_of n fs p folder r (visiting @ [uri]))))"
    if "r \<notin> set visiting" "r \<noteq> uri" "jf_relative fs base reference = Some r" for r base reference
  proof (rule wends_cached)
    note relative = that(3)
    show "wends ?I (\<lambda>d. \<exists>p. local_reference_path folder r = Inr p \<and> json_tree fs folder p r d)
      (\<lambda>n. wbind (wlift (local_reference_path folder r)) (\<lambda>p. json_document_of n fs p folder r (visiting @ [uri])))"
    proof (cases "local_reference_path folder r")
      case (Inr p)
      have "wends ?I (json_tree fs folder p r) (\<lambda>n. json_document_of n fs p folder r (visiting @ [uri]))"
      proof (cases "r \<in> readable_references fs folder")
        case True
        then have "card (readable_references fs folder - set ((visiting @ [uri]) @ [r])) < card (readable_references fs folder - set (visiting @ [uri]))"
          using that(1,2) fin by (intro psubset_card_mono) auto
        from less[OF this] show ?thesis .
      next
        case False
        then obtain e where "jf_read fs p = Inl e" using Inr relative by (cases "jf_read fs p") (auto simp: readable_references_def)
        then show ?thesis using wends_Suc[of ?I "json_tree fs folder p r" "\<lambda>n. json_document_of n fs p folder r (visiting @ [uri])"]
          by (simp add: wends_lift del: wlift_simps)
      qed
      then show ?thesis by (simp add: Inr del: wlift_simps)
    qed (simp add: wends_lift del: wlift_simps)
  qed (auto simp: loaded_trees_def dget_dput)
  have item: "wends ?I (\<lambda>(r', d). r' = r \<and> (\<exists>p. local_reference_path folder r = Inr p \<and> json_tree fs folder p r d))
      (\<lambda>n. if r \<in> set visiting \<or> r = uri then wraise e
         else wbind (wcached r (wbind (wlift (local_reference_path folder r)) (\<lambda>p. json_document_of n fs p folder r (visiting @ [uri]))))
             (\<lambda>document. wreturn (r, document)))" if "r \<in> set (local_references (jf_relative fs) schema uri)" for r e schema
  proof (cases "r \<in> set visiting \<or> r = uri")
    case False
    then show ?thesis
      using local_references_relative[OF that]
      by (simp del: wlift_simps) (erule exE, rule wends_bind[OF reference]; auto intro!: wmono_intros wends_lift simp del: wlift_simps)
  qed simp
  show ?case
  proof (rule wends_Suc, unfold json_document_of.simps, rule wends_bind[where Q = "\<lambda>x. jf_read fs path = Inr x"])
    fix x assume x: "jf_read fs path = Inr x"
    obtain content schema where cs: "x = (content, schema)" by (cases x)
    show "wends ?I (json_tree fs folder path uri) (\<lambda>n. case x of (content, schema) \<Rightarrow>
      wbind (wmap (\<lambda>reference.
         if reference \<in> set visiting \<or> reference = uri
         then wraise (SchemaError (''JSON Schema references '' @ reference @ '' and '' @ path_name path @ '' form a cycle''))
         else
           wbind (wcached reference
               (wbind (wlift (local_reference_path folder reference)) (\<lambda>p.
                 json_document_of n fs p folder reference (visiting @ [uri]))))
             (\<lambda>document. wreturn (reference, document)))
       (local_references (jf_relative fs) schema uri)) (\<lambda>references.
     wbind (wlift (if uri = [] then jf_check fs content else Inr ())) (\<lambda>_.
       wreturn (SchemaDocument ST_JSON content references))))"
      unfolding cs prod.case
      by (rule wends_bind[where Q = "list_all2 (\<lambda>r (r', d). r' = r \<and> (\<exists>p. local_reference_path folder r = Inr p \<and> json_tree fs folder p r d))
          (local_references (jf_relative fs) schema uri)"], rule wends_map)
        (use item x in \<open>auto simp: cs simp del: wlift_simps intro!: wmono_intros wends_lift json_tree.intros
           wends_bind[where Q = "\<lambda>_. True"]\<close>)
  qed (auto intro!: wends_lift wmono_intros simp del: wlift_simps split: prod.split)
qed


subsection \<open>Descriptor pools\<close>

text \<open>The names a file in the pool imports: its descriptor's, or those of the bundled file.\<close>

definition imports_of :: "'p pool_api \<Rightarrow> file_descriptor set \<Rightarrow> string \<Rightarrow> string list \<Rightarrow> bool" where
  "imports_of api D name deps \<longleftrightarrow> (\<exists>d \<in> D. fd_name d = name \<and> fd_dependency d = deps) \<or> pa_bundled api name = Some deps"

inductive pool_order :: "'p pool_api \<Rightarrow> file_descriptor set \<Rightarrow> string list \<Rightarrow> bool" for api D where
  empty_pool: "pool_order api D []"
| next_file: "pool_order api D added \<Longrightarrow> imports_of api D name deps \<Longrightarrow> set deps \<subseteq> set added \<Longrightarrow> pool_order api D (added @ [name])"

definition pool_step :: "'p pool_api \<Rightarrow> file_descriptor set \<Rightarrow> string \<Rightarrow> 'p pool_state \<Rightarrow> 'p pool_state \<Rightarrow> bool" where
  "pool_step api D name st st' \<longleftrightarrow>
     (pool_order api D (fst st) \<longrightarrow> pool_order api D (fst st')) \<and> set (fst st) \<subseteq> set (fst st') \<and> name \<in> set (fst st')"

lemma pool_steps:
  assumes "wmap f names st = Some (Inr us, st')"
    and "\<And>name s (u :: unit) s'. name \<in> set names \<Longrightarrow> f name s = Some (Inr u, s') \<Longrightarrow> pool_step api D name s s'"
  shows "(pool_order api D (fst st) \<longrightarrow> pool_order api D (fst st')) \<and> set (fst st) \<union> set names \<subseteq> set (fst st')"
  using assms
proof (induction names arbitrary: st us)
  case (Cons name names)
  obtain u s1 us1 where s: "f name st = Some (Inr u, s1)" "wmap f names s1 = Some (Inr us1, st')"
    using Cons.prems(1) by (auto simp: res_simps)
  have "pool_step api D name st s1" using Cons.prems(2)[OF _ s(1)] by simp
  moreover have "(pool_order api D (fst s1) \<longrightarrow> pool_order api D (fst st')) \<and> set (fst s1) \<union> set names \<subseteq> set (fst st')"
    by (rule Cons.IH[OF s(2)]) (rule Cons.prems(2); simp)
  ultimately show ?case by (auto simp: pool_step_def)
qed (simp add: res_simps)

lemma add_default_step:
  "add_default_descriptor n api name st = Some (Inr u, st') \<Longrightarrow> pool_step api D name st st'"
proof (induction n arbitrary: name st u st')
  case (Suc n)
  show ?case
  proof (cases "name \<in> set (fst st)")
    case True
    then show ?thesis using Suc.prems by (auto simp: pool_added_def pool_step_def)
  next
    case False
    then obtain deps us added pool where m: "pa_bundled api name = Some deps"
      "wmap (add_default_descriptor n api) deps st = Some (Inr us, (added, pool))" "fst st' = added @ [name]"
      using Suc.prems by (auto simp: pool_added_def res_simps split: option.splits)
    have "(pool_order api D (fst st) \<longrightarrow> pool_order api D added) \<and> set (fst st) \<union> set deps \<subseteq> set added"
      using pool_steps[OF m(2) Suc.IH] by simp
    then show ?thesis using m(1,3) by (auto simp: pool_step_def imports_of_def intro: next_file)
  qed
qed simp

lemma add_descriptor_step:
  assumes "\<And>k d. dget descriptors k = Some d \<Longrightarrow> fd_name d = k \<and> d \<in> D"
  shows "add_descriptor n api descriptors visiting d st = Some (Inr u, st') \<Longrightarrow> d \<in> D \<Longrightarrow> pool_step api D (fd_name d) st st'"
proof (induction n arbitrary: visiting d st u st')
  case (Suc n)
  show ?case
  proof (cases "fd_name d \<in> set (fst st)")
    case True
    then show ?thesis using Suc.prems by (auto simp: pool_added_def pool_step_def)
  next
    case False
    let ?f = "\<lambda>dependency. case dget descriptors dependency of
        Some referenced \<Rightarrow> add_descriptor n api descriptors (fd_name d # visiting) referenced
      | None \<Rightarrow> add_default_descriptor n api dependency"
    obtain us added pool where m: "wmap ?f (fd_dependency d) st = Some (Inr us, (added, pool))" "fst st' = added @ [fd_name d]"
      using Suc.prems(1) False
      by (auto simp: pool_added_def res_simps split: if_splits) (auto split: sum.splits)
    have "pool_step api D name s s'" if "?f name s = Some (Inr u', s')" for name s u' s'
    proof (cases "dget descriptors name")
      case None
      then show ?thesis using that add_default_step by fastforce
    next
      case (Some referenced)
      have "pool_step api D (fd_name referenced) s s'"
        by (rule Suc.IH) (use that Some assms in auto)
      then show ?thesis using assms[OF Some] by simp
    qed
    from pool_steps[OF m(1) this] have "(pool_order api D (fst st) \<longrightarrow> pool_order api D added) \<and> set (fst st) \<union> set (fd_dependency d) \<subseteq> set added"
      by simp
    moreover have "imports_of api D (fd_name d) (fd_dependency d)" using Suc.prems(2) by (auto simp: imports_of_def)
    ultimately show ?thesis using m(2) by (auto simp: pool_step_def intro: next_file)
  qed
qed simp

lemma wends_pool_added: "wends (\<lambda>_. True) Q m \<Longrightarrow> Q () \<Longrightarrow> wends (\<lambda>_. True) Q (\<lambda>n. pool_added name (m n))"
  unfolding wends_def pool_added_def by auto

lemma add_default_ends:
  assumes "\<And>name deps d. pa_bundled api name = Some deps \<Longrightarrow> d \<in> set deps \<Longrightarrow> rank d < (rank name :: nat)"
  shows "wends (\<lambda>_. True) (\<lambda>_. True) (\<lambda>n. add_default_descriptor n api name)"
proof (induction "rank name" arbitrary: name rule: less_induct)
  case less
  show ?case
  proof (rule wends_Suc, unfold add_default_descriptor.simps, rule wends_pool_added)
    show "wends (\<lambda>_. True) (\<lambda>_. True) (\<lambda>n. case pa_bundled api name of
          None \<Rightarrow> wraise (SchemaError (''Protobuf schema reference not found: '' @ name))
        | Some deps \<Rightarrow> wbind (wmap (add_default_descriptor n api) deps) (\<lambda>_ (added, pool).
              Some (Inr (), (added @ [name], pa_add_bundled api name pool))))"
    proof (cases "pa_bundled api name")
      case (Some deps)
      have "wends (\<lambda>_. True) (\<lambda>ys. list_all2 (\<lambda>_ _. True) deps ys) (\<lambda>n. wmap (add_default_descriptor n api) deps)"
        using less assms[OF Some] by (intro wends_map) simp_all
      then show ?thesis
        unfolding Some option.case by (rule wends_bind) (auto intro!: wmono_map simp: wends_def simp del: wlift_simps)
    qed simp
  qed simp
qed

lemma add_descriptor_ends:
  assumes "\<And>name deps d. pa_bundled api name = Some deps \<Longrightarrow> d \<in> set deps \<Longrightarrow> rank d < (rank name :: nat)"
    and N: "finite N" "\<And>k d. dget descriptors k = Some d \<Longrightarrow> fd_name d \<in> N"
  shows "fd_name d \<in> N \<Longrightarrow> wends (\<lambda>_. True) (\<lambda>_. True) (\<lambda>n. add_descriptor n api descriptors visiting d)"
proof (induction "card (N - set visiting)" arbitrary: d visiting rule: less_induct)
  case less
  let ?f = "\<lambda>n dependency. case dget descriptors dependency of
      Some referenced \<Rightarrow> add_descriptor n api descriptors (fd_name d # visiting) referenced
    | None \<Rightarrow> add_default_descriptor n api dependency"
  have walk: "wends (\<lambda>_. True) (\<lambda>_. True) (\<lambda>n. ?f n dependency)" if "fd_name d \<notin> set visiting" for dependency
  proof (cases "dget descriptors dependency")
    case None
    then show ?thesis using add_default_ends[OF assms(1)] by simp
  next
    case (Some referenced)
    have "card (N - set (fd_name d # visiting)) < card (N - set visiting)"
      using that less.prems N(1) by (intro psubset_card_mono) auto
    from less.hyps[OF this] show ?thesis using N(2)[OF Some] Some by simp
  qed
  have mono: "wmono (\<lambda>n. ?f n x)" for x by (cases "dget descriptors x") simp_all
  show ?case
  proof (rule wends_Suc, unfold add_descriptor.simps, rule wends_pool_added)
    let ?finish = "\<lambda>_ (added, pool). case pa_add api d pool of
        Inl e \<Rightarrow> Some (Inl (pool_error d e), (added, pool))
      | Inr pool1 \<Rightarrow> Some (Inr (), (added @ [fd_name d], pool1))"
    show "wends (\<lambda>_. True) (\<lambda>_. True) (\<lambda>n.
      if fd_name d \<in> set visiting then wraise (SchemaError ''Cyclic Protobuf schema reference'')
      else wbind (wmap (?f n) (fd_dependency d)) ?finish)"
    proof (cases "fd_name d \<in> set visiting")
      case False
      have m: "wends (\<lambda>_. True) (\<lambda>ys. list_all2 (\<lambda>_ _. True) (fd_dependency d) ys) (\<lambda>n. wmap (?f n) (fd_dependency d))"
        using walk[OF False] mono by (intro wends_map)
      have "wends (\<lambda>_. True) (\<lambda>_. True) (\<lambda>n. wbind (wmap (?f n) (fd_dependency d)) ?finish)"
        by (rule wends_bind[OF m]) (auto intro!: wmono_map mono simp: wends_def split: sum.split)
      then show ?thesis using False by simp
    qed simp
  qed simp
qed

lemma avro_document_more: "avro_document n fs path folder = Some r \<Longrightarrow> n \<le> m \<Longrightarrow> avro_document m fs path folder = Some r"
  using document_more(1) by (fastforce simp: avro_document_def)

lemma json_document_more: "json_document n fs path folder = Some r \<Longrightarrow> n \<le> m \<Longrightarrow> json_document m fs path folder = Some r"
proof -
  assume r: "json_document n fs path folder = Some r" and m: "n \<le> m"
  obtain s where "json_document_of n fs path folder [] [] [] = Some (r, s)" using r by (auto simp: json_document_def)
  from document_more(2)[OF this m] show ?thesis by (simp add: json_document_def)
qed

section \<open>Properties\<close>


text \<open>A folder in which \<open>a\<close> uses \<open>b\<close>, and \<open>b\<close> uses \<open>a\<close> or not. A schema is the type it
  defines and those it uses; like the parser of the code, this one refuses to define a type twice.\<close>

definition two_types :: "bool \<Rightarrow> (string \<times> string list) avro_files" where
  "two_types cyclic =
     \<lparr>af_read = (\<lambda>p. if p = ''d/a.avsc'' then Inr (''A'', (''a'', [''b'']))
        else if p = ''d/b.avsc'' then Inr (''B'', (''b'', if cyclic then [''a''] else [])) else Inl (SchemaError p)),
      af_is_file = (\<lambda>p. p \<in> {''d/a.avsc'', ''d/b.avsc''}),
      af_parse = (\<lambda>(name, uses) known.
        if din name known then InvalidAvro (''redefined named type: '' @ name)
        else (case find (\<lambda>u. u \<noteq> name \<and> \<not> din u known) uses of
          Some u \<Rightarrow> UnknownAvro u
        | None \<Rightarrow> ParsedAvro (dput name (name, uses) known)))\<rparr>"


text \<open>C39: reading an Avro file never ends, whatever the fuel, when the parser still misses a type after it was given what the
  file of that type's name defines, as when that file defines a type of another name that is not the
  schema's own: the loop keeps asking the parser with the same types.\<close>

theorem avro_document_never_ends:
  assumes "af_read fs path = Inr (content, schema)" and "af_parse fs schema [] = UnknownAvro name"
    and "af_is_file fs (avsc_path folder name)" and "af_read fs (avsc_path folder name) = Inr (content', schema')"
    and "af_parse fs schema' [] = ParsedAvro named" and "ddistinct named" and "af_parse fs schema named = UnknownAvro name"
  shows "avro_document n fs path folder = None"
proof -
  have "avro_document_of n fs path folder [] [] = None"
  proof (cases n)
    case (Suc k)
    have "avro_loop k fs path folder content schema [] [] [] [] = None"
    proof (cases k)
      case (Suc j)
      let ?found = "avro_document_of j fs (avsc_path folder name) folder [name] []"
      have "?found = None \<or> ?found = Some (Inr (SchemaDocument ST_AVRO content' [], named), [])"
        using assms(4,5) by (cases j; cases "j - 1") (auto split: nat.splits)
      then show ?thesis
        using Suc assms(2,3) dmerge_nil[OF assms(6)] avro_loop_again[OF assms(7,6), where visiting = "[]"]
        by (auto simp: wbind_def wcached_def)
    qed simp
    then show ?thesis using Suc assms(1) by simp
  qed simp
  then show ?thesis by (simp add: avro_document_def)
qed

theorem avro_document_never_ends_witness:
  "\<forall>n. avro_document n ((two_types False)\<lparr>af_read := (\<lambda>p. Inr (p, if p = ''d/a.avsc'' then (''a'', [''b'']) else (''c'', [])))\<rparr>)
     ''d/a.avsc'' ''d'' = None"
proof
  fix n
  let ?fs = "(two_types False)\<lparr>af_read := (\<lambda>p. Inr (p, if p = ''d/a.avsc'' then (''a'', [''b'']) else (''c'', [])))\<rparr>"
  have "avsc_path ''d'' ''b'' = ''d/b.avsc''" by code_simp
  then show "avro_document n ?fs ''d/a.avsc'' ''d'' = None"
    by (intro avro_document_never_ends[of ?fs "''d/a.avsc''" _ "(''a'', [''b''])" "''b''" "''d''" _ "(''c'', [])" "[(''c'', (''c'', []))]"])
      (auto simp: two_types_def din_def)
qed

text \<open>Reading a JSON Schema file with the files it refers to always ends when only finitely many of them can be
  read, also when they refer to each other, and a document that comes back is the tree of those files:
  each content is the text of its file and its references are the relative references of that
  file, in order, each once and each next to the schema.\<close>

theorem json_documents_end:
  assumes "finite (readable_references fs folder)"
  shows "\<exists>n r. (\<forall>m \<ge> n. json_document m fs path folder = Some r) \<and> (\<forall>d. r = Inr d \<longrightarrow> json_tree fs folder path [] d)"
proof -
  have "loaded_trees fs folder []" by (simp add: loaded_trees_def)
  from wendsD[OF json_ends[OF assms] this] obtain n r s where
    r: "json_document_of n fs path folder [] [] [] = Some (r, s)" "\<forall>d. r = Inr d \<longrightarrow> json_tree fs folder path [] d" by blast
  have "\<forall>m \<ge> n. json_document_of m fs path folder [] [] [] = Some (r, s)" using document_more(2)[OF r(1)] by blast
  then show ?thesis using r(2) by (auto simp: json_document_def)
qed

definition json_folder :: "string option \<Rightarrow> json_files" where
  "json_folder back =
     \<lparr>jf_read = (\<lambda>p. if p = ''d/a.json'' then Inr (''A'', PDict [(PStr ''$ref'', PStr ''b.json'')])
        else if p = ''d/b.json'' then Inr (''B'', case back of None \<Rightarrow> PList [] | Some r \<Rightarrow> PDict [(PStr ''$ref'', PStr r)])
        else Inl (SchemaError p)),
      jf_relative = (\<lambda>_ r. if r \<in> {''a.json'', ''b.json''} then Some r else None), jf_check = (\<lambda>_. Inr ())\<rparr>"

theorem json_documents_end_witness:
  "(\<exists>n. \<forall>m \<ge> n. json_document m (json_folder (Some ''b.json'')) ''d/a.json'' ''d''
      = Some (Inl (SchemaError ''JSON Schema references b.json and b.json form a cycle''))) \<and>
   (\<exists>d. json_document 9 (json_folder None) ''d/a.json'' ''d'' = Some (Inr d) \<and> json_tree (json_folder None) ''d'' ''d/a.json'' [] d)"
proof
  have fin: "finite (readable_references (json_folder target) ''d'')" for target
    by (rule finite_subset[of _ "{''a.json'', ''b.json''}"]) (auto simp: readable_references_def json_folder_def split: if_splits)
  let ?cycle = "Inl (SchemaError ''JSON Schema references b.json and b.json form a cycle'') :: schema_document res"
  obtain n r where r: "\<forall>m \<ge> n. json_document m (json_folder (Some ''b.json'')) ''d/a.json'' ''d'' = Some r"
    using json_documents_end[OF fin] by blast
  have "json_document 9 (json_folder (Some ''b.json'')) ''d/a.json'' ''d'' = Some ?cycle" by code_simp
  then have "r = ?cycle" using r[rule_format, of "max n 9"] json_document_more[of 9 _ _ _ _ "max n 9"] by simp
  then show "\<exists>n. \<forall>m \<ge> n. json_document m (json_folder (Some ''b.json'')) ''d/a.json'' ''d'' = Some ?cycle" using r by blast
  obtain n r where s: "\<forall>m \<ge> n. json_document m (json_folder None) ''d/a.json'' ''d'' = Some r"
    "\<forall>d. r = Inr d \<longrightarrow> json_tree (json_folder None) ''d'' ''d/a.json'' [] d"
    using json_documents_end[OF fin] by blast
  have nine: "json_document 9 (json_folder None) ''d/a.json'' ''d''
      = Some (Inr (SchemaDocument ST_JSON ''A'' [(''b.json'', SchemaDocument ST_JSON ''B'' [])]))" by code_simp
  then have "r = Inr (SchemaDocument ST_JSON ''A'' [(''b.json'', SchemaDocument ST_JSON ''B'' [])])"
    using s(1)[rule_format, of "max n 9"] json_document_more[OF nine, of "max n 9"] by simp
  then show "\<exists>d. json_document 9 (json_folder None) ''d/a.json'' ''d'' = Some (Inr d) \<and> json_tree (json_folder None) ''d'' ''d/a.json'' [] d"
    using nine s(2) by blast
qed

text \<open>Building the descriptor pool of a Protobuf file always ends, with an error when the files import each other;
  a pool that is built has the file, and every file in it was added after all files it imports,
  whether they came with the schema or are bundled.\<close>

theorem descriptor_pool_in_order:
  assumes bundled: "\<forall>name deps. pa_bundled api name = Some deps \<longrightarrow> (\<forall>d \<in> set deps. rank d < (rank name :: nat))"
    and D: "finite D" "rootf \<in> D" "\<forall>k d. dget descriptors k = Some d \<longrightarrow> fd_name d = k \<and> d \<in> D"
  shows "\<exists>n r added pool. (\<forall>m \<ge> n. add_descriptor m api descriptors [] rootf ([], pool0) = Some (r, (added, pool))) \<and>
    (r = Inr () \<longrightarrow> fd_name rootf \<in> set added \<and> pool_order api D added)"
proof -
  have "wends (\<lambda>_. True) (\<lambda>_. True) (\<lambda>n. add_descriptor n api descriptors [] rootf)"
    using bundled D by (intro add_descriptor_ends[where rank = rank and N = "fd_name ` D"]) blast+
  from wendsD[OF this] obtain n r added pool where
    r: "add_descriptor n api descriptors [] rootf ([], pool0) = Some (r, (added, pool))" by fastforce
  have "r = Inr () \<Longrightarrow> pool_step api D (fd_name rootf) ([], pool0) (added, pool)"
    using add_descriptor_step[of descriptors D n api "[]" rootf] r D by blast
  then have "r = Inr () \<longrightarrow> fd_name rootf \<in> set added \<and> pool_order api D added"
    by (auto simp: pool_step_def intro: empty_pool)
  then show ?thesis using document_more(3)[OF r] by blast
qed

definition proto_file :: "string \<Rightarrow> string list \<Rightarrow> file_descriptor" where
  "proto_file name deps = \<lparr>fd_name = name, fd_package = [], fd_messages = [], fd_dependency = deps\<rparr>"

definition list_pool :: "string list pool_api" where
  "list_pool = \<lparr>pa_add = (\<lambda>d p. Inr (p @ [fd_name d])), pa_bundled = (\<lambda>name. if name = ''any'' then Some [] else None),
     pa_add_bundled = (\<lambda>name p. p @ [name])\<rparr>"

theorem descriptor_pool_in_order_witness:
  "\<exists>n. \<forall>m \<ge> n. descriptor_pool m list_pool [] (proto_file ''a'' [''b'', ''any'']) [(''b'', proto_file ''b'' [''any'', ''a'']), (''a'', proto_file ''a'' [''b'', ''any''])]
     = Some (Inl (SchemaError ''Cyclic Protobuf schema reference''))"
proof -
  let ?ds = "[(''b'', proto_file ''b'' [''any'', ''a'']), (''a'', proto_file ''a'' [''b'', ''any''])]"
  let ?root = "proto_file ''a'' [''b'', ''any'']" and ?D = "set (map snd [(''b'', proto_file ''b'' [''any'', ''a'']), (''a'', proto_file ''a'' [''b'', ''any''])])"
  have bundled: "\<forall>name deps. pa_bundled list_pool name = Some deps \<longrightarrow> (\<forall>d \<in> set deps. (\<lambda>_. 0) d < ((\<lambda>_. 0) name :: nat))"
    by (simp add: list_pool_def)
  have files: "\<forall>k d. dget ?ds k = Some d \<longrightarrow> fd_name d = k \<and> d \<in> ?D"
    by (simp add: proto_file_def)
  have "finite ?D" "?root \<in> ?D" by simp_all
  from descriptor_pool_in_order[OF bundled this files, of "[]"] obtain n r added pool where
    r: "\<forall>m \<ge> n. add_descriptor m list_pool ?ds [] ?root ([], []) = Some (r, (added, pool))" by blast
  have nine: "map_option fst (add_descriptor 9 list_pool ?ds [] (proto_file ''a'' [''b'', ''any'']) ([], []))
      = Some (Inl (SchemaError ''Cyclic Protobuf schema reference''))" by code_simp
  then obtain s where s: "add_descriptor 9 list_pool ?ds [] (proto_file ''a'' [''b'', ''any'']) ([], [])
      = Some (Inl (SchemaError ''Cyclic Protobuf schema reference''), s)" by auto
  have "r = Inl (SchemaError ''Cyclic Protobuf schema reference'')"
    using r[rule_format, of "max n 9"] document_more(3)[OF s, of "max n 9"] by simp
  then show ?thesis using r by (intro exI[of _ n]) (simp add: descriptor_pool_def)
qed

text \<open>A reference of a JSON Schema or of a Protobuf schema never leaves the folder of the schema.\<close>

lemma references_stay_inside:
  assumes "local_reference_path folder uri = Inr p \<or> safe_proto_path folder uri = Inr p"
  shows "p = join_path folder (path_parts uri) \<and> ''..'' \<notin> set (path_parts uri) \<and>
    list_all (\<lambda>part. part \<noteq> [] \<and> CHR ''/'' \<notin> set part) (path_parts uri)"
  using assms split_on_parts[of _ "CHR ''/''" uri]
  by (auto simp: local_reference_path_def safe_proto_path_def path_parts_def list_all_iff split: if_splits)

end
