(* ===== verification/Group_Service.thy ===== *)
theory Group_Service
  imports Kafka_Client
begin

text \<open>
  Consumer group offset resets and deletion (\<open>group_service.py\<close>).

  The admin client is a parameter: a record of its requests, each an action on the state \<open>'w\<close> of
  the cluster, which other clients may change between two requests. \<open>show_error\<close> is \<open>str\<close> of a
  \<open>KafkaError\<close>. A reset of nothing is possible (the command may list no partition); Python raises
  a \<open>KeyError\<close> where an answer lacks a partition that was asked for, and so does the model.
\<close>

section \<open>The admin client\<close>

datatype offset_spec = SPEC_EARLIEST | SPEC_LATEST | SPEC_TIMESTAMP int

type_synonym position_key = "string \<times> int"

record 'w group_api =
  ga_describe :: "string \<Rightarrow> (nat, 'w) act"
  ga_committed :: "string \<Rightarrow> position_key list \<Rightarrow> (topic_partition list, 'w) act"
  ga_list_offsets :: "position_key list \<Rightarrow> offset_spec \<Rightarrow> ((position_key \<times> int res) list, 'w) act"
  ga_alter :: "string \<Rightarrow> (position_key \<times> int) list \<Rightarrow> (topic_partition list, 'w) act"
  ga_delete :: "string \<Rightarrow> (unit, 'w) act"

section \<open>Plans and outcomes\<close>

definition NO_RECORD_FOR_TIMESTAMP :: int where "NO_RECORD_FOR_TIMESTAMP = - 1"

record offset_reset =
  or_part :: int
  or_current :: "int option"
  or_new :: int

record offset_reset_plan =
  rp_group :: string
  rp_topic :: string
  rp_resets :: "offset_reset list"

record offset_reset_outcome =
  ro_part :: int
  ro_offset :: int
  ro_error :: "string option"

definition group_not_empty_message :: "string \<Rightarrow> nat \<Rightarrow> string" where
  "group_not_empty_message gid members =
     ''Group '' @ [CHR 0x27] @ gid @ [CHR 0x27] @ '' has '' @ show_nat members @ '' active ''
     @ (if members = 1 then ''member'' else ''members'') @ ''; stop its consumers first''"

section \<open>Operations\<close>

definition ensure_empty :: "'w group_api \<Rightarrow> string \<Rightarrow> (unit, 'w) act" where
  "ensure_empty api gid =
     abind (ga_describe api gid) (\<lambda>members.
       if members \<noteq> 0 then alift (Inl (GroupNotEmptyError gid members)) else areturn ())"

fun committed_from :: "topic_partition list \<Rightarrow> (int, int) pydict \<Rightarrow> (int, int) pydict res" where
  "committed_from [] committed = Inr committed"
| "committed_from (p # ps) committed =
     (case tp_error p of
        Some e \<Rightarrow> Inl (kafka_exception e)
      | None \<Rightarrow> committed_from ps (if 0 \<le> tp_offset p then dput (tp_partition p) (tp_offset p) committed else committed))"

definition committed_offsets ::
  "'w group_api \<Rightarrow> string \<Rightarrow> position_key list \<Rightarrow> ((int, int) pydict, 'w) act" where
  "committed_offsets api gid partitions =
     abind (ga_committed api gid partitions) (\<lambda>tps. alift (committed_from tps []))"

definition offset_at :: "(position_key, int) pydict \<Rightarrow> position_key \<Rightarrow> int res" where
  "offset_at results p = (case dget results p of None \<Rightarrow> Inl (KeyError (fst p)) | Some n \<Rightarrow> Inr n)"

definition list_offsets :: "'w group_api \<Rightarrow> position_key list \<Rightarrow> offset_spec \<Rightarrow> (int list, 'w) act" where
  "list_offsets api partitions spec =
     abind (ga_list_offsets api (remdups partitions) spec) (\<lambda>futures.
       alift (rbind (map_res (\<lambda>(p, future). rbind future (\<lambda>n. Inr (p, n))) futures) (\<lambda>results.
         map_res (offset_at (dict_of results)) partitions)))"

definition clamp :: "int \<Rightarrow> int \<Rightarrow> int \<Rightarrow> int" where
  "clamp v start stop = min (max v start) stop"

definition target_offsets :: "'w group_api \<Rightarrow> reset_offsets_command \<Rightarrow> position_key list \<Rightarrow> (int list, 'w) act" where
  "target_offsets api command partitions =
     (if ro_target command = TARGET_EARLIEST then list_offsets api partitions SPEC_EARLIEST
      else
        abind (list_offsets api partitions SPEC_LATEST) (\<lambda>latest.
          case ro_target command of
            TARGET_LATEST \<Rightarrow> areturn latest
          | TARGET_TIMESTAMP \<Rightarrow>
              abind (list_offsets api partitions (SPEC_TIMESTAMP (ro_value command))) (\<lambda>found.
                areturn (map2 (\<lambda>offset stop. if offset = NO_RECORD_FOR_TIMESTAMP then stop else offset) found latest))
          | _ \<Rightarrow>
              abind (list_offsets api partitions SPEC_EARLIEST) (\<lambda>earliest.
                areturn (map2 (clamp (ro_value command)) earliest latest))))"

definition plan_reset :: "'w group_api \<Rightarrow> reset_offsets_command \<Rightarrow> (offset_reset_plan, 'w) act" where
  "plan_reset api command =
     abind (ensure_empty api (ro_group command)) (\<lambda>_.
       let partitions = map (\<lambda>p. (ro_topic command, p)) (ro_partitions command) in
       abind (committed_offsets api (ro_group command) partitions) (\<lambda>current.
         abind (target_offsets api command partitions) (\<lambda>new.
           areturn \<lparr>rp_group = ro_group command, rp_topic = ro_topic command,
             rp_resets = map2 (\<lambda>p n. \<lparr>or_part = p, or_current = dget current p, or_new = n\<rparr>)
               (ro_partitions command) new\<rparr>)))"

definition reset_errors :: "(kafka_error \<Rightarrow> string) \<Rightarrow> topic_partition list \<Rightarrow> (int, string) pydict" where
  "reset_errors show_error tps =
     dict_of (concat (map (\<lambda>p. case tp_error p of None \<Rightarrow> [] | Some e \<Rightarrow> [(tp_partition p, show_error e)]) tps))"

definition apply_reset ::
  "(kafka_error \<Rightarrow> string) \<Rightarrow> 'w group_api \<Rightarrow> offset_reset_plan \<Rightarrow> (offset_reset_outcome list, 'w) act" where
  "apply_reset show_error api plan =
     abind (ga_alter api (rp_group plan) (map (\<lambda>r. ((rp_topic plan, or_part r), or_new r)) (rp_resets plan))) (\<lambda>tps.
       let errors = reset_errors show_error tps in
       areturn (map (\<lambda>r. \<lparr>ro_part = or_part r, ro_offset = or_new r, ro_error = dget errors (or_part r)\<rparr>) (rp_resets plan)))"

definition delete_group :: "'w group_api \<Rightarrow> string \<Rightarrow> (unit, 'w) act" where
  "delete_group api gid = abind (ensure_empty api gid) (\<lambda>_. ga_delete api gid)"

section \<open>Lemmas\<close>

lemma list_offsets_length: "list_offsets api ps spec w = (Inr ns, w') \<Longrightarrow> length ns = length ps"
  by (auto simp: list_offsets_def res_simps dest: map_res_length)

lemma target_offsets_length: "target_offsets api command ps w = (Inr ns, w') \<Longrightarrow> length ns = length ps"
  by (cases "ro_target command") (auto simp: target_offsets_def res_simps dest!: list_offsets_length)

lemma clamp_bounds: "start \<le> stop \<Longrightarrow> start \<le> clamp v start stop \<and> clamp v start stop \<le> stop \<and>
    (start \<le> v \<and> v \<le> stop \<longrightarrow> clamp v start stop = v)"
  by (auto simp: clamp_def)

text \<open>What \<open>target_offsets\<close> asks for and answers with.\<close>

lemma target_offsets_spec:
  assumes "target_offsets api command ps w = (Inr new, w')"
  shows "(case ro_target command of
      TARGET_EARLIEST \<Rightarrow> list_offsets api ps SPEC_EARLIEST w = (Inr new, w')
    | TARGET_LATEST \<Rightarrow> list_offsets api ps SPEC_LATEST w = (Inr new, w')
    | TARGET_TIMESTAMP \<Rightarrow> \<exists>latest found w1. list_offsets api ps SPEC_LATEST w = (Inr latest, w1) \<and>
        list_offsets api ps (SPEC_TIMESTAMP (ro_value command)) w1 = (Inr found, w') \<and>
        (\<forall>i < length ps. new ! i = (if found ! i = NO_RECORD_FOR_TIMESTAMP then latest ! i else found ! i))
    | TARGET_OFFSET \<Rightarrow> \<exists>latest earliest w1. list_offsets api ps SPEC_LATEST w = (Inr latest, w1) \<and>
        list_offsets api ps SPEC_EARLIEST w1 = (Inr earliest, w') \<and>
        (\<forall>i < length ps. new ! i = clamp (ro_value command) (earliest ! i) (latest ! i)))"
  using assms
  by (cases "ro_target command") (fastforce simp: target_offsets_def res_simps dest: list_offsets_length)+

text \<open>What the cluster told of a partition's position, when it was asked for it in the world \<open>w\<close>.\<close>

definition told :: "'w group_api \<Rightarrow> position_key list \<Rightarrow> offset_spec \<Rightarrow> 'w \<Rightarrow> 'w \<Rightarrow> position_key \<Rightarrow> int \<Rightarrow> bool" where
  "told api partitions spec w w' key n \<longleftrightarrow>
     (\<exists>futures. ga_list_offsets api (remdups partitions) spec w = (Inr futures, w') \<and> (key, Inr n) \<in> set futures)"

lemma list_offsets_told:
  assumes "list_offsets api ps spec w = (Inr ns, w')"
    and "\<forall>qs spec w futures w'. distinct qs \<and> ga_list_offsets api qs spec w = (Inr futures, w') \<longrightarrow> ddistinct futures"
    and "i < length ps"
  shows "told api ps spec w w' (ps ! i) (ns ! i)"
proof -
  obtain futures results where f: "ga_list_offsets api (remdups ps) spec w = (Inr futures, w')"
    and r: "map_res (\<lambda>(p, future). rbind future (\<lambda>n. Inr (p, n))) futures = Inr results"
    and ns: "map_res (offset_at (dict_of results)) ps = Inr ns"
    using assms(1) by (auto simp: list_offsets_def res_simps)
  have results: "(k, n) \<in> set results \<longleftrightarrow> (k, Inr n) \<in> set futures" for k n
    using r by (induction futures arbitrary: results) (auto simp: res_simps)
  have "map fst results = map fst futures"
    using r by (induction futures arbitrary: results) (auto simp: res_simps)
  then have d: "ddistinct results" using assms(2) f distinct_remdups by metis
  have "offset_at (dict_of results) (ps ! i) = Inr (ns ! i)" using map_res_nth[OF ns assms(3)] by simp
  then have "dget (dict_of results) (ps ! i) = Some (ns ! i)" by (simp add: offset_at_def split: option.splits)
  then have "(ps ! i, ns ! i) \<in> set results" using dict_of_distinct[OF d] by (auto dest: map_of_SomeD)
  then show ?thesis using f results by (auto simp: told_def)
qed

lemma committed_from_get:
  "committed_from tps d = Inr d' \<Longrightarrow> dget d' p =
     (case find (\<lambda>t. tp_partition t = p \<and> 0 \<le> tp_offset t) (rev tps) of Some t \<Rightarrow> Some (tp_offset t) | None \<Rightarrow> dget d p)"
proof (induction tps arbitrary: d)
  case (Cons t tps)
  have find_snoc: "find P (xs @ [x]) = (case find P xs of None \<Rightarrow> if P x then Some x else None | Some y \<Rightarrow> Some y)" for P xs x
    by (induction xs) auto
  from Cons show ?case
    by (auto simp: find_snoc dict_simps split: option.splits if_splits)
qed simp

section \<open>Properties\<close>

text \<open>A cluster whose group is empty, with ten records kept of partition 0 and none of partition 1.\<close>

definition sample_group_api :: "nat \<Rightarrow> nat group_api" where
  "sample_group_api members =
     \<lparr>ga_describe = (\<lambda>_ w. (Inr members, Suc w)),
      ga_committed = (\<lambda>_ ps w. (Inr (map (\<lambda>(t, p). \<lparr>tp_topic = t, tp_partition = p,
         tp_offset = (if p = 0 then 12 else OFFSET_INVALID), tp_error = None\<rparr>) ps), Suc w)),
      ga_list_offsets = (\<lambda>ps spec w. (Inr (map (\<lambda>(t, p). ((t, p), Inr
         (case spec of SPEC_EARLIEST \<Rightarrow> 5 | SPEC_LATEST \<Rightarrow> if p = 0 then 15 else 5 | SPEC_TIMESTAMP _ \<Rightarrow> - 1))) ps), Suc w)),
      ga_alter = (\<lambda>_ ps w. (Inr [], Suc w)),
      ga_delete = (\<lambda>_ w. (Inr (), Suc w))\<rparr>"

definition sample_reset :: "offset_target \<Rightarrow> reset_offsets_command" where
  "sample_reset target = \<lparr>ro_group = ''g'', ro_topic = ''t'', ro_partitions = [0, 1], ro_target = target, ro_value = 9\<rparr>"

lemma sample_plan:
  "plan_reset (sample_group_api 0) (sample_reset TARGET_OFFSET) 0 =
     (Inr \<lparr>rp_group = ''g'', rp_topic = ''t'',
        rp_resets = [\<lparr>or_part = 0, or_current = Some 12, or_new = 9\<rparr>, \<lparr>or_part = 1, or_current = None, or_new = 5\<rparr>]\<rparr>, 4)"
  by code_simp

text \<open>C9: a planned reset is exact: for every target it covers the asked partitions in their order, and each gets what the
  cluster told of that very partition: its first or its last offset; the offset of the timestamp, or the last one when no record is
  that late; and for an explicit offset the asked one when it lies between the first and the last, and otherwise the nearer of the
  two. (The client answers at most once for each partition; a first offset never lies behind the last.)\<close>

theorem planned_offsets_within_records:
  assumes "plan_reset api command w = (Inr plan, w')"
    and "\<forall>qs spec w futures w'. distinct qs \<and> ga_list_offsets api qs spec w = (Inr futures, w') \<longrightarrow> ddistinct futures"
  shows "map or_part (rp_resets plan) = ro_partitions command \<and>
    (let ps = map (\<lambda>p. (ro_topic command, p)) (ro_partitions command) in
     \<exists>w1 w2. \<forall>i < length ps.
       let new = or_new (rp_resets plan ! i) in
       case ro_target command of
         TARGET_EARLIEST \<Rightarrow> told api ps SPEC_EARLIEST w1 w' (ps ! i) new
       | TARGET_LATEST \<Rightarrow> told api ps SPEC_LATEST w1 w' (ps ! i) new
       | TARGET_TIMESTAMP \<Rightarrow> (\<exists>stop found. told api ps SPEC_LATEST w1 w2 (ps ! i) stop \<and>
           told api ps (SPEC_TIMESTAMP (ro_value command)) w2 w' (ps ! i) found \<and> new = (if found = - 1 then stop else found))
       | TARGET_OFFSET \<Rightarrow> (\<exists>start stop. told api ps SPEC_LATEST w1 w2 (ps ! i) stop \<and>
           told api ps SPEC_EARLIEST w2 w' (ps ! i) start \<and>
           (start \<le> stop \<longrightarrow> start \<le> new \<and> new \<le> stop \<and>
             (ro_value command < start \<longrightarrow> new = start) \<and> (stop < ro_value command \<longrightarrow> new = stop) \<and>
             (start \<le> ro_value command \<and> ro_value command \<le> stop \<longrightarrow> new = ro_value command))))"
proof -
  let ?ps = "map (\<lambda>p. (ro_topic command, p)) (ro_partitions command)"
  obtain current new w1 where t: "target_offsets api command ?ps w1 = (Inr new, w')"
    and plan: "plan = \<lparr>rp_group = ro_group command, rp_topic = ro_topic command,
      rp_resets = map2 (\<lambda>p n. \<lparr>or_part = p, or_current = dget current p, or_new = n\<rparr>) (ro_partitions command) new\<rparr>"
    using assms(1) unfolding plan_reset_def Let_def abind_Inr act_simps prod.inject sum.inject by blast
  have len: "length new = length ?ps" using target_offsets_length[OF t] by simp
  have parts: "map or_part (rp_resets plan) = ro_partitions command"
    using len by (simp add: plan comp_def split_beta)
  have new: "or_new (rp_resets plan ! i) = new ! i" if "i < length ?ps" for i
    using that len by (simp add: plan)
  note asked = list_offsets_told[OF _ assms(2), of ?ps]
  show ?thesis
  proof (cases "ro_target command")
    case TARGET_EARLIEST
    then show ?thesis using target_offsets_spec[OF t] parts new asked by (simp add: Let_def) blast
  next
    case TARGET_LATEST
    then show ?thesis using target_offsets_spec[OF t] parts new asked by (simp add: Let_def) blast
  next
    case TARGET_TIMESTAMP
    then obtain latest found w2 where o: "list_offsets api ?ps SPEC_LATEST w1 = (Inr latest, w2)"
      "list_offsets api ?ps (SPEC_TIMESTAMP (ro_value command)) w2 = (Inr found, w')"
      "\<forall>i < length ?ps. new ! i = (if found ! i = - 1 then latest ! i else found ! i)"
      using target_offsets_spec[OF t] by (auto simp: NO_RECORD_FOR_TIMESTAMP_def)
    show ?thesis unfolding Let_def TARGET_TIMESTAMP offset_target.case
      using parts new o(3) asked[OF o(1)] asked[OF o(2)] by (intro conjI exI[of _ w1] exI[of _ w2] allI impI) (assumption | metis)+
  next
    case TARGET_OFFSET
    then obtain latest earliest w2 where o: "list_offsets api ?ps SPEC_LATEST w1 = (Inr latest, w2)"
      "list_offsets api ?ps SPEC_EARLIEST w2 = (Inr earliest, w')"
      "\<forall>i < length ?ps. new ! i = clamp (ro_value command) (earliest ! i) (latest ! i)"
      using target_offsets_spec[OF t] by auto
    have "\<exists>start stop. told api ?ps SPEC_LATEST w1 w2 (?ps ! i) stop \<and> told api ?ps SPEC_EARLIEST w2 w' (?ps ! i) start \<and>
        (start \<le> stop \<longrightarrow> start \<le> new ! i \<and> new ! i \<le> stop \<and>
             (ro_value command < start \<longrightarrow> new ! i = start) \<and> (stop < ro_value command \<longrightarrow> new ! i = stop) \<and>
             (start \<le> ro_value command \<and> ro_value command \<le> stop \<longrightarrow> new ! i = ro_value command))" if "i < length ?ps" for i
      using asked[OF o(1) that] asked[OF o(2) that] o(3) that
      by (intro exI[of _ "earliest ! i"] exI[of _ "latest ! i"]) (simp add: clamp_def)
    then show ?thesis unfolding Let_def TARGET_OFFSET offset_target.case using parts new by (metis (no_types, lifting))
  qed
qed

theorem planned_offsets_within_records_witness:
  "map or_part [\<lparr>or_part = 0, or_current = Some 12, or_new = 9\<rparr>, \<lparr>or_part = 1, or_current = None, or_new = 5\<rparr>]
     = ro_partitions (sample_reset TARGET_OFFSET)"
proof -
  have "\<forall>qs spec w futures w'. distinct qs \<and> ga_list_offsets (sample_group_api 0) qs spec w = (Inr futures, w') \<longrightarrow> ddistinct futures"
    by (auto simp: sample_group_api_def comp_def case_prod_unfold)
  from planned_offsets_within_records[OF sample_plan this] show ?thesis by (simp add: sample_reset_def)
qed

text \<open>C34: a group with active members is left alone: planning a reset and deleting the group fail with the
  number of members, and nothing but the description was asked of the cluster.\<close>

theorem active_group_untouched:
  assumes "ga_describe api (ro_group command) w = (Inr members, w')" and "members \<noteq> 0"
  shows "plan_reset api command w = (Inl (GroupNotEmptyError (ro_group command) members), w') \<and>
    delete_group api (ro_group command) w = (Inl (GroupNotEmptyError (ro_group command) members), w')"
  using assms by (simp add: plan_reset_def delete_group_def ensure_empty_def abind_def)

theorem active_group_untouched_witness:
  "plan_reset (sample_group_api 2) (sample_reset TARGET_LATEST) 0 = (Inl (GroupNotEmptyError ''g'' 2), 1) \<and>
   delete_group (sample_group_api 2) ''g'' 0 = (Inl (GroupNotEmptyError ''g'' 2), 1)"
  using active_group_untouched[where api = "sample_group_api 2" and command = "sample_reset TARGET_LATEST" and w = 0 and w' = 1 and members = 2]
  by (simp add: sample_group_api_def sample_reset_def)

end
