(* ===== verification/Topic_Service.thy ===== *)
theory Topic_Service
  imports Group_Service
begin

text \<open>
  The topic service of admin mode (\<open>topic_service.py\<close>): the requests that create, edit and delete
  topics, the mapping of cluster metadata to topics, the enrichment of topics with offsets, and
  the loading and mapping of consumer groups.

  Topics are a dictionary from name to topic, and enriching them returns the changed dictionary.
  The answers of the admin client are arguments: a future is its result. The futures of one
  request run concurrently in the code; the order in which they finish is visible only in which of
  several programming errors is raised, and the model raises the first. Logging and timing are
  not modelled.
\<close>

section \<open>Requests\<close>

text \<open>\<open>ADMIN_EXCEPTIONS\<close>.\<close>

definition admin_exception :: "exn \<Rightarrow> bool" where
  "admin_exception e \<longleftrightarrow> is_kafka_exception e \<or> is_value_error e"

text \<open>\<open>_wait_for\<close>: the first failure of the futures.\<close>

fun wait_for :: "('k \<times> 'a res) list \<Rightarrow> unit res" where
  "wait_for [] = Inr ()"
| "wait_for ((k, future) # futures) = rbind future (\<lambda>_. wait_for futures)"

record new_topic =
  nt_topic :: string
  nt_num_partitions :: int
  nt_replication_factor :: int
  nt_config :: "(string, string) pydict"

definition new_topic_of :: "create_topic_command \<Rightarrow> new_topic" where
  "new_topic_of command =
     \<lparr>nt_topic = ct_name command, nt_num_partitions = ct_partitions command,
      nt_replication_factor = (case ct_replicas command of Some n \<Rightarrow> n | None \<Rightarrow> - 1),
      nt_config =
        [(CLEANUP_POLICY_CONFIG, ct_cleanup_policy command), (RETENTION_MS_CONFIG, show_int (ct_retention_ms command))]
        @ (case ct_min_insync_replicas command of
             None \<Rightarrow> [] | Some n \<Rightarrow> [(MIN_INSYNC_REPLICAS_CONFIG, show_int n)])\<rparr>"

datatype alter_op = OP_SET | OP_DELETE

record config_entry =
  ce_name :: string
  ce_value :: "string option"
  ce_op :: alter_op

definition edit_entries :: "config_change list \<Rightarrow> config_entry list" where
  "edit_entries changes =
     map (\<lambda>c. \<lparr>ce_name = cc_name c, ce_value = cc_value c, ce_op = (if cc_reset c then OP_DELETE else OP_SET)\<rparr>) changes"

text \<open>The entries \<open>describe_configs\<close> gets: name, value, and the number of the source.\<close>

definition DYNAMIC_TOPIC_CONFIG :: int where "DYNAMIC_TOPIC_CONFIG = 1"

definition describe_configs :: "(string \<times> string \<times> int) list \<Rightarrow> topic_configuration list" where
  "describe_configs entries =
     map (\<lambda>(name, val, source). \<lparr>tc_name = name, tc_value = val, tc_overridden = (source = DYNAMIC_TOPIC_CONFIG)\<rparr>) entries"

section \<open>Metadata\<close>

record partition_metadata =
  pm_id :: int
  pm_leader :: int
  pm_replicas :: "int list"
  pm_isrs :: "int list"

type_synonym topics = "(string, topic) pydict"

definition new_partition :: "string \<Rightarrow> partition_metadata \<Rightarrow> partition_info" where
  "new_partition name m =
     \<lparr>p_id = pm_id m, p_leader = pm_leader m, p_replicas = pm_replicas m, p_isrs = pm_isrs m,
      p_low = 0, p_high = 0, p_topic = name\<rparr>"

definition map_topics :: "(string \<times> partition_metadata list) list \<Rightarrow> topics" where
  "map_topics metadata =
     dict_of (map (\<lambda>(name, ps). (name,
       \<lparr>t_name = name, t_partitions = map (new_partition name) ps, t_groups = [],
        t_records_state = M_LOADING, t_groups_state = M_LOADING\<rparr>)) metadata)"

definition list_topics_metadata :: "(string \<times> partition_metadata list) list \<Rightarrow> (string \<times> partition_metadata list) list" where
  "list_topics_metadata metadata = sort_key (\<lambda>m. lower (fst m)) metadata"

definition topics_metadata :: "(string \<times> partition_metadata list) list \<Rightarrow> topics" where
  "topics_metadata metadata = map_topics (list_topics_metadata metadata)"

text \<open>A change of every topic.\<close>

definition map_topic_values :: "(topic \<Rightarrow> topic) \<Rightarrow> topics \<Rightarrow> topics" where
  "map_topic_values f ts = map (\<lambda>(k, t). (k, f t)) ts"

section \<open>Offsets\<close>

definition set_records_state :: "metric_state \<Rightarrow> topics \<Rightarrow> topics" where
  "set_records_state state =
     map_topic_values (\<lambda>t. if t_records_state t \<noteq> M_READY then t\<lparr>t_records_state := state\<rparr> else t)"

definition partition_keys :: "topics \<Rightarrow> position_key list" where
  "partition_keys ts = remdups (concat (map (\<lambda>(_, t). map (\<lambda>p. (t_name t, p_id p)) (t_partitions t)) ts))"

fun resolve_offsets :: "(position_key \<times> int res) list \<Rightarrow> ((position_key \<times> int) list \<times> exn list) res" where
  "resolve_offsets [] = Inr ([], [])"
| "resolve_offsets ((k, future) # futures) =
     (case future of
        Inr n \<Rightarrow> map_sum id (\<lambda>(ns, es). ((k, n) # ns, es)) (resolve_offsets futures)
      | Inl e \<Rightarrow>
          if admin_exception e then map_sum id (\<lambda>(ns, es). (ns, e # es)) (resolve_offsets futures) else Inl e)"

text \<open>A request may be refused before it is sent.\<close>

definition load_partition_offsets ::
  "(position_key \<times> int res) list res \<Rightarrow> (position_key \<times> int res) list res
     \<Rightarrow> ((position_key, int) pydict \<times> (position_key, int) pydict \<times> exn list) res" where
  "load_partition_offsets earliest_futures latest_futures =
     (case rbind earliest_futures (\<lambda>early. rbind latest_futures (\<lambda>late. Inr (early, late))) of
        Inl e \<Rightarrow> if admin_exception e then Inr ([], [], [e]) else Inl e
      | Inr (early, late) \<Rightarrow>
          rbind (resolve_offsets early) (\<lambda>(earliest, earliest_errors).
          rbind (resolve_offsets late) (\<lambda>(latest, latest_errors).
            Inr (dict_of earliest, dict_of latest, earliest_errors @ latest_errors))))"

definition offsets_missing :: "(position_key, int) pydict \<Rightarrow> (position_key, int) pydict \<Rightarrow> topic \<Rightarrow> bool" where
  "offsets_missing earliest latest t \<longleftrightarrow>
     list_ex (\<lambda>p. dget earliest (t_name t, p_id p) = None \<or> dget latest (t_name t, p_id p) = None) (t_partitions t)"

definition apply_topic_offsets ::
  "(position_key, int) pydict \<Rightarrow> (position_key, int) pydict \<Rightarrow> topic \<Rightarrow> topic" where
  "apply_topic_offsets earliest latest t =
     (if offsets_missing earliest latest t
      then (if t_records_state t \<noteq> M_READY then t\<lparr>t_records_state := M_UNAVAILABLE\<rparr> else t)
      else t\<lparr>t_partitions := map (\<lambda>p.
               (case (dget earliest (t_name t, p_id p), dget latest (t_name t, p_id p)) of
                  (Some low, Some high) \<Rightarrow> p\<lparr>p_low := low, p_high := high\<rparr>
                | _ \<Rightarrow> p)) (t_partitions t),
             t_records_state := M_READY\<rparr>)"

definition apply_partition_offsets ::
  "(position_key, int) pydict \<Rightarrow> (position_key, int) pydict \<Rightarrow> topics \<Rightarrow> topics" where
  "apply_partition_offsets earliest latest = map_topic_values (apply_topic_offsets earliest latest)"

definition enrich_offsets ::
  "(position_key list \<Rightarrow> offset_spec \<Rightarrow> (position_key \<times> int res) list res) \<Rightarrow> topics \<Rightarrow> (topics \<times> exn list) res" where
  "enrich_offsets ask ts =
     (let partitions = partition_keys ts in
      if partitions = [] then Inr (set_records_state M_READY ts, [])
      else rbind (load_partition_offsets (ask partitions SPEC_EARLIEST) (ask partitions SPEC_LATEST)) (\<lambda>(earliest, latest, errors).
             Inr (apply_partition_offsets earliest latest ts, errors)))"

section \<open>Loading groups\<close>

record member_description =
  md_id :: string
  md_client_id :: string
  md_host :: string
  md_instance_id :: "string option"
  md_assignment :: "(string \<times> int) list"

record group_description =
  gd_id :: string
  gd_assignor :: string
  gd_state :: string
  gd_coordinator :: "node option"
  gd_members :: "member_description list"

record group_snapshot =
  gs_descriptions :: "group_description list"
  gs_offsets :: "(string, topic_partition list) pydict"
  gs_errors :: "exn list"

definition offsets_for :: "group_snapshot \<Rightarrow> string \<Rightarrow> topic_partition list" where
  "offsets_for snapshot gid = dget_or (gs_offsets snapshot) gid []"

definition group_authorization_error :: "exn \<Rightarrow> bool" where
  "group_authorization_error e =
     (case e of KafkaException c _ \<Rightarrow> c = GROUP_AUTHORIZATION_FAILED | _ \<Rightarrow> False)"

definition unauthorized_group_ids :: "(string, exn) pydict list \<Rightarrow> string set" where
  "unauthorized_group_ids failures =
     set (concat (map (\<lambda>stage. map fst (filter (\<lambda>(_, e). group_authorization_error e) stage)) failures))"

definition group_errors :: "(string, exn) pydict \<Rightarrow> exn list" where
  "group_errors failures = map snd (filter (\<lambda>(_, e). \<not> group_authorization_error e) failures)"

definition list_group_ids :: "(string list \<times> exn list) res \<Rightarrow> (string list \<times> exn list) res" where
  "list_group_ids answer =
     (case answer of
        Inl e \<Rightarrow> if admin_exception e then Inr ([], [e]) else Inl e
      | Inr r \<Rightarrow> Inr r)"

text \<open>\<open>_resolve_future\<close>: a result and no error, or no result and an expected error.\<close>

definition resolve_future :: "'a res \<Rightarrow> ('a option \<times> exn option) res" where
  "resolve_future future =
     (case future of
        Inr x \<Rightarrow> Inr (Some x, None)
      | Inl e \<Rightarrow> if admin_exception e then Inr (None, Some e) else Inl e)"

fun load_group_descriptions ::
  "(string \<times> group_description res) list \<Rightarrow> (group_description list \<times> (string \<times> exn) list) res" where
  "load_group_descriptions [] = Inr ([], [])"
| "load_group_descriptions ((gid, future) # futures) =
     rbind (resolve_future future) (\<lambda>(description, err).
     rbind (load_group_descriptions futures) (\<lambda>(descriptions, failures).
       case err of
         Some e \<Rightarrow> Inr (descriptions, (gid, e) # failures)
       | None \<Rightarrow> (case description of Some d \<Rightarrow> Inr (d # descriptions, failures) | None \<Rightarrow> Inr (descriptions, failures))))"

definition first_partition_error :: "topic_partition list \<Rightarrow> exn option" where
  "first_partition_error tps =
     (case find (\<lambda>p. tp_error p \<noteq> None) tps of
        None \<Rightarrow> None
      | Some p \<Rightarrow> map_option kafka_exception (tp_error p))"

definition load_single_group_offsets :: "topic_partition list res \<Rightarrow> (topic_partition list \<times> exn option) res" where
  "load_single_group_offsets future =
     (case future of
        Inr tps \<Rightarrow> (let err = first_partition_error tps in Inr (if err \<noteq> None then [] else tps, err))
      | Inl e \<Rightarrow> if admin_exception e then Inr ([], Some e) else Inl e)"

fun load_group_offsets ::
  "(string \<Rightarrow> topic_partition list res) \<Rightarrow> string list \<Rightarrow> ((string \<times> topic_partition list) list \<times> (string \<times> exn) list) res" where
  "load_group_offsets ask [] = Inr ([], [])"
| "load_group_offsets ask (gid # gids) =
     rbind (load_single_group_offsets (ask gid)) (\<lambda>(tps, err).
     rbind (load_group_offsets ask gids) (\<lambda>(offsets, failures).
       case err of
         Some e \<Rightarrow> Inr (offsets, (gid, e) # failures)
       | None \<Rightarrow> Inr ((gid, tps) # offsets, failures)))"

definition load_groups ::
  "(string list \<times> exn list) res \<Rightarrow> (string list \<Rightarrow> (string \<times> group_description res) list res)
     \<Rightarrow> (string \<Rightarrow> topic_partition list res) \<Rightarrow> group_snapshot res" where
  "load_groups listing describe ask =
     rbind (list_group_ids listing) (\<lambda>(group_ids, list_errors).
       if group_ids = [] then Inr \<lparr>gs_descriptions = [], gs_offsets = [], gs_errors = list_errors\<rparr>
       else
         rbind (rbind (describe group_ids) load_group_descriptions) (\<lambda>(descriptions, description_failures).
         rbind (load_group_offsets ask group_ids) (\<lambda>(offsets, offset_failures).
           let hidden = unauthorized_group_ids [dict_of description_failures, dict_of offset_failures] in
           Inr \<lparr>gs_descriptions = filter (\<lambda>d. gd_id d \<notin> hidden) descriptions,
                gs_offsets = filter (\<lambda>(gid, _). gid \<notin> hidden) (dict_of offsets),
                gs_errors = list_errors @ group_errors (dict_of description_failures)
                  @ group_errors (dict_of offset_failures)\<rparr>)))"

section \<open>Mapping groups to topics\<close>

definition set_groups_unavailable :: "topics \<Rightarrow> topics" where
  "set_groups_unavailable =
     map_topic_values (\<lambda>t. if t_groups_state t \<noteq> M_READY then t\<lparr>t_groups_state := M_UNAVAILABLE\<rparr> else t)"

definition reset_groups :: "topics \<Rightarrow> topics" where
  "reset_groups =
     map_topic_values (\<lambda>t. t\<lparr>t_groups := [],
       t_groups_state := (if t_records_state t = M_READY then M_READY else M_UNAVAILABLE)\<rparr>)"

definition partitions_by_key :: "topics \<Rightarrow> (position_key, partition_info) pydict" where
  "partitions_by_key ts =
     dict_of (concat (map (\<lambda>(_, t). map (\<lambda>p. ((t_name t, p_id p), p)) (t_partitions t)) ts))"

fun committed_by_topic :: "topics \<Rightarrow> topic_partition list \<Rightarrow> (string, topic_partition list) pydict
    \<Rightarrow> (string, topic_partition list) pydict" where
  "committed_by_topic ts [] acc = acc"
| "committed_by_topic ts (c # cs) acc =
     (if tp_offset c = OFFSET_INVALID \<or> \<not> din (tp_topic c) ts then committed_by_topic ts cs acc
      else committed_by_topic ts cs (dput (tp_topic c) (dget_or acc (tp_topic c) [] @ [c]) acc))"

definition map_group_partitions ::
  "string \<Rightarrow> string \<Rightarrow> topic_partition list \<Rightarrow> (position_key, partition_info) pydict \<Rightarrow> group_partition list" where
  "map_group_partitions gid name committed partitions =
     concat (map (\<lambda>c. case dget partitions (name, tp_partition c) of
         None \<Rightarrow> []
       | Some p \<Rightarrow> [\<lparr>gp_id = tp_partition c, gp_topic = name, gp_group = gid, gp_offset = tp_offset c,
                    gp_low = p_low p, gp_high = p_high p\<rparr>]) committed)"

definition map_group_members :: "group_description \<Rightarrow> string \<Rightarrow> group_member list" where
  "map_group_members d name =
     concat (map (\<lambda>m.
       let assigned = map snd (filter (\<lambda>(topic, _). topic = name) (md_assignment m)) in
       if assigned = [] then []
       else [\<lparr>gm_id = md_id m, gm_client_id = md_client_id m, gm_group = gd_id d, gm_host = md_host m,
              gm_instance_id = md_instance_id m, gm_assignment = assigned\<rparr>]) (gd_members d))"

definition map_group ::
  "group_description \<Rightarrow> string \<Rightarrow> topic_partition list \<Rightarrow> (position_key, partition_info) pydict \<Rightarrow> group" where
  "map_group d name committed partitions =
     \<lparr>g_id = gd_id d, g_coordinator = gd_coordinator d, g_state = lower (gd_state d),
      g_partition_assignor = gd_assignor d, g_members = map_group_members d name,
      g_partitions = map_group_partitions (gd_id d) name committed partitions\<rparr>"

definition add_group :: "string \<Rightarrow> group \<Rightarrow> topics \<Rightarrow> topics" where
  "add_group name g ts =
     (if g_partitions g = [] then ts
      else (case dget ts name of None \<Rightarrow> ts | Some t \<Rightarrow> dput name (t\<lparr>t_groups := t_groups t @ [g]\<rparr>) ts))"

definition apply_description ::
  "group_snapshot \<Rightarrow> (position_key, partition_info) pydict \<Rightarrow> group_description \<Rightarrow> topics \<Rightarrow> topics" where
  "apply_description snapshot partitions d ts =
     fold (\<lambda>(name, committed) ts'. add_group name (map_group d name committed partitions) ts')
       (committed_by_topic ts (offsets_for snapshot (gd_id d)) []) ts"

definition apply_groups :: "group_snapshot \<Rightarrow> topics \<Rightarrow> topics \<times> exn list" where
  "apply_groups snapshot ts =
     (if gs_errors snapshot \<noteq> [] then (set_groups_unavailable ts, gs_errors snapshot)
      else
        (let partitions = partitions_by_key (reset_groups ts) in
         (fold (apply_description snapshot partitions) (gs_descriptions snapshot) (reset_groups ts), [])))"

section \<open>Lemmas\<close>

lemma dget_map_topic_values [simp]: "dget (map_topic_values f ts) n = map_option f (dget ts n)"
  by (induction ts) (auto simp: map_topic_values_def)

lemma dkeys_map_topic_values [simp]: "dkeys (map_topic_values f ts) = dkeys ts"
  by (induction ts) (auto simp: map_topic_values_def)

lemma apply_topic_offsets_partitions:
  assumes "\<not> offsets_missing earliest latest t"
  shows "t_partitions (apply_topic_offsets earliest latest t) =
    map (\<lambda>p. p\<lparr>p_low := the (dget earliest (t_name t, p_id p)), p_high := the (dget latest (t_name t, p_id p))\<rparr>) (t_partitions t)"
  using assms by (auto simp: apply_topic_offsets_def offsets_missing_def list_ex_iff)

lemma functional_dict_of:
  assumes "\<And>k v v'. (k, v) \<in> set kvs \<Longrightarrow> (k, v') \<in> set kvs \<Longrightarrow> v = v'"
  shows "(k, v) \<in> set (dict_of kvs) \<longleftrightarrow> (k, v) \<in> set kvs"
proof -
  have "(k, v) \<in> set (dict_of kvs) \<longleftrightarrow> map_of (rev kvs) k = Some v"
    by (simp add: map_of_eq_Some_iff[OF ddistinct_dict_of, symmetric] dget_dict_of)
  also have "\<dots> \<longleftrightarrow> (k, v) \<in> set kvs"
  proof
    show "map_of (rev kvs) k = Some v \<Longrightarrow> (k, v) \<in> set kvs" by (auto dest: map_of_SomeD)
    assume kv: "(k, v) \<in> set kvs"
    then obtain v' where "map_of (rev kvs) k = Some v'"
      by (metis domD domIff image_eqI map_of_eq_None_iff set_rev fst_conv not_Some_eq)
    with kv assms show "map_of (rev kvs) k = Some v" by (metis map_of_SomeD set_rev)
  qed
  finally show ?thesis .
qed

text \<open>What the request for a position answered for a partition.\<close>

definition answered ::
  "(position_key list \<Rightarrow> offset_spec \<Rightarrow> (position_key \<times> int res) list res) \<Rightarrow> topics \<Rightarrow> offset_spec \<Rightarrow> position_key \<Rightarrow> int \<Rightarrow> bool" where
  "answered ask ts spec key n \<longleftrightarrow> (\<exists>futures. ask (partition_keys ts) spec = Inr futures \<and> (key, Inr n) \<in> set futures)"

definition fully_answered ::
  "(position_key list \<Rightarrow> offset_spec \<Rightarrow> (position_key \<times> int res) list res) \<Rightarrow> topics \<Rightarrow> topic \<Rightarrow> bool" where
  "fully_answered ask ts t \<longleftrightarrow> (\<forall>p \<in> set (t_partitions t). \<forall>spec \<in> {SPEC_EARLIEST, SPEC_LATEST}.
     \<exists>n. answered ask ts spec (t_name t, p_id p) n)"

lemma resolve_offsets_set: "resolve_offsets futures = Inr (ns, es) \<Longrightarrow> (k, n) \<in> set ns \<longleftrightarrow> (k, Inr n) \<in> set futures"
proof (induction futures arbitrary: ns es)
  case (Cons f futures)
  then show ?case by (cases f; cases "snd f") (auto simp: map_sum_eq split: if_splits)
qed simp

lemma resolved_get:
  assumes "resolve_offsets futures = Inr (ns, es)" and "ddistinct futures"
  shows "dget (dict_of ns) k = Some n \<longleftrightarrow> (k, Inr n) \<in> set futures"
proof -
  have "(k, n) \<in> set (dict_of ns) \<longleftrightarrow> (k, n) \<in> set ns"
    using assms(2) by (intro functional_dict_of) (auto simp: resolve_offsets_set[OF assms(1)] dest: eq_key_imp_eq_value)
  then show ?thesis by (simp add: resolve_offsets_set[OF assms(1)] map_of_eq_Some_iff[OF ddistinct_dict_of])
qed

text \<open>What loading gives: each position that both requests have, or, when a request was refused, none.\<close>

lemma load_partition_offsets_get:
  assumes "load_partition_offsets (ask (partition_keys ts) SPEC_EARLIEST) (ask (partition_keys ts) SPEC_LATEST) = Inr (earliest, latest, errors)"
    and "\<forall>spec futures. ask (partition_keys ts) spec = Inr futures \<longrightarrow> ddistinct futures"
  shows "(\<forall>k n. dget earliest k = Some n \<longleftrightarrow> answered ask ts SPEC_EARLIEST k n) \<and> (\<forall>k n. dget latest k = Some n \<longleftrightarrow> answered ask ts SPEC_LATEST k n) \<or>
    earliest = [] \<and> latest = [] \<and> ((\<forall>k n. \<not> answered ask ts SPEC_EARLIEST k n) \<or> (\<forall>k n. \<not> answered ask ts SPEC_LATEST k n))"
proof (cases "ask (partition_keys ts) SPEC_EARLIEST")
  case (Inl e)
  then show ?thesis using assms(1) by (auto simp: load_partition_offsets_def answered_def split: if_splits)
next
  case early: (Inr early)
  show ?thesis
  proof (cases "ask (partition_keys ts) SPEC_LATEST")
    case (Inl e)
    then show ?thesis using assms(1) early by (auto simp: load_partition_offsets_def answered_def split: if_splits)
  next
    case (Inr late)
    then obtain ns es ns' es' where "resolve_offsets early = Inr (ns, es)" "resolve_offsets late = Inr (ns', es')"
      "earliest = dict_of ns" "latest = dict_of ns'"
      using assms(1) early by (auto simp: load_partition_offsets_def res_simps)
    then show ?thesis using early Inr assms(2)[rule_format, OF early] assms(2)[rule_format, OF Inr] by (simp add: answered_def resolved_get)
  qed
qed

text \<open>Committed offsets by topic.\<close>

abbreviation committed_for :: "string \<Rightarrow> topic_partition list \<Rightarrow> topic_partition list" where
  "committed_for n cs \<equiv> filter (\<lambda>c. tp_topic c = n \<and> tp_offset c \<noteq> OFFSET_INVALID) cs"

lemma committed_by_topic_get:
  "dget (committed_by_topic ts cs acc) n =
     (if din n ts \<and> committed_for n cs \<noteq> [] then Some (dget_or acc n [] @ committed_for n cs) else dget acc n)"
proof (induction ts cs acc rule: committed_by_topic.induct)
  case (2 ts c cs acc)
  then show ?case
    by (cases "tp_offset c = OFFSET_INVALID \<or> \<not> din (tp_topic c) ts")
      (auto simp: dict_simps dget_or_def split: option.splits)
qed simp

lemma committed_by_topic_distinct: "ddistinct acc \<Longrightarrow> ddistinct (committed_by_topic ts cs acc)"
  by (induction ts cs acc rule: committed_by_topic.induct) (auto simp: distinct_update)

lemma add_group_get:
  "dget (add_group m g ts) n =
     (if m = n \<and> g_partitions g \<noteq> [] then map_option (\<lambda>t. t\<lparr>t_groups := t_groups t @ [g]\<rparr>) (dget ts n) else dget ts n)"
  by (auto simp: add_group_def dict_simps split: option.splits)

lemma add_groups_get:
  assumes "ddistinct kvs"
  shows "dget (fold (\<lambda>(m, c). add_group m (G m c)) kvs ts) n =
    (case dget kvs n of
       None \<Rightarrow> dget ts n
     | Some c \<Rightarrow> map_option (\<lambda>t. t\<lparr>t_groups := t_groups t @ filter (\<lambda>g. g_partitions g \<noteq> []) [G n c]\<rparr>) (dget ts n))"
  using assms
proof (induction kvs arbitrary: ts)
  case (Cons p kvs)
  obtain m c where p: "p = (m, c)" by (cases p)
  have rest: "dget (fold (\<lambda>(m, c). add_group m (G m c)) kvs (add_group m (G m c) ts)) n =
      (case dget kvs n of
         None \<Rightarrow> dget (add_group m (G m c) ts) n
       | Some c' \<Rightarrow> map_option (\<lambda>t. t\<lparr>t_groups := t_groups t @ filter (\<lambda>g. g_partitions g \<noteq> []) [G n c']\<rparr>)
           (dget (add_group m (G m c) ts) n))"
    using Cons by simp
  have "m = n \<Longrightarrow> dget kvs n = None" using Cons.prems p by (simp add: map_of_eq_None_iff)
  then show ?case using rest by (auto simp: p add_group_get map_option_case split: option.splits)
qed simp

lemma map_group_none [simp]: "g_partitions (map_group d n [] parts) = []"
  by (simp add: map_group_def map_group_partitions_def)

lemma apply_description_get:
  "dget (apply_description snapshot parts d ts) n =
     map_option (\<lambda>t. t\<lparr>t_groups := t_groups t @
       filter (\<lambda>g. g_partitions g \<noteq> []) [map_group d n (committed_for n (offsets_for snapshot (gd_id d))) parts]\<rparr>) (dget ts n)"
proof -
  let ?cs = "committed_by_topic ts (offsets_for snapshot (gd_id d)) []"
  have "ddistinct ?cs" by (rule committed_by_topic_distinct) simp
  note get = add_groups_get[OF this, where G = "\<lambda>m c. map_group d m c parts" and ts = ts and n = n]
  show ?thesis
  proof (cases "dget ts n")
    case None
    then show ?thesis unfolding apply_description_def get by (auto split: option.splits)
  next
    case (Some t)
    then have "din n ts" by (simp add: dict_simps)
    then show ?thesis
      unfolding apply_description_def get by (auto simp: committed_by_topic_get dget_or_def Some)
  qed
qed

lemma apply_descriptions_get:
  "dget (fold (apply_description snapshot parts) ds ts) n =
     map_option (\<lambda>t. t\<lparr>t_groups := t_groups t @ filter (\<lambda>g. g_partitions g \<noteq> [])
       (map (\<lambda>d. map_group d n (committed_for n (offsets_for snapshot (gd_id d))) parts) ds)\<rparr>) (dget ts n)"
proof (induction ds arbitrary: ts)
  case Nil
  then show ?case by (cases "dget ts n") auto
next
  case (Cons d ds)
  have "dget (fold (apply_description snapshot parts) (d # ds) ts) n =
      map_option (\<lambda>t. t\<lparr>t_groups := t_groups t @ filter (\<lambda>g. g_partitions g \<noteq> [])
       (map (\<lambda>d. map_group d n (committed_for n (offsets_for snapshot (gd_id d))) parts) ds)\<rparr>) (dget (apply_description snapshot parts d ts) n)"
    using Cons.IH by simp
  then show ?case unfolding apply_description_get by (cases "dget ts n") simp_all
qed

subsection \<open>What a topic's groups should be\<close>

text \<open>The committed offsets of a group in a topic's own partitions; and when a group of the topic shows a description: its
  data, one partition for each committed offset, with the positions of the topic's partition, and the members
  assigned to the topic, with their partitions of it.\<close>

definition committed_in :: "topic \<Rightarrow> group_snapshot \<Rightarrow> string \<Rightarrow> topic_partition list" where
  "committed_in t snapshot gid =
     filter (\<lambda>c. tp_topic c = t_name t \<and> tp_offset c \<noteq> OFFSET_INVALID \<and> tp_partition c \<in> p_id ` set (t_partitions t))
       (offsets_for snapshot gid)"

definition shows_partition :: "topic \<Rightarrow> string \<Rightarrow> topic_partition \<Rightarrow> group_partition \<Rightarrow> bool" where
  "shows_partition t gid c p \<longleftrightarrow>
     gp_id p = tp_partition c \<and> gp_offset p = tp_offset c \<and> gp_topic p = t_name t \<and> gp_group p = gid \<and>
     (\<exists>q \<in> set (t_partitions t). p_id q = tp_partition c \<and> gp_low p = p_low q \<and> gp_high p = p_high q)"

definition shows_member :: "topic \<Rightarrow> string \<Rightarrow> member_description \<Rightarrow> group_member \<Rightarrow> bool" where
  "shows_member t gid m shown \<longleftrightarrow>
     gm_id shown = md_id m \<and> gm_client_id shown = md_client_id m \<and> gm_host shown = md_host m \<and>
     gm_instance_id shown = md_instance_id m \<and> gm_group shown = gid \<and>
     gm_assignment shown = [p. (name, p) \<leftarrow> md_assignment m, name = t_name t]"

definition shows_group :: "topic \<Rightarrow> group_snapshot \<Rightarrow> group_description \<Rightarrow> group \<Rightarrow> bool" where
  "shows_group t snapshot d g \<longleftrightarrow>
     g_id g = gd_id d \<and> g_coordinator g = gd_coordinator d \<and> g_state g = lower (gd_state d) \<and>
     g_partition_assignor g = gd_assignor d \<and>
     list_all2 (shows_partition t (gd_id d)) (committed_in t snapshot (gd_id d)) (g_partitions g) \<and>
     list_all2 (shows_member t (gd_id d)) (filter (\<lambda>m. t_name t \<in> fst ` set (md_assignment m)) (gd_members d)) (g_members g)"

text \<open>Topics as the metadata request builds them: named by their keys, with each partition once.\<close>

definition well_formed :: "topics \<Rightarrow> bool" where
  "well_formed ts \<longleftrightarrow> ddistinct ts \<and> list_all (\<lambda>(k, t). t_name t = k \<and> distinct (map p_id (t_partitions t))) ts"

lemma partitions_by_key_get:
  assumes "well_formed ts" and "dget ts n = Some t"
  shows "dget (partitions_by_key ts) (n, i) = Some p \<longleftrightarrow> p \<in> set (t_partitions t) \<and> p_id p = i"
proof -
  let ?kvs = "concat (map (\<lambda>(_, t). map (\<lambda>p. ((t_name t, p_id p), p)) (t_partitions t)) ts)"
  have member: "((k, j), q) \<in> set ?kvs \<longleftrightarrow> (\<exists>u. dget ts k = Some u \<and> q \<in> set (t_partitions u) \<and> p_id q = j)" for k j q
    using assms(1) unfolding well_formed_def list_all_iff
    by (fastforce simp: map_of_eq_Some_iff)
  have "v = v'" if "(k, v) \<in> set ?kvs" "(k, v') \<in> set ?kvs" for k v v'
  proof -
    obtain name j where k: "k = (name, j)" by (cases k)
    with that member obtain u where u: "dget ts name = Some u" "v \<in> set (t_partitions u)" "v' \<in> set (t_partitions u)" "p_id v = p_id v'"
      by auto
    have "distinct (map p_id (t_partitions u))" using assms(1) map_of_SomeD[OF u(1)] by (auto simp: well_formed_def list_all_iff)
    with u show ?thesis by (auto simp: distinct_map dest: inj_onD)
  qed
  then have "((n, i), p) \<in> set (dict_of ?kvs) \<longleftrightarrow> ((n, i), p) \<in> set ?kvs" by (rule functional_dict_of)
  then show ?thesis using member assms(2) by (simp add: partitions_by_key_def map_of_eq_Some_iff[OF ddistinct_dict_of])
qed

lemma list_all2_concat_map:
  assumes "\<And>x. x \<in> set xs \<Longrightarrow> (if P x then \<exists>y. f x = [y] \<and> R x y else f x = [])"
  shows "list_all2 R (filter P xs) (concat (map f xs))"
  using assms
proof (induction xs)
  case (Cons x xs)
  from Cons.prems[of x] have "if P x then \<exists>y. f x = [y] \<and> R x y else f x = []" by simp
  moreover have "list_all2 R (filter P xs) (concat (map f xs))" using Cons by simp
  ultimately show ?case by (cases "P x") auto
qed simp

lemma map_group_partitions_shows:
  assumes "well_formed ts" and "dget ts n = Some t"
  shows "list_all2 (shows_partition t gid) (committed_in t snapshot gid')
    (map_group_partitions gid n (committed_for n (offsets_for snapshot gid')) (partitions_by_key ts))"
proof -
  have name: "t_name t = n" using assms map_of_SomeD[OF assms(2)] by (auto simp: well_formed_def list_all_iff)
  have split: "committed_in t snapshot gid' =
      filter (\<lambda>c. tp_partition c \<in> p_id ` set (t_partitions t)) (committed_for n (offsets_for snapshot gid'))"
    by (simp add: committed_in_def name conj_ac)
  show ?thesis unfolding split map_group_partitions_def
  proof (rule list_all2_concat_map, goal_cases)
    case (1 c)
    show ?case
    proof (cases "dget (partitions_by_key ts) (n, tp_partition c)")
      case None
      then have "tp_partition c \<notin> p_id ` set (t_partitions t)"
        using partitions_by_key_get[OF assms, of "tp_partition c"] by (metis imageE option.distinct(1))
      then show ?thesis using None by simp
    next
      case (Some q)
      then have "q \<in> set (t_partitions t)" "p_id q = tp_partition c"
        using partitions_by_key_get[OF assms, of "tp_partition c" q] by auto
      then show ?thesis using Some by (force simp: shows_partition_def name)
    qed
  qed
qed

lemma map_group_members_shows:
  "list_all2 (shows_member t (gd_id d)) (filter (\<lambda>m. t_name t \<in> fst ` set (md_assignment m)) (gd_members d))
     (map_group_members d (t_name t))"
  unfolding map_group_members_def
proof (rule list_all2_concat_map, goal_cases)
  case (1 m)
  have assigned: "map snd (filter (\<lambda>(topic, _). topic = t_name t) as) = [p. (name, p) \<leftarrow> as, name = t_name t]" for as :: "(string \<times> int) list"
    by (induction as) auto
  have none: "[p. (name, p) \<leftarrow> as, name = t_name t] = [] \<longleftrightarrow> t_name t \<notin> fst ` set as" for as :: "(string \<times> int) list"
    by (induction as) auto
  show ?case unfolding assigned Let_def using none[of "md_assignment m"]
    by (cases "t_name t \<in> fst ` set (md_assignment m)") (simp_all add: shows_member_def del: concat_eq_Nil_conv)
qed

lemma map_group_shows:
  assumes "well_formed ts" and "dget ts n = Some t"
  shows "shows_group t snapshot d (map_group d n (committed_for n (offsets_for snapshot (gd_id d))) (partitions_by_key ts)) \<and>
    (g_partitions (map_group d n (committed_for n (offsets_for snapshot (gd_id d))) (partitions_by_key ts)) = [] \<longleftrightarrow>
     committed_in t snapshot (gd_id d) = [])"
proof -
  have name: "t_name t = n" using assms map_of_SomeD[OF assms(2)] by (auto simp: well_formed_def list_all_iff)
  note partitions = map_group_partitions_shows[OF assms, of "gd_id d" snapshot "gd_id d"]
  then show ?thesis using list_all2_lengthD[OF partitions] map_group_members_shows[of t d]
    by (auto simp: shows_group_def map_group_def name)
qed

section \<open>Properties\<close>

definition sample_topics :: topics where
  "sample_topics = topics_metadata
     [(''orders'', [\<lparr>pm_id = 0, pm_leader = 1, pm_replicas = [1], pm_isrs = [1]\<rparr>, \<lparr>pm_id = 1, pm_leader = 1, pm_replicas = [1], pm_isrs = [1]\<rparr>]),
      (''Audit'', [\<lparr>pm_id = 0, pm_leader = 1, pm_replicas = [1], pm_isrs = [1]\<rparr>])]"

definition sample_ask :: "position_key list \<Rightarrow> offset_spec \<Rightarrow> (position_key \<times> int res) list res" where
  "sample_ask keys spec = Inr (map (\<lambda>k. (k, if k = (''Audit'', 0) \<and> spec = SPEC_LATEST
     then Inl (KafkaException 7 ''late'') else Inr (if spec = SPEC_LATEST then 9 else 2))) keys)"

text \<open>C12: offsets are applied all or nothing, and are the broker's: when both requests, for the earliest and for the
  latest positions, answered for every partition of a topic, each partition gets exactly its two answers and the topic is
  ready; otherwise all its counts stay as they were, and the topic is unavailable unless it was ready before.
  Partitions, groups and topics stay what they were. (The client answers at most once for each partition asked.)\<close>

theorem offsets_all_or_nothing:
  assumes "enrich_offsets ask ts = Inr (ts', errors)" and "dget ts n = Some t"
    and "\<forall>spec futures. ask (partition_keys ts) spec = Inr futures \<longrightarrow> ddistinct futures"
  shows "\<exists>t'. dget ts' n = Some t' \<and> dkeys ts' = dkeys ts \<and> t_groups t' = t_groups t \<and>
    (if fully_answered ask ts t
     then t_records_state t' = M_READY \<and>
       list_all2 (\<lambda>p p'. \<exists>low high. answered ask ts SPEC_EARLIEST (t_name t, p_id p) low \<and>
          answered ask ts SPEC_LATEST (t_name t, p_id p) high \<and> p' = p\<lparr>p_low := low, p_high := high\<rparr>)
         (t_partitions t) (t_partitions t')
     else t_partitions t' = t_partitions t \<and>
       t_records_state t' = (if t_records_state t = M_READY then M_READY else M_UNAVAILABLE))"
proof (cases "partition_keys ts = []")
  case True
  then have "t_partitions t = []"
    using map_of_SomeD[OF assms(2)] by (auto simp: partition_keys_def)
  then show ?thesis using assms(1,2) True by (auto simp: enrich_offsets_def set_records_state_def fully_answered_def)
next
  case False
  then obtain earliest latest where load: "load_partition_offsets (ask (partition_keys ts) SPEC_EARLIEST) (ask (partition_keys ts) SPEC_LATEST) = Inr (earliest, latest, errors)"
    and ts': "ts' = apply_partition_offsets earliest latest ts"
    using assms(1) by (auto simp: enrich_offsets_def Let_def res_simps)
  let ?t' = "apply_topic_offsets earliest latest t"
  have get: "dget ts' n = Some ?t'" "dkeys ts' = dkeys ts" "t_groups ?t' = t_groups t"
    using assms(2) by (simp_all add: ts' apply_partition_offsets_def apply_topic_offsets_def)
  note answers = load_partition_offsets_get[of ask ts earliest latest errors, OF load assms(3)]
  have complete: "fully_answered ask ts t \<longleftrightarrow> \<not> offsets_missing earliest latest t"
    using answers by (auto simp: offsets_missing_def list_ex_iff fully_answered_def)
  show ?thesis
  proof (cases "offsets_missing earliest latest t")
    case True
    then show ?thesis using get complete by (intro exI[of _ ?t']) (simp add: apply_topic_offsets_def)
  next
    case ok: False
    have "list_all2 (\<lambda>p p'. \<exists>low high. answered ask ts SPEC_EARLIEST (t_name t, p_id p) low \<and>
          answered ask ts SPEC_LATEST (t_name t, p_id p) high \<and> p' = p\<lparr>p_low := low, p_high := high\<rparr>) (t_partitions t) (t_partitions ?t')"
    proof -
      have "\<exists>low high. dget earliest (t_name t, p_id p) = Some low \<and> dget latest (t_name t, p_id p) = Some high \<and>
          answered ask ts SPEC_EARLIEST (t_name t, p_id p) low \<and> answered ask ts SPEC_LATEST (t_name t, p_id p) high"
        if "p \<in> set (t_partitions t)" for p
        using that ok answers by (auto simp: offsets_missing_def list_ex_iff) blast
      then show ?thesis unfolding apply_topic_offsets_partitions[OF ok] list_all2_map2
        by (intro list.rel_refl_strong) fastforce
    qed
    moreover have "t_records_state ?t' = M_READY" using ok by (simp add: apply_topic_offsets_def)
    ultimately show ?thesis using get ok complete by (intro exI[of _ ?t']) simp
  qed
qed

theorem offsets_all_or_nothing_witness:
  "\<exists>ts' t'. enrich_offsets sample_ask sample_topics = Inr (ts', [KafkaException 7 ''late'']) \<and>
     dget ts' ''orders'' = Some t' \<and> t_records_state t' = M_READY \<and>
     (\<forall>p \<in> set (t_partitions t'). p_low p = 2 \<and> p_high p = 9)"
proof -
  have s: "map_sum id snd (enrich_offsets sample_ask sample_topics) = Inr [KafkaException 7 ''late'']" by code_simp
  then obtain ts' where e: "enrich_offsets sample_ask sample_topics = Inr (ts', [KafkaException 7 ''late''])"
    by (auto simp: map_sum_eq)
  have "map_option (\<lambda>t. (t_name t, map p_id (t_partitions t))) (dget sample_topics ''orders'') = Some (''orders'', [0, 1])" by code_simp
  then obtain t where t: "dget sample_topics ''orders'' = Some t" "t_name t = ''orders''" "map p_id (t_partitions t) = [0, 1]" by auto
  have distinct_keys: "\<forall>spec futures. sample_ask (partition_keys sample_topics) spec = Inr futures \<longrightarrow> ddistinct futures"
    by (auto simp: sample_ask_def partition_keys_def o_def)
  have keys: "partition_keys sample_topics = [(''Audit'', 0), (''orders'', 0), (''orders'', 1)]" by code_simp
  have a: "answered sample_ask sample_topics SPEC_EARLIEST (''orders'', i) n \<longleftrightarrow> i \<in> {0, 1} \<and> n = 2"
    "answered sample_ask sample_topics SPEC_LATEST (''orders'', i) n \<longleftrightarrow> i \<in> {0, 1} \<and> n = 9" for i n
    by (auto simp: answered_def sample_ask_def keys)
  have ids: "p_id p \<in> {0, 1}" if "p \<in> set (t_partitions t)" for p
    using arg_cong[OF t(3), of set] that by auto
  have "fully_answered sample_ask sample_topics t" using ids by (auto simp: fully_answered_def t(2) a)
  with offsets_all_or_nothing[OF e t(1) distinct_keys] obtain t' where t': "dget ts' ''orders'' = Some t'" "t_records_state t' = M_READY"
    "list_all2 (\<lambda>p p'. (p_id p = 0 \<or> p_id p = 1) \<and> p' = p\<lparr>p_low := 2, p_high := 9\<rparr>) (t_partitions t) (t_partitions t')"
    by (auto simp: t(2) a)
  from t'(3) have "\<forall>p \<in> set (t_partitions t'). p_low p = 2 \<and> p_high p = 9"
    by (auto simp: list_all2_conv_all_nth in_set_conv_nth)
  with e t' show ?thesis by blast
qed

definition sample_snapshot :: group_snapshot where
  "sample_snapshot =
     \<lparr>gs_descriptions = [\<lparr>gd_id = ''billing'', gd_assignor = ''range'', gd_state = ''STABLE'', gd_coordinator = None, gd_members = []\<rparr>],
      gs_offsets = [(''billing'', [\<lparr>tp_topic = ''orders'', tp_partition = 1, tp_offset = 4, tp_error = None\<rparr>,
        \<lparr>tp_topic = ''orders'', tp_partition = 0, tp_offset = OFFSET_INVALID, tp_error = None\<rparr>])],
      gs_errors = []\<rparr>"

text \<open>C4: mapping groups to topics refines its specification. A snapshot with errors leaves every topic's
  groups and ready states alone; without errors the groups of a topic are, in the order of the
  descriptions, exactly those with a committed offset in one of its partitions, each showing its description, those
  offsets with the positions of the topic's partitions, and the members assigned to the topic; and the group data is ready when
  the offsets are. (The topics are named by their keys and list each partition once, as the metadata request makes them.)\<close>

theorem groups_refine_snapshot:
  assumes "well_formed ts" and "dget ts n = Some t"
  shows "\<exists>t'. dget (fst (apply_groups snapshot ts)) n = Some t' \<and>
    t_partitions t' = t_partitions t \<and> t_records_state t' = t_records_state t \<and>
    (if gs_errors snapshot = []
     then list_all2 (shows_group t snapshot)
            (filter (\<lambda>d. committed_in t snapshot (gd_id d) \<noteq> []) (gs_descriptions snapshot)) (t_groups t') \<and>
          t_groups_state t' = (if t_records_state t = M_READY then M_READY else M_UNAVAILABLE)
     else t_groups t' = t_groups t \<and> t_groups_state t' = (if t_groups_state t = M_READY then M_READY else M_UNAVAILABLE))"
proof (cases "gs_errors snapshot = []")
  case True
  have keys: "partitions_by_key (reset_groups ts) = partitions_by_key ts"
    by (simp add: partitions_by_key_def reset_groups_def map_topic_values_def comp_def case_prod_unfold)
  let ?map = "\<lambda>d. map_group d n (committed_for n (offsets_for snapshot (gd_id d))) (partitions_by_key ts)"
  have "list_all2 (shows_group t snapshot) (filter (\<lambda>d. committed_in t snapshot (gd_id d) \<noteq> []) ds)
      (filter (\<lambda>g. g_partitions g \<noteq> []) (map ?map ds))" for ds
    using map_group_shows[OF assms, of snapshot] by (induction ds) auto
  then show ?thesis
    using assms(2) True keys by (simp add: apply_groups_def Let_def apply_descriptions_get reset_groups_def)
next
  case False
  then show ?thesis using assms(2) by (simp add: apply_groups_def set_groups_unavailable_def)
qed

theorem groups_refine_snapshot_witness:
  "\<exists>t'. dget (fst (apply_groups sample_snapshot sample_topics)) ''orders'' = Some t' \<and>
     map g_id (t_groups t') = [''billing''] \<and> t_groups_state t' = M_UNAVAILABLE"
proof -
  have w: "well_formed sample_topics" by code_simp
  have s: "map_option t_records_state (dget sample_topics ''orders'') = Some M_LOADING" by code_simp
  then obtain t where t: "dget sample_topics ''orders'' = Some t" "t_records_state t = M_LOADING" by auto
  have "map_option (\<lambda>t. map (\<lambda>d. (gd_id d, committed_in t sample_snapshot (gd_id d) = [])) (gs_descriptions sample_snapshot)) (dget sample_topics ''orders'')
      = Some [(''billing'', False)]" by code_simp
  then obtain d where d: "gs_descriptions sample_snapshot = [d]" "gd_id d = ''billing''" "committed_in t sample_snapshot ''billing'' \<noteq> []"
    using t by auto
  have "gs_errors sample_snapshot = []" by (simp add: sample_snapshot_def)
  with groups_refine_snapshot[OF w t(1), of sample_snapshot] t(2) d show ?thesis
    by (auto simp: list_all2_Cons1 shows_group_def)
qed

subsection \<open>Groups one may not see\<close>

text \<open>A group is denied when its description or its offsets fail for lack of authorization.\<close>

definition denied :: "(string \<times> group_description res) list \<Rightarrow> (string \<Rightarrow> topic_partition list res) \<Rightarrow> string list \<Rightarrow> string \<Rightarrow> bool" where
  "denied futures ask gids gid \<longleftrightarrow>
     list_ex (\<lambda>(g, future). g = gid \<and> (case future of Inl e \<Rightarrow> group_authorization_error e | Inr _ \<Rightarrow> False)) futures \<or>
     gid \<in> set gids \<and> (case load_single_group_offsets (ask gid) of
       Inr (_, Some e) \<Rightarrow> group_authorization_error e | _ \<Rightarrow> False)"

lemma description_failures:
  assumes "load_group_descriptions futures = Inr (ds, fails)"
  shows "(gid, e) \<in> set fails \<longleftrightarrow> (gid, Inl e) \<in> set futures"
    and "dkeys fails = map fst (filter (\<lambda>(_, f). isl f) futures)"
  using assms
  by (induction futures arbitrary: ds fails)
    (auto simp: res_simps resolve_future_def split: sum.splits if_splits option.splits)

lemma offset_failures:
  assumes "load_group_offsets ask gids = Inr (offsets, fails)"
  shows "(gid, e) \<in> set fails \<longleftrightarrow> gid \<in> set gids \<and> (\<exists>tps. load_single_group_offsets (ask gid) = Inr (tps, Some e))"
    and "(gid, tps) \<in> set offsets \<longleftrightarrow> gid \<in> set gids \<and> load_single_group_offsets (ask gid) = Inr (tps, None)"
  using assms
  by (induction gids arbitrary: offsets fails) (auto simp: res_simps split: option.splits)

lemma unauthorized_group_ids_iff:
  "gid \<in> unauthorized_group_ids [a, b] \<longleftrightarrow>
     (\<exists>e. ((gid, e) \<in> set a \<or> (gid, e) \<in> set b) \<and> group_authorization_error e)"
  by (force simp: unauthorized_group_ids_def)

lemma denied_iff:
  "denied futures ask gids gid \<longleftrightarrow>
     (\<exists>e. (gid, Inl e) \<in> set futures \<and> group_authorization_error e) \<or>
     (\<exists>tps e. gid \<in> set gids \<and> load_single_group_offsets (ask gid) = Inr (tps, Some e) \<and> group_authorization_error e)"
proof -
  have "(list_ex (\<lambda>(g, future). g = gid \<and> (case future of Inl e \<Rightarrow> group_authorization_error e | Inr _ \<Rightarrow> False)) futures) \<longleftrightarrow>
      (\<exists>e. (gid, Inl e) \<in> set futures \<and> group_authorization_error e)"
  proof (induction futures)
    case (Cons p ps)
    then show ?case by (cases p; cases "snd p") auto
  qed simp
  moreover have "(case r of Inr (_, Some e) \<Rightarrow> group_authorization_error e | _ \<Rightarrow> False) \<longleftrightarrow>
      (\<exists>tps e. r = Inr (tps, Some e) \<and> group_authorization_error e)" for r :: "(topic_partition list \<times> exn option) res"
    by (cases r) (auto split: prod.splits option.splits)
  ultimately show ?thesis by (simp only: denied_def) blast
qed

lemma hidden_iff_denied:
  assumes "load_group_descriptions futures = Inr (ds, dfails)" and "load_group_offsets ask gids = Inr (offsets, ofails)"
    and "ddistinct futures"
  shows "gid \<in> unauthorized_group_ids [dict_of dfails, dict_of ofails] \<longleftrightarrow> denied futures ask gids gid"
proof -
  note d = description_failures[OF assms(1)] and f = offset_failures[OF assms(2)]
  have "(g, e) \<in> set (dict_of dfails) \<longleftrightarrow> (g, Inl e) \<in> set futures" for g e
    using functional_dict_of[of dfails g e] d(1) assms(3) by (auto dest: eq_key_imp_eq_value)
  moreover have "(g, e) \<in> set (dict_of ofails) \<longleftrightarrow> (g, e) \<in> set ofails" for g e
    by (rule functional_dict_of) (auto simp: f)
  ultimately show ?thesis
    unfolding unauthorized_group_ids_iff denied_iff f by blast
qed

lemma load_groups_Inr:
  assumes "load_groups (Inr (gids, list_errors)) describe ask = Inr s" and "gids \<noteq> []" and "describe gids = Inr futures"
  obtains ds dfails offsets ofails where "load_group_descriptions futures = Inr (ds, dfails)"
    "load_group_offsets ask gids = Inr (offsets, ofails)"
    "s = \<lparr>gs_descriptions = filter (\<lambda>d. gd_id d \<notin> unauthorized_group_ids [dict_of dfails, dict_of ofails]) ds,
        gs_offsets = filter (\<lambda>(gid, _). gid \<notin> unauthorized_group_ids [dict_of dfails, dict_of ofails]) (dict_of offsets),
        gs_errors = list_errors @ group_errors (dict_of dfails) @ group_errors (dict_of ofails)\<rparr>"
  using assms by (fastforce simp: load_groups_def list_group_ids_def Let_def res_simps)

text \<open>C35: a group one may not see is hidden, not failed: no denied group is described or has offsets in the
  snapshot, the other groups keep the offsets that were loaded, and an authorization failure of
  one group is never among the errors of the snapshot.\<close>

theorem denied_groups_hidden:
  assumes "load_groups (Inr (gids, list_errors)) describe ask = Inr s" and "gids \<noteq> []"
    and "describe gids = Inr futures" and "ddistinct futures"
  shows "(\<forall>d \<in> set (gs_descriptions s). \<not> denied futures ask gids (gd_id d)) \<and>
    (\<forall>gid tps. dget (gs_offsets s) gid = Some tps \<longleftrightarrow>
       gid \<in> set gids \<and> \<not> denied futures ask gids gid \<and> load_single_group_offsets (ask gid) = Inr (tps, None)) \<and>
    (\<forall>e \<in> set (gs_errors s). e \<in> set list_errors \<or> \<not> group_authorization_error e)"
proof -
  obtain ds dfails offsets ofails where l: "load_group_descriptions futures = Inr (ds, dfails)"
    "load_group_offsets ask gids = Inr (offsets, ofails)"
    and s: "s = \<lparr>gs_descriptions = filter (\<lambda>d. gd_id d \<notin> unauthorized_group_ids [dict_of dfails, dict_of ofails]) ds,
        gs_offsets = filter (\<lambda>(gid, _). gid \<notin> unauthorized_group_ids [dict_of dfails, dict_of ofails]) (dict_of offsets),
        gs_errors = list_errors @ group_errors (dict_of dfails) @ group_errors (dict_of ofails)\<rparr>"
    using load_groups_Inr[OF assms(1,2,3)] by metis
  note hidden = hidden_iff_denied[OF l assms(4)]
  have off: "(g, tps) \<in> set (dict_of offsets) \<longleftrightarrow> g \<in> set gids \<and> load_single_group_offsets (ask g) = Inr (tps, None)" for g tps
    using functional_dict_of[of offsets g tps] offset_failures(2)[OF l(2)] by auto
  have "ddistinct (gs_offsets s)"
    using s ddistinct_dict_of[of offsets] by (auto simp: distinct_map_filter)
  then have "dget (gs_offsets s) gid = Some tps \<longleftrightarrow> (gid, tps) \<in> set (gs_offsets s)" for gid tps
    by (rule map_of_eq_Some_iff)
  then show ?thesis using s off hidden by (auto simp: group_errors_def)
qed

definition sample_describe :: "string list \<Rightarrow> (string \<times> group_description res) list res" where
  "sample_describe gids = Inr (map (\<lambda>g. (g, if g = ''secret'' then Inl (KafkaException 30 ''denied'')
     else Inr \<lparr>gd_id = g, gd_assignor = [], gd_state = ''STABLE'', gd_coordinator = None, gd_members = []\<rparr>)) gids)"

theorem denied_groups_hidden_witness:
  "\<exists>s. load_groups (Inr ([''billing'', ''secret''], [])) sample_describe (\<lambda>_. Inr []) = Inr s \<and>
     map gd_id (gs_descriptions s) = [''billing''] \<and> dget (gs_offsets s) ''billing'' = Some [] \<and>
     dget (gs_offsets s) ''secret'' = None \<and> gs_errors s = []"
proof -
  let ?gids = "[''billing'', ''secret'']"
  have "map_sum id (\<lambda>s. (map gd_id (gs_descriptions s), gs_errors s))
      (load_groups (Inr (?gids, [])) sample_describe (\<lambda>_. Inr [])) = Inr ([''billing''], [])" by code_simp
  then obtain s where s: "load_groups (Inr (?gids, [])) sample_describe (\<lambda>_. Inr []) = Inr s"
    "map gd_id (gs_descriptions s) = [''billing'']" "gs_errors s = []" by (auto simp: map_sum_eq)
  obtain futures where f: "sample_describe ?gids = Inr futures" by (simp add: sample_describe_def)
  have c: "map_sum id (\<lambda>futures. (dkeys futures, denied futures (\<lambda>_. Inr []) ?gids ''secret'',
      denied futures (\<lambda>_. Inr []) ?gids ''billing'')) (sample_describe ?gids) = Inr (?gids, True, False)" by code_simp
  then have k: "ddistinct futures" and d: "denied futures (\<lambda>_. Inr []) ?gids ''secret''"
    "\<not> denied futures (\<lambda>_. Inr []) ?gids ''billing''" by (simp_all add: f)
  have "?gids \<noteq> []" by simp
  note h = denied_groups_hidden[OF s(1) this f k]
  have "dget (gs_offsets s) ''secret'' = None"
    using h d(1) by (metis not_None_eq)
  moreover have "dget (gs_offsets s) ''billing'' = Some []"
    using h d(2) by (auto simp: load_single_group_offsets_def first_partition_error_def Let_def)
  ultimately show ?thesis using s by (intro exI[of _ s] conjI)
qed

end
