(* ===== verification/Topic_List.thy ===== *)
theory Topic_List
  imports Topic_Service Refresh
begin

text \<open>
  The admin topic list (\<open>ListTopics\<close> of \<open>admin/topics.py\<close>): the rows of its table, the selection, the
  refresh that runs in three stages over the \<open>TopicService\<close> (theory \<open>Topic_Service\<close>) under the
  \<open>RefreshCoordinator\<close> (theory \<open>Refresh\<close>), and the mutations (create, edit, delete, reset) whose end
  schedules a refresh.

  One event of the event loop is one function on the record \<open>topic_list\<close>. What a stage's request gives
  is an argument of its event. \<open>tl_stage\<close> is where the refresh worker waits, \<open>tl_mutations\<close> counts the
  mutation workers that have not ended, and \<open>tl_scheduled\<close> holds the refreshes a timer or
  \<open>call_after_refresh\<close> will request. \<open>current_topic\<close> is an object of \<open>topics\<close>: it is represented by its
  name. Screens are outside the model: what they return is an argument. The list is attached to its
  application throughout; the rows, the cursor and \<open>clear\<close> (which moves the cursor to the first row)
  are Textual's table as its documentation describes it.
\<close>

section \<open>State\<close>

datatype refresh_stage = NoRefresh | AwaitMetadata int | AwaitOffsets int | AwaitGroups int "(string \<times> nat) list"

datatype notice = ErrorNotice string exn | WarningNotice string string | InfoNotice string string

record topic_list =
  tl_coordinator :: coordinator
  tl_topics :: topics
  tl_current :: "string option"
  tl_filter :: "string option"
  tl_read_only :: bool
  tl_updated :: bool
  tl_rows :: "string list"
  tl_cursor :: nat
  tl_stage :: refresh_stage
  tl_mutations :: nat
  tl_scheduled :: "refresh_reason list"
  tl_notices :: "notice list"

definition topic_list_new :: "bool \<Rightarrow> topic_list" where
  "topic_list_new read_only =
     \<lparr>tl_coordinator = coordinator_new, tl_topics = [], tl_current = None, tl_filter = None, tl_read_only = read_only,
      tl_updated = False, tl_rows = [], tl_cursor = 0, tl_stage = NoRefresh, tl_mutations = 0, tl_scheduled = [],
      tl_notices = []\<rparr>"

definition notify :: "notice \<Rightarrow> topic_list \<Rightarrow> topic_list" where
  "notify n s = s\<lparr>tl_notices := tl_notices s @ [n]\<rparr>"

section \<open>The table\<close>

definition visible_topics :: "topic_list \<Rightarrow> topic list" where
  "visible_topics s = filter (\<lambda>t. case tl_filter s of None \<Rightarrow> True | Some f \<Rightarrow> contains f (t_name t)) (map snd (tl_topics s))"

fun index_of :: "'a \<Rightarrow> 'a list \<Rightarrow> nat" where
  "index_of x [] = 0"
| "index_of x (y # ys) = (if x = y then 0 else Suc (index_of x ys))"

definition render_topic_rows :: "string list \<Rightarrow> string option \<Rightarrow> topic_list \<Rightarrow> topic_list" where
  "render_topic_rows desired_keys selected s =
     (if tl_rows s = desired_keys then s
      else s\<lparr>tl_rows := desired_keys,
        tl_cursor := (case selected of Some n \<Rightarrow> if n \<in> set desired_keys then index_of n desired_keys else 0 | None \<Rightarrow> 0)\<rparr>)"

definition restore_selection :: "string list \<Rightarrow> string option \<Rightarrow> topic_list \<Rightarrow> topic_list" where
  "restore_selection desired_keys selected s =
     s\<lparr>tl_current :=
       (if (case selected of None \<Rightarrow> False | Some n \<Rightarrow> din n (tl_topics s) \<and> n \<in> set desired_keys) then selected
        else if desired_keys \<noteq> [] then Some (desired_keys ! min (tl_cursor s) (length desired_keys - 1))
        else None)\<rparr>"

definition fill_table :: "topic_list \<Rightarrow> topic_list" where
  "fill_table s =
     (let selected = tl_current s; desired_keys = map t_name (visible_topics s) in
      restore_selection desired_keys selected (render_topic_rows desired_keys selected s))"

definition UNAVAILABLE_METRIC :: string where "UNAVAILABLE_METRIC = ''-''"
definition LOADING_METRIC :: string where "LOADING_METRIC = ''...''"

definition metric_value :: "metric_state \<Rightarrow> string \<Rightarrow> string" where
  "metric_value state v = (case state of M_READY \<Rightarrow> v | M_UNAVAILABLE \<Rightarrow> UNAVAILABLE_METRIC | M_LOADING \<Rightarrow> LOADING_METRIC)"

text \<open>\<open>approximation\<close> stands for the sign of the source, which is no character of the modelled range.\<close>

definition topic_row :: "string \<Rightarrow> topic \<Rightarrow> string list" where
  "topic_row approximation t =
     [t_name t, show_nat (t_partitions_count t), show_nat (t_replicas_count t), show_nat (t_isrs_count t),
      metric_value (t_groups_state t) (show_nat (t_groups_count t)),
      metric_value (t_groups_state t) (show_nat (t_group_members_count t)),
      metric_value (t_records_state t) (approximation @ show_int (t_records_count t)),
      metric_value (t_groups_state t) (approximation @ show_int (t_lag t))]"

section \<open>Refreshing\<close>

definition request_refresh :: "refresh_reason \<Rightarrow> topic_list \<Rightarrow> topic_list" where
  "request_refresh reason s =
     (case request reason (tl_coordinator s) of
        (None, c) \<Rightarrow> s\<lparr>tl_coordinator := c\<rparr>
      | (Some g, c) \<Rightarrow> s\<lparr>tl_coordinator := c, tl_stage := AwaitMetadata g\<rparr>)"

text \<open>The end of a worker, and the pending request it leaves.\<close>

definition schedule_pending :: "topic_list \<Rightarrow> topic_list" where
  "schedule_pending s =
     (case take_pending (tl_coordinator s) of
        (False, c) \<Rightarrow> s\<lparr>tl_coordinator := c\<rparr>
      | (True, c) \<Rightarrow> s\<lparr>tl_coordinator := c, tl_scheduled := tl_scheduled s @ [PENDING]\<rparr>)"

definition complete_refresh :: "int \<Rightarrow> topic_list \<Rightarrow> topic_list" where
  "complete_refresh g s =
     (case complete g (tl_coordinator s) of
        (False, c) \<Rightarrow> s\<lparr>tl_coordinator := c, tl_stage := NoRefresh\<rparr>
      | (True, c) \<Rightarrow> schedule_pending (s\<lparr>tl_coordinator := c, tl_stage := NoRefresh\<rparr>))"

definition refresh_failed :: "int \<Rightarrow> exn \<Rightarrow> topic_list \<Rightarrow> topic_list" where
  "refresh_failed g e s =
     complete_refresh g
       (if admin_exception e
        then notify (ErrorNotice (if is_kafka_exception e then ''Kafka Error'' else ''Refresh Error'') e) s else s)"

text \<open>A refreshed topic keeps the metrics it already had, until the next stages replace them.\<close>

definition preserve_topic_metrics :: "topic \<Rightarrow> topic \<Rightarrow> topic" where
  "preserve_topic_metrics previous refreshed =
     (let previous_partitions = dict_of (map (\<lambda>p. (p_id p, p)) (t_partitions previous)) in
      if set (dkeys previous_partitions) \<noteq> set (map p_id (t_partitions refreshed)) then refreshed
      else
        (let t1 = (if t_records_state previous = M_READY
              then refreshed\<lparr>t_partitions := map (\<lambda>p. case dget previous_partitions (p_id p) of
                     Some q \<Rightarrow> p\<lparr>p_low := p_low q, p_high := p_high q\<rparr> | None \<Rightarrow> p) (t_partitions refreshed),
                   t_records_state := M_READY\<rparr>
              else refreshed) in
         if t_groups_state previous = M_READY then t1\<lparr>t_groups := t_groups previous, t_groups_state := M_READY\<rparr> else t1))"

definition preserve_completed_metrics :: "topics \<Rightarrow> topics \<Rightarrow> topics" where
  "preserve_completed_metrics previous refreshed =
     map (\<lambda>(name, t). (name, case dget previous name of None \<Rightarrow> t | Some p \<Rightarrow> preserve_topic_metrics p t)) refreshed"

definition metadata_arrives :: "topics res \<Rightarrow> topic_list \<Rightarrow> topic_list" where
  "metadata_arrives answer s =
     (case tl_stage s of
        AwaitMetadata g \<Rightarrow>
          (case answer of
             Inl e \<Rightarrow> refresh_failed g e s
           | Inr refreshed \<Rightarrow>
               (let kept = preserve_completed_metrics (tl_topics s) refreshed in
                if \<not> is_current g (tl_coordinator s) then complete_refresh g s
                else fill_table (s\<lparr>tl_topics := kept, tl_stage := AwaitOffsets g\<rparr>)))
      | _ \<Rightarrow> s)"

text \<open>The offsets request changes the topics it was given, which are those of the list.\<close>

definition offsets_arrive :: "(topics \<times> exn list) res \<Rightarrow> topic_list \<Rightarrow> topic_list" where
  "offsets_arrive answer s =
     (case tl_stage s of
        AwaitOffsets g \<Rightarrow>
          (case answer of
             Inl e \<Rightarrow> refresh_failed g e s
           | Inr (enriched, errors) \<Rightarrow>
               (let s1 = s\<lparr>tl_topics := enriched\<rparr> in
                if \<not> is_current g (tl_coordinator s) then complete_refresh g s1
                else fill_table (s1\<lparr>tl_stage := AwaitGroups g
                  (if errors \<noteq> [] then [(''record metrics'', length errors)] else [])\<rparr>)))
      | _ \<Rightarrow> s)"

definition notify_stage_failures :: "(string \<times> nat) list \<Rightarrow> topic_list \<Rightarrow> topic_list" where
  "notify_stage_failures failures s =
     (if failures = [] then s
      else notify (WarningNotice ''Partial Refresh'' (''Could not refresh '' @
        join '', '' (map (\<lambda>(stage, n). stage @ '' ('' @ show_nat n @ '' failed request(s))'') failures))) s)"

definition groups_arrive :: "group_snapshot res \<Rightarrow> topic_list \<Rightarrow> topic_list" where
  "groups_arrive answer s =
     (case tl_stage s of
        AwaitGroups g failures \<Rightarrow>
          (case answer of
             Inl e \<Rightarrow> refresh_failed g e s
           | Inr snapshot \<Rightarrow>
               (if \<not> is_current g (tl_coordinator s) then complete_refresh g s
                else
                  (let (topics, errors) = apply_groups snapshot (tl_topics s);
                       all_failures = failures @ (if errors \<noteq> [] then [(''consumer-group metrics'', length errors)] else []) in
                   complete_refresh g
                     ((notify_stage_failures all_failures (fill_table (s\<lparr>tl_topics := topics\<rparr>)))\<lparr>tl_updated := True\<rparr>))))
      | _ \<Rightarrow> s)"

section \<open>Mutations\<close>

definition begin_mutation_worker :: "topic_list \<Rightarrow> topic_list" where
  "begin_mutation_worker s =
     s\<lparr>tl_coordinator := begin_mutation (tl_coordinator s), tl_mutations := Suc (tl_mutations s)\<rparr>"

definition finish_mutation :: "bool \<Rightarrow> topic_list \<Rightarrow> topic_list" where
  "finish_mutation refresh_after s =
     (let s1 = s\<lparr>tl_coordinator := end_mutation (tl_coordinator s), tl_mutations := tl_mutations s - 1\<rparr> in
      if refresh_after
      then s1\<lparr>tl_coordinator := discard_pending (tl_coordinator s1), tl_scheduled := tl_scheduled s1 @ [MUTATION]\<rparr>
      else schedule_pending s1)"

text \<open>\<open>async with self._mutation(*errors)\<close>: whether the cluster changed, and what the user is told.
  An error of another class than \<open>errors\<close> passes through, after the end of the mutation.\<close>

record mutation =
  mu_changed :: bool
  mu_error_title :: string
  mu_notices :: "notice list"
  mu_raised :: "exn option"

definition new_mutation :: mutation where
  "new_mutation = \<lparr>mu_changed = False, mu_error_title = ''Kafka Error'', mu_notices = [], mu_raised = None\<rparr>"

definition mutation_error :: "(exn \<Rightarrow> bool) \<Rightarrow> exn \<Rightarrow> mutation \<Rightarrow> mutation" where
  "mutation_error errors e m =
     (if errors e then m\<lparr>mu_notices := mu_notices m @ [ErrorNotice (mu_error_title m) e]\<rparr> else m\<lparr>mu_raised := Some e\<rparr>)"

definition mutation_info :: "string \<Rightarrow> string \<Rightarrow> mutation \<Rightarrow> mutation" where
  "mutation_info title message m = m\<lparr>mu_notices := mu_notices m @ [InfoNotice title message]\<rparr>"

definition create_topic :: "create_topic_command \<Rightarrow> unit res \<Rightarrow> mutation" where
  "create_topic command created =
     (case created of
        Inl e \<Rightarrow> mutation_error is_kafka_exception e new_mutation
      | Inr _ \<Rightarrow> mutation_info ''Topic Created'' (''Created topic '' @ quoted (ct_name command)) new_mutation\<lparr>mu_changed := True\<rparr>)"

definition delete_topic :: "string \<Rightarrow> unit res \<Rightarrow> mutation" where
  "delete_topic name deleted =
     (case deleted of
        Inl e \<Rightarrow> mutation_error is_kafka_exception e new_mutation
      | Inr _ \<Rightarrow> mutation_info ''Topic Deleted'' (''Deleted topic '' @ quoted name) new_mutation\<lparr>mu_changed := True\<rparr>)"

definition update_topic :: "string \<Rightarrow> update_topic_command \<Rightarrow> unit res \<Rightarrow> unit res \<Rightarrow> mutation" where
  "update_topic name command added edited =
     (let m1 = (if ut_partitions command = None then Inr new_mutation
                else map_sum id (\<lambda>_. new_mutation\<lparr>mu_changed := True, mu_error_title := ''Topic Partially Updated''\<rparr>) added) in
      case m1 of
        Inl e \<Rightarrow> mutation_error admin_exception e new_mutation
      | Inr m \<Rightarrow>
          (if ut_configs command = [] then mutation_info ''Topic Updated'' (''Updated topic '' @ quoted name) m
           else
             (case edited of
                Inl e \<Rightarrow> mutation_error admin_exception e m
              | Inr _ \<Rightarrow> mutation_info ''Topic Updated'' (''Updated topic '' @ quoted name) (m\<lparr>mu_changed := True\<rparr>))))"

definition end_mutation_worker :: "mutation \<Rightarrow> topic_list \<Rightarrow> topic_list" where
  "end_mutation_worker m s = finish_mutation (mu_changed m) (s\<lparr>tl_notices := tl_notices s @ mu_notices m\<rparr>)"

definition OUTCOME_LINES :: nat where "OUTCOME_LINES = 10"

text \<open>The outcomes of an offset reset, partition by partition: the error, if any, and the offset.\<close>

definition reset_lines :: "(int \<times> int \<times> string option) list \<Rightarrow> string list" where
  "reset_lines outcomes =
     (let failed = filter (\<lambda>(_, _, e). e \<noteq> None) outcomes;
          lines = map (\<lambda>(p, offset, e). ''Partition '' @ show_int p @ '': '' @
            (case e of Some m \<Rightarrow> m | None \<Rightarrow> show_int offset)) (if failed \<noteq> [] then failed else outcomes) in
      if length lines > OUTCOME_LINES
      then take OUTCOME_LINES lines @ [show_nat (length lines - OUTCOME_LINES) @ '' more partitions'']
      else lines)"

definition notify_reset :: "string \<Rightarrow> (int \<times> int \<times> string option) list \<Rightarrow> notice" where
  "notify_reset gid outcomes =
     (let failed = filter (\<lambda>(_, _, e). e \<noteq> None) outcomes;
          summary = ''Reset '' @ show_nat (length outcomes - length failed) @ '' of '' @ show_nat (length outcomes) @
            '' partitions of group '' @ quoted gid;
          message = join [CHR 0x0A] (summary # reset_lines outcomes) in
      if failed \<noteq> [] then WarningNotice ''Offsets Partially Reset'' message else InfoNotice ''Offsets Reset'' message)"

definition reset_offsets :: "offset_reset_plan \<Rightarrow> offset_reset_outcome list res \<Rightarrow> mutation" where
  "reset_offsets plan applied =
     (case applied of
        Inl e \<Rightarrow> mutation_error admin_exception e new_mutation
      | Inr outcomes \<Rightarrow> new_mutation\<lparr>mu_changed := True, mu_notices :=
          [notify_reset (rp_group plan) (map (\<lambda>oc. (ro_part oc, ro_offset oc, ro_error oc)) outcomes)]\<rparr>)"

definition delete_group_mutation :: "string \<Rightarrow> unit res \<Rightarrow> mutation" where
  "delete_group_mutation gid deleted =
     (case deleted of
        Inl (GroupNotEmptyError g n) \<Rightarrow>
          new_mutation\<lparr>mu_notices := [WarningNotice ''Group Not Empty'' (group_not_empty_message g n)]\<rparr>
      | Inl e \<Rightarrow> mutation_error admin_exception e new_mutation
      | Inr _ \<Rightarrow> mutation_info ''Group Deleted'' (''Deleted group '' @ quoted gid) new_mutation\<lparr>mu_changed := True\<rparr>)"

section \<open>Actions\<close>

datatype action = Describe | CopyTopic | FilterTopics | RefreshTopics | NewTopic | EditTopic | DeleteTopic | ShowAll

definition MUTATING_ACTIONS :: "action set" where "MUTATING_ACTIONS = {NewTopic, EditTopic, DeleteTopic}"

definition check_action :: "topic_list \<Rightarrow> action \<Rightarrow> bool" where
  "check_action s a =
     (if tl_read_only s \<and> a \<in> MUTATING_ACTIONS then False
      else
        (let current = (case tl_current s of None \<Rightarrow> None | Some n \<Rightarrow> dget (tl_topics s) n) in
         case a of
           Describe \<Rightarrow> (case current of None \<Rightarrow> False | Some t \<Rightarrow> t_records_state t = M_READY \<and> t_groups_state t = M_READY)
         | CopyTopic \<Rightarrow> current \<noteq> None
         | DeleteTopic \<Rightarrow> current \<noteq> None
         | EditTopic \<Rightarrow> current \<noteq> None
         | ShowAll \<Rightarrow> tl_filter s \<noteq> None
         | _ \<Rightarrow> True))"

definition action_all :: "topic_list \<Rightarrow> topic_list" where
  "action_all s = fill_table (s\<lparr>tl_filter := None\<rparr>)"

definition filter_dismissed :: "string option \<Rightarrow> topic_list \<Rightarrow> topic_list" where
  "filter_dismissed result s = fill_table (s\<lparr>tl_filter := result\<rparr>)"

definition row_highlighted :: "string option \<Rightarrow> topic_list \<Rightarrow> topic_list" where
  "row_highlighted key s =
     (case key of None \<Rightarrow> s | Some k \<Rightarrow> s\<lparr>tl_current := map_option t_name (dget (tl_topics s) k)\<rparr>)"

section \<open>Steps\<close>

text \<open>A scheduled request is made; a screen of a mutating action, or the group actions of the details
  screen, which are not offered in read-only mode, starts a mutation.\<close>

inductive list_step :: "topic_list \<Rightarrow> topic_list \<Rightarrow> bool" where
  requested: "reason \<noteq> PENDING \<Longrightarrow> list_step s (request_refresh reason s)"
| scheduled: "tl_scheduled s = rs @ reason # rs' \<Longrightarrow>
     list_step s (request_refresh reason (s\<lparr>tl_scheduled := rs @ rs'\<rparr>))"
| metadata: "(\<forall>ts. answer = Inr ts \<longrightarrow> (\<exists>m. ts = topics_metadata m)) \<Longrightarrow> list_step s (metadata_arrives answer s)"
| offsets: "(\<forall>ts es. answer = Inr (ts, es) \<longrightarrow> (\<exists>ask. enrich_offsets ask (tl_topics s) = Inr (ts, es))) \<Longrightarrow>
     list_step s (offsets_arrive answer s)"
| groups: "list_step s (groups_arrive answer s)"
| mutate: "check_action s a \<Longrightarrow> a \<in> MUTATING_ACTIONS \<Longrightarrow> list_step s (begin_mutation_worker s)"
| mutate_group: "\<not> tl_read_only s \<Longrightarrow> check_action s Describe \<Longrightarrow> list_step s (begin_mutation_worker s)"
| mutated: "0 < tl_mutations s \<Longrightarrow> list_step s (end_mutation_worker m s)"
| show_all: "check_action s ShowAll \<Longrightarrow> list_step s (action_all s)"
| filtered: "list_step s (filter_dismissed result s)"
| highlighted: "list_step s (row_highlighted key s)"

inductive list_reach :: "bool \<Rightarrow> topic_list \<Rightarrow> bool" for read_only where
  init: "list_reach read_only (topic_list_new read_only)"
| step: "list_reach read_only s \<Longrightarrow> list_step s s' \<Longrightarrow> list_reach read_only s'"

section \<open>Lemmas\<close>

subsection \<open>Topics keep their names\<close>

definition named :: "topics \<Rightarrow> bool" where
  "named ts \<longleftrightarrow> list_all (\<lambda>(k, t). t_name t = k) ts"

definition names :: "topics \<Rightarrow> string list" where "names ts = map (t_name \<circ> snd) ts"

lemma named_names: "named ts \<Longrightarrow> names ts = dkeys ts"
  by (induction ts) (auto simp: named_def names_def)

lemma named_get: "named ts \<Longrightarrow> dget ts k = Some t \<Longrightarrow> t_name t = k"
  by (auto simp: named_def list_all_iff dest!: map_of_SomeD)

lemma named_map:
  assumes "\<And>k t. t_name (f k t) = t_name t"
  shows "named (map (\<lambda>(k, t). (k, f k t)) ts) = named ts" "names (map (\<lambda>(k, t). (k, f k t)) ts) = names ts"
  using assms by (induction ts) (auto simp: named_def names_def)

lemma named_map_topic_values:
  assumes "\<And>t. t_name (f t) = t_name t"
  shows "named (map_topic_values f ts) = named ts" "names (map_topic_values f ts) = names ts"
  unfolding map_topic_values_def using named_map[of "\<lambda>_. f"] assms by auto

lemma named_dput: "named ts \<Longrightarrow> t_name t = k \<Longrightarrow> named (dput k t ts)"
  by (induction ts) (auto simp: named_def)

lemma named_topics_metadata: "named (topics_metadata m)"
proof -
  have "named ts \<Longrightarrow> \<forall>(k, t) \<in> set kvs. t_name t = k \<Longrightarrow> named (dmerge ts kvs)" for ts kvs :: topics
    by (induction kvs arbitrary: ts) (auto simp: named_dput)
  note add = this
  show ?thesis
    unfolding topics_metadata_def map_topics_def dict_of_def by (rule add) (auto simp: named_def)
qed

lemma preserve_topic_name [simp]: "t_name (preserve_topic_metrics p t) = t_name t"
  by (simp add: preserve_topic_metrics_def Let_def)

lemma named_preserve: "named (preserve_completed_metrics previous ts) = named ts"
  unfolding preserve_completed_metrics_def by (rule named_map) (simp split: option.split)

lemma apply_topic_offsets_name [simp]: "t_name (apply_topic_offsets e l t) = t_name t"
  by (simp add: apply_topic_offsets_def)

text \<open>The same topics, with other metrics.\<close>

definition same_topics :: "topics \<Rightarrow> topics \<Rightarrow> bool" where
  "same_topics ts ts' \<longleftrightarrow> named ts \<and> dkeys ts = dkeys ts'"

lemma same_topics_refl: "named ts \<Longrightarrow> same_topics ts ts" by (simp add: same_topics_def)

lemma same_topics_map: "(\<And>t. t_name (f t) = t_name t) \<Longrightarrow> named ts \<Longrightarrow> same_topics (map_topic_values f ts) ts"
  by (simp add: same_topics_def named_map_topic_values)

lemma same_topics_names: "same_topics ts ts' \<Longrightarrow> named ts' \<Longrightarrow> names ts = names ts'"
  by (simp add: same_topics_def named_names)

lemma named_enrich: "enrich_offsets ask ts = Inr (ts', es) \<Longrightarrow> named ts \<Longrightarrow> same_topics ts' ts"
  unfolding enrich_offsets_def Let_def apply_partition_offsets_def set_records_state_def
  by (auto simp: res_simps intro!: same_topics_map split: if_splits)

lemma add_group_same: "same_topics ts ts' \<Longrightarrow> same_topics (add_group n g ts) ts'"
proof (cases "dget ts n")
  case (Some t)
  assume s: "same_topics ts ts'"
  have "dkeys (dput n (t\<lparr>t_groups := t_groups t @ [g]\<rparr>) ts) = dkeys ts"
    using Some by (simp add: AList.update_keys) (metis map_of_SomeD fst_conv image_eqI)
  moreover have "named (dput n (t\<lparr>t_groups := t_groups t @ [g]\<rparr>) ts)"
    using s named_get[of ts n t] Some by (intro named_dput) (simp_all add: same_topics_def)
  ultimately show ?thesis using s Some by (simp add: add_group_def same_topics_def)
qed (simp add: add_group_def)

lemma fold_same: "(\<And>x ts. same_topics ts ts' \<Longrightarrow> same_topics (f x ts) ts') \<Longrightarrow> same_topics ts ts' \<Longrightarrow> same_topics (fold f xs ts) ts'"
  by (induction xs arbitrary: ts) auto

lemma apply_groups_same:
  assumes "named ts"
  shows "same_topics (fst (apply_groups snapshot ts)) ts"
proof -
  have "same_topics a b \<Longrightarrow> same_topics (apply_description snapshot ps d a) b" for ps d a b
    unfolding apply_description_def by (rule fold_same) (auto simp: add_group_same split: prod.splits)
  then have "same_topics a b \<Longrightarrow> same_topics (fold (apply_description snapshot ps) ds a) b" for ps ds a b
    by (rule fold_same)
  moreover have "same_topics (reset_groups ts) ts" "same_topics (set_groups_unavailable ts) ts"
    unfolding reset_groups_def set_groups_unavailable_def using assms by (auto intro!: same_topics_map)
  ultimately show ?thesis by (simp add: apply_groups_def Let_def)
qed

subsection \<open>The table\<close>

definition row_names :: "string option \<Rightarrow> topics \<Rightarrow> string list" where
  "row_names f ts = filter (\<lambda>n. case f of None \<Rightarrow> True | Some g \<Rightarrow> contains g n) (names ts)"

lemma visible_names: "map t_name (visible_topics s) = row_names (tl_filter s) (tl_topics s)"
  by (simp add: visible_topics_def row_names_def names_def filter_map comp_def)

definition table_ok :: "topic_list \<Rightarrow> bool" where
  "table_ok s \<longleftrightarrow> named (tl_topics s) \<and> tl_rows s = row_names (tl_filter s) (tl_topics s) \<and>
     (\<forall>n. tl_current s = Some n \<longrightarrow> din n (tl_topics s))"

lemma row_names_din: "named ts \<Longrightarrow> n \<in> set (row_names f ts) \<Longrightarrow> din n ts"
  by (auto simp: row_names_def named_names din_def)

lemma fill_table_simps [simp]:
  "tl_topics (fill_table s) = tl_topics s" "tl_filter (fill_table s) = tl_filter s" "tl_coordinator (fill_table s) = tl_coordinator s"
  "tl_stage (fill_table s) = tl_stage s" "tl_mutations (fill_table s) = tl_mutations s" "tl_read_only (fill_table s) = tl_read_only s"
  "tl_scheduled (fill_table s) = tl_scheduled s"
  by (simp_all add: fill_table_def Let_def restore_selection_def render_topic_rows_def)

lemma fill_table_rows: "tl_rows (fill_table s) = row_names (tl_filter s) (tl_topics s)"
  by (simp add: fill_table_def Let_def restore_selection_def render_topic_rows_def visible_names)

text \<open>After the table is filled, a selection is kept while its row is there, and otherwise falls on a visible row.\<close>

lemma fill_table_current:
  "case tl_current (fill_table s) of
     None \<Rightarrow> tl_rows (fill_table s) = []
   | Some n \<Rightarrow> n \<in> set (tl_rows (fill_table s))"
proof -
  let ?d = "row_names (tl_filter s) (tl_topics s)"
  have "?d \<noteq> [] \<Longrightarrow> ?d ! min c (length ?d - 1) \<in> set ?d" for c by (rule nth_mem) (cases ?d; simp)
  then show ?thesis
    unfolding fill_table_rows
    by (auto simp: fill_table_def Let_def restore_selection_def visible_names split: option.splits)
qed

lemma fill_table_keeps: "tl_current s = Some n \<Longrightarrow> din n (tl_topics s) \<Longrightarrow> n \<in> set (row_names (tl_filter s) (tl_topics s)) \<Longrightarrow>
   tl_current (fill_table s) = Some n"
  by (simp add: fill_table_def Let_def restore_selection_def render_topic_rows_def visible_names)

lemma fill_table_ok: "named (tl_topics s) \<Longrightarrow> table_ok (fill_table s)"
  using fill_table_current[of s] by (auto simp: table_ok_def fill_table_rows row_names_din split: option.splits)

subsection \<open>Steps keep the list's invariant\<close>

fun stage_current :: "refresh_stage \<Rightarrow> coordinator \<Rightarrow> bool" where
  "stage_current NoRefresh c = (\<not> active c)"
| "stage_current (AwaitMetadata g) c = is_current g c"
| "stage_current (AwaitOffsets g) c = is_current g c"
| "stage_current (AwaitGroups g _) c = is_current g c"

definition stage_ok :: "topic_list \<Rightarrow> bool" where "stage_ok s \<longleftrightarrow> stage_current (tl_stage s) (tl_coordinator s)"

lemma stage_current_mono: "active c' = active c \<Longrightarrow> generation c' = generation c \<Longrightarrow> stage_current g c' = stage_current g c"
  by (cases g) (auto simp: is_current_def)

definition pending_ok :: "topic_list \<Rightarrow> bool" where
  "pending_ok s \<longleftrightarrow>
     (pending (tl_coordinator s) \<longrightarrow> active (tl_coordinator s) \<or> mutation_active (tl_coordinator s)) \<and>
     (mutation_active (tl_coordinator s) \<longrightarrow> 0 < tl_mutations s)"

definition list_inv :: "bool \<Rightarrow> topic_list \<Rightarrow> bool" where
  "list_inv read_only s \<longleftrightarrow> table_ok s \<and> stage_ok s \<and> pending_ok s \<and> tl_read_only s = read_only \<and>
     (read_only \<longrightarrow> tl_mutations s = 0)"

lemmas list_inv_defs = list_inv_def table_ok_def stage_ok_def pending_ok_def

lemma notify_inv [simp]: "list_inv r (notify n s) = list_inv r s"
  by (simp add: list_inv_defs notify_def)

lemma notify_stage_failures_simps [simp]:
  "tl_topics (notify_stage_failures fs s) = tl_topics s"
  "tl_filter (notify_stage_failures fs s) = tl_filter s"
  "tl_coordinator (notify_stage_failures fs s) = tl_coordinator s"
  "tl_mutations (notify_stage_failures fs s) = tl_mutations s"
  "tl_read_only (notify_stage_failures fs s) = tl_read_only s"
  "tl_rows (notify_stage_failures fs s) = tl_rows s"
  "tl_current (notify_stage_failures fs s) = tl_current s"
  "tl_stage (notify_stage_failures fs s) = tl_stage s"
  by (simp_all add: notify_stage_failures_def notify_def)

lemma request_refresh_inv: "list_inv r s \<Longrightarrow> list_inv r (request_refresh reason s)"
  by (cases "tl_stage s") (auto simp: list_inv_defs request_refresh_def coordinator_defs)

lemma scheduled_inv: "list_inv r s \<Longrightarrow> list_inv r (s\<lparr>tl_scheduled := rs\<rparr>)"
  by (simp add: list_inv_defs)

lemma complete_refresh_inv:
  assumes "table_ok s" "pending_ok s" "tl_read_only s = r" "r \<longrightarrow> tl_mutations s = 0" "is_current g (tl_coordinator s)"
  shows "list_inv r (complete_refresh g s)"
  using assms by (auto simp: list_inv_defs complete_refresh_def schedule_pending_def coordinator_defs)

lemma refresh_failed_inv: "list_inv r s \<Longrightarrow> is_current g (tl_coordinator s) \<Longrightarrow> list_inv r (refresh_failed g e s)"
  unfolding refresh_failed_def by (rule complete_refresh_inv) (auto simp: list_inv_defs notify_def)

lemma metadata_arrives_inv:
  assumes "list_inv r s" and "\<forall>ts. answer = Inr ts \<longrightarrow> (\<exists>m. ts = topics_metadata m)"
  shows "list_inv r (metadata_arrives answer s)"
proof (cases "tl_stage s")
  case (AwaitMetadata g)
  then have c: "is_current g (tl_coordinator s)" using assms(1) by (simp add: list_inv_defs)
  show ?thesis
  proof (cases answer)
    case (Inl e)
    then show ?thesis using refresh_failed_inv[OF assms(1) c] AwaitMetadata by (simp add: metadata_arrives_def)
  next
    case (Inr ts)
    then have "named (preserve_completed_metrics (tl_topics s) ts)"
      using assms(2) named_topics_metadata by (auto simp: named_preserve)
    from fill_table_ok[of "s\<lparr>tl_topics := preserve_completed_metrics (tl_topics s) ts, tl_stage := AwaitOffsets g\<rparr>"] this
    show ?thesis using Inr AwaitMetadata c assms(1)
      by (simp add: metadata_arrives_def list_inv_def stage_ok_def pending_ok_def)
  qed
qed (use assms in \<open>simp_all add: metadata_arrives_def\<close>)

lemma offsets_arrive_inv:
  assumes "list_inv r s" and "\<forall>ts es. answer = Inr (ts, es) \<longrightarrow> (\<exists>ask. enrich_offsets ask (tl_topics s) = Inr (ts, es))"
  shows "list_inv r (offsets_arrive answer s)"
proof (cases "tl_stage s")
  case (AwaitOffsets g)
  then have c: "is_current g (tl_coordinator s)" using assms(1) by (simp add: list_inv_defs)
  show ?thesis
  proof (cases answer)
    case (Inl e)
    then show ?thesis using refresh_failed_inv[OF assms(1) c] AwaitOffsets by (simp add: offsets_arrive_def)
  next
    case (Inr a)
    obtain ts es where a: "a = (ts, es)" by (cases a)
    then obtain ask where "enrich_offsets ask (tl_topics s) = Inr (ts, es)" using Inr assms(2) by blast
    then have n: "named ts" using named_enrich assms(1) by (auto simp: list_inv_defs same_topics_def)
    show ?thesis using Inr AwaitOffsets c assms(1) a fill_table_ok n
      by (simp add: offsets_arrive_def list_inv_def stage_ok_def pending_ok_def Let_def)
  qed
qed (use assms in \<open>simp_all add: offsets_arrive_def\<close>)

lemma groups_arrive_inv:
  assumes "list_inv r s"
  shows "list_inv r (groups_arrive answer s)"
proof (cases "tl_stage s")
  case (AwaitGroups g failures)
  then have c: "is_current g (tl_coordinator s)" using assms(1) by (simp add: list_inv_defs)
  show ?thesis
  proof (cases answer)
    case (Inl e)
    then show ?thesis using refresh_failed_inv[OF assms(1) c] AwaitGroups by (simp add: groups_arrive_def)
  next
    case (Inr snapshot)
    obtain ts es where a: "apply_groups snapshot (tl_topics s) = (ts, es)" by fastforce
    have "same_topics ts (tl_topics s)" using apply_groups_same[of "tl_topics s" snapshot] assms a by (simp add: list_inv_defs)
    then have "table_ok (fill_table (s\<lparr>tl_topics := ts\<rparr>))" by (intro fill_table_ok) (simp add: same_topics_def)
    then show ?thesis using Inr AwaitGroups c assms(1) a
      by (auto simp: groups_arrive_def Let_def intro!: complete_refresh_inv)
        (auto simp: list_inv_def pending_ok_def table_ok_def)
  qed
qed (use assms in \<open>simp_all add: groups_arrive_def\<close>)

lemma begin_mutation_worker_inv: "list_inv r s \<Longrightarrow> \<not> tl_read_only s \<Longrightarrow> list_inv r (begin_mutation_worker s)"
  by (cases "tl_stage s") (auto simp: list_inv_defs begin_mutation_worker_def coordinator_defs)

lemma end_mutation_worker_inv: "list_inv r s \<Longrightarrow> 0 < tl_mutations s \<Longrightarrow> list_inv r (end_mutation_worker m s)"
  by (cases "tl_stage s") (auto simp: list_inv_defs end_mutation_worker_def finish_mutation_def schedule_pending_def coordinator_defs)

lemma fill_table_inv: "list_inv r s \<Longrightarrow> list_inv r (fill_table (s\<lparr>tl_filter := f\<rparr>))"
  using fill_table_ok[of "s\<lparr>tl_filter := f\<rparr>"] by (simp add: list_inv_def stage_ok_def pending_ok_def table_ok_def)

lemma row_highlighted_inv: "list_inv r s \<Longrightarrow> list_inv r (row_highlighted key s)"
  using named_get[of "tl_topics s"]
  by (auto simp: list_inv_defs row_highlighted_def din_iff_get split: option.split)

lemma list_step_inv: "list_step s s' \<Longrightarrow> list_inv r s \<Longrightarrow> list_inv r s'"
proof (induction rule: list_step.induct)
  case (mutate s a)
  then have "\<not> tl_read_only s" by (auto simp: check_action_def split: if_splits)
  then show ?case using mutate begin_mutation_worker_inv by blast
qed (auto simp: action_all_def filter_dismissed_def request_refresh_inv scheduled_inv metadata_arrives_inv
    offsets_arrive_inv groups_arrive_inv begin_mutation_worker_inv end_mutation_worker_inv fill_table_inv row_highlighted_inv)

lemma list_reach_inv: "list_reach r s \<Longrightarrow> list_inv r s"
proof (induction rule: list_reach.induct)
  case init
  show ?case by (simp add: list_inv_defs topic_list_new_def named_def row_names_def names_def coordinator_new_def)
next
  case step
  then show ?case by (rule_tac list_step_inv)
qed

section \<open>Properties\<close>

text \<open>C15: the topic list always shows its topics: in every state its events can reach, the rows are the names of the
  topics the filter lets through, in their order, and the selection is one of the topics.\<close>

theorem rows_follow_topics:
  assumes "list_reach read_only s"
  shows "tl_rows s = map t_name (visible_topics s) \<and>
    (\<forall>n. tl_current s = Some n \<longrightarrow> (\<exists>t. dget (tl_topics s) n = Some t \<and> t_name t = n))"
  using list_reach_inv[OF assms] named_get[of "tl_topics s"]
  by (auto simp: list_inv_def table_ok_def visible_names din_iff_get)

definition listed :: topic_list where
  "listed = metadata_arrives (Inr (topics_metadata [(''b'', []), (''a'', [])])) (request_refresh INITIAL (topic_list_new False))"

lemma listed_reach: "list_reach False listed"
  unfolding listed_def
  by (rule list_reach.step[OF list_reach.step[OF list_reach.init list_step.requested] list_step.metadata]) auto

theorem rows_follow_topics_witness:
  "tl_rows listed = [''a'', ''b''] \<and> tl_current listed = Some ''a'' \<and> tl_rows listed = map t_name (visible_topics listed)"
proof -
  have "tl_rows listed = [''a'', ''b''] \<and> tl_current listed = Some ''a''" by code_simp
  then show ?thesis using rows_follow_topics[OF listed_reach] by simp
qed

text \<open>C32: a refresh that was refused is never lost and the list never waits for a worker that does not run: the
  coordinator is active exactly while a refresh worker runs, a pending request is there only while a
  refresh or a mutation still has to end, and when the last of them ends, a refresh is scheduled.\<close>

theorem pending_refresh_scheduled:
  assumes "list_reach read_only s"
  shows "(active (tl_coordinator s) \<longleftrightarrow> tl_stage s \<noteq> NoRefresh) \<and>
    (pending (tl_coordinator s) \<longrightarrow>
       (tl_stage s \<noteq> NoRefresh \<or> 0 < tl_mutations s) \<and>
       (\<forall>g. stage_current (AwaitMetadata g) (tl_coordinator s) \<and> \<not> mutation_active (tl_coordinator s) \<longrightarrow>
          PENDING \<in> set (tl_scheduled (complete_refresh g s))) \<and>
       (\<forall>m. tl_stage s = NoRefresh \<longrightarrow> tl_scheduled (end_mutation_worker m s) \<noteq> []))"
proof -
  have i: "list_inv read_only s" using assms by (rule list_reach_inv)
  then have "active (tl_coordinator s) \<longleftrightarrow> tl_stage s \<noteq> NoRefresh"
    by (cases "tl_stage s") (auto simp: list_inv_defs is_current_def)
  moreover have "pending (tl_coordinator s) \<longrightarrow> tl_stage s \<noteq> NoRefresh \<or> 0 < tl_mutations s"
    using i calculation by (auto simp: list_inv_defs)
  ultimately show ?thesis
    by (auto simp: complete_refresh_def schedule_pending_def end_mutation_worker_def finish_mutation_def coordinator_defs)
qed

theorem pending_refresh_scheduled_witness:
  "let s = request_refresh MANUAL (request_refresh INITIAL (topic_list_new False)) in
   pending (tl_coordinator s) \<and> tl_stage s \<noteq> NoRefresh \<and> PENDING \<in> set (tl_scheduled (complete_refresh 1 s))"
proof -
  let ?s = "request_refresh MANUAL (request_refresh INITIAL (topic_list_new False))"
  have r: "list_reach False ?s"
    by (rule list_reach.step[OF list_reach.step[OF list_reach.init list_step.requested] list_step.requested]) auto
  have "pending (tl_coordinator ?s)" "stage_current (AwaitMetadata 1) (tl_coordinator ?s)" "\<not> mutation_active (tl_coordinator ?s)"
    "tl_stage ?s \<noteq> NoRefresh" by code_simp+
  then show ?thesis using pending_refresh_scheduled[OF r] unfolding Let_def by simp
qed

text \<open>Read-only mode changes nothing: no event starts a mutation, and no mutating action is enabled.\<close>

theorem read_only_never_mutates:
  assumes "list_reach True s"
  shows "tl_mutations s = 0 \<and> \<not> mutation_active (tl_coordinator s) \<and> (\<forall>a. a \<notin> MUTATING_ACTIONS \<or> \<not> check_action s a)"
  using list_reach_inv[OF assms] by (auto simp: list_inv_def pending_ok_def check_action_def)

theorem read_only_never_mutates_witness:
  "tl_mutations (request_refresh INITIAL (topic_list_new True)) = 0 \<and>
   \<not> check_action (request_refresh INITIAL (topic_list_new True)) NewTopic"
proof -
  have "list_reach True (request_refresh INITIAL (topic_list_new True))"
    by (rule list_reach.step[OF list_reach.init list_step.requested]) simp
  from read_only_never_mutates[OF this] show ?thesis by (auto simp: MUTATING_ACTIONS_def)
qed

text \<open>One mutation may lose the guard of another: nothing refuses a second mutation while one runs, the first to end
  clears the coordinator's flag, and a refresh then runs over the mutation that is left.\<close>

theorem mutation_guard_lost:
  "\<exists>s. list_reach False s \<and> 0 < tl_mutations s \<and> \<not> mutation_active (tl_coordinator s) \<and> tl_stage s \<noteq> NoRefresh"
proof -
  let ?s0 = "topic_list_new False"
  let ?s1 = "begin_mutation_worker ?s0"
  let ?s2 = "begin_mutation_worker ?s1"
  let ?s3 = "end_mutation_worker new_mutation ?s2"
  let ?s4 = "request_refresh MANUAL ?s3"
  have new: "NewTopic \<in> MUTATING_ACTIONS" by (simp add: MUTATING_ACTIONS_def)
  have "list_reach False ?s0" by (rule list_reach.init)
  moreover have "check_action ?s0 NewTopic" "check_action ?s1 NewTopic" "0 < tl_mutations ?s2" by code_simp+
  ultimately have "list_reach False ?s2" using new by (blast intro: list_reach.step list_step.mutate)
  then have "list_reach False ?s3" using \<open>0 < tl_mutations ?s2\<close> by (blast intro: list_reach.step list_step.mutated)
  then have "list_reach False ?s4" by (rule list_reach.step) (rule list_step.requested, simp)
  moreover have "0 < tl_mutations ?s4" "\<not> mutation_active (tl_coordinator ?s4)" "tl_stage ?s4 \<noteq> NoRefresh" by code_simp+
  ultimately show ?thesis by blast
qed

text \<open>An edit tells what it did: the list is refreshed exactly when something changed on the cluster, that is when the
  partitions were added or the configurations altered, also when the second request failed after the
  first succeeded, and then the error's title says the topic was partially updated.\<close>

theorem update_reports_changes:
  "(mu_changed (update_topic name command added edited) \<longleftrightarrow>
      ut_partitions command \<noteq> None \<and> added = Inr () \<or>
      ut_configs command \<noteq> [] \<and> edited = Inr () \<and> (ut_partitions command = None \<or> added = Inr ())) \<and>
   (\<forall>title e. ErrorNotice title e \<in> set (mu_notices (update_topic name command added edited)) \<longrightarrow>
      (title = ''Topic Partially Updated'' \<longleftrightarrow> mu_changed (update_topic name command added edited))) \<and>
   (MUTATION \<in> set (tl_scheduled (end_mutation_worker (update_topic name command added edited) (s\<lparr>tl_scheduled := []\<rparr>))) \<longleftrightarrow>
      mu_changed (update_topic name command added edited))"
proof -
  have "MUTATION \<in> set (tl_scheduled (end_mutation_worker m (s\<lparr>tl_scheduled := []\<rparr>))) \<longleftrightarrow> mu_changed m" for m
    by (auto simp: end_mutation_worker_def finish_mutation_def schedule_pending_def coordinator_defs)
  then show ?thesis
    by (cases added; cases edited)
      (auto simp: update_topic_def Let_def mutation_error_def mutation_info_def new_mutation_def)
qed

text \<open>The message of an offset reset stays short and puts the failures first: at most ten partitions and one line
  for the rest, all of them failures when there is one.\<close>

theorem reset_message_bounded:
  "length (reset_lines outcomes) \<le> OUTCOME_LINES + 1 \<and>
   (\<forall>i < min OUTCOME_LINES (length (filter (\<lambda>(_, _, e). e \<noteq> None) outcomes)).
      \<exists>p offset m. (p, offset, Some m) \<in> set outcomes \<and> reset_lines outcomes ! i = ''Partition '' @ show_int p @ '': '' @ m)"
proof -
  let ?failed = "filter (\<lambda>(_, _, e). e \<noteq> None) outcomes"
  let ?line = "\<lambda>(p, offset, e). ''Partition '' @ show_int p @ '': '' @ (case e of Some m \<Rightarrow> m | None \<Rightarrow> show_int offset)"
  have "\<exists>p offset m. (p, offset, Some m) \<in> set outcomes \<and> reset_lines outcomes ! i = ''Partition '' @ show_int p @ '': '' @ m"
    if i: "i < min OUTCOME_LINES (length ?failed)" for i
  proof -
    have "?failed \<noteq> []" using i by auto
    then have "reset_lines outcomes ! i = ?line (?failed ! i)"
      using i by (auto simp: reset_lines_def Let_def nth_append)
    moreover have "?failed ! i \<in> set ?failed" using i by (intro nth_mem) simp
    moreover obtain p offset e where f: "?failed ! i = (p, offset, e)" by (cases "?failed ! i")
    ultimately show ?thesis by (intro exI[of _ p] exI[of _ offset] exI[of _ "the e"]) auto
  qed
  then show ?thesis by (auto simp: reset_lines_def Let_def)
qed

text \<open>Numbers on the screen do not blink away during a refresh: a topic whose partitions are the same keeps the
  record counts and the groups it had, with its new leaders and replicas, and a topic whose
  partitions changed, or whose metrics were not ready, keeps nothing of the old ones.\<close>

theorem refreshed_metrics_kept:
  assumes "dget previous n = Some p" and "dget refreshed n = Some t" and "distinct (map p_id (t_partitions p))"
  shows "\<exists>t'. dget (preserve_completed_metrics previous refreshed) n = Some t' \<and> t_name t' = t_name t \<and>
    map (\<lambda>q. (p_id q, p_leader q, p_replicas q, p_isrs q)) (t_partitions t') =
      map (\<lambda>q. (p_id q, p_leader q, p_replicas q, p_isrs q)) (t_partitions t) \<and>
    (if set (map p_id (t_partitions p)) \<noteq> set (map p_id (t_partitions t)) then t' = t
     else
       (if t_records_state p = M_READY
        then t_records_state t' = M_READY \<and>
          (\<forall>q' \<in> set (t_partitions t'). \<exists>q \<in> set (t_partitions p). p_id q = p_id q' \<and> p_low q = p_low q' \<and> p_high q = p_high q')
        else t_records_state t' = t_records_state t \<and> t_partitions t' = t_partitions t) \<and>
       (if t_groups_state p = M_READY then t_groups t' = t_groups p \<and> t_groups_state t' = M_READY
        else t_groups t' = t_groups t \<and> t_groups_state t' = t_groups_state t))"
proof -
  let ?old = "map (\<lambda>q. (p_id q, q)) (t_partitions p)"
  have d: "dict_of ?old = ?old" using assms(3) by (intro dict_of_distinct) (simp add: comp_def)
  have old: "\<exists>q. dget ?old (p_id x) = Some q \<and> q \<in> set (t_partitions p) \<and> p_id q = p_id x"
    if "set (map p_id (t_partitions p)) = set (map p_id (t_partitions t))" "x \<in> set (t_partitions t)" for x
  proof -
    have "p_id x \<in> set (dkeys ?old)" using that by (auto simp: comp_def)
    then obtain q where q: "dget ?old (p_id x) = Some q" by (metis map_of_eq_None_iff not_None_eq set_map)
    from map_of_SomeD[OF q] show ?thesis using q by auto
  qed
  have got: "dget (preserve_completed_metrics previous refreshed) n = Some (preserve_topic_metrics p t)"
    unfolding preserve_completed_metrics_def using assms(1,2) by (induction refreshed) auto
  moreover have keys: "dkeys ?old = map p_id (t_partitions p)" by (simp add: comp_def)
  ultimately show ?thesis
  proof (cases "set (map p_id (t_partitions p)) = set (map p_id (t_partitions t))")
    case True
    define f :: "partition_info \<Rightarrow> partition_info" where "f = (\<lambda>x. case dget ?old (p_id x) of Some q \<Rightarrow> x\<lparr>p_low := p_low q, p_high := p_high q\<rparr> | None \<Rightarrow> x)"
    have f: "p_id (f x) = p_id x \<and> p_leader (f x) = p_leader x \<and> p_replicas (f x) = p_replicas x \<and> p_isrs (f x) = p_isrs x" for x
      by (simp add: f_def split: option.split)
    have low: "\<exists>q \<in> set (t_partitions p). p_id q = p_id (f x) \<and> p_low q = p_low (f x) \<and> p_high q = p_high (f x)"
      if "x \<in> set (t_partitions t)" for x
      using old[OF True that] by (auto simp: f_def)
    have "preserve_topic_metrics p t =
       (let t1 = (if t_records_state p = M_READY then t\<lparr>t_partitions := map f (t_partitions t), t_records_state := M_READY\<rparr> else t) in
        if t_groups_state p = M_READY then t1\<lparr>t_groups := t_groups p, t_groups_state := M_READY\<rparr> else t1)"
      unfolding preserve_topic_metrics_def Let_def d keys f_def using True by simp
    then show ?thesis using got True f low by (simp add: Let_def comp_def)
  next
    case False
    then have "preserve_topic_metrics p t = t" unfolding preserve_topic_metrics_def Let_def d keys by simp
    then show ?thesis using got False by simp
  qed
qed

theorem refreshed_metrics_kept_witness:
  "let q = \<lparr>p_id = 0, p_leader = 1, p_replicas = [1], p_isrs = [1], p_low = 3, p_high = 8, p_topic = ''t''\<rparr>;
       p = \<lparr>t_name = ''t'', t_partitions = [q], t_groups = [], t_records_state = M_READY, t_groups_state = M_LOADING\<rparr>
   in \<exists>t'. dget (preserve_completed_metrics [(''t'', p)] [(''t'', p\<lparr>t_partitions := [q\<lparr>p_leader := 2, p_low := 0, p_high := 0\<rparr>],
       t_records_state := M_LOADING\<rparr>)]) ''t'' = Some t' \<and> t_records_state t' = M_READY"
proof -
  define q where "q = \<lparr>p_id = 0, p_leader = 1, p_replicas = [1], p_isrs = [1], p_low = 3, p_high = 8, p_topic = ''t''\<rparr>"
  define p where "p = \<lparr>t_name = ''t'', t_partitions = [q], t_groups = [], t_records_state = M_READY, t_groups_state = M_LOADING\<rparr>"
  define t where "t = p\<lparr>t_partitions := [q\<lparr>p_leader := 2, p_low := 0, p_high := 0\<rparr>], t_records_state := M_LOADING\<rparr>"
  have "distinct (map p_id (t_partitions p))" by (simp add: p_def)
  from refreshed_metrics_kept[of "[(''t'', p)]" "''t''" p "[(''t'', t)]" t, OF _ _ this]
  have "\<exists>t'. dget (preserve_completed_metrics [(''t'', p)] [(''t'', t)]) ''t'' = Some t' \<and> t_records_state t' = M_READY"
    by (auto simp: t_def p_def)
  then show ?thesis unfolding t_def p_def q_def Let_def .
qed

end
