(* ===== verification/Topic_Forms.thy ===== *)
theory Topic_Forms
  imports Topic_Service Group_Service
begin

text \<open>
  The forms of the admin application (\<open>admin/forms.py\<close>): creating a topic, editing one, and resetting
  the offsets of a consumer group, from the texts of their inputs to the command they dismiss with or
  the messages they show. A form's inputs are a record of texts; focus, loading and the review screens
  that follow are not modelled.

  Parameters: \<open>integer_failure minimum\<close> is Textual's \<open>Integer\<close> validator (the first description of its
  failure), and \<open>iso_time\<close> is \<open>datetime.fromisoformat\<close> followed by the conversion to milliseconds: \<open>None\<close>
  where the text is no ISO time, and otherwise what the conversion gives or raises.
\<close>

section \<open>Inputs\<close>

definition int_of :: "string \<Rightarrow> int res" where
  "int_of s = (case parse_int s of None \<Rightarrow> Inl (ValueError ''invalid literal for int() with base 10'') | Some n \<Rightarrow> Inr n)"

definition valid_topic_name :: "string \<Rightarrow> bool" where
  "valid_topic_name name \<longleftrightarrow>
     0 < length name \<and> length name \<le> 249 \<and> name \<noteq> ''.'' \<and> name \<noteq> ''..'' \<and>
     list_all (\<lambda>c. code c < 128 \<and>
       (is_decimal c \<or> 65 \<le> code c \<and> code c \<le> 90 \<or> 97 \<le> code c \<and> code c \<le> 122 \<or> c \<in> set ''._-'')) name"

definition valid_optional_positive_integer :: "string \<Rightarrow> bool res" where
  "valid_optional_positive_integer v =
     (if v = [] then Inr True else if \<not> isdigit v then Inr False else rbind (int_of v) (\<lambda>n. Inr (n \<ge> 1)))"

definition optional_int :: "string \<Rightarrow> int option res" where
  "optional_int v = (if v = [] then Inr None else map_sum id Some (int_of v))"

definition normalized_int :: "string \<Rightarrow> string option res" where
  "normalized_int v = (if v = [] then Inr None else rbind (int_of v) (\<lambda>n. Inr (Some (show_int n))))"

definition valid_optional_retention :: "string \<Rightarrow> bool res" where
  "valid_optional_retention v = Inr (v = [] \<or> (case parse_int v of None \<Rightarrow> False | Some n \<Rightarrow> n \<ge> - 1))"

section \<open>Validation\<close>

record form_inputs =
  fi_name :: string
  fi_partitions :: string
  fi_replicas :: string
  fi_min_insync :: string
  fi_retention :: string
  fi_policy :: "cleanup_policy option"

definition function_failure :: "string \<Rightarrow> bool res \<Rightarrow> string option res" where
  "function_failure description valid = rbind valid (\<lambda>b. Inr (if b then None else Some description))"

definition remove_dot :: "string \<Rightarrow> string" where
  "remove_dot s = (if s \<noteq> [] \<and> last s = CHR ''.'' then butlast s else s)"

text \<open>The inputs a form has, by label, with the failure of each.\<close>

fun input_failures :: "(string \<times> string option res) list \<Rightarrow> string list res" where
  "input_failures [] = Inr []"
| "input_failures ((label, failure) # rest) =
     rbind failure (\<lambda>f. rbind (input_failures rest) (\<lambda>fs.
       Inr (case f of None \<Rightarrow> fs | Some description \<Rightarrow> (label @ '': '' @ remove_dot description) # fs)))"

definition validated_inputs :: "string list res \<Rightarrow> string list res \<Rightarrow> string list res" where
  "validated_inputs failures cross_field =
     rbind failures (\<lambda>fs. if fs \<noteq> [] then Inr fs else cross_field)"

definition NAME_DESCRIPTION :: string where
  "NAME_DESCRIPTION = ''Enter a name up to 249 characters using letters, numbers, dots, underscores, or hyphens. The name can't be empty or consist only of one or two dots''"

definition BROKER_DEFAULT_DESCRIPTION :: string where
  "BROKER_DEFAULT_DESCRIPTION = ''Enter a positive integer or leave empty to use the broker default''"

definition CLUSTER_DEFAULT_DESCRIPTION :: string where
  "CLUSTER_DEFAULT_DESCRIPTION = ''Enter a positive integer or leave empty to use the cluster default''"

definition RETENTION_DESCRIPTION :: string where
  "RETENTION_DESCRIPTION = ''Enter -1, 0, or a positive integer, or leave empty to use the cluster default''"

section \<open>Creating a topic\<close>

definition create_form_new :: form_inputs where
  "create_form_new =
     \<lparr>fi_name = [], fi_partitions = show_int 1, fi_replicas = [], fi_min_insync = [],
      fi_retention = show_int MILLISECONDS_1W, fi_policy = Some CP_DELETE\<rparr>"

definition cross_field_failures :: "form_inputs \<Rightarrow> string list res" where
  "cross_field_failures inputs =
     rbind (optional_int (fi_replicas inputs)) (\<lambda>replicas.
     rbind (optional_int (fi_min_insync inputs)) (\<lambda>min_insync.
       Inr (case (replicas, min_insync) of
              (Some r, Some m) \<Rightarrow> if m \<le> r then [] else [''Min In-Sync Replicas cannot exceed Replication Factor'']
            | _ \<Rightarrow> [])))"

definition create_failures :: "(int \<Rightarrow> string \<Rightarrow> string option) \<Rightarrow> form_inputs \<Rightarrow> string list res" where
  "create_failures integer_failure inputs =
     validated_inputs
       (input_failures
          [(''Name'', function_failure NAME_DESCRIPTION (Inr (valid_topic_name (fi_name inputs)))),
           (''Partitions'', Inr (integer_failure 1 (fi_partitions inputs))),
           (''Replication Factor'', function_failure BROKER_DEFAULT_DESCRIPTION (valid_optional_positive_integer (fi_replicas inputs))),
           (''Min In-Sync Replicas'', function_failure BROKER_DEFAULT_DESCRIPTION (valid_optional_positive_integer (fi_min_insync inputs))),
           (''Retention'', Inr (integer_failure (- 1) (fi_retention inputs)))])
       (cross_field_failures inputs)"

definition action_create :: "(int \<Rightarrow> string \<Rightarrow> string option) \<Rightarrow> form_inputs \<Rightarrow> (string list + create_topic_command) res" where
  "action_create integer_failure inputs =
     rbind (create_failures integer_failure inputs) (\<lambda>failures.
       if failures \<noteq> [] then Inr (Inl failures)
       else
         rbind (int_of (fi_partitions inputs)) (\<lambda>partitions.
         rbind (optional_int (fi_replicas inputs)) (\<lambda>replicas.
         rbind (optional_int (fi_min_insync inputs)) (\<lambda>min_insync.
         rbind (int_of (fi_retention inputs)) (\<lambda>retention.
           Inr (Inr \<lparr>ct_name = fi_name inputs, ct_partitions = partitions, ct_replicas = replicas,
             ct_min_insync_replicas = min_insync,
             ct_cleanup_policy = cleanup_str (case fi_policy inputs of Some p \<Rightarrow> p | None \<Rightarrow> CP_DELETE),
             ct_retention_ms = retention\<rparr>))))))"

section \<open>Editing a topic\<close>

type_synonym configurations = "(string, topic_configuration) pydict"

definition configurations_of :: "topic_configuration list \<Rightarrow> configurations" where
  "configurations_of cs = dict_of (map (\<lambda>c. (tc_name c, c)) cs)"

definition current_value :: "configurations \<Rightarrow> string \<Rightarrow> string" where
  "current_value cs name = (case dget cs name of None \<Rightarrow> [] | Some c \<Rightarrow> tc_value c)"

definition edit_form_new :: "topic \<Rightarrow> configurations \<Rightarrow> form_inputs" where
  "edit_form_new t cs =
     \<lparr>fi_name = [], fi_partitions = show_nat (t_partitions_count t), fi_replicas = [],
      fi_min_insync = current_value cs MIN_INSYNC_REPLICAS_CONFIG, fi_retention = current_value cs RETENTION_MS_CONFIG,
      fi_policy = find (\<lambda>p. cleanup_str p = current_value cs CLEANUP_POLICY_CONFIG) [CP_DELETE, CP_COMPACT]\<rparr>"

definition edit_failures :: "(int \<Rightarrow> string \<Rightarrow> string option) \<Rightarrow> topic \<Rightarrow> form_inputs \<Rightarrow> string list res" where
  "edit_failures integer_failure t inputs =
     validated_inputs
       (input_failures
          [(''Partitions'', Inr (integer_failure (int (t_partitions_count t)) (fi_partitions inputs))),
           (''Min In-Sync Replicas'', function_failure CLUSTER_DEFAULT_DESCRIPTION (valid_optional_positive_integer (fi_min_insync inputs))),
           (''Retention'', function_failure RETENTION_DESCRIPTION (valid_optional_retention (fi_retention inputs)))])
       (Inr [])"

definition change_of :: "configurations \<Rightarrow> string \<Rightarrow> string option \<Rightarrow> config_change option" where
  "change_of cs name v =
     (let current = current_value cs name in
      case v of
        None \<Rightarrow>
          (case dget cs name of
             None \<Rightarrow> None
           | Some c \<Rightarrow> if tc_overridden c then Some \<lparr>cc_name = name, cc_current = current, cc_value = None\<rparr> else None)
      | Some w \<Rightarrow> if w = current then None else Some \<lparr>cc_name = name, cc_current = current, cc_value = Some w\<rparr>)"

definition update_command :: "topic \<Rightarrow> configurations \<Rightarrow> form_inputs \<Rightarrow> update_topic_command res" where
  "update_command t cs inputs =
     rbind (int_of (fi_partitions inputs)) (\<lambda>partitions.
     rbind (normalized_int (fi_min_insync inputs)) (\<lambda>min_insync.
     let policy = (case fi_policy inputs of Some p \<Rightarrow> cleanup_str p | None \<Rightarrow> current_value cs CLEANUP_POLICY_CONFIG) in
     rbind (normalized_int (fi_retention inputs)) (\<lambda>retention.
       Inr \<lparr>ut_partitions = (if partitions > int (t_partitions_count t) then Some partitions else None),
            ut_configs = concat (map (\<lambda>(name, v). case change_of cs name v of None \<Rightarrow> [] | Some c \<Rightarrow> [c])
              [(MIN_INSYNC_REPLICAS_CONFIG, min_insync), (CLEANUP_POLICY_CONFIG, Some policy),
               (RETENTION_MS_CONFIG, retention)])\<rparr>)))"

text \<open>What saving does: messages, nothing to change, or a command to review.\<close>

datatype edit_outcome = EditInvalid "string list" | EditUnchanged | EditReview update_topic_command

definition action_edit :: "(int \<Rightarrow> string \<Rightarrow> string option) \<Rightarrow> topic \<Rightarrow> configurations \<Rightarrow> form_inputs \<Rightarrow> edit_outcome res" where
  "action_edit integer_failure t cs inputs =
     rbind (edit_failures integer_failure t inputs) (\<lambda>failures.
       if failures \<noteq> [] then Inr (EditInvalid failures)
       else rbind (update_command t cs inputs) (\<lambda>command.
         Inr (if \<not> ut_changed command then EditUnchanged else EditReview command)))"

section \<open>Resetting offsets\<close>

definition PARTITIONS_FAILURE :: string where
  "PARTITIONS_FAILURE = ''Partitions: enter distinct partition IDs separated by commas, or leave empty for all''"

definition parse_timestamp :: "(string \<Rightarrow> int res option) \<Rightarrow> string \<Rightarrow> int option res" where
  "parse_timestamp iso_time v =
     (if isdigit v then map_sum id Some (int_of v)
      else (case iso_time v of None \<Rightarrow> Inr None | Some r \<Rightarrow> map_sum id Some r))"

definition partitions_placeholder :: "int \<Rightarrow> string" where
  "partitions_placeholder count =
     (if count = 1 then ''Empty for all, or 0''
      else ''Empty for all, or comma-separated IDs from 0 to '' @ show_int (count - 1))"

definition parse_partitions :: "string \<Rightarrow> nat \<Rightarrow> int list option res" where
  "parse_partitions v count =
     (if strip v = [] then Inr (Some (map int [0..<count]))
      else
        (let items = map strip (split_on CHR '','' v) in
         if \<not> list_all isdigit items then Inr None
         else rbind (map_res int_of items) (\<lambda>partitions.
           Inr (if \<not> distinct partitions \<or> list_ex (\<lambda>p. p \<ge> int count) partitions then None else Some partitions))))"

definition target_value :: "(string \<Rightarrow> int res option) \<Rightarrow> offset_target \<Rightarrow> string \<Rightarrow> (int \<times> string option) res" where
  "target_value iso_time target v =
     (case target of
        TARGET_TIMESTAMP \<Rightarrow>
          rbind (parse_timestamp iso_time v) (\<lambda>timestamp.
            Inr (case timestamp of None \<Rightarrow> (0, Some ''Timestamp: enter an ISO 8601 time or epoch milliseconds'') | Some t \<Rightarrow> (t, None)))
      | TARGET_OFFSET \<Rightarrow>
          if \<not> isdigit v then Inr (0, Some ''Offset: enter a non-negative integer'')
          else rbind (int_of v) (\<lambda>n. Inr (n, None))
      | _ \<Rightarrow> Inr (0, None))"

definition reset_command ::
  "(string \<Rightarrow> int res option) \<Rightarrow> topic \<Rightarrow> string \<Rightarrow> offset_target \<Rightarrow> string \<Rightarrow> string \<Rightarrow> (string + reset_offsets_command) res" where
  "reset_command iso_time t gid target value_text partitions_text =
     rbind (target_value iso_time target (strip value_text)) (\<lambda>(v, failure).
       case failure of
         Some message \<Rightarrow> Inr (Inl message)
       | None \<Rightarrow>
           rbind (parse_partitions partitions_text (t_partitions_count t)) (\<lambda>partitions.
             case partitions of
               None \<Rightarrow> Inr (Inl PARTITIONS_FAILURE)
             | Some ps \<Rightarrow>
                 Inr (Inr \<lparr>ro_group = gid, ro_topic = t_name t, ro_partitions = ps, ro_target = target, ro_value = v\<rparr>)))"

section \<open>Lemmas\<close>

text \<open>What Textual documents of its \<open>Integer\<close> validator: it accepts only integers from the minimum on.\<close>

definition integer_validator :: "(int \<Rightarrow> string \<Rightarrow> string option) \<Rightarrow> bool" where
  "integer_validator integer_failure \<longleftrightarrow>
     (\<forall>minimum v. integer_failure minimum v = None \<longrightarrow> (\<exists>n. parse_int v = Some n \<and> minimum \<le> n))"

lemma input_failures_none:
  "input_failures labelled = Inr [] \<Longrightarrow> list_all (\<lambda>(_, failure). failure = Inr None) labelled"
  by (induction labelled) (auto simp: res_simps split: option.splits)

lemma function_failure_none: "function_failure d valid = Inr None \<longleftrightarrow> valid = Inr True"
  by (auto simp: function_failure_def res_simps)

lemma optional_positive:
  "valid_optional_positive_integer v = Inr True \<Longrightarrow> optional_int v = Inr r \<Longrightarrow> r = None \<or> (\<exists>n \<ge> 1. r = Some n)"
  by (auto simp: valid_optional_positive_integer_def optional_int_def res_simps split: if_splits)

text \<open>Text that a form shows for numbers.\<close>

lemma show_nat_isdigit: "isdigit (show_nat n)"
  using show_nat_decimal[of n] by (auto simp: isdigit_def is_digit_char_def list_all_iff)

lemma int_of_show [simp]: "int_of (show_int n) = Inr n" "int_of (show_nat m) = Inr (int m)"
  by (simp_all add: int_of_def parse_int_show_nat)

lemma strip_show_nat [simp]: "strip (show_nat n) = show_nat n"
  using strip_decimal show_nat_decimal by simp

lemma show_nat_no_comma: "CHR '','' \<notin> set (show_nat n)"
  using show_nat_decimal[of n] by (auto simp: list_all_iff is_decimal_def code_def)

lemma strip_join_nonempty: "ns \<noteq> [] \<Longrightarrow> strip (join '','' (map show_nat ns)) \<noteq> []"
proof -
  assume "ns \<noteq> []"
  then obtain n ms where ns: "ns = n # ms" by (cases ns) auto
  obtain c cs where c: "show_nat n = c # cs" using show_nat_nonempty[of n] by (cases "show_nat n") auto
  have "\<not> is_space c" using show_nat_decimal[of n] c by (auto dest: decimal_not_space)
  moreover have "c \<in> set (join '','' (map show_nat ns))" by (cases ms) (simp_all add: ns c)
  moreover have "strip s = [] \<Longrightarrow> \<forall>x \<in> set s. is_space x" for s
    by (auto simp: strip_def dropWhile_eq_Nil_conv) (metis (no_types) Un_iff dropWhile_eq_Nil_conv set_append set_rev takeWhile_dropWhile_id set_takeWhileD)
  ultimately show ?thesis by blast
qed

lemma map_res_int_of: "map_res int_of (map show_nat ns) = Inr (map int ns)"
  by (induction ns) simp_all

lemma parse_partitions_Inr:
  assumes "parse_partitions v count = Inr (Some ps)"
  shows "distinct ps \<and> set ps \<subseteq> {0..<int count} \<and> (strip v = [] \<longrightarrow> ps = map int [0..<count])"
proof (cases "strip v = []")
  case True
  then show ?thesis using assms by (auto simp: parse_partitions_def distinct_map)
next
  case False
  let ?items = "map strip (split_on CHR '','' v)"
  have p: "map_res int_of ?items = Inr ps" "distinct ps" "\<forall>p \<in> set ps. p < int count" and digits: "\<forall>i \<in> set ?items. isdigit i"
    using assms False by (auto simp: parse_partitions_def Let_def res_simps list_all_iff list_ex_iff split: if_splits)
  have "0 \<le> p" if pin: "p \<in> set ps" for p
  proof -
    obtain i where i: "i \<in> set ?items" "int_of i = Inr p" using map_res_set[OF p(1) pin] by blast
    then have "isdigit i" using digits by blast
    moreover have "unsigned_int t = Some n \<Longrightarrow> 0 \<le> n" for t n
      by (auto simp: unsigned_int_def Let_def list_all_iff intro!: digits_value_nonneg split: if_splits)
    moreover have "CHR ''-'' \<notin> set i" using \<open>isdigit i\<close> by (auto simp: isdigit_def list_all_iff is_digit_char_def is_decimal_def code_def)
    then have "strip i = c # cs \<Longrightarrow> c \<noteq> CHR ''-''" for c cs using set_strip[of i] by auto
    ultimately show "0 \<le> p" using i(2) by (auto simp: int_of_def parse_int_def split: option.splits list.splits if_splits)
  qed
  then show ?thesis using p(2,3) False by auto
qed

section \<open>Properties\<close>

text \<open>What Kafka takes as the name of a topic.\<close>

definition legal_topic_name :: "string \<Rightarrow> bool" where
  "legal_topic_name name \<longleftrightarrow>
     name \<noteq> [] \<and> length name \<le> 249 \<and> name \<noteq> ''.'' \<and> name \<noteq> ''..'' \<and>
     set name \<subseteq> set ''abcdefghijklmnopqrstuvwxyz'' \<union> set ''ABCDEFGHIJKLMNOPQRSTUVWXYZ'' \<union> set ''0123456789'' \<union> set ''._-''"

lemma character_codes:
  "map code ''abcdefghijklmnopqrstuvwxyz'' = [97..<123]" "map code ''ABCDEFGHIJKLMNOPQRSTUVWXYZ'' = [65..<91]"
  "map code ''0123456789'' = [48..<58]"
  by code_simp+

lemma character_of_code:
  assumes "map code s = [a..<b]" and "a \<le> code c" and "code c < b"
  shows "c \<in> set s"
proof -
  have "code c \<in> set (map code s)" unfolding assms(1) using assms(2,3) by simp
  then show ?thesis by (auto simp: code_def)
qed

lemma valid_name_legal:
  assumes "valid_topic_name name"
  shows "legal_topic_name name"
proof -
  have "c \<in> set ''abcdefghijklmnopqrstuvwxyz'' \<union> set ''ABCDEFGHIJKLMNOPQRSTUVWXYZ'' \<union> set ''0123456789'' \<union> set ''._-''"
    if "c \<in> set name" for c
  proof -
    have "48 \<le> code c \<and> code c \<le> 57 \<or> 65 \<le> code c \<and> code c \<le> 90 \<or> 97 \<le> code c \<and> code c \<le> 122 \<or> c \<in> set ''._-''"
      using assms that unfolding valid_topic_name_def list_all_iff is_decimal_def by blast
    then show ?thesis
    proof (elim disjE conjE)
      assume "48 \<le> code c" "code c \<le> 57"
      then have "c \<in> set ''0123456789''" by (intro character_of_code[OF character_codes(3)]) simp_all
      then show ?thesis by blast
    next
      assume "65 \<le> code c" "code c \<le> 90"
      then have "c \<in> set ''ABCDEFGHIJKLMNOPQRSTUVWXYZ''" by (intro character_of_code[OF character_codes(2)]) simp_all
      then show ?thesis by blast
    next
      assume "97 \<le> code c" "code c \<le> 122"
      then have "c \<in> set ''abcdefghijklmnopqrstuvwxyz''" by (intro character_of_code[OF character_codes(1)]) simp_all
      then show ?thesis by blast
    qed blast
  qed
  then show ?thesis using assms unfolding valid_topic_name_def legal_topic_name_def length_greater_0_conv by blast
qed

text \<open>C33: the topic form creates only topics Kafka can create: a name of 1 to 249 letters, digits, dots, underscores and
  hyphens that is neither one dot nor two, at least one partition, a retention of at least -1, one of the two
  cleanup policies, positive replication settings where they are filled in, and no more in-sync replicas
  than replicas where both are.\<close>

theorem create_command_valid:
  assumes "action_create integer_failure inputs = Inr (Inr c)" and "integer_validator integer_failure"
  shows "legal_topic_name (ct_name c) \<and> 1 \<le> ct_partitions c \<and> - 1 \<le> ct_retention_ms c \<and>
    (ct_cleanup_policy c = ''delete'' \<or> ct_cleanup_policy c = ''compact'') \<and>
    (\<forall>r. ct_replicas c = Some r \<longrightarrow> 1 \<le> r) \<and> (\<forall>m. ct_min_insync_replicas c = Some m \<longrightarrow> 1 \<le> m) \<and>
    (\<forall>r m. ct_replicas c = Some r \<and> ct_min_insync_replicas c = Some m \<longrightarrow> m \<le> r)"
proof -
  have f: "create_failures integer_failure inputs = Inr []"
    and p: "int_of (fi_partitions inputs) = Inr (ct_partitions c)" and r: "optional_int (fi_replicas inputs) = Inr (ct_replicas c)"
    and m: "optional_int (fi_min_insync inputs) = Inr (ct_min_insync_replicas c)"
    and t: "int_of (fi_retention inputs) = Inr (ct_retention_ms c)" and n: "ct_name c = fi_name inputs"
    and policy: "\<exists>q. ct_cleanup_policy c = cleanup_str q"
    using assms(1) by (auto simp: action_create_def res_simps split: if_splits)
  note fs = f[unfolded create_failures_def validated_inputs_def rbind_eq_Inr]
  then obtain fs where fs: "input_failures
          [(''Name'', function_failure NAME_DESCRIPTION (Inr (valid_topic_name (fi_name inputs)))),
           (''Partitions'', Inr (integer_failure 1 (fi_partitions inputs))),
           (''Replication Factor'', function_failure BROKER_DEFAULT_DESCRIPTION (valid_optional_positive_integer (fi_replicas inputs))),
           (''Min In-Sync Replicas'', function_failure BROKER_DEFAULT_DESCRIPTION (valid_optional_positive_integer (fi_min_insync inputs))),
           (''Retention'', Inr (integer_failure (- 1) (fi_retention inputs)))] = Inr []"
    and cross: "cross_field_failures inputs = Inr []"
    by (auto split: if_splits)
  have "valid_topic_name (fi_name inputs)" "integer_failure 1 (fi_partitions inputs) = None"
    "valid_optional_positive_integer (fi_replicas inputs) = Inr True" "valid_optional_positive_integer (fi_min_insync inputs) = Inr True"
    "integer_failure (- 1) (fi_retention inputs) = None"
    using input_failures_none[OF fs] by (simp_all add: function_failure_none)
  moreover have "cleanup_str CP_DELETE = ''delete''" "cleanup_str CP_COMPACT = ''compact''" by code_simp+
  then have "ct_cleanup_policy c = ''delete'' \<or> ct_cleanup_policy c = ''compact''"
    using policy by (metis cleanup_policy.exhaust)
  moreover have "ct_replicas c = Some x \<Longrightarrow> ct_min_insync_replicas c = Some y \<Longrightarrow> y \<le> x" for x y
    using cross r m by (simp add: cross_field_failures_def split: if_splits)
  moreover have "1 \<le> ct_partitions c"
  proof -
    obtain k where "parse_int (fi_partitions inputs) = Some k" "1 \<le> k"
      using calculation(2) assms(2) unfolding integer_validator_def by blast
    then show ?thesis using p by (simp add: int_of_def)
  qed
  moreover have "- 1 \<le> ct_retention_ms c"
  proof -
    obtain k where "parse_int (fi_retention inputs) = Some k" "- 1 \<le> k"
      using calculation(5) assms(2) unfolding integer_validator_def by blast
    then show ?thesis using t by (simp add: int_of_def)
  qed
  ultimately show ?thesis
    using n valid_name_legal optional_positive[OF _ r] optional_positive[OF _ m] by auto
qed

definition checked_integer :: "int \<Rightarrow> string \<Rightarrow> string option" where
  "checked_integer minimum v =
     (case parse_int v of
        Some n \<Rightarrow> if minimum \<le> n then None else Some ''Must be greater than or equal to the minimum.''
      | None \<Rightarrow> Some ''Must be a valid integer.'')"

definition filled_form :: "string \<Rightarrow> string \<Rightarrow> form_inputs" where
  "filled_form replicas min_insync =
     \<lparr>fi_name = ''orders.v1'', fi_partitions = ''1'', fi_replicas = replicas, fi_min_insync = min_insync,
      fi_retention = ''604800000'', fi_policy = Some CP_DELETE\<rparr>"

lemma checked_integer_validator: "integer_validator checked_integer"
  by (auto simp: integer_validator_def checked_integer_def split: option.splits if_splits)

theorem create_command_valid_witness:
  "\<exists>c. action_create checked_integer (filled_form ''3'' ''2'') = Inr (Inr c) \<and>
     ct_retention_ms c = 604800000 \<and> 1 \<le> ct_partitions c \<and>
     action_create checked_integer (filled_form ''1'' ''2'') =
       Inr (Inl [''Min In-Sync Replicas cannot exceed Replication Factor''])"
proof -
  let ?c = "\<lparr>ct_name = ''orders.v1'', ct_partitions = 1, ct_replicas = Some 3, ct_min_insync_replicas = Some 2,
     ct_cleanup_policy = ''delete'', ct_retention_ms = 604800000\<rparr>"
  have c: "action_create checked_integer (filled_form ''3'' ''2'') = Inr (Inr ?c)"
    by code_simp
  have "action_create checked_integer (filled_form ''1'' ''2'') =
       Inr (Inl [''Min In-Sync Replicas cannot exceed Replication Factor''])" by code_simp
  moreover have "ct_retention_ms ?c = 604800000" by simp
  moreover have "1 \<le> ct_partitions ?c" using create_command_valid[OF c checked_integer_validator] by blast
  ultimately show ?thesis using c by blast
qed

text \<open>The partitions of an offset reset are real ones: an accepted text names distinct partitions of the topic, a
  blank one all of them, and every list of distinct partitions can be typed, as their numbers joined
  by commas.\<close>

theorem reset_partitions_exact:
  "(case parse_partitions v count of
      Inr (Some ps) \<Rightarrow> distinct ps \<and> set ps \<subseteq> {0..<int count} \<and> (if strip v = [] then ps = map int [0..<count] else True)
    | _ \<Rightarrow> strip v \<noteq> []) \<and>
   (distinct ns \<and> set ns \<subseteq> {0..<count} \<and> ns \<noteq> [] \<longrightarrow> parse_partitions (join '','' (map show_nat ns)) count = Inr (Some (map int ns)))"
proof -
  have "parse_partitions (join '','' (map show_nat ns)) count = Inr (Some (map int ns))"
    if ns: "distinct ns" "set ns \<subseteq> {0..<count}" "ns \<noteq> []"
  proof -
    have "split_on CHR '','' (join [CHR '',''] (map show_nat ns)) = map show_nat ns"
      by (rule split_join) (use ns(3) show_nat_no_comma in auto)
    then have items: "map strip (split_on CHR '','' (join '','' (map show_nat ns))) = map show_nat ns" by (simp add: comp_def)
    have digits: "list_all isdigit (map show_nat ns)" using show_nat_isdigit by (simp add: list_all_iff)
    have small: "\<not> list_ex (\<lambda>p. p \<ge> int count) (map int ns)" using ns(2) by (auto simp: list_ex_iff)
    have "distinct (map int ns)" using ns(1) by (simp add: distinct_map)
    then show ?thesis
      using strip_join_nonempty[OF ns(3)] digits small unfolding parse_partitions_def Let_def items
      by (simp add: map_res_int_of)
  qed
  moreover have "strip v = [] \<Longrightarrow> parse_partitions v count = Inr (Some (map int [0..<count]))" by (simp add: parse_partitions_def)
  ultimately show ?thesis
    using parse_partitions_Inr[of v count] by (auto split: sum.splits option.splits)
qed

theorem reset_partitions_exact_witness:
  "parse_partitions ''2,0'' 3 = Inr (Some [2, 0])"
proof -
  have "join '','' (map show_nat [2, 0]) = ''2,0''" by code_simp
  moreover have "distinct [2::nat, 0] \<and> set [2::nat, 0] \<subseteq> {0..<3} \<and> [2::nat, 0] \<noteq> []" by auto
  ultimately show ?thesis using conjunct2[OF reset_partitions_exact[of "[]" 3 "[2, 0]"]] by simp
qed

text \<open>A superscript digit gets through: \<open>str.isdigit\<close> holds of the superscript two, which \<open>int\<close> refuses, so the reset form
  raises instead of showing its message, for partitions and for the offset.\<close>

theorem superscript_uncaught:
  "(\<exists>m. parse_partitions [CHR 0xB2] count = Inl (ValueError m)) \<and>
   (\<exists>m. target_value iso_time TARGET_OFFSET [CHR 0xB2] = Inl (ValueError m))"
proof -
  have i: "isdigit [CHR 0xB2]" "int_of [CHR 0xB2] = Inl (ValueError ''invalid literal for int() with base 10'')"
    and s: "strip [CHR 0xB2] = [CHR 0xB2]" "split_on CHR '','' [CHR 0xB2] = [[CHR 0xB2]]" by code_simp+
  then show ?thesis by (simp add: parse_partitions_def target_value_def)
qed

text \<open>Numbers as the forms write them.\<close>

definition canonical :: "string \<Rightarrow> bool" where
  "canonical v \<longleftrightarrow> v = [] \<or> (\<exists>n. v = show_int n)"

lemma normalized_canonical: "canonical v \<Longrightarrow> normalized_int v = Inr (if v = [] then None else Some v)"
  by (auto simp: canonical_def normalized_int_def)

definition unset_is_default :: "configurations \<Rightarrow> string \<Rightarrow> bool" where
  "unset_is_default cs name \<longleftrightarrow> (case dget cs name of None \<Rightarrow> True | Some c \<Rightarrow> tc_value c = [] \<longrightarrow> \<not> tc_overridden c)"

lemma change_of_current:
  "unset_is_default cs name \<Longrightarrow>
   change_of cs name (if current_value cs name = [] then None else Some (current_value cs name)) = None"
  by (auto simp: change_of_def Let_def current_value_def unset_is_default_def split: option.splits)

lemma collected:
  "x \<in> set (concat (map (\<lambda>(n, v). case f n v of None \<Rightarrow> [] | Some c \<Rightarrow> [c]) nvs)) \<Longrightarrow> \<exists>n v. (n, v) \<in> set nvs \<and> f n v = Some x"
proof -
  assume "x \<in> set (concat (map (\<lambda>(n, v). case f n v of None \<Rightarrow> [] | Some c \<Rightarrow> [c]) nvs))"
  then obtain n v where "(n, v) \<in> set nvs" "x \<in> set (case f n v of None \<Rightarrow> [] | Some c \<Rightarrow> [c])" by auto
  then show ?thesis by (cases "f n v") auto
qed

text \<open>An edit is a minimal one: saving the form as it was opened changes nothing, and every change a command makes
  is one of the three configurations with another value than the broker's, or the reset of an
  overridden one; partitions are only ever added.\<close>

theorem edit_changes_minimal:
  assumes "update_command t cs inputs = Inr c"
  shows "(\<forall>n. ut_partitions c = Some n \<longrightarrow> int (t_partitions_count t) < n) \<and>
    (\<forall>x \<in> set (ut_configs c). cc_name x \<in> {MIN_INSYNC_REPLICAS_CONFIG, CLEANUP_POLICY_CONFIG, RETENTION_MS_CONFIG} \<and>
       cc_current x = current_value cs (cc_name x) \<and>
       (case cc_value x of Some v \<Rightarrow> v \<noteq> current_value cs (cc_name x)
        | None \<Rightarrow> \<exists>k. dget cs (cc_name x) = Some k \<and> tc_overridden k)) \<and>
    (inputs = edit_form_new t cs \<and> canonical (current_value cs MIN_INSYNC_REPLICAS_CONFIG) \<and>
       canonical (current_value cs RETENTION_MS_CONFIG) \<and> unset_is_default cs MIN_INSYNC_REPLICAS_CONFIG \<and>
       unset_is_default cs RETENTION_MS_CONFIG \<longrightarrow> \<not> ut_changed c)"
proof -
  have change: "change_of cs n v = Some x \<Longrightarrow> cc_name x = n \<and> cc_current x = current_value cs n \<and>
      (case cc_value x of Some w \<Rightarrow> w \<noteq> current_value cs n | None \<Rightarrow> \<exists>k. dget cs n = Some k \<and> tc_overridden k)" for n v x
    by (auto simp: change_of_def Let_def split: option.splits if_splits)
  obtain p m r where p: "int_of (fi_partitions inputs) = Inr p" and m: "normalized_int (fi_min_insync inputs) = Inr m"
    and r: "normalized_int (fi_retention inputs) = Inr r"
    and parts: "ut_partitions c = (if p > int (t_partitions_count t) then Some p else None)"
    and configs: "ut_configs c = concat (map (\<lambda>(name, v). case change_of cs name v of None \<Rightarrow> [] | Some c \<Rightarrow> [c])
              [(MIN_INSYNC_REPLICAS_CONFIG, m),
               (CLEANUP_POLICY_CONFIG, Some (case fi_policy inputs of Some p \<Rightarrow> cleanup_str p | None \<Rightarrow> current_value cs CLEANUP_POLICY_CONFIG)),
               (RETENTION_MS_CONFIG, r)])"
    using assms by (auto simp: update_command_def Let_def res_simps)
  have "\<not> ut_changed c" if i: "inputs = edit_form_new t cs" and c: "canonical (current_value cs MIN_INSYNC_REPLICAS_CONFIG)"
      "canonical (current_value cs RETENTION_MS_CONFIG)" and u: "unset_is_default cs MIN_INSYNC_REPLICAS_CONFIG"
      "unset_is_default cs RETENTION_MS_CONFIG"
  proof -
    have "p = int (t_partitions_count t)" using p i by (simp add: edit_form_new_def)
    moreover have "change_of cs MIN_INSYNC_REPLICAS_CONFIG m = None" "change_of cs RETENTION_MS_CONFIG r = None"
      using m r i normalized_canonical[OF c(1)] normalized_canonical[OF c(2)] change_of_current[OF u(1)] change_of_current[OF u(2)]
      by (auto simp: edit_form_new_def split: if_splits)
    moreover have "(case fi_policy inputs of Some p \<Rightarrow> cleanup_str p | None \<Rightarrow> current_value cs CLEANUP_POLICY_CONFIG) =
        current_value cs CLEANUP_POLICY_CONFIG"
      by (auto simp: i edit_form_new_def find_Some_iff split: option.split)
    then have "change_of cs CLEANUP_POLICY_CONFIG (Some (case fi_policy inputs of Some p \<Rightarrow> cleanup_str p
        | None \<Rightarrow> current_value cs CLEANUP_POLICY_CONFIG)) = None"
      by (simp add: change_of_def)
    ultimately show ?thesis using parts configs by (simp add: ut_changed_def)
  qed
  moreover have "\<forall>x \<in> set (ut_configs c). cc_name x \<in> {MIN_INSYNC_REPLICAS_CONFIG, CLEANUP_POLICY_CONFIG, RETENTION_MS_CONFIG} \<and>
       cc_current x = current_value cs (cc_name x) \<and>
       (case cc_value x of Some v \<Rightarrow> v \<noteq> current_value cs (cc_name x)
        | None \<Rightarrow> \<exists>k. dget cs (cc_name x) = Some k \<and> tc_overridden k)"
  proof
    fix x assume "x \<in> set (ut_configs c)"
    then obtain n v where nv: "(n, v) \<in> set [(MIN_INSYNC_REPLICAS_CONFIG, m),
               (CLEANUP_POLICY_CONFIG, Some (case fi_policy inputs of Some p \<Rightarrow> cleanup_str p | None \<Rightarrow> current_value cs CLEANUP_POLICY_CONFIG)),
               (RETENTION_MS_CONFIG, r)]" and x: "change_of cs n v = Some x"
      unfolding configs by (blast dest: collected)
    from nv have n: "n \<in> {MIN_INSYNC_REPLICAS_CONFIG, CLEANUP_POLICY_CONFIG, RETENTION_MS_CONFIG}" by auto
    from change[OF x] n show "cc_name x \<in> {MIN_INSYNC_REPLICAS_CONFIG, CLEANUP_POLICY_CONFIG, RETENTION_MS_CONFIG} \<and>
       cc_current x = current_value cs (cc_name x) \<and>
       (case cc_value x of Some v \<Rightarrow> v \<noteq> current_value cs (cc_name x)
        | None \<Rightarrow> \<exists>k. dget cs (cc_name x) = Some k \<and> tc_overridden k)" by (cases "cc_value x") auto
  qed
  ultimately show ?thesis using parts by (auto split: if_splits)
qed

theorem edit_changes_minimal_witness:
  "let t = \<lparr>t_name = ''orders'', t_partitions = [], t_groups = [], t_records_state = M_UNAVAILABLE, t_groups_state = M_UNAVAILABLE\<rparr>;
       cs = configurations_of [\<lparr>tc_name = MIN_INSYNC_REPLICAS_CONFIG, tc_value = ''2'', tc_overridden = True\<rparr>,
                               \<lparr>tc_name = RETENTION_MS_CONFIG, tc_value = ''60'', tc_overridden = True\<rparr>];
       c = \<lparr>ut_partitions = Some 3, ut_configs = [\<lparr>cc_name = MIN_INSYNC_REPLICAS_CONFIG, cc_current = ''2'', cc_value = None\<rparr>]\<rparr>
   in update_command t cs \<lparr>fi_name = [], fi_partitions = ''3'', fi_replicas = [], fi_min_insync = [], fi_retention = ''60'', fi_policy = None\<rparr> = Inr c \<and>
      (\<forall>n. ut_partitions c = Some n \<longrightarrow> int (t_partitions_count t) < n)"
proof -
  let ?t = "\<lparr>t_name = ''orders'', t_partitions = [], t_groups = [], t_records_state = M_UNAVAILABLE, t_groups_state = M_UNAVAILABLE\<rparr>"
  let ?cs = "configurations_of [\<lparr>tc_name = MIN_INSYNC_REPLICAS_CONFIG, tc_value = ''2'', tc_overridden = True\<rparr>,
                               \<lparr>tc_name = RETENTION_MS_CONFIG, tc_value = ''60'', tc_overridden = True\<rparr>]"
  have c: "update_command ?t ?cs \<lparr>fi_name = [], fi_partitions = ''3'', fi_replicas = [], fi_min_insync = [], fi_retention = ''60'', fi_policy = None\<rparr> =
    Inr \<lparr>ut_partitions = Some 3, ut_configs = [\<lparr>cc_name = MIN_INSYNC_REPLICAS_CONFIG, cc_current = ''2'', cc_value = None\<rparr>]\<rparr>"
    by code_simp
  show ?thesis unfolding Let_def using c conjunct1[OF edit_changes_minimal[OF c]] by blast
qed

end
