(* ===== verification/Topic_Details.thy ===== *)
theory Topic_Details
  imports Topic_List
begin

text \<open>
  The screens of admin mode above the topic list (\<open>admin/screens.py\<close>): the details of a topic with their
  tables and the group actions they offer, the reviews of an edit and of an offset reset, and the
  confirmation of a deletion. The group actions are those of \<open>ListTopics\<close> (\<open>admin/topics.py\<close>), whose
  mutations the theory \<open>Topic_List\<close> models.

  A table is its rows, and its cursor stands on a row of it, as Textual's does; the cursors are a
  dictionary from tab to row. A refreshed topic replaces the old one at once, but its tables are built later, while
  the old ones may still take keys: \<open>td_topic\<close> is the topic the actions use and \<open>td_shown\<close> the one the tables
  were built from. The new tables have their cursors on their first rows.
\<close>

section \<open>Reviews and confirmations\<close>

definition CLUSTER_DEFAULT :: string where "CLUSTER_DEFAULT = ''Cluster default''"

definition change_rows :: "topic \<Rightarrow> update_topic_command \<Rightarrow> string list list" where
  "change_rows t command =
     (case ut_partitions command of
        None \<Rightarrow> []
      | Some n \<Rightarrow> [[''Partitions'', ''Increase'', show_nat (t_partitions_count t), show_int n]])
     @ map (\<lambda>change. case cc_value change of
         None \<Rightarrow> [cc_name change, ''Reset'', cc_current change, CLUSTER_DEFAULT]
       | Some v \<Rightarrow> [cc_name change, ''Set'', cc_current change, v]) (ut_configs command)"

definition reset_rows :: "offset_reset_plan \<Rightarrow> string list list" where
  "reset_rows plan =
     map (\<lambda>reset. [show_int (or_part reset), case or_current reset of None \<Rightarrow> UNAVAILABLE_METRIC | Some n \<Rightarrow> show_int n,
        show_int (or_new reset)]) (rp_resets plan)"

text \<open>\<open>ConfirmDeletionScreen\<close>: it is dismissed with a confirmation, or a warning is shown.\<close>

definition delete_if_confirmed :: "string \<Rightarrow> string \<Rightarrow> string \<Rightarrow> bool option \<times> notice list" where
  "delete_if_confirmed noun name_to_confirm confirmation =
     (if name_to_confirm = confirmation then (Some True, [])
      else (None, [WarningNotice ''Confirmation Required'' (''Type the '' @ noun @ '' exactly to confirm deletion'')]))"

section \<open>The details\<close>

datatype group_action_kind = RESET_OFFSETS | DELETE_GROUP

record group_action =
  ga_kind :: group_action_kind
  ga_group :: string
  ga_partition :: "int option"

definition GROUP_TABS :: "string list" where "GROUP_TABS = [''groups'', ''group-offsets'']"
definition GROUP_ACTIONS :: "string list" where "GROUP_ACTIONS = [''reset_offsets'', ''delete_group'']"

text \<open>\<open>td_actions\<close> says whether there is a handler of group actions.\<close>

record topic_details =
  td_topic :: topic
  td_shown :: topic
  td_configurations :: "topic_configuration list"
  td_actions :: bool
  td_initial :: string
  td_active :: string
  td_cursors :: "(string, nat) pydict"

definition topic_details_new :: "topic \<Rightarrow> topic_configuration list \<Rightarrow> bool \<Rightarrow> topic_details" where
  "topic_details_new t configurations actions =
     \<lparr>td_topic = t, td_shown = t, td_configurations = configurations, td_actions = actions, td_initial = ''partitions'',
      td_active = ''partitions'', td_cursors = []\<rparr>"

definition details_metadata :: "string \<Rightarrow> topic \<Rightarrow> (string \<times> string) list" where
  "details_metadata approximation t =
     [(''Partitions'', show_nat (t_partitions_count t)), (''Replicas'', show_nat (t_replicas_count t)),
      (''In Sync'', show_nat (t_isrs_count t)),
      (''Groups'', metric_value (t_groups_state t) (show_nat (t_groups_count t))),
      (''Members'', metric_value (t_groups_state t) (show_nat (t_group_members_count t))),
      (''Records'', metric_value (t_records_state t) (approximation @ show_int (t_records_count t))),
      (''Lag'', metric_value (t_groups_state t) (approximation @ show_int (t_lag t)))]"

definition partitions_table :: "topic \<Rightarrow> string list list" where
  "partitions_table t =
     map (\<lambda>p. [show_int (p_id p), show_int (p_leader p), metric_value (t_records_state t) (show_int (p_low p)),
        metric_value (t_records_state t) (show_int (p_high p)), metric_value (t_records_state t) (show_int (p_records_count p)),
        show_int_list (p_isrs p), show_int_list (p_replicas p)]) (t_partitions t)"

definition sorted_configurations :: "topic_configuration list \<Rightarrow> topic_configuration list" where
  "sorted_configurations configurations = sort_key (\<lambda>c. lower (tc_name c)) configurations"

definition configurations_table :: "topic_configuration list \<Rightarrow> string list list" where
  "configurations_table configurations = map (\<lambda>c. [tc_name c, tc_value c]) (sorted_configurations configurations)"

definition groups_table :: "topic \<Rightarrow> string list list" where
  "groups_table t =
     map (\<lambda>g. [g_id g, case g_coordinator g of None \<Rightarrow> [] | Some n \<Rightarrow> node_str n, g_state g, g_partition_assignor g,
        show_nat (g_partitions_count g), show_nat (g_members_count g), show_int (g_lag_count g)]) (t_groups t)"

definition group_offsets_table :: "topic \<Rightarrow> string list list" where
  "group_offsets_table t =
     concat (map (\<lambda>g. map (\<lambda>p. [g_id g, show_int (gp_id p), show_int (gp_offset p),
        metric_value (t_records_state t) (show_int (gp_high p)), metric_value (t_groups_state t) (show_int (gp_lag_count p))])
        (g_partitions g)) (t_groups t))"

definition group_members_table :: "topic \<Rightarrow> string list list" where
  "group_members_table t =
     concat (map (\<lambda>g. map (\<lambda>m. [gm_group m, gm_client_id m, gm_id m, gm_host m, show_int_list (gm_assignment m)])
        (g_members g)) (t_groups t))"

definition details_rows :: "topic_details \<Rightarrow> string \<Rightarrow> string list list" where
  "details_rows d tab =
     (if tab = ''partitions'' then partitions_table (td_shown d)
      else if tab = ''configurations'' then configurations_table (td_configurations d)
      else if tab = ''groups'' then groups_table (td_shown d)
      else if tab = ''group-offsets'' then group_offsets_table (td_shown d)
      else if tab = ''group-members'' then group_members_table (td_shown d)
      else [])"

definition cursor_row :: "topic_details \<Rightarrow> string \<Rightarrow> nat" where
  "cursor_row d tab = dget_or (td_cursors d) tab 0"

definition group_offset_rows :: "topic \<Rightarrow> (string \<times> int) list" where
  "group_offset_rows t = concat (map (\<lambda>g. map (\<lambda>p. (g_id g, gp_id p)) (g_partitions g)) (t_groups t))"

definition selected_group :: "topic_details \<Rightarrow> (string \<times> int option) option res" where
  "selected_group d =
     (if td_active d \<notin> set GROUP_TABS then Inr None
      else if details_rows d (td_active d) = [] then Inr None
      else
        (let row = cursor_row d (td_active d) in
         if td_active d = ''groups''
         then (if row < length (t_groups (td_topic d)) then Inr (Some (g_id (t_groups (td_topic d) ! row), None)) else Inl IndexError)
         else (if row < length (group_offset_rows (td_topic d))
               then (case group_offset_rows (td_topic d) ! row of (gid, p) \<Rightarrow> Inr (Some (gid, Some p))) else Inl IndexError)))"

definition check_group_action :: "string \<Rightarrow> topic_details \<Rightarrow> bool res" where
  "check_group_action action d =
     (if action \<in> set GROUP_ACTIONS
      then (if td_actions d then map_sum id (\<lambda>selected. selected \<noteq> None) (selected_group d) else Inr False)
      else Inr True)"

definition start_group_action :: "group_action_kind \<Rightarrow> topic_details \<Rightarrow> group_action option res" where
  "start_group_action kind d =
     map_sum id (\<lambda>selected. case selected of
         Some (gid, p) \<Rightarrow> (if td_actions d then Some \<lparr>ga_kind = kind, ga_group = gid, ga_partition = p\<rparr> else None)
       | None \<Rightarrow> None) (selected_group d)"

text \<open>The two halves of \<open>show_topic\<close>, before and after the awaited \<open>recompose\<close>.\<close>

definition show_topic :: "topic \<Rightarrow> topic_details \<Rightarrow> topic_details" where
  "show_topic t d =
     d\<lparr>td_initial := (if td_active d = [] then td_initial d else td_active d), td_topic := t\<rparr>"

definition topic_recomposed :: "topic_details \<Rightarrow> topic_details" where
  "topic_recomposed d = d\<lparr>td_shown := td_topic d, td_active := td_initial d, td_cursors := []\<rparr>"

definition copy_topic :: "topic_details \<Rightarrow> (string \<times> string) option res" where
  "copy_topic d =
     (if td_active d = ''configurations''
      then
        (if details_rows d ''configurations'' = [] then Inr None
         else
           (let configurations = sorted_configurations (td_configurations d); row = cursor_row d ''configurations'' in
            if row < length configurations
            then Inr (Some (tc_name (configurations ! row) @ ''='' @ tc_value (configurations ! row), ''configuration''))
            else Inl IndexError))
      else Inr (Some (t_name (td_topic d), ''topic name'')))"

section \<open>Steps\<close>

definition TABS :: "string list" where
  "TABS = [''partitions'', ''configurations'', ''groups'', ''group-offsets'', ''group-members'']"

text \<open>The list opens the details, without group actions in read-only mode; the user activates a tab or moves the
  cursor of a table within its rows; a refresh shows the topic anew.\<close>

inductive details_reach :: "bool \<Rightarrow> topic_details \<Rightarrow> bool" for read_only where
  opened: "details_reach read_only (topic_details_new t configurations (\<not> read_only))"
| activated: "details_reach read_only d \<Longrightarrow> tab \<in> set TABS \<Longrightarrow> details_reach read_only (d\<lparr>td_active := tab\<rparr>)"
| moved: "details_reach read_only d \<Longrightarrow> row < length (details_rows d tab) \<Longrightarrow>
    details_reach read_only (d\<lparr>td_cursors := dput tab row (td_cursors d)\<rparr>)"
| replaced: "details_reach read_only d \<Longrightarrow> details_reach read_only (show_topic t d)"
| recomposed: "details_reach read_only d \<Longrightarrow> details_reach read_only (topic_recomposed d)"

text \<open>\<open>_start_group_action\<close> of the list: what the deletion's or the reset's screen is opened with, and, when a
  deletion is confirmed, the group whose mutation starts.\<close>

datatype group_screen = ResetScreen string "int option" | DeleteScreen string

definition open_group_action :: "group_action \<Rightarrow> group_screen" where
  "open_group_action action =
     (case ga_kind action of RESET_OFFSETS \<Rightarrow> ResetScreen (ga_group action) (ga_partition action)
      | DELETE_GROUP \<Rightarrow> DeleteScreen (ga_group action))"

definition delete_dismissed :: "string \<Rightarrow> bool option \<Rightarrow> topic_list \<Rightarrow> (topic_list \<times> string option)" where
  "delete_dismissed gid confirmed s =
     (if confirmed = Some True then (begin_mutation_worker s, Some gid) else (s, None))"

section \<open>Lemmas\<close>

lemma group_offset_rows_table:
  "map (\<lambda>(gid, p). [gid, show_int p]) (group_offset_rows t) = map (take 2) (group_offsets_table t)"
  by (simp add: group_offset_rows_def group_offsets_table_def map_concat o_def case_prod_unfold)

lemma group_offset_rows_length: "length (group_offset_rows t) = length (group_offsets_table t)"
  using arg_cong[OF group_offset_rows_table, of length] by simp

lemma groups_table_ids: "length (groups_table t) = length (t_groups t)" "i < length (t_groups t) \<Longrightarrow> hd (groups_table t ! i) = g_id (t_groups t ! i)"
  by (simp_all add: groups_table_def)

lemma take_two: "[x, y] = take 2 row \<Longrightarrow> hd row = x \<and> row ! 1 = y"
  by (cases row; cases "tl row") (auto simp: numeral_2_eq_2)

lemma sorted_configurations_empty: "sorted_configurations cs = [] \<longleftrightarrow> cs = []"
  unfolding sorted_configurations_def by (metis length_sort length_0_conv)

definition cursors_ok :: "topic_details \<Rightarrow> bool" where
  "cursors_ok d \<longleftrightarrow> (\<forall>tab. details_rows d tab \<noteq> [] \<longrightarrow> cursor_row d tab < length (details_rows d tab))"

lemma details_rows_simps [simp]:
  "details_rows (d\<lparr>td_active := tab\<rparr>) = details_rows d" "details_rows (d\<lparr>td_cursors := cursors\<rparr>) = details_rows d"
  by (simp_all add: details_rows_def[abs_def] cong: if_cong)

lemma details_rows_show_topic [simp]: "details_rows (show_topic t d) = details_rows d"
  by (simp add: details_rows_def[abs_def] show_topic_def cong: if_cong)

lemma cursors_show_topic [simp]:
  "cursor_row (show_topic t d) tab = cursor_row d tab" "td_actions (show_topic t d) = td_actions d"
  by (simp_all add: cursor_row_def show_topic_def)

lemma cursors_recomposed [simp]:
  "cursor_row (topic_recomposed d) tab = 0" "td_actions (topic_recomposed d) = td_actions d"
  by (simp_all add: cursor_row_def dget_or_def topic_recomposed_def)

lemma details_reach_ok: "details_reach read_only d \<Longrightarrow> cursors_ok d \<and> td_actions d = (\<not> read_only)"
proof (induction rule: details_reach.induct)
  case (opened t configurations)
  show ?case by (simp add: cursors_ok_def cursor_row_def dget_or_def topic_details_new_def)
next
  case (activated d tab)
  then show ?case by (simp add: cursors_ok_def cursor_row_def)
next
  case (moved d row tab)
  then show ?case by (auto simp: cursors_ok_def cursor_row_def dget_or_def dget_dput)
next
  case (replaced d t)
  then show ?case by (simp add: cursors_ok_def)
next
  case (recomposed d)
  then show ?case by (simp add: cursors_ok_def)
qed

section \<open>Properties\<close>

text \<open>The action that starts a kind of group action.\<close>

fun kind_action :: "group_action_kind \<Rightarrow> string" where
  "kind_action RESET_OFFSETS = ''reset_offsets''"
| "kind_action DELETE_GROUP = ''delete_group''"

lemma selected_group_shown:
  assumes "cursors_ok d" and "td_shown d = td_topic d" and "td_active d \<in> set GROUP_TABS" and "details_rows d (td_active d) \<noteq> []"
  shows "\<exists>gid p. selected_group d = Inr (Some (gid, p)) \<and>
    (let row = details_rows d (td_active d) ! cursor_row d (td_active d) in
     gid = hd row \<and> (td_active d = ''groups'' \<longrightarrow> p = None) \<and>
     (td_active d = ''group-offsets'' \<longrightarrow> (\<exists>n. p = Some n \<and> row ! 1 = show_int n)))"
proof -
  let ?row = "cursor_row d (td_active d)"
  have lt: "?row < length (details_rows d (td_active d))" using assms(1,4) by (simp add: cursors_ok_def)
  consider "td_active d = ''groups''" | "td_active d = ''group-offsets''" using assms(3) by (auto simp: GROUP_TABS_def)
  then show ?thesis
  proof cases
    case 1
    then have rows: "details_rows d (td_active d) = groups_table (td_topic d)" using assms(2) by (simp add: details_rows_def)
    have "selected_group d = Inr (Some (hd (details_rows d (td_active d) ! ?row), None))"
      using 1 assms(3,4) lt rows groups_table_ids by (simp add: selected_group_def Let_def)
    then show ?thesis using 1 by (simp add: Let_def)
  next
    case 2
    then have rows: "details_rows d (td_active d) = group_offsets_table (td_topic d)" using assms(2) by (simp add: details_rows_def)
    obtain gid' p where at: "group_offset_rows (td_topic d) ! ?row = (gid', p)" by (cases "group_offset_rows (td_topic d) ! ?row")
    have "[gid', show_int p] = take 2 (details_rows d (td_active d) ! ?row)"
      using arg_cong[OF group_offset_rows_table[of "td_topic d"], of "\<lambda>xs. xs ! ?row"] lt rows at
      by (simp add: group_offset_rows_length)
    then have cells: "hd (details_rows d (td_active d) ! ?row) = gid'" "details_rows d (td_active d) ! ?row ! 1 = show_int p"
      using take_two by metis+
    have "selected_group d = Inr (Some (gid', Some p))"
      using 2 assms(3,4) lt rows at by (simp add: selected_group_def Let_def group_offset_rows_length)
    then show ?thesis using 2 cells by (simp add: Let_def)
  qed
qed

text \<open>C17: a group action acts on what the user sees: each of the two is offered exactly when it can be started, and in read-only
  mode neither ever is; once the tables are those of the topic, starting one never fails, and its group and, on the tab of the
  offsets, its partition are the first cells of the row under the cursor; and a group is deleted only when that very
  text was typed. (While a refreshed topic's tables are still being built, the row may be another one, or one the topic no longer has, which raises.)\<close>

theorem group_action_selected:
  assumes "details_reach read_only d"
  shows "(case start_group_action kind d of
      Inl e \<Rightarrow> td_shown d \<noteq> td_topic d
    | Inr None \<Rightarrow> check_group_action (kind_action kind) d = Inr False
    | Inr (Some action) \<Rightarrow> \<not> read_only \<and> check_group_action (kind_action kind) d = Inr True \<and> ga_kind action = kind \<and>
        (td_shown d = td_topic d \<longrightarrow>
          (let row = details_rows d (td_active d) ! cursor_row d (td_active d) in
           cursor_row d (td_active d) < length (details_rows d (td_active d)) \<and> ga_group action = hd row \<and>
           (td_active d = ''groups'' \<longrightarrow> ga_partition action = None) \<and>
           (td_active d = ''group-offsets'' \<longrightarrow> (\<exists>p. ga_partition action = Some p \<and> row ! 1 = show_int p)) \<and>
           (snd (delete_dismissed (ga_group action) (fst (delete_if_confirmed ''group ID'' (ga_group action) typed)) s) = Some gid \<longrightarrow>
              gid = hd row \<and> typed = hd row)))) \<and>
    (read_only \<longrightarrow> check_group_action (kind_action kind) d = Inr False)"
proof -
  have ok: "cursors_ok d" "td_actions d = (\<not> read_only)" using details_reach_ok[OF assms] by auto
  have kind: "kind_action kind \<in> set GROUP_ACTIONS" by (cases kind) (simp_all add: GROUP_ACTIONS_def)
  show ?thesis
  proof (cases "td_shown d = td_topic d \<and> td_active d \<in> set GROUP_TABS \<and> details_rows d (td_active d) \<noteq> []")
    case True
    then have lt: "cursor_row d (td_active d) < length (details_rows d (td_active d))" using ok(1) by (simp add: cursors_ok_def)
    obtain gid' p where g: "selected_group d = Inr (Some (gid', p))"
      "let row = details_rows d (td_active d) ! cursor_row d (td_active d) in
       gid' = hd row \<and> (td_active d = ''groups'' \<longrightarrow> p = None) \<and>
       (td_active d = ''group-offsets'' \<longrightarrow> (\<exists>n. p = Some n \<and> row ! 1 = show_int n))"
      using selected_group_shown[OF ok(1)] True by blast
    show ?thesis using g lt kind ok(2)
      by (cases read_only) (simp_all add: start_group_action_def check_group_action_def Let_def delete_dismissed_def delete_if_confirmed_def)
  next
    case False
    then consider "selected_group d = Inr None" | "td_shown d \<noteq> td_topic d" by (auto simp: selected_group_def)
    then show ?thesis using ok(2) kind
      by cases (cases "selected_group d"; cases read_only; auto simp: start_group_action_def check_group_action_def split: option.splits)+
  qed
qed

definition grouped_topic :: topic where
  "grouped_topic =
     \<lparr>t_name = ''orders'', t_partitions = [],
      t_groups = [\<lparr>g_id = ''billing'', g_coordinator = None, g_state = ''Empty'', g_partition_assignor = [], g_members = [], g_partitions = []\<rparr>],
      t_records_state = M_READY, t_groups_state = M_READY\<rparr>"

definition grouped_details :: topic_details where
  "grouped_details =
     (topic_details_new grouped_topic [\<lparr>tc_name = ''retention.ms'', tc_value = ''1'', tc_overridden = False\<rparr>] (\<not> False))\<lparr>td_active := ''groups''\<rparr>"

lemma grouped_details_reach: "details_reach False grouped_details"
  unfolding grouped_details_def by (rule activated[OF opened]) (simp add: TABS_def)

lemma grouped_details_start:
  "start_group_action DELETE_GROUP grouped_details = Inr (Some \<lparr>ga_kind = DELETE_GROUP, ga_group = ''billing'', ga_partition = None\<rparr>)"
  by code_simp

theorem group_action_selected_witness:
  "check_group_action ''delete_group'' grouped_details = Inr True \<and> hd (details_rows grouped_details ''groups'' ! cursor_row grouped_details ''groups'') = ''billing''"
proof -
  have a: "td_active grouped_details = ''groups''" by (simp add: grouped_details_def)
  note selected = group_action_selected[where kind = DELETE_GROUP and typed = "[]" and gid = "[]" and s = "topic_list_new False", OF grouped_details_reach]
  have shown: "td_shown grouped_details = td_topic grouped_details" by (simp add: grouped_details_def topic_details_new_def)
  note started = conjunct1[OF selected, unfolded grouped_details_start sum.case option.case Let_def a kind_action.simps]
  have "check_group_action ''delete_group'' grouped_details = Inr True" by (rule conjunct1[OF conjunct2[OF started]])
  moreover have "ga_group \<lparr>ga_kind = DELETE_GROUP, ga_group = ''billing'', ga_partition = None\<rparr> = hd (details_rows grouped_details ''groups'' ! cursor_row grouped_details ''groups'')"
    by (rule conjunct1[OF conjunct2[OF mp[OF conjunct2[OF conjunct2[OF conjunct2[OF started]]] shown]]])
  ultimately show ?thesis by simp
qed

text \<open>Copying on the tab of the configurations copies the row under the cursor, as a property and its value, whatever the
  configurations' order was; copying never fails.\<close>

theorem copied_configuration_shown:
  assumes "details_reach read_only d"
  shows "case copy_topic d of
      Inl e \<Rightarrow> False
    | Inr None \<Rightarrow> td_configurations d = []
    | Inr (Some (text, subject)) \<Rightarrow>
        (if td_active d = ''configurations''
         then subject = ''configuration'' \<and> (\<exists>name v. details_rows d ''configurations'' ! cursor_row d ''configurations'' = [name, v] \<and> text = name @ ''='' @ v)
         else text = t_name (td_topic d))"
proof -
  have rows: "details_rows d ''configurations'' = map (\<lambda>c. [tc_name c, tc_value c]) (sorted_configurations (td_configurations d))"
    by (simp add: details_rows_def configurations_table_def)
  have "details_rows d ''configurations'' \<noteq> [] \<Longrightarrow> cursor_row d ''configurations'' < length (details_rows d ''configurations'')"
    using details_reach_ok[OF assms] by (simp add: cursors_ok_def)
  then show ?thesis unfolding rows by (auto simp: copy_topic_def rows Let_def sorted_configurations_empty)
qed

lemma configured_details_reach: "details_reach False (grouped_details\<lparr>td_active := ''configurations''\<rparr>)"
  by (rule activated[OF grouped_details_reach]) (simp add: TABS_def)

theorem copied_configuration_shown_witness:
  "copy_topic (grouped_details\<lparr>td_active := ''configurations''\<rparr>) = Inr (Some (''retention.ms=1'', ''configuration'')) \<and>
   details_rows grouped_details ''configurations'' ! cursor_row grouped_details ''configurations'' = [''retention.ms'', ''1'']"
proof -
  have c: "copy_topic (grouped_details\<lparr>td_active := ''configurations''\<rparr>) = Inr (Some (''retention.ms=1'', ''configuration''))"
    by code_simp
  have r: "details_rows grouped_details ''configurations'' = [[''retention.ms'', ''1'']]" "cursor_row grouped_details ''configurations'' = 0"
    by code_simp+
  show ?thesis using copied_configuration_shown[OF configured_details_reach] c r by simp
qed

end
