(* ===== verification/Admin_App.thy ===== *)
theory Admin_App
  imports Topic_List
begin

text \<open>
  The admin application (\<open>admin/app.py\<close>): the screens above the topic list and the timer that refreshes the
  list periodically, together with the list itself (theory \<open>Topic_List\<close>).

  \<open>ad_depth\<close> is the number of screens above the list, \<open>ad_running\<close> whether the periodic timer runs,
  \<open>ad_resumes\<close> the one-shot timers a closed screen has left, and \<open>ad_completed\<close> the messages of completed
  refreshes that have not been handled. The list posts such a message when a refresh completes, that is,
  when its coordinator stops being active. Timers are Textual's: a running one may fire at any time.
\<close>

record admin_app =
  ad_list :: topic_list
  ad_interval :: nat
  ad_depth :: nat
  ad_running :: bool
  ad_resumes :: nat
  ad_completed :: nat

definition on_root_screen :: "admin_app \<Rightarrow> bool" where
  "on_root_screen a \<longleftrightarrow> ad_depth a = 0"

definition above_root_screen :: "admin_app \<Rightarrow> bool" where
  "above_root_screen a \<longleftrightarrow> ad_depth a = 1"

text \<open>Mounting makes the timer, paused, and requests the first refresh.\<close>

definition admin_app_new :: "bool \<Rightarrow> nat \<Rightarrow> admin_app" where
  "admin_app_new read_only interval =
     \<lparr>ad_list = request_refresh INITIAL (topic_list_new read_only), ad_interval = interval, ad_depth = 0,
      ad_running = False, ad_resumes = 0, ad_completed = 0\<rparr>"

definition pause_auto_refresh :: "admin_app \<Rightarrow> admin_app" where
  "pause_auto_refresh a = (if ad_interval a \<noteq> 0 then a\<lparr>ad_running := False\<rparr> else a)"

definition restart_auto_refresh :: "admin_app \<Rightarrow> admin_app" where
  "restart_auto_refresh a = (if ad_interval a \<noteq> 0 then a\<lparr>ad_running := True\<rparr> else a)"

definition push_screen :: "admin_app \<Rightarrow> admin_app" where
  "push_screen a = (let paused = pause_auto_refresh a in paused\<lparr>ad_depth := Suc (ad_depth paused)\<rparr>)"

definition pop_screen :: "admin_app \<Rightarrow> admin_app" where
  "pop_screen a =
     (let returning_to_topics = above_root_screen a; popped = a\<lparr>ad_depth := ad_depth a - 1\<rparr> in
      if returning_to_topics then popped\<lparr>ad_resumes := Suc (ad_resumes popped)\<rparr> else popped)"

definition list_changed :: "topic_list \<Rightarrow> admin_app \<Rightarrow> admin_app" where
  "list_changed s a =
     a\<lparr>ad_list := s, ad_completed :=
       (if active (tl_coordinator (ad_list a)) \<and> \<not> active (tl_coordinator s) then Suc (ad_completed a) else ad_completed a)\<rparr>"

definition resume_auto_refresh :: "admin_app \<Rightarrow> admin_app" where
  "resume_auto_refresh a =
     (if ad_interval a = 0 \<or> \<not> on_root_screen a then a
      else (let restarted = restart_auto_refresh a in list_changed (request_refresh RESUME (ad_list restarted)) restarted))"

definition request_periodic_refresh :: "admin_app \<Rightarrow> admin_app" where
  "request_periodic_refresh a =
     (if on_root_screen a then list_changed (request_refresh PERIODIC (ad_list a)) a else a)"

definition refresh_completed :: "admin_app \<Rightarrow> admin_app" where
  "refresh_completed a = (if on_root_screen a then restart_auto_refresh a else a)"

inductive admin_step :: "admin_app \<Rightarrow> admin_app \<Rightarrow> bool" where
  push: "admin_step a (push_screen a)"
| pop: "0 < ad_depth a \<Longrightarrow> admin_step a (pop_screen a)"
| resume: "ad_resumes a = Suc n \<Longrightarrow> admin_step a (resume_auto_refresh (a\<lparr>ad_resumes := n\<rparr>))"
| tick: "ad_running a \<Longrightarrow> admin_step a (request_periodic_refresh a)"
| completed: "ad_completed a = Suc n \<Longrightarrow> admin_step a (refresh_completed (a\<lparr>ad_completed := n\<rparr>))"
| list: "list_step (ad_list a) s \<Longrightarrow> admin_step a (list_changed s a)"

inductive admin_reach :: "bool \<Rightarrow> nat \<Rightarrow> admin_app \<Rightarrow> bool" for read_only interval where
  mounted: "admin_reach read_only interval (admin_app_new read_only interval)"
| stepped: "admin_reach read_only interval a \<Longrightarrow> admin_step a a' \<Longrightarrow> admin_reach read_only interval a'"

section \<open>Lemmas\<close>

definition refreshing :: "admin_app \<Rightarrow> bool" where
  "refreshing a \<longleftrightarrow> active (tl_coordinator (ad_list a)) \<or> 0 < ad_completed a"

definition admin_ok :: "nat \<Rightarrow> admin_app \<Rightarrow> bool" where
  "admin_ok interval a \<longleftrightarrow> ad_interval a = interval \<and> (ad_running a \<longrightarrow> interval \<noteq> 0 \<and> ad_depth a = 0) \<and>
     (interval \<noteq> 0 \<and> ad_depth a = 0 \<longrightarrow> ad_running a \<or> 0 < ad_resumes a \<or> refreshing a)"

lemmas auto_refresh_defs = pause_auto_refresh_def restart_auto_refresh_def resume_auto_refresh_def
  request_periodic_refresh_def refresh_completed_def push_screen_def pop_screen_def above_root_screen_def on_root_screen_def

lemma list_changed_simps [simp]:
  "ad_interval (list_changed s a) = ad_interval a" "ad_depth (list_changed s a) = ad_depth a"
  "ad_running (list_changed s a) = ad_running a" "ad_resumes (list_changed s a) = ad_resumes a"
  "ad_list (list_changed s a) = s"
  by (simp_all add: list_changed_def)

lemma list_changed_refreshing: "refreshing a \<Longrightarrow> refreshing (list_changed s a)"
  by (auto simp: refreshing_def list_changed_def)

lemma list_changed_ok: "admin_ok interval a \<Longrightarrow> admin_ok interval (list_changed s a)"
  using list_changed_refreshing[of a s] by (auto simp: admin_ok_def)

lemma admin_step_ok: "admin_step a a' \<Longrightarrow> admin_ok interval a \<Longrightarrow> admin_ok interval a'"
proof (induction rule: admin_step.induct)
  case (resume a n)
  then show ?case by (auto simp: auto_refresh_defs admin_ok_def Let_def refreshing_def)
next
  case (tick a)
  then show ?case using list_changed_ok by (simp add: request_periodic_refresh_def)
next
  case (completed a n)
  then show ?case by (auto simp: auto_refresh_defs admin_ok_def refreshing_def)
next
  case (list a s)
  then show ?case by (simp add: list_changed_ok)
qed (auto simp: auto_refresh_defs admin_ok_def Let_def refreshing_def)

lemma request_active: "\<not> mutation_active (tl_coordinator s) \<Longrightarrow> active (tl_coordinator (request_refresh reason s))"
  by (auto simp: request_refresh_def request_def Let_def split: prod.splits if_splits)

lemma admin_reach_ok: "admin_reach read_only interval a \<Longrightarrow> admin_ok interval a"
proof (induction rule: admin_reach.induct)
  case mounted
  have "active (tl_coordinator (request_refresh INITIAL (topic_list_new read_only)))"
    by (rule request_active) (simp add: topic_list_new_def coordinator_new_def)
  then show ?case by (simp add: admin_ok_def admin_app_new_def refreshing_def)
qed (rule admin_step_ok)

section \<open>Properties\<close>

text \<open>C16: the periodic refresh neither disturbs nor gets lost: its timer never runs while a screen covers the list, nor
  without an interval; and with an interval, whenever the list is the active screen, the timer runs, or a closed screen is about
  to restart it, or a refresh is under way whose completion does.\<close>

theorem auto_refresh_kept:
  assumes "admin_reach read_only interval a"
  shows "(ad_running a \<longrightarrow> 0 < interval \<and> on_root_screen a) \<and>
    (0 < interval \<and> on_root_screen a \<longrightarrow>
       ad_running a \<or> (\<exists>n. ad_resumes a = Suc n \<and> ad_running (resume_auto_refresh (a\<lparr>ad_resumes := n\<rparr>))) \<or>
       active (tl_coordinator (ad_list a)) \<or>
       (\<exists>n. ad_completed a = Suc n \<and> ad_running (refresh_completed (a\<lparr>ad_completed := n\<rparr>))))"
proof -
  have ok: "admin_ok interval a" using assms by (rule admin_reach_ok)
  then have i: "ad_interval a = interval" by (simp add: admin_ok_def)
  show ?thesis
    using ok gr0_implies_Suc[of "ad_resumes a"] gr0_implies_Suc[of "ad_completed a"]
    by (auto simp: admin_ok_def refreshing_def auto_refresh_defs Let_def i)
qed

theorem auto_refresh_kept_witness:
  "let a = pop_screen (push_screen (admin_app_new True 30)) in
     on_root_screen a \<and> \<not> ad_running a \<and> ad_resumes a = 1 \<and> active (tl_coordinator (ad_list a))"
proof -
  have "admin_reach True 30 (push_screen (admin_app_new True 30))" by (rule stepped[OF mounted push])
  then have r: "admin_reach True 30 (pop_screen (push_screen (admin_app_new True 30)))"
    by (rule stepped) (rule pop, simp add: push_screen_def Let_def)
  show ?thesis
    using auto_refresh_kept[OF r] request_active[of "topic_list_new True" INITIAL]
    by (simp add: auto_refresh_defs Let_def admin_app_new_def topic_list_new_def coordinator_new_def)
qed

end
