(* ===== verification/Record_List.thy ===== *)
theory Record_List
  imports Consumer_Service
begin

text \<open>
  The consumer's list of records (\<open>consumer/records.py\<close>) and the filter and chunk size screens
  (\<open>consumer/screens.py\<close>): the dictionary of records and the rows of the table, the selection, the
  filters, and the two workers that consume a chunk and replace the consumer. A consumer is a number;
  its page size is kept for the current one. The list's events are the steps of \<open>list_step\<close>: a worker
  begins and ends in steps of its own, and a user's action is a step only where \<open>check_action\<close> enables
  it and no other screen covers the list.

  Parameters: the deserializers' calls, the texts of values, times and exceptions, and the two-decimal
  rounding of a quotient. Consumers are made and closed by \<open>Consumer_Service\<close>; here they succeed or
  raise. Textual's table raises \<open>DuplicateKey\<close> when a row's key is already in it. The warning sign and
  the dash of the source are no characters of the modelled range and stand as \<open>!\<close> and \<open>-\<close>.
\<close>

section \<open>Screens\<close>

text \<open>\<open>FilterRecordScreen\<close>: the texts of its inputs.\<close>

definition apply_filters :: "string \<Rightarrow> string \<Rightarrow> string \<Rightarrow> string \<Rightarrow> record_filters res" where
  "apply_filters key val partition_value header =
     rbind (if partition_value = [] then Inr None
            else case parse_int partition_value of
              Some n \<Rightarrow> Inr (Some n) | None \<Rightarrow> Inl (ValueError ''invalid literal for int() with base 10''))
       (\<lambda>p. Inr \<lparr>rf_key = key, rf_value = val, rf_partition = p, rf_header = header\<rparr>)"

definition CHUNK_SIZES :: "string list" where
  "CHUNK_SIZES = [''25'', ''50'', ''100'', ''500'', ''1000'', ''1500'']"

definition chunk_index :: "nat \<Rightarrow> nat" where
  "chunk_index current_size =
     (case find (\<lambda>i. CHUNK_SIZES ! i = show_nat current_size) [0..<length CHUNK_SIZES] of Some i \<Rightarrow> i | None \<Rightarrow> 0)"

definition chunk_selected :: "string option \<Rightarrow> nat \<Rightarrow> nat res" where
  "chunk_selected option_id current_size =
     (case option_id of
        None \<Rightarrow> Inr current_size
      | Some i \<Rightarrow> (case parse_int i of Some n \<Rightarrow> Inr (nat n) | None \<Rightarrow> Inl (ValueError ''invalid literal for int() with base 10'')))"

section \<open>Rows\<close>

definition KILOBYTE :: int where "KILOBYTE = 1000"
definition MEGABYTE :: int where "MEGABYTE = 1000000"

text \<open>\<open>two q\<close> is \<open>q\<close> rounded to two decimals, as \<open>round\<close> and the format \<open>.2f\<close> do.\<close>

definition format_size :: "(rat \<Rightarrow> rat) \<Rightarrow> (rat \<Rightarrow> string) \<Rightarrow> nat option \<Rightarrow> string" where
  "format_size two show_two bytes =
     (case bytes of
        None \<Rightarrow> ''-''
      | Some n \<Rightarrow>
          if int n < KILOBYTE then show_nat n @ '' byte'' @ (if n = 1 then [] else ''s'')
          else if two (of_nat n / of_int KILOBYTE) < of_int KILOBYTE then show_two (of_nat n / of_int KILOBYTE) @ '' KB''
          else show_two (of_nat n / of_int MEGABYTE) @ '' MB'')"

definition payload_length :: "byte list option \<Rightarrow> nat" where
  "payload_length p = (case p of None \<Rightarrow> 0 | Some data \<Rightarrow> length data)"

definition headers_payload_size :: "(string \<Rightarrow> nat) \<Rightarrow> 'i message \<Rightarrow> nat" where
  "headers_payload_size utf8_length r =
     sum_list (map (\<lambda>h. utf8_length (h_key h) + payload_length (h_value h)) (r_headers r))"

definition record_payload_size :: "(string \<Rightarrow> nat) \<Rightarrow> 'i message \<Rightarrow> nat" where
  "record_payload_size utf8_length r =
     payload_length (r_key r) + payload_length (r_value r) + headers_payload_size utf8_length r"

datatype cell = PlainCell string | NullCell | WarningCell string

definition content_cell :: "(pyval \<Rightarrow> string) \<Rightarrow> outcome \<Rightarrow> cell" where
  "content_cell show_val out =
     (if oc_content out = PNone then NullCell
      else let content = strip (outcome_str show_val out) in
        if used_fallback out then WarningCell (''! '' @ content) else PlainCell content)"

record ('i, 's) list_env =
  le_call :: "('i, 's) deser_call"
  le_show :: "pyval \<Rightarrow> string"
  le_exn :: "exn \<Rightarrow> string"
  le_utf8_length :: "string \<Rightarrow> nat"
  le_size :: "nat option \<Rightarrow> string"
  le_timestamp :: "'i message \<Rightarrow> string"

text \<open>The outcomes of a record and the record that remembers them.\<close>

definition record_outcomes :: "('i, 's) list_env \<Rightarrow> 'i message \<Rightarrow> 's \<Rightarrow> (outcome \<times> outcome) res \<times> 'i message \<times> 's" where
  "record_outcomes env r w =
     (case resolve_deserializations (le_call env) r w of
        (Inl e, r1, w1) \<Rightarrow> (Inl e, r1, w1)
      | (Inr _, r1, w1) \<Rightarrow>
          (case key_outcome (le_call env) r1 w1 of
             (Inl e, r2, w2) \<Rightarrow> (Inl e, r2, w2)
           | (Inr k, r2, w2) \<Rightarrow>
               (case value_outcome (le_call env) r2 w2 of
                  (Inl e, r3, w3) \<Rightarrow> (Inl e, r3, w3)
                | (Inr v, r3, w3) \<Rightarrow> (Inr (k, v), r3, w3))))"

definition record_row :: "('i, 's) list_env \<Rightarrow> 'i message \<Rightarrow> outcome \<times> outcome \<Rightarrow> cell list" where
  "record_row env r outs =
     [content_cell (le_show env) (fst outs), content_cell (le_show env) (snd outs),
      PlainCell (le_size env (Some (record_payload_size (le_utf8_length env) r))),
      PlainCell (le_timestamp env r), PlainCell (show_int (r_partition r)), PlainCell (show_int (r_offset r)),
      PlainCell (show_nat (length (r_headers r)))]"

definition record_line :: "'i message \<Rightarrow> string" where
  "record_line r = ''Record: '' @ r_topic r @ ''['' @ show_int (r_partition r) @ ''][''  @ show_int (r_offset r) @ '']''"

definition title_case :: "string \<Rightarrow> string" where
  "title_case s = (case s of [] \<Rightarrow> [] | c # cs \<Rightarrow> upper_char c # lower cs)"

definition warning_tooltip :: "('i, 's) list_env \<Rightarrow> 'i message \<Rightarrow> string \<Rightarrow> outcome \<Rightarrow> string list" where
  "warning_tooltip env r field_name out =
     [''! '' @ title_case field_name @ '' Deserialization Warning'', record_line r,
      ''Requested: '' @ format_name (oc_requested out), ''Fallback: '' @ format_name F_BYTES,
      ''Encoding: '' @ encoding_name (oc_encoding out),
      ''Error: '' @ (case oc_error out of Some e \<Rightarrow> le_exn env e | None \<Rightarrow> ''None'')]"

definition null_tooltip :: "'i message \<Rightarrow> string \<Rightarrow> string list" where
  "null_tooltip r field_name =
     [''Null '' @ title_case field_name, record_line r,
      if field_name = ''key'' then ''This Kafka record has no key'' else ''This Kafka record is a tombstone'']"

definition KEY_COLUMN_INDEX :: nat where "KEY_COLUMN_INDEX = 0"
definition VALUE_COLUMN_INDEX :: nat where "VALUE_COLUMN_INDEX = 1"

definition cell_tooltips :: "('i, 's) list_env \<Rightarrow> nat \<Rightarrow> 'i message \<Rightarrow> outcome \<times> outcome \<Rightarrow> ((nat \<times> nat) \<times> string list) list" where
  "cell_tooltips env row_index r outs =
     concat (map (\<lambda>(column, name, out).
         if oc_error out \<noteq> None then [((row_index, column), warning_tooltip env r name out)]
         else if oc_content out = PNone then [((row_index, column), null_tooltip r name)] else [])
       [(KEY_COLUMN_INDEX, ''key'', fst outs), (VALUE_COLUMN_INDEX, ''value'', snd outs)])"

section \<open>The list\<close>

datatype list_worker = ConsumeScheduled | Consuming nat record_filters | ReplaceScheduled | Closing nat

datatype list_screen = FilterScreen | ChunkScreen | DetailsScreen

record ('i, 's) record_list =
  rl_topic :: string
  rl_records :: "(string, 'i message) pydict"
  rl_rows :: "(string \<times> cell list) list"
  rl_tooltips :: "(nat \<times> nat, string list) pydict"
  rl_current :: "'i message option"
  rl_cursor :: nat
  rl_filters :: record_filters
  rl_consuming :: bool
  rl_loading :: bool
  rl_consumer :: nat
  rl_page_size :: nat
  rl_made :: nat
  rl_released :: "nat list"
  rl_workers :: "list_worker list"
  rl_screen :: "list_screen option"
  rl_notices :: "(string \<times> exn) list"
  rl_failed :: "exn option"
  rl_pool_closed :: bool
  rl_world :: 's

definition DEFAULT_PAGE_SIZE :: nat where "DEFAULT_PAGE_SIZE = 25"

text \<open>\<open>__init__\<close> with the consumer the application made, which is number 0.\<close>

definition record_list_new :: "string \<Rightarrow> 's \<Rightarrow> ('i, 's) record_list" where
  "record_list_new topic w =
     \<lparr>rl_topic = topic, rl_records = [], rl_rows = [], rl_tooltips = [], rl_current = None, rl_cursor = 0,
      rl_filters = EMPTY_RECORD_FILTERS, rl_consuming = False, rl_loading = False, rl_consumer = 0,
      rl_page_size = DEFAULT_PAGE_SIZE, rl_made = 1, rl_released = [], rl_workers = [], rl_screen = None,
      rl_notices = [], rl_failed = None, rl_pool_closed = False, rl_world = w\<rparr>"

definition markup :: "string \<Rightarrow> string" where
  "markup text = [CHR 0x5C] @ ''[[primary]'' @ text @ ''[/]]''"

definition list_title :: "('i, 's) record_list \<Rightarrow> string" where
  "list_title s =
     ''[primary]Records[/] '' @ markup (rl_topic s)
     @ (if rf_key (rl_filters s) \<noteq> [] then markup (''k:*'' @ rf_key (rl_filters s) @ ''*'') else [])
     @ (if rf_value (rl_filters s) \<noteq> [] then markup (''v:*'' @ rf_value (rl_filters s) @ ''*'') else [])
     @ (case rf_partition (rl_filters s) of Some p \<Rightarrow> markup (''p:'' @ show_int p) | None \<Rightarrow> [])
     @ (if rf_header (rl_filters s) \<noteq> [] then markup (''h:*'' @ rf_header (rl_filters s) @ ''*'') else [])
     @ markup (show_nat (length (rl_records s)))"

definition consumer_exception :: "exn \<Rightarrow> bool" where
  "consumer_exception e \<longleftrightarrow> is_kafka_exception e \<or> (case e of PartitionSelectionError _ \<Rightarrow> True | _ \<Rightarrow> False)"

text \<open>A notice for the exceptions a worker catches; any other ends the worker and the application.\<close>

definition notify_or_fail :: "string \<Rightarrow> exn \<Rightarrow> ('i, 's) record_list \<Rightarrow> ('i, 's) record_list" where
  "notify_or_fail title e s =
     (if consumer_exception e then s\<lparr>rl_notices := rl_notices s @ [(title, e)]\<rparr> else s\<lparr>rl_failed := Some e\<rparr>)"

definition action_consume :: "('i, 's) record_list \<Rightarrow> ('i, 's) record_list" where
  "action_consume s =
     (if rl_consuming s then s
      else s\<lparr>rl_consuming := True, rl_loading := True, rl_workers := rl_workers s @ [ConsumeScheduled]\<rparr>)"

definition filter_records :: "('i, 's) record_list \<Rightarrow> ('i, 's) record_list" where
  "filter_records s =
     s\<lparr>rl_tooltips := [], rl_rows := [], rl_loading := True, rl_records := [], rl_current := None, rl_cursor := 0,
       rl_consuming := True, rl_workers := rl_workers s @ [ReplaceScheduled]\<rparr>"

definition action_all_records :: "('i, 's) record_list \<Rightarrow> ('i, 's) record_list" where
  "action_all_records s = filter_records (s\<lparr>rl_filters := EMPTY_RECORD_FILTERS\<rparr>)"

definition filter_records_dismissed :: "record_filters option \<Rightarrow> ('i, 's) record_list \<Rightarrow> ('i, 's) record_list" where
  "filter_records_dismissed result s =
     (case result of None \<Rightarrow> s | Some f \<Rightarrow> filter_records (s\<lparr>rl_filters := f\<rparr>))"

definition chunk_dismissed :: "nat option \<Rightarrow> ('i, 's) record_list \<Rightarrow> ('i, 's) record_list" where
  "chunk_dismissed result s = (case result of None \<Rightarrow> s | Some n \<Rightarrow> s\<lparr>rl_page_size := n\<rparr>)"

text \<open>\<open>replace_consumer\<close> up to the closing of the previous consumer, and from its end on.\<close>

definition replace_finished :: "('i, 's) record_list \<Rightarrow> ('i, 's) record_list" where
  "replace_finished s =
     (let t = s\<lparr>rl_consuming := False\<rparr> in if rl_failed t = None then action_consume t else t)"

definition replace_begin :: "unit res \<Rightarrow> ('i, 's) record_list \<Rightarrow> ('i, 's) record_list" where
  "replace_begin made s =
     (let t = s\<lparr>rl_workers := remove1 ReplaceScheduled (rl_workers s)\<rparr> in
      case made of
        Inl e \<Rightarrow> replace_finished (notify_or_fail ''Consumer Error'' e t)
      | Inr _ \<Rightarrow>
          t\<lparr>rl_consumer := rl_made s, rl_made := Suc (rl_made s), rl_page_size := DEFAULT_PAGE_SIZE,
            rl_workers := rl_workers t @ [Closing (rl_consumer s)]\<rparr>)"

definition replace_end :: "nat \<Rightarrow> unit res \<Rightarrow> ('i, 's) record_list \<Rightarrow> ('i, 's) record_list" where
  "replace_end previous close_result s =
     (let t = s\<lparr>rl_workers := remove1 (Closing previous) (rl_workers s), rl_released := previous # rl_released s\<rparr> in
      replace_finished (case close_result of Inr _ \<Rightarrow> t | Inl e \<Rightarrow> notify_or_fail ''Consumer Error'' e t))"

text \<open>\<open>consume_records\<close>: the consumer and the filters are read when the worker begins.\<close>

definition consume_begin :: "('i, 's) record_list \<Rightarrow> ('i, 's) record_list" where
  "consume_begin s =
     s\<lparr>rl_workers := remove1 ConsumeScheduled (rl_workers s) @ [Consuming (rl_consumer s) (rl_filters s)]\<rparr>"

definition add_record :: "('i, 's) list_env \<Rightarrow> 'i message \<Rightarrow> ('i, 's) record_list \<Rightarrow> unit res \<times> ('i, 's) record_list" where
  "add_record env r s =
     (case record_outcomes env r (rl_world s) of
        (Inl e, r', w) \<Rightarrow> (Inl e, s\<lparr>rl_records := dput (record_str r) r' (rl_records s), rl_world := w\<rparr>)
      | (Inr outs, r', w) \<Rightarrow>
          (let t = s\<lparr>rl_records := dput (record_str r) r' (rl_records s), rl_world := w\<rparr> in
           if record_str r \<in> set (map fst (rl_rows s)) then (Inl (OtherException ''DuplicateKey''), t)
           else (Inr (), t\<lparr>rl_rows := rl_rows s @ [(record_str r, record_row env r' outs)],
                   rl_tooltips := dmerge (rl_tooltips s) (cell_tooltips env (length (rl_rows s)) r' outs)\<rparr>)))"

fun add_records :: "('i, 's) list_env \<Rightarrow> 'i message list \<Rightarrow> ('i, 's) record_list \<Rightarrow> unit res \<times> ('i, 's) record_list" where
  "add_records env [] s = (Inr (), s)"
| "add_records env (r # rs) s =
     (case add_record env r s of (Inl e, t) \<Rightarrow> (Inl e, t) | (Inr _, t) \<Rightarrow> add_records env rs t)"

definition consume_end ::
  "('i, 's) list_env \<Rightarrow> nat \<Rightarrow> record_filters \<Rightarrow> 'i message list res \<Rightarrow> ('i, 's) record_list \<Rightarrow> ('i, 's) record_list" where
  "consume_end env consumer filters result s =
     (let t = s\<lparr>rl_workers := remove1 (Consuming consumer filters) (rl_workers s)\<rparr>;
          u = (case result of
                 Inl e \<Rightarrow> notify_or_fail ''Consumption Error'' e t
               | Inr records \<Rightarrow>
                   (case add_records env records t of
                      (Inr _, v) \<Rightarrow> v | (Inl e, v) \<Rightarrow> notify_or_fail ''Consumption Error'' e v)) in
      u\<lparr>rl_loading := False, rl_consuming := False\<rparr>)"

definition record_highlighted :: "string option \<Rightarrow> ('i, 's) record_list \<Rightarrow> ('i, 's) record_list" where
  "record_highlighted key s = (case key of None \<Rightarrow> s | Some k \<Rightarrow> s\<lparr>rl_current := dget (rl_records s) k\<rparr>)"

text \<open>\<open>select_record\<close>, the callback of the details screen: the cursor goes to the record's row.\<close>

definition select_record :: "'i message option \<Rightarrow> ('i, 's) record_list \<Rightarrow> ('i, 's) record_list" where
  "select_record result s =
     (case result of
        None \<Rightarrow> s
      | Some r \<Rightarrow>
          if din (record_str r) (rl_records s)
          then s\<lparr>rl_cursor := length (takeWhile (\<lambda>k. k \<noteq> record_str r) (dkeys (rl_records s)))\<rparr> else s)"

definition check_list_action :: "string \<Rightarrow> ('i, 's) record_list \<Rightarrow> bool" where
  "check_list_action action s \<longleftrightarrow>
     (if action \<in> {''copy_record'', ''export_record'', ''show_message''} then rl_current s \<noteq> None
      else if action = ''all'' then \<not> rl_consuming s \<and> filters_active (rl_filters s)
      else if action \<in> {''change_chunk'', ''consume'', ''filter''} then \<not> rl_consuming s
      else True)"

text \<open>\<open>on_unmount\<close>: the consumer is closed, and the deserializers even if that raises.\<close>

definition list_unmount :: "unit res \<Rightarrow> ('i, 's) record_list \<Rightarrow> unit res \<times> ('i, 's) record_list" where
  "list_unmount close_result s = (close_result, s\<lparr>rl_released := rl_consumer s # rl_released s, rl_pool_closed := True\<rparr>)"

section \<open>The list's events\<close>

text \<open>The service's records come with their outcomes.\<close>

definition resolved :: "'i message \<Rightarrow> bool" where
  "resolved r \<longleftrightarrow> r_key_outcome r \<noteq> None \<and> r_value_outcome r \<noteq> None"

inductive record_list_step :: "('i, 's) list_env \<Rightarrow> ('i, 's) record_list \<Rightarrow> ('i, 's) record_list \<Rightarrow> bool" for env where
  consume_more: "rl_failed s = None \<Longrightarrow> rl_screen s = None \<Longrightarrow> check_list_action ''consume'' s \<Longrightarrow>
    record_list_step env s (action_consume s)"
| show_all: "rl_failed s = None \<Longrightarrow> rl_screen s = None \<Longrightarrow> check_list_action ''all'' s \<Longrightarrow>
    record_list_step env s (action_all_records s)"
| open_filter: "rl_failed s = None \<Longrightarrow> rl_screen s = None \<Longrightarrow> check_list_action ''filter'' s \<Longrightarrow>
    record_list_step env s (s\<lparr>rl_screen := Some FilterScreen\<rparr>)"
| filtered: "rl_failed s = None \<Longrightarrow> rl_screen s = Some FilterScreen \<Longrightarrow>
    record_list_step env s (filter_records_dismissed result (s\<lparr>rl_screen := None\<rparr>))"
| open_chunk: "rl_failed s = None \<Longrightarrow> rl_screen s = None \<Longrightarrow> check_list_action ''change_chunk'' s \<Longrightarrow>
    record_list_step env s (s\<lparr>rl_screen := Some ChunkScreen\<rparr>)"
| chunk_chosen: "rl_failed s = None \<Longrightarrow> rl_screen s = Some ChunkScreen \<Longrightarrow>
    record_list_step env s (chunk_dismissed chosen (s\<lparr>rl_screen := None\<rparr>))"
| open_details: "rl_failed s = None \<Longrightarrow> rl_screen s = None \<Longrightarrow> check_list_action ''show_message'' s \<Longrightarrow>
    record_list_step env s (s\<lparr>rl_screen := Some DetailsScreen\<rparr>)"
| details_moved: "rl_failed s = None \<Longrightarrow> rl_screen s = Some DetailsScreen \<Longrightarrow>
    record_list_step env s (select_record shown s)"
| details_closed: "rl_failed s = None \<Longrightarrow> rl_screen s = Some DetailsScreen \<Longrightarrow>
    record_list_step env s (select_record shown (s\<lparr>rl_screen := None\<rparr>))"
| highlighted: "rl_failed s = None \<Longrightarrow> record_list_step env s (record_highlighted key s)"
| consume_begins: "rl_failed s = None \<Longrightarrow> ConsumeScheduled \<in> set (rl_workers s) \<Longrightarrow> record_list_step env s (consume_begin s)"
| consume_ends: "rl_failed s = None \<Longrightarrow> Consuming c f \<in> set (rl_workers s) \<Longrightarrow> (case result of Inr rs \<Rightarrow> list_all resolved rs | Inl _ \<Rightarrow> True) \<Longrightarrow>
    record_list_step env s (consume_end env c f result s)"
| replace_begins: "rl_failed s = None \<Longrightarrow> ReplaceScheduled \<in> set (rl_workers s) \<Longrightarrow>
    record_list_step env s (replace_begin made s)"
| replace_ends: "rl_failed s = None \<Longrightarrow> Closing previous \<in> set (rl_workers s) \<Longrightarrow>
    record_list_step env s (replace_end previous close_result s)"

inductive record_list_reach :: "('i, 's) list_env \<Rightarrow> ('i, 's) record_list \<Rightarrow> bool" for env where
  mounted: "record_list_reach env (action_consume (record_list_new topic w))"
| stepped: "record_list_reach env s \<Longrightarrow> record_list_step env s t \<Longrightarrow> record_list_reach env t"

definition rows_ok :: "('i, 's) record_list \<Rightarrow> bool" where
  "rows_ok s \<longleftrightarrow> map fst (rl_rows s) = dkeys (rl_records s) \<and> ddistinct (rl_records s) \<and>
     list_all (\<lambda>(k, r). record_str r = k) (rl_records s) \<and>
     (\<forall>r. rl_current s = Some r \<longrightarrow> din (record_str r) (rl_records s)) \<and>
     list_all (\<lambda>((row, column), _). row < length (rl_rows s)) (rl_tooltips s) \<and>
     (rl_cursor s < length (rl_rows s) \<or> rl_cursor s = 0)"

definition workers_ok :: "('i, 's) record_list \<Rightarrow> bool" where
  "workers_ok s \<longleftrightarrow> (rl_consuming s \<longleftrightarrow> rl_workers s \<noteq> []) \<and> length (rl_workers s) \<le> 1 \<and>
     (rl_screen s \<in> {Some FilterScreen, Some ChunkScreen} \<longrightarrow> rl_workers s = [])"

definition closing_consumers :: "('i, 's) record_list \<Rightarrow> nat list" where
  "closing_consumers s = concat (map (\<lambda>w. case w of Closing c \<Rightarrow> [c] | _ \<Rightarrow> []) (rl_workers s))"

definition consumers_ok :: "('i, 's) record_list \<Rightarrow> bool" where
  "consumers_ok s \<longleftrightarrow> distinct (rl_consumer s # closing_consumers s @ rl_released s) \<and>
     set (rl_consumer s # closing_consumers s @ rl_released s) = {0..<rl_made s} \<and>
     (\<forall>c f. Consuming c f \<in> set (rl_workers s) \<longrightarrow> c = rl_consumer s)"

lemma resolve_keeps_identity:
  "resolve_deserializations call r w = (x, r', w') \<Longrightarrow> record_str r' = record_str r"
  "key_outcome call r w = (y, r', w') \<Longrightarrow> record_str r' = record_str r"
  "value_outcome call r w = (y, r', w') \<Longrightarrow> record_str r' = record_str r"
  by (auto simp: resolve_deserializations_def key_outcome_def value_outcome_def record_str_def
      split: option.splits prod.splits sum.splits)

lemma resolved_outcomes: "resolved r \<Longrightarrow> \<exists>outs. record_outcomes env r w = (Inr outs, r, w)"
  by (auto simp: resolved_def record_outcomes_def model_simps)

lemma cell_tooltips_row: "(rc, t) \<in> set (cell_tooltips env row r outs) \<Longrightarrow> fst rc = row"
  by (auto simp: cell_tooltips_def split: if_splits)

lemma dmerge_mem: "(k, v) \<in> set (dmerge d e) \<Longrightarrow> k \<in> fst ` set d \<or> k \<in> fst ` set e"
proof -
  assume "(k, v) \<in> set (dmerge d e)"
  then have "k \<in> fst ` set (dmerge d e)" by force
  then show ?thesis by (simp add: keyset_dmerge)
qed

lemma dput_all: "list_all (\<lambda>(k, v). P k v) d \<Longrightarrow> P k v \<Longrightarrow> list_all (\<lambda>(k, v). P k v) (dput k v d)"
  by (induction d) auto

lemma add_record_ok:
  assumes "rows_ok s" and "resolved r" and "add_record env r s = (x, t)"
  shows "rows_ok t" and "x = (if din (record_str r) (rl_records s) then Inl (OtherException ''DuplicateKey'') else Inr ())"
    and "x = Inr () \<Longrightarrow> rl_records t = rl_records s @ [(record_str r, r)]"
proof -
  obtain outs where outs: "record_outcomes env r (rl_world s) = (Inr outs, r, rl_world s)" using resolved_outcomes[OF assms(2), of env "rl_world s"] by blast
  have rows: "record_str r \<in> set (map fst (rl_rows s)) \<longleftrightarrow> din (record_str r) (rl_records s)"
    using assms(1) by (simp only: rows_ok_def din_def)
  let ?d = "dput (record_str r) r (rl_records s)"
  show x: "x = (if din (record_str r) (rl_records s) then Inl (OtherException ''DuplicateKey'') else Inr ())"
    using assms(3) outs rows by (auto simp: add_record_def split: if_splits)
  have fresh: "\<not> din (record_str r) (rl_records s) \<Longrightarrow> ?d = rl_records s @ [(record_str r, r)]" by (rule dput_fresh)
  then show "x = Inr () \<Longrightarrow> rl_records t = rl_records s @ [(record_str r, r)]"
    using assms(3) outs rows x by (auto simp: add_record_def split: if_splits)
  have strs: "list_all (\<lambda>(k, r). record_str r = k) ?d" if "list_all (\<lambda>(k, r). record_str r = k) (rl_records s)"
    using that by (rule dput_all) simp
  show "rows_ok t"
  proof (cases "din (record_str r) (rl_records s)")
    case True
    then have "t = s\<lparr>rl_records := ?d\<rparr>" using assms(3) outs rows by (auto simp: add_record_def)
    moreover have "dkeys ?d = dkeys (rl_records s)" using True by (simp add: din_def update_keys)
    ultimately show ?thesis using assms(1) strs by (auto simp: rows_ok_def dict_simps split: option.splits)
  next
    case False
    then have "t = s\<lparr>rl_records := ?d, rl_rows := rl_rows s @ [(record_str r, record_row env r outs)],
                   rl_tooltips := dmerge (rl_tooltips s) (cell_tooltips env (length (rl_rows s)) r outs)\<rparr>"
      using assms(3) outs rows by (auto simp: add_record_def)
    then show ?thesis using assms(1) False fresh[OF False]
      by (auto simp: rows_ok_def list_all_iff din_def dest!: dmerge_mem cell_tooltips_row split: option.splits)
  qed
qed

lemma add_records_ok:
  "rows_ok s \<Longrightarrow> list_all resolved rs \<Longrightarrow> add_records env rs s = (x, t) \<Longrightarrow>
     rows_ok t \<and> (if list_all (\<lambda>r. \<not> din (record_str r) (rl_records s)) rs \<and> distinct (map record_str rs)
       then x = Inr () \<and> rl_records t = rl_records s @ map (\<lambda>r. (record_str r, r)) rs
       else x = Inl (OtherException ''DuplicateKey''))"
proof (induction rs arbitrary: s)
  case (Cons r rs)
  obtain y u where u: "add_record env r s = (y, u)" by fastforce
  note a = add_record_ok[OF Cons.prems(1) _ u]
  show ?case
  proof (cases "din (record_str r) (rl_records s)")
    case True
    then show ?thesis using a Cons.prems u by (auto split: if_splits)
  next
    case False
    then have y: "y = Inr ()" and r: "rl_records u = rl_records s @ [(record_str r, r)]" and "rows_ok u"
      using a Cons.prems(2) by auto
    moreover have "add_records env rs u = (x, t)" using Cons.prems(3) u y by simp
    moreover have "list_all (\<lambda>r'. \<not> din (record_str r') (rl_records u)) rs \<longleftrightarrow>
        list_all (\<lambda>r'. \<not> din (record_str r') (rl_records s)) rs \<and> record_str r \<notin> set (map record_str rs)"
      by (auto simp: r din_def list_all_iff) (metis image_eqI)
    ultimately show ?thesis using Cons.IH[of u] Cons.prems(2) False by auto
  qed
qed simp

text \<open>The row of a record whose content is deserialized.\<close>

definition shown_row :: "('i, 's) list_env \<Rightarrow> 'i message \<Rightarrow> string \<times> cell list" where
  "shown_row env r = (record_str r, record_row env r (the (r_key_outcome r), the (r_value_outcome r)))"

lemma fst_shown_row [simp]: "fst (shown_row env r) = record_str r"
  by (simp add: shown_row_def)

lemma resolved_shown: "resolved r \<Longrightarrow> record_outcomes env r w = (Inr (the (r_key_outcome r), the (r_value_outcome r)), r, w)"
  by (auto simp: resolved_def record_outcomes_def model_simps)

lemma add_record_row:
  assumes "rows_ok s" and "resolved r" and "add_record env r s = (x, t)"
  shows "rl_records t = dput (record_str r) r (rl_records s) \<and>
    rl_rows t = (if din (record_str r) (rl_records s) then rl_rows s else rl_rows s @ [shown_row env r])"
proof -
  have rows: "record_str r \<in> set (map fst (rl_rows s)) \<longleftrightarrow> din (record_str r) (rl_records s)"
    using assms(1) by (simp only: rows_ok_def din_def)
  show ?thesis using assms(3) rows by (auto simp: add_record_def resolved_shown[OF assms(2)] shown_row_def)
qed

lemma add_records_rows:
  assumes "rows_ok s" and "list_all resolved rs" and "add_records env rs s = (x, t)"
  shows "if list_all (\<lambda>r. \<not> din (record_str r) (rl_records s)) rs \<and> distinct (map record_str rs)
    then rl_records t = rl_records s @ map (\<lambda>r. (record_str r, r)) rs \<and> rl_rows t = rl_rows s @ map (shown_row env) rs
    else \<exists>before r after. rs = before @ r # after \<and>
      list_all (\<lambda>r. \<not> din (record_str r) (rl_records s)) before \<and> distinct (map record_str before) \<and>
      (din (record_str r) (rl_records s) \<or> record_str r \<in> record_str ` set before) \<and>
      rl_records t = dput (record_str r) r (rl_records s @ map (\<lambda>r. (record_str r, r)) before) \<and>
      rl_rows t = rl_rows s @ map (shown_row env) before"
  using assms
proof (induction rs arbitrary: s)
  case (Cons r rs)
  obtain y u where u: "add_record env r s = (y, u)" by fastforce
  have ok: "resolved r" "list_all resolved rs" using Cons.prems(2) by simp_all
  note a = add_record_ok[OF Cons.prems(1) ok(1) u] add_record_row[OF Cons.prems(1) ok(1) u]
  show ?case
  proof (cases "din (record_str r) (rl_records s)")
    case True
    then have "t = u" using a(2) Cons.prems(3) u by simp
    then show ?thesis using True a(4) by (auto intro!: exI[of _ "[]"])
  next
    case False
    then have y: "y = Inr ()" and records: "rl_records u = rl_records s @ [(record_str r, r)]" and rows: "rl_rows u = rl_rows s @ [shown_row env r]"
      using a(2-4) by auto
    have rest: "add_records env rs u = (x, t)" using Cons.prems(3) u y by simp
    have new: "list_all (\<lambda>r'. \<not> din (record_str r') (rl_records u)) qs \<longleftrightarrow>
        list_all (\<lambda>r'. \<not> din (record_str r') (rl_records s)) qs \<and> record_str r \<notin> set (map record_str qs)" for qs
      by (auto simp: records din_def list_all_iff) (metis image_eqI)
    note IH = Cons.IH[OF a(1) ok(2) rest]
    show ?thesis
    proof (cases "list_all (\<lambda>r'. \<not> din (record_str r') (rl_records u)) rs \<and> distinct (map record_str rs)")
      case True
      then show ?thesis using IH False new[of rs] by (simp add: records rows)
    next
      case no: False
      then obtain before q after where q: "rs = before @ q # after"
        "list_all (\<lambda>r. \<not> din (record_str r) (rl_records u)) before" "distinct (map record_str before)"
        "din (record_str q) (rl_records u) \<or> record_str q \<in> record_str ` set before"
        "rl_records t = dput (record_str q) q (rl_records u @ map (\<lambda>r. (record_str r, r)) before)"
        "rl_rows t = rl_rows u @ map (shown_row env) before"
        using IH by auto
      have "r # rs = (r # before) @ q # after" "list_all (\<lambda>r. \<not> din (record_str r) (rl_records s)) (r # before)"
        "distinct (map record_str (r # before))" "din (record_str q) (rl_records s) \<or> record_str q \<in> record_str ` set (r # before)"
        "rl_records t = dput (record_str q) q (rl_records s @ map (\<lambda>r. (record_str r, r)) (r # before))"
        "rl_rows t = rl_rows s @ map (shown_row env) (r # before)"
        using q False new[of before] by (auto simp: records rows din_def)
      moreover have "\<not> (list_all (\<lambda>r. \<not> din (record_str r) (rl_records s)) (r # rs) \<and> distinct (map record_str (r # rs)))"
        using no new[of rs] by auto
      ultimately show ?thesis by (simp only: if_False) blast
    qed
  qed
qed simp

lemma add_record_frame:
  "add_record env r s = (x, t) \<Longrightarrow> rl_workers t = rl_workers s \<and> rl_consuming t = rl_consuming s \<and> rl_screen t = rl_screen s \<and>
     rl_consumer t = rl_consumer s \<and> rl_made t = rl_made s \<and> rl_released t = rl_released s \<and> rl_failed t = rl_failed s"
  by (auto simp: add_record_def Let_def split: prod.splits sum.splits if_splits)

lemma add_records_frame:
  "add_records env rs s = (x, t) \<Longrightarrow> rl_workers t = rl_workers s \<and> rl_consuming t = rl_consuming s \<and> rl_screen t = rl_screen s \<and>
     rl_consumer t = rl_consumer s \<and> rl_made t = rl_made s \<and> rl_released t = rl_released s \<and> rl_failed t = rl_failed s"
  by (induction rs arbitrary: s) (auto split: prod.splits sum.splits dest: add_record_frame)

lemma notify_or_fail_frame [simp]:
  "rl_records (notify_or_fail title e s) = rl_records s" "rl_rows (notify_or_fail title e s) = rl_rows s"
  "rl_tooltips (notify_or_fail title e s) = rl_tooltips s" "rl_current (notify_or_fail title e s) = rl_current s"
  "rl_cursor (notify_or_fail title e s) = rl_cursor s" "rl_workers (notify_or_fail title e s) = rl_workers s"
  "rl_screen (notify_or_fail title e s) = rl_screen s" "rl_consumer (notify_or_fail title e s) = rl_consumer s"
  "rl_made (notify_or_fail title e s) = rl_made s" "rl_released (notify_or_fail title e s) = rl_released s"
  "rl_consuming (notify_or_fail title e s) = rl_consuming s"
  by (simp_all add: notify_or_fail_def)

definition list_ok :: "('i, 's) record_list \<Rightarrow> bool" where
  "list_ok s \<longleftrightarrow> rows_ok s \<and> workers_ok s \<and> consumers_ok s"

lemma consume_end_ok:
  assumes "list_ok s" and "Consuming c f \<in> set (rl_workers s)" and "case result of Inr rs \<Rightarrow> list_all resolved rs | Inl _ \<Rightarrow> True"
  shows "list_ok (consume_end env c f result s)"
proof -
  have w: "rl_workers s = [Consuming c f]"
    using assms(1,2) by (cases "rl_workers s") (auto simp: list_ok_def workers_ok_def)
  let ?t = "s\<lparr>rl_workers := []\<rparr>"
  obtain x u where u: "add_records env (projr result) ?t = (x, u)" by fastforce
  have t: "rows_ok ?t" using assms(1) by (simp add: list_ok_def rows_ok_def)
  have rows: "result = Inr rs \<Longrightarrow> rows_ok u" for rs using add_records_ok[OF t _ u] assms(3) by auto
  have ok: "rows_ok v \<Longrightarrow> rl_workers v = [] \<Longrightarrow> rl_consumer v = rl_consumer s \<Longrightarrow> rl_made v = rl_made s \<Longrightarrow> rl_released v = rl_released s \<Longrightarrow>
      list_ok (v\<lparr>rl_loading := False, rl_consuming := False\<rparr>)" for v
    using assms(1) w by (simp add: list_ok_def rows_ok_def workers_ok_def consumers_ok_def closing_consumers_def)
  have same: "rows_ok (notify_or_fail title e v) = rows_ok v" for title e and v :: "('a, 'b) record_list" by (simp add: rows_ok_def)
  show ?thesis
  proof (cases result)
    case (Inl e)
    then show ?thesis using t by (simp add: consume_end_def w ok same)
  next
    case (Inr rs)
    then show ?thesis using rows[OF Inr] add_records_frame[OF u] u
      by (cases x) (simp_all add: consume_end_def w ok same)
  qed
qed

lemma worker_only: "workers_ok s \<Longrightarrow> w \<in> set (rl_workers s) \<Longrightarrow> rl_workers s = [w]"
  by (cases "rl_workers s") (auto simp: workers_ok_def)

lemma replace_begin_ok:
  assumes "list_ok s" and "ReplaceScheduled \<in> set (rl_workers s)"
  shows "list_ok (replace_begin made s)"
proof -
  have w: "rl_workers s = [ReplaceScheduled]" using assms worker_only by (auto simp: list_ok_def)
  show ?thesis
  proof (cases made)
    case (Inl e)
    then show ?thesis using assms(1) w
      by (auto simp: replace_begin_def replace_finished_def action_consume_def Let_def list_ok_def rows_ok_def workers_ok_def
          consumers_ok_def closing_consumers_def)
  next
    case (Inr u)
    then show ?thesis using assms(1) w
      by (auto simp: replace_begin_def list_ok_def rows_ok_def workers_ok_def consumers_ok_def closing_consumers_def)
  qed
qed

lemma replace_end_ok:
  assumes "list_ok s" and "Closing previous \<in> set (rl_workers s)"
  shows "list_ok (replace_end previous r s)"
proof -
  have w: "rl_workers s = [Closing previous]" using assms worker_only by (auto simp: list_ok_def)
  then show ?thesis using assms(1)
    by (cases r) (auto simp: replace_end_def replace_finished_def action_consume_def Let_def list_ok_def rows_ok_def workers_ok_def
        consumers_ok_def closing_consumers_def)
qed

lemma takeWhile_index: "x \<in> set xs \<Longrightarrow> length (takeWhile (\<lambda>y. y \<noteq> x) xs) < length xs \<and> xs ! length (takeWhile (\<lambda>y. y \<noteq> x) xs) = x"
  by (induction xs) auto

lemma select_record_ok:
  assumes "list_ok s"
  shows "list_ok (select_record shown s)"
proof (cases "\<exists>r. shown = Some r \<and> din (record_str r) (rl_records s)")
  case True
  then obtain r where r: "shown = Some r" "record_str r \<in> set (dkeys (rl_records s))" by (auto simp: din_def)
  have "dkeys (rl_rows s) = dkeys (rl_records s)" using assms by (simp add: list_ok_def rows_ok_def)
  then have "length (takeWhile (\<lambda>k. k \<noteq> record_str r) (dkeys (rl_records s))) < length (rl_rows s)"
    using takeWhile_index[OF r(2)] by (metis length_map)
  then show ?thesis using assms r
    by (simp add: select_record_def din_def list_ok_def rows_ok_def workers_ok_def consumers_ok_def closing_consumers_def)
next
  case False
  then have "select_record shown s = s" by (auto simp: select_record_def split: option.split)
  then show ?thesis using assms by simp
qed

lemma list_step_ok: "record_list_step env s t \<Longrightarrow> list_ok s \<Longrightarrow> list_ok t"
proof (induction rule: record_list_step.induct)
  case (consume_ends s c f result)
  then show ?case by (intro consume_end_ok)
next
  case (replace_begins s made)
  then show ?case by (intro replace_begin_ok)
next
  case (replace_ends s previous close_result)
  then show ?case by (intro replace_end_ok)
next
  case (consume_begins s)
  then have "rl_workers s = [ConsumeScheduled]" using worker_only by (auto simp: list_ok_def)
  then show ?case using consume_begins
    by (simp add: consume_begin_def list_ok_def rows_ok_def workers_ok_def consumers_ok_def closing_consumers_def)
next
  case (filtered s result)
  then show ?case
    by (cases result) (auto simp: filter_records_dismissed_def filter_records_def list_ok_def rows_ok_def workers_ok_def consumers_ok_def closing_consumers_def)
next
  case (chunk_chosen s chosen)
  then show ?case
    by (cases chosen) (auto simp: chunk_dismissed_def list_ok_def rows_ok_def workers_ok_def consumers_ok_def closing_consumers_def)
next
  case (highlighted s key)
  have "dget (rl_records s) k = Some r \<Longrightarrow> din (record_str r) (rl_records s)" for k r
    using highlighted by (auto simp: list_ok_def rows_ok_def list_all_iff din_def dest!: map_of_SomeD intro: rev_image_eqI)
  then show ?case using highlighted
    by (cases key) (simp_all add: record_highlighted_def list_ok_def rows_ok_def workers_ok_def consumers_ok_def closing_consumers_def)
next
  case (details_moved s shown)
  then show ?case by (simp add: select_record_ok)
next
  case (details_closed s shown)
  then have "list_ok (s\<lparr>rl_screen := None\<rparr>)"
    by (simp add: list_ok_def rows_ok_def workers_ok_def consumers_ok_def closing_consumers_def)
  then show ?case by (rule select_record_ok)
qed (auto simp: action_consume_def action_all_records_def filter_records_def check_list_action_def list_ok_def rows_ok_def workers_ok_def consumers_ok_def closing_consumers_def)

lemma list_reach_ok: "record_list_reach env s \<Longrightarrow> list_ok s"
proof (induction rule: record_list_reach.induct)
  case (mounted topic w)
  show ?case
    by (simp add: action_consume_def record_list_new_def list_ok_def rows_ok_def workers_ok_def consumers_ok_def closing_consumers_def)
next
  case (stepped s t)
  then show ?case by (blast intro: list_step_ok)
qed

section \<open>Properties\<close>

definition sample_outcome :: outcome where
  "sample_outcome = \<lparr>oc_requested = F_BYTES, oc_content = PNone, oc_schema = None, oc_error = None, oc_encoding = HEX\<rparr>"

definition resolved_message :: "int \<Rightarrow> nat message" where
  "resolved_message n = sample_message\<lparr>r_offset := n, r_key_outcome := Some sample_outcome, r_value_outcome := Some sample_outcome\<rparr>"

definition sample_env :: "(nat, nat) list_env" where
  "sample_env = \<lparr>le_call = failing_call, le_show = \<lambda>_. [], le_exn = \<lambda>_. [], le_utf8_length = length, le_size = \<lambda>_. [],
     le_timestamp = \<lambda>_. []\<rparr>"

definition consuming_list :: "(nat, nat) record_list" where
  "consuming_list = consume_begin (action_consume (record_list_new ''t'' 0))"

lemma consuming_list_reach: "record_list_reach sample_env consuming_list"
  unfolding consuming_list_def
  by (rule stepped[OF mounted consume_begins]) (simp_all add: action_consume_def record_list_new_def)

lemma consuming_list_worker: "Consuming 0 EMPTY_RECORD_FILTERS \<in> set (rl_workers consuming_list)" "rl_failed consuming_list = None"
  by (simp_all add: consuming_list_def consume_begin_def action_consume_def record_list_new_def)

lemma resolved_sample: "resolved (resolved_message n)"
  by (simp add: resolved_def resolved_message_def)

text \<open>C19: the records on the screen are the records of the list: in every state the list's events can reach, the rows are
  the keys of the records in the order they came, each key names its record, no key occurs twice, and the
  selection, the cursor and every tooltip belong to a row.\<close>

theorem record_rows_follow:
  assumes "record_list_reach env s"
  shows "map fst (rl_rows s) = dkeys (rl_records s) \<and> ddistinct (rl_records s) \<and>
    (\<forall>(k, r) \<in> set (rl_records s). record_str r = k) \<and>
    (\<forall>r. rl_current s = Some r \<longrightarrow> record_str r \<in> set (map fst (rl_rows s))) \<and>
    (\<forall>((row, column), tooltip) \<in> set (rl_tooltips s). row < length (rl_rows s)) \<and>
    (rl_cursor s < length (rl_rows s) \<or> rl_cursor s = 0)"
  using list_reach_ok[OF assms] by (simp add: list_ok_def rows_ok_def list_all_iff din_def)

theorem record_rows_follow_witness:
  "map fst (rl_rows (consume_end sample_env 0 EMPTY_RECORD_FILTERS (Inr [resolved_message 5, resolved_message 7]) consuming_list)) =
     dkeys (rl_records (consume_end sample_env 0 EMPTY_RECORD_FILTERS (Inr [resolved_message 5, resolved_message 7]) consuming_list))"
proof -
  have "record_list_reach sample_env (consume_end sample_env 0 EMPTY_RECORD_FILTERS (Inr [resolved_message 5, resolved_message 7]) consuming_list)"
    by (rule stepped[OF consuming_list_reach consume_ends]) (simp_all add: consuming_list_worker resolved_sample)
  from record_rows_follow[OF this] show ?thesis by blast
qed

text \<open>C20: the list never consumes twice at once and never loses a consumer: in every reachable state at most one worker
  runs, one runs exactly while the list is consuming, it reads from the current consumer, and of all consumers
  ever made each is either the current one, being closed, or closed once (a closing that raises counts as one).\<close>

theorem one_consumer_at_a_time:
  assumes "record_list_reach env s"
  shows "length (rl_workers s) \<le> 1 \<and> (rl_consuming s \<longleftrightarrow> rl_workers s \<noteq> []) \<and>
    (\<forall>c f. Consuming c f \<in> set (rl_workers s) \<longrightarrow> c = rl_consumer s) \<and>
    distinct (rl_consumer s # closing_consumers s @ rl_released s) \<and>
    set (rl_consumer s # closing_consumers s @ rl_released s) = {0..<rl_made s}"
  using list_reach_ok[OF assms] unfolding list_ok_def workers_ok_def consumers_ok_def by blast

theorem one_consumer_at_a_time_witness: "length (rl_workers consuming_list) \<le> 1 \<and> rl_workers consuming_list \<noteq> []"
  using one_consumer_at_a_time[OF consuming_list_reach] consuming_list_worker by auto

lemma repeated_record_fails_at:
  assumes "record_list_reach env s" and "rl_failed s = None" and "Consuming c f \<in> set (rl_workers s)" and "list_all resolved rs"
  shows "rl_failed (consume_end env c f (Inr rs) s) =
    (if list_all (\<lambda>r. \<not> din (record_str r) (rl_records s)) rs \<and> distinct (map record_str rs) then None
     else Some (OtherException ''DuplicateKey''))"
proof -
  let ?t = "s\<lparr>rl_workers := remove1 (Consuming c f) (rl_workers s)\<rparr>"
  obtain x u where u: "add_records env rs ?t = (x, u)" by fastforce
  have "rows_ok ?t" using list_reach_ok[OF assms(1)] by (simp add: list_ok_def rows_ok_def)
  note a = add_records_ok[OF this assms(4) u] add_records_frame[OF u]
  show ?thesis
  proof (cases "list_all (\<lambda>r. \<not> din (record_str r) (rl_records s)) rs \<and> distinct (map record_str rs)")
    case True
    then show ?thesis using a assms(2) u by (simp add: consume_end_def)
  next
    case False
    then have "x = Inl (OtherException ''DuplicateKey'')" using a by (simp split: if_splits)
    then show ?thesis using False u by (auto simp: consume_end_def notify_or_fail_def consumer_exception_def)
  qed
qed

text \<open>C27: a record that comes twice stops the consumer. A chunk whose records are new to the list and differ from each other is
  added as a whole, each record with its row, in their order. Otherwise the records before the first one that
  is repeated are added, that one replaces the record it repeats without a row of its own, and the table's
  error for a duplicate key, which nobody catches, ends the application.\<close>

theorem repeated_record_fails:
  assumes "record_list_reach env s" and "rl_failed s = None" and "Consuming c f \<in> set (rl_workers s)" and "list_all resolved rs"
  shows "let u = consume_end env c f (Inr rs) s in
    \<not> rl_consuming u \<and>
    (if list_all (\<lambda>r. \<not> din (record_str r) (rl_records s)) rs \<and> distinct (map record_str rs)
     then rl_failed u = None \<and> rl_records u = rl_records s @ map (\<lambda>r. (record_str r, r)) rs \<and>
       rl_rows u = rl_rows s @ map (shown_row env) rs
     else rl_failed u = Some (OtherException ''DuplicateKey'') \<and>
       (\<exists>before r after. rs = before @ r # after \<and>
         list_all (\<lambda>r. \<not> din (record_str r) (rl_records s)) before \<and> distinct (map record_str before) \<and>
         (din (record_str r) (rl_records s) \<or> record_str r \<in> record_str ` set before) \<and>
         rl_records u = dput (record_str r) r (rl_records s @ map (\<lambda>r. (record_str r, r)) before) \<and>
         rl_rows u = rl_rows s @ map (shown_row env) before))"
proof -
  let ?t = "s\<lparr>rl_workers := remove1 (Consuming c f) (rl_workers s)\<rparr>"
  obtain x v where v: "add_records env rs ?t = (x, v)" by fastforce
  have "rows_ok ?t" using list_reach_ok[OF assms(1)] by (simp add: list_ok_def rows_ok_def)
  have t: "rl_records ?t = rl_records s" "rl_rows ?t = rl_rows s" by simp_all
  from add_records_rows[OF \<open>rows_ok ?t\<close> assms(4) v] have added: "if list_all (\<lambda>r. \<not> din (record_str r) (rl_records s)) rs \<and> distinct (map record_str rs)
    then rl_records v = rl_records s @ map (\<lambda>r. (record_str r, r)) rs \<and> rl_rows v = rl_rows s @ map (shown_row env) rs
    else \<exists>before r after. rs = before @ r # after \<and>
      list_all (\<lambda>r. \<not> din (record_str r) (rl_records s)) before \<and> distinct (map record_str before) \<and>
      (din (record_str r) (rl_records s) \<or> record_str r \<in> record_str ` set before) \<and>
      rl_records v = dput (record_str r) r (rl_records s @ map (\<lambda>r. (record_str r, r)) before) \<and>
      rl_rows v = rl_rows s @ map (shown_row env) before"
    unfolding t .
  have u: "rl_records (consume_end env c f (Inr rs) s) = rl_records v" "rl_rows (consume_end env c f (Inr rs) s) = rl_rows v"
    "\<not> rl_consuming (consume_end env c f (Inr rs) s)"
    using v by (simp_all add: consume_end_def split: sum.split)
  show ?thesis
  proof (cases "list_all (\<lambda>r. \<not> din (record_str r) (rl_records s)) rs \<and> distinct (map record_str rs)")
    case True
    then show ?thesis unfolding Let_def u(1,2) repeated_record_fails_at[OF assms] using u(3) added by simp
  next
    case False
    show ?thesis
      unfolding Let_def u(1,2) repeated_record_fails_at[OF assms] if_not_P[OF False] using u(3) added[unfolded if_not_P[OF False]] by blast
  qed
qed

theorem repeated_record_fails_witness:
  "rl_failed (consume_end sample_env 0 EMPTY_RECORD_FILTERS (Inr [resolved_message 5, resolved_message 5]) consuming_list) =
     Some (OtherException ''DuplicateKey'') \<and>
   rl_failed (consume_end sample_env 0 EMPTY_RECORD_FILTERS (Inr [resolved_message 5]) consuming_list) = None \<and>
   map snd (rl_records (consume_end sample_env 0 EMPTY_RECORD_FILTERS (Inr [resolved_message 5]) consuming_list)) = [resolved_message 5]"
proof -
  have empty: "rl_records consuming_list = []"
    by (simp add: consuming_list_def consume_begin_def action_consume_def record_list_new_def)
  note twice = repeated_record_fails[OF consuming_list_reach consuming_list_worker(2,1), of "[resolved_message 5, resolved_message 5]"]
  note once = repeated_record_fails[OF consuming_list_reach consuming_list_worker(2,1), of "[resolved_message 5]"]
  have "rl_failed (consume_end sample_env 0 EMPTY_RECORD_FILTERS (Inr [resolved_message 5, resolved_message 5]) consuming_list) =
     Some (OtherException ''DuplicateKey'')"
    using twice by (simp add: resolved_sample Let_def split: if_splits)
  moreover have "rl_failed (consume_end sample_env 0 EMPTY_RECORD_FILTERS (Inr [resolved_message 5]) consuming_list) = None"
    "map snd (rl_records (consume_end sample_env 0 EMPTY_RECORD_FILTERS (Inr [resolved_message 5]) consuming_list)) = [resolved_message 5]"
    using once by (simp_all add: resolved_sample Let_def empty din_def)
  ultimately show ?thesis by blast
qed

text \<open>A chosen chunk size is lost when the filter changes: the consumer that replaces the old one has the default size.\<close>

lemma chunk_size_lost:
  "rl_page_size (replace_begin (Inr ()) (filter_records_dismissed (Some f) (chunk_dismissed (Some n) s))) = DEFAULT_PAGE_SIZE"
  by (simp add: replace_begin_def Let_def)

text \<open>The filter screen lets an input through that is a sign alone, and then raises.\<close>

lemma filter_sign_uncaught: "apply_filters key val ''-'' header = Inl (ValueError ''invalid literal for int() with base 10'')"
proof -
  have "parse_int ''-'' = None" by code_simp
  then show ?thesis by (simp add: apply_filters_def)
qed

section \<open>The service's records are resolved\<close>

lemma resolve_resolved: "resolve_deserializations call r s = (Inr (), r', s') \<Longrightarrow> resolved r'"
  by (auto simp: model_simps resolved_def split: option.splits prod.splits sum.splits)

lemma convert_resolved: "convert call show_val c f m s = (Inr (r, b), s') \<Longrightarrow> resolved r"
  by (auto simp: convert_def record_from_message_def matches_def Let_def resolved_def
      split: option.splits prod.splits sum.splits if_splits dest!: resolve_resolved)

lemma consume_resolved:
  assumes "consume call show_val idle assign polls metadata watermarks f c i s = Some (Inr records, c', i', s')"
  shows "list_all resolved records"
proof -
  obtain c1 where "consume_loop (convert call show_val c1 f) polls (retry_bound idle) (retry_bound assign) c1 i s [] 0 0 = Some (Inr records, c', i', s')"
    using assms by (auto simp: consume_def split: prod.splits sum.splits)
  then have "page_of polls resolved (c_page_size c1) i [] records i'"
    by (rule consume_loop_page) (use convert_position[of call show_val c1 f] convert_resolved[of call show_val c1 f] in blast, simp_all)
  then show ?thesis by (auto simp: page_of_def)
qed

end
