(* ===== verification/Record_Details.thy ===== *)
theory Record_Details
  imports Record_List Record_Source
begin

text \<open>
  The details of a consumed record (\<open>consumer/details.py\<close>): what its panels say of the key, the value and
  a header, the navigation between the records of the list, and what copying puts on the clipboard. The
  details share their records with the list (\<open>Record_List\<close>), which follows them through
  \<open>select_record\<close>. The shown record is the one at the index; a record that is deserialized while it is
  shown is updated in place. The record is found in the list by equality, which tells the records of a
  list apart as identity does, since their ids differ.

  Parameters: as in \<open>Record_List\<close>, the JSON writer, and the record's time in the export.
\<close>

section \<open>The data of a record\<close>

text \<open>\<open>Record.dict\<close>: the headers are read first, then the key and the value.\<close>

fun header_dicts ::
  "('i, 's) list_env \<Rightarrow> 'i header list \<Rightarrow> 's \<Rightarrow> (string \<times> pyval) list list res \<times> 'i header list \<times> 's" where
  "header_dicts env [] w = (Inr [], [], w)"
| "header_dicts env (h # hs) w =
     (case header_value_deserialized (le_call env) h w of
        (Inl e, h', w') \<Rightarrow> (Inl e, h' # hs, w')
      | (Inr v, h', w') \<Rightarrow>
          (case header_dicts env hs w' of
             (Inl e, hs', w'') \<Rightarrow> (Inl e, h' # hs', w'')
           | (Inr ds, hs', w'') \<Rightarrow> (Inr (header_dict (le_exn env) h' v # ds), h' # hs', w'')))"

record record_data =
  dt_headers :: "(string \<times> pyval) list list"
  dt_key :: "(string \<times> pyval) list"
  dt_value :: "(string \<times> pyval) list"

definition record_dict :: "('i, 's) list_env \<Rightarrow> 'i message \<Rightarrow> 's \<Rightarrow> record_data res \<times> 'i message \<times> 's" where
  "record_dict env r w =
     (case header_dicts env (r_headers r) w of
        (Inl e, hs, w1) \<Rightarrow> (Inl e, r\<lparr>r_headers := hs\<rparr>, w1)
      | (Inr ds, hs, w1) \<Rightarrow>
          (case key_outcome (le_call env) (r\<lparr>r_headers := hs\<rparr>) w1 of
             (Inl e, r2, w2) \<Rightarrow> (Inl e, r2, w2)
           | (Inr k, r2, w2) \<Rightarrow>
               (case value_outcome (le_call env) r2 w2 of
                  (Inl e, r3, w3) \<Rightarrow> (Inl e, r3, w3)
                | (Inr v, r3, w3) \<Rightarrow>
                    (Inr \<lparr>dt_headers = ds, dt_key = outcome_dict (le_exn env) k, dt_value = outcome_dict (le_exn env) v\<rparr>, r3, w3))))"

definition json_object :: "(string \<times> pyval) list \<Rightarrow> pyval" where
  "json_object kvs = PDict (map (\<lambda>(k, v). (PStr k, v)) kvs)"

definition record_document :: "('i message \<Rightarrow> pyval) \<Rightarrow> 'i message \<Rightarrow> record_data \<Rightarrow> pyval" where
  "record_document timestamp_json r d =
     json_object
       [(''topic'', PStr (r_topic r)), (''partition'', PInt (r_partition r)), (''offset'', PInt (r_offset r)),
        (''timestamp'', timestamp_json r), (''headers'', PList (map json_object (dt_headers d))),
        (''key'', json_object (dt_key d)), (''value'', json_object (dt_value d))]"

section \<open>Panels\<close>

record field_details =
  fd_outcome :: outcome
  fd_payload_size :: "nat option"
  fd_field_name :: "string option"
  fd_headers_size :: "nat option"

definition field_size :: "(string \<Rightarrow> nat) \<Rightarrow> field_details \<Rightarrow> nat option" where
  "field_size utf8_length d =
     (case fd_field_name d of
        None \<Rightarrow> fd_payload_size d
      | Some name \<Rightarrow> Some (utf8_length name + (case fd_payload_size d of None \<Rightarrow> 0 | Some n \<Rightarrow> n)))"

definition content_label :: "field_details \<Rightarrow> string" where
  "content_label d =
     (if fd_payload_size d = None then ''No Content (Null)''
      else if oc_error (fd_outcome d) \<noteq> None then ''FALLBACK CONTENT'' else ''CONTENT'')"

fun schema_type_label :: "schema_info \<Rightarrow> string" where
  "schema_type_label (ConfluentInfo s) = cs_type s"
| "schema_type_label (ApicurioInfo s) = as_type s"

text \<open>The separator of the labels is a dot that is no character of the modelled range.\<close>

definition SEPARATOR :: string where "SEPARATOR = '' | ''"

definition deserializer_label :: "outcome \<Rightarrow> string" where
  "deserializer_label out =
     join SEPARATOR ([format_name (oc_requested out)]
       @ (case oc_schema out of Some s \<Rightarrow> [schema_type_label s] | None \<Rightarrow> [])
       @ (if \<not> used_fallback out \<and> oc_requested out = F_BYTES \<and> is_bytes (oc_content out)
          then [encoding_name (oc_encoding out)] else []))"

definition given_text :: "string option \<Rightarrow> string list" where
  "given_text v = (case v of Some s \<Rightarrow> if s = [] then [] else [s] | None \<Rightarrow> [])"

definition with_version :: "string list \<Rightarrow> string option \<Rightarrow> string list" where
  "with_version parts version =
     (case version of None \<Rightarrow> parts | Some v \<Rightarrow> butlast parts @ [last parts @ '' v'' @ v])"

text \<open>\<open>_schema\<close>: the provider, the ID, and the subject or the group and artifact with the version.\<close>

definition schema_label :: "outcome \<Rightarrow> string" where
  "schema_label out =
     (case oc_schema out of
        None \<Rightarrow> ''-''
      | Some (ConfluentInfo s) \<Rightarrow>
          join SEPARATOR (with_version ([title_case CONFLUENT_OPTION, ''ID '' @ show_int (cs_id s)] @ given_text (Some (cs_subject s)))
            (Some (show_int (cs_version s))))
      | Some (ApicurioInfo s) \<Rightarrow>
          join SEPARATOR (with_version ([title_case APICURIO_OPTION, ''ID '' @ show_int (as_id s)]
              @ given_text (Some (join ''/'' (given_text (as_group s) @ given_text (as_artifact s)))))
            (as_version s)))"

definition error_label :: "(exn \<Rightarrow> string) \<Rightarrow> outcome \<Rightarrow> string list" where
  "error_label show_exn out =
     ''ERROR'' # (case oc_error out of
        None \<Rightarrow> []
      | Some e \<Rightarrow> [show_exn e, ''Fallback: '' @ format_name F_BYTES @ SEPARATOR @ encoding_name (oc_encoding out)])"

section \<open>Navigation\<close>

text \<open>\<open>ds_shown\<close> are the records \<open>on_record_changed\<close> was called with, in order.\<close>

record ('i, 's) details =
  ds_records :: "'i message list"
  ds_index :: nat
  ds_data :: record_data
  ds_header :: nat
  ds_shown :: "'i message list"
  ds_notices :: "(string \<times> exn) list"
  ds_world :: 's

definition ds_record :: "('i, 's) details \<Rightarrow> 'i message" where
  "ds_record d = ds_records d ! ds_index d"

definition details_new :: "('i, 's) list_env \<Rightarrow> 'i message \<Rightarrow> 'i message list \<Rightarrow> 's \<Rightarrow> ('i, 's) details res" where
  "details_new env r rs w =
     (let rs1 = (if rs = [] then [r] else rs);
          (rs2, i) = (if r \<in> set rs1 then (rs1, length (takeWhile (\<lambda>c. c \<noteq> r) rs1)) else (r # rs1, 0)) in
      case record_dict env r w of
        (Inl e, _, _) \<Rightarrow> Inl e
      | (Inr d, r', w') \<Rightarrow>
          Inr \<lparr>ds_records = rs2[i := r'], ds_index = i, ds_data = d, ds_header = 0, ds_shown = [], ds_notices = [], ds_world = w'\<rparr>)"

text \<open>\<open>_show_record\<close>: exceptions other than those of deserialization leave it; a record that is shown is reported at the end.\<close>

definition show_record :: "('i, 's) list_env \<Rightarrow> int \<Rightarrow> ('i, 's) details \<Rightarrow> ('i, 's) details res" where
  "show_record env index d =
     (if \<not> (0 \<le> index \<and> index < int (length (ds_records d))) then Inr d
      else
        (let i = nat index in
         case record_dict env (ds_records d ! i) (ds_world d) of
           (Inl e, r, w) \<Rightarrow>
             if deserialization_exception e
             then Inr (d\<lparr>ds_records := (ds_records d)[i := r], ds_world := w,
               ds_notices := ds_notices d @ [(''Deserialization Error'', e)]\<rparr>)
             else Inl e
         | (Inr data, r, w) \<Rightarrow>
             Inr (d\<lparr>ds_records := (ds_records d)[i := r], ds_world := w, ds_index := i, ds_data := data,
               ds_header := 0, ds_shown := ds_shown d @ [r]\<rparr>)))"

definition previous_record :: "('i, 's) list_env \<Rightarrow> ('i, 's) details \<Rightarrow> ('i, 's) details res" where
  "previous_record env d = show_record env (int (ds_index d) - 1) d"

definition next_record :: "('i, 's) list_env \<Rightarrow> ('i, 's) details \<Rightarrow> ('i, 's) details res" where
  "next_record env d = show_record env (int (ds_index d) + 1) d"

definition check_details_action :: "string \<Rightarrow> ('i, 's) details \<Rightarrow> bool" where
  "check_details_action action d \<longleftrightarrow>
     (if action = ''previous_record'' then 0 < ds_index d
      else if action = ''next_record'' then int (ds_index d) < int (length (ds_records d)) - 1
      else True)"

definition header_highlighted :: "nat option \<Rightarrow> ('i, 's) details \<Rightarrow> ('i, 's) details" where
  "header_highlighted key d = (case key of None \<Rightarrow> d | Some i \<Rightarrow> d\<lparr>ds_header := i\<rparr>)"

section \<open>Copying\<close>

text \<open>\<open>_active_content\<close>: the subject and the text, or no text for a null payload.\<close>

definition active_content :: "(pyval \<Rightarrow> string) \<Rightarrow> string \<Rightarrow> ('i, 's) details \<Rightarrow> string \<times> string option" where
  "active_content readable_json active d =
     (let r = ds_record d in
      if active = ''headers'' then
        (if r_headers r = [] then (''record headers'', None)
         else
           (''header value'',
            map_option (\<lambda>_. readable_content readable_json (dget_or (dt_headers (ds_data d) ! ds_header d) ''value'' PNone))
              (h_value (r_headers r ! ds_header d))))
      else if active = ''key'' then
        (''record key'', map_option (\<lambda>_. readable_content readable_json (dget_or (dt_key (ds_data d)) ''content'' PNone)) (r_key r))
      else
        (''record '' @ active, map_option (\<lambda>_. readable_content readable_json (dget_or (dt_value (ds_data d)) ''content'' PNone)) (r_value r)))"

datatype copied = CopiedText string string | NothingCopied string

definition copy_record ::
  "(pyval \<Rightarrow> string) \<Rightarrow> ('i message \<Rightarrow> pyval) \<Rightarrow> string \<Rightarrow> ('i, 's) details \<Rightarrow> copied" where
  "copy_record readable_json timestamp_json active d =
     (if active = ''json'' then
        CopiedText (readable_json (record_document timestamp_json (ds_record d) (ds_data d))) ''record JSON''
      else
        (case active_content readable_json active d of
           (subject, None) \<Rightarrow> NothingCopied (''No '' @ subject @ '' to copy'')
         | (subject, Some text) \<Rightarrow> CopiedText text subject))"

section \<open>Lemmas\<close>

fun navigate :: "('i, 's) list_env \<Rightarrow> bool list \<Rightarrow> ('i, 's) details \<Rightarrow> ('i, 's) details res" where
  "navigate env [] d = Inr d"
| "navigate env (forward # moves) d =
     rbind (if forward then next_record env d else previous_record env d) (navigate env moves)"

text \<open>What the details show is what the shown record remembers.\<close>

definition details_ok :: "('i, 's) list_env \<Rightarrow> ('i, 's) details \<Rightarrow> bool" where
  "details_ok env d \<longleftrightarrow> ds_index d < length (ds_records d) \<and>
     (\<exists>k v. r_key_outcome (ds_record d) = Some k \<and> r_value_outcome (ds_record d) = Some v \<and>
        dt_key (ds_data d) = outcome_dict (le_exn env) k \<and> dt_value (ds_data d) = outcome_dict (le_exn env) v)"

lemma key_outcome_remembered:
  "key_outcome call r w = (Inr k, r', w') \<Longrightarrow> r_key_outcome r' = Some k \<and> record_str r' = record_str r"
  "value_outcome call r w = (Inr v, r', w') \<Longrightarrow> r_value_outcome r' = Some v \<and> r_key_outcome r' = r_key_outcome r \<and> record_str r' = record_str r"
  by (auto simp: key_outcome_def value_outcome_def record_str_def split: option.splits prod.splits sum.splits)

lemma record_dict_str: "record_dict env r w = (x, r', w') \<Longrightarrow> record_str r' = record_str r"
  by (auto simp: record_dict_def record_str_def split: prod.splits sum.splits dest!: resolve_keeps_identity(2,3))

lemma record_dict_remembers:
  "record_dict env r w = (Inr d, r', w') \<Longrightarrow> \<exists>k v. r_key_outcome r' = Some k \<and> r_value_outcome r' = Some v \<and>
     dt_key d = outcome_dict (le_exn env) k \<and> dt_value d = outcome_dict (le_exn env) v"
  by (auto simp: record_dict_def split: prod.splits sum.splits dest!: key_outcome_remembered)

text \<open>The records keep their places: what is shown has the id it had when the details opened.\<close>

abbreviation details_ids :: "('i, 's) details \<Rightarrow> string list" where
  "details_ids d \<equiv> map record_str (ds_records d)"

lemma update_ids: "i < length rs \<Longrightarrow> record_str r = record_str (rs ! i) \<Longrightarrow> map record_str (rs[i := r]) = map record_str rs"
  by (simp add: map_update list_update_id[of "map record_str rs" i, simplified nth_map])
    (metis length_map list_update_id nth_map)

lemma show_record_ok:
  assumes "details_ok env d" and "show_record env i d = Inr d'" and "i \<noteq> int (ds_index d)"
  shows "details_ok env d' \<and> details_ids d' = details_ids d"
proof (cases "0 \<le> i \<and> i < int (length (ds_records d))")
  case False
  then show ?thesis using assms by (auto simp: show_record_def)
next
  case True
  obtain x r w where r: "record_dict env (ds_records d ! nat i) (ds_world d) = (x, r, w)" by (metis prod_cases3)
  have n: "nat i < length (ds_records d)" using True by linarith
  have str: "record_str r = record_str (ds_records d ! nat i)" using record_dict_str[OF r] .
  note ids = update_ids[OF n str]
  show ?thesis
  proof (cases x)
    case (Inr data)
    then have d': "d' = d\<lparr>ds_records := (ds_records d)[nat i := r], ds_world := w, ds_index := nat i, ds_data := data,
               ds_header := 0, ds_shown := ds_shown d @ [r]\<rparr>"
      using assms(2) True r by (simp add: show_record_def Let_def)
    show ?thesis using record_dict_remembers[OF r[unfolded Inr]] n ids by (auto simp: d' details_ok_def ds_record_def)
  next
    case (Inl e)
    then have d': "d' = d\<lparr>ds_records := (ds_records d)[nat i := r], ds_world := w,
               ds_notices := ds_notices d @ [(''Deserialization Error'', e)]\<rparr>"
      using assms(2) True r by (simp add: show_record_def Let_def split: if_splits)
    have "nat i \<noteq> ds_index d" using assms(3) True by linarith
    then show ?thesis using assms(1) ids by (auto simp: d' details_ok_def ds_record_def)
  qed
qed

lemma navigate_ok: "details_ok env d \<Longrightarrow> navigate env moves d = Inr d' \<Longrightarrow> details_ok env d' \<and> details_ids d' = details_ids d"
proof (induction moves arbitrary: d)
  case (Cons m moves)
  then obtain d1 where d1: "(if m then next_record env d else previous_record env d) = Inr d1" "navigate env moves d1 = Inr d'"
    by (auto simp: res_simps)
  have "details_ok env d1 \<and> details_ids d1 = details_ids d"
    using d1(1) show_record_ok[OF Cons.prems(1)] by (auto simp: next_record_def previous_record_def split: if_splits)
  then show ?case using Cons.IH d1(2) by metis
qed simp

lemma details_new_ok:
  assumes "details_new env r rs w = Inr d"
  shows "details_ok env d \<and> ds_index d < length (ds_records d) \<and> set (details_ids d) \<subseteq> insert (record_str r) (record_str ` set rs) \<and>
    (r \<in> set rs \<longrightarrow> details_ids d = map record_str rs)"
proof -
  define rs1 where "rs1 = (if rs = [] then [r] else rs)"
  define rs2 i where "rs2 = (if r \<in> set rs1 then rs1 else r # rs1)" and "i = (if r \<in> set rs1 then length (takeWhile (\<lambda>c. c \<noteq> r) rs1) else 0)"
  obtain data r' w' where r: "record_dict env r w = (Inr data, r', w')"
    and d: "d = \<lparr>ds_records = rs2[i := r'], ds_index = i, ds_data = data, ds_header = 0, ds_shown = [], ds_notices = [], ds_world = w'\<rparr>"
    using assms by (auto simp: details_new_def Let_def rs1_def rs2_def i_def split: prod.splits sum.splits if_splits)
  have i: "i < length rs2" "rs2 ! i = r" using takeWhile_index[of r rs1] by (cases "r \<in> set rs1"; simp add: rs2_def i_def)+
  have ids: "map record_str (rs2[i := r']) = map record_str rs2"
    by (rule update_ids[OF i(1)]) (simp add: i(2) record_dict_str[OF r])
  have "details_ok env d" using record_dict_remembers[OF r] i(1) by (simp add: d details_ok_def ds_record_def)
  moreover have "set rs2 \<subseteq> insert r (set rs)" by (auto simp: rs2_def rs1_def)
  moreover have "r \<in> set rs \<longrightarrow> rs2 = rs" by (cases rs) (simp_all add: rs2_def rs1_def)
  moreover have "details_ids d = map record_str rs2" using ids by (simp add: d)
  ultimately show ?thesis using i(1) by (auto simp: d)
qed

section \<open>Properties\<close>

text \<open>What the list does with the records the details report, while they are open: \<open>on_record_changed\<close> is \<open>select_record\<close>.\<close>

definition list_told :: "'i message list \<Rightarrow> ('i, 's) record_list \<Rightarrow> ('i, 's) record_list" where
  "list_told shown s = foldl (\<lambda>t r. select_record (Some r) t) s shown"

lemma list_told_simps [simp]: "list_told [] s = s" "list_told (shown @ [r]) s = select_record (Some r) (list_told shown s)"
  by (simp_all add: list_told_def)

lemma list_told_keeps [simp]: "rl_records (list_told shown s) = rl_records s" "rl_rows (list_told shown s) = rl_rows s"
  by (induction shown rule: rev_induct) (simp_all add: select_record_def)

lemma rows_ok_select: "rows_ok s \<Longrightarrow> rows_ok (select_record result s)"
proof (cases result)
  case (Some r)
  assume ok: "rows_ok s"
  show ?thesis
  proof (cases "din (record_str r) (rl_records s)")
    case True
    then have "length (takeWhile (\<lambda>k. k \<noteq> record_str r) (dkeys (rl_records s))) < length (rl_rows s)"
      using takeWhile_index[of "record_str r" "dkeys (rl_records s)"] ok
      by (metis din_def length_map rows_ok_def)
    then show ?thesis using ok True Some by (simp add: rows_ok_def select_record_def)
  qed (use ok Some in \<open>simp add: select_record_def\<close>)
qed (simp add: select_record_def)

lemma rows_ok_told: "rows_ok s \<Longrightarrow> rows_ok (list_told shown s)"
  by (induction shown rule: rev_induct) (simp_all add: rows_ok_select)

lemma show_record_reports:
  assumes "details_ok env d" and "show_record env i d = Inr d'" and "i \<noteq> int (ds_index d)"
  shows "ds_shown d' = ds_shown d \<and> record_str (ds_record d') = record_str (ds_record d) \<or> ds_shown d' = ds_shown d @ [ds_record d']"
proof (cases "0 \<le> i \<and> i < int (length (ds_records d))")
  case True
  then have n: "nat i < length (ds_records d)" "nat i \<noteq> ds_index d" using assms(3) by auto
  show ?thesis using assms(2) n True
    by (auto simp: show_record_def ds_record_def Let_def split: prod.splits sum.splits if_splits)
qed (use assms(2) in \<open>simp add: show_record_def\<close>)

lemma navigate_reports:
  assumes "details_ok env d" and "navigate env moves d = Inr d'"
  shows "\<exists>shown. ds_shown d' = ds_shown d @ shown \<and>
    record_str (ds_record d') = (if shown = [] then record_str (ds_record d) else record_str (last shown))"
  using assms
proof (induction moves arbitrary: d)
  case (Cons m moves)
  then obtain d1 where d1: "(if m then next_record env d else previous_record env d) = Inr d1" "navigate env moves d1 = Inr d'"
    by (auto simp: res_simps)
  then obtain i where i: "show_record env i d = Inr d1" "i \<noteq> int (ds_index d)"
    by (auto simp: next_record_def previous_record_def split: if_splits)
  have ok: "details_ok env d1" using show_record_ok[OF Cons.prems(1) i] by simp
  obtain shown where s: "ds_shown d' = ds_shown d1 @ shown"
    "record_str (ds_record d') = (if shown = [] then record_str (ds_record d1) else record_str (last shown))"
    using Cons.IH[OF ok d1(2)] by blast
  from show_record_reports[OF Cons.prems(1) i] show ?case
  proof
    assume "ds_shown d1 = ds_shown d \<and> record_str (ds_record d1) = record_str (ds_record d)"
    then show ?thesis using s by auto
  next
    assume "ds_shown d1 = ds_shown d @ [ds_record d1]"
    then show ?thesis using s by (intro exI[of _ "ds_record d1 # shown"]) simp
  qed
qed simp

lemma details_new_shown:
  assumes "details_new env r rs w = Inr d"
  shows "ds_shown d = [] \<and> record_str (ds_record d) = record_str r"
proof -
  define rs1 where "rs1 = (if rs = [] then [r] else rs)"
  define rs2 i where "rs2 = (if r \<in> set rs1 then rs1 else r # rs1)" and "i = (if r \<in> set rs1 then length (takeWhile (\<lambda>c. c \<noteq> r) rs1) else 0)"
  obtain data r' w' where r: "record_dict env r w = (Inr data, r', w')"
    and d: "d = \<lparr>ds_records = rs2[i := r'], ds_index = i, ds_data = data, ds_header = 0, ds_shown = [], ds_notices = [], ds_world = w'\<rparr>"
    using assms by (auto simp: details_new_def Let_def rs1_def rs2_def i_def split: prod.splits sum.splits if_splits)
  have "i < length rs2" using takeWhile_index[of r rs1] by (cases "r \<in> set rs1"; simp add: rs2_def i_def)
  then show ?thesis using record_dict_str[OF r] by (simp add: d ds_record_def)
qed

lemma select_record_row:
  assumes "rows_ok s" and "record_str r \<in> set (dkeys (rl_records s))"
  shows "fst (rl_rows (select_record (Some r) s) ! rl_cursor (select_record (Some r) s)) = record_str r"
proof -
  have rows: "map fst (rl_rows s) = dkeys (rl_records s)" using assms(1) by (simp add: rows_ok_def)
  note index = takeWhile_index[OF assms(2)]
  have "fst (rl_rows s ! length (takeWhile (\<lambda>k. k \<noteq> record_str r) (dkeys (rl_records s)))) = record_str r"
    using rows index by (metis length_map nth_map)
  then show ?thesis using assms(2) by (simp add: select_record_def din_def)
qed

text \<open>C25: the list follows the details: opened on the record under the list's cursor, and however one moves with next and
  previous, also past records that cannot be read, the details never leave the records of the list, and every
  record they show they report, so that the list's cursor is always on the row of the record that is shown. (The
  list gets no records meanwhile.)\<close>

theorem list_follows_details:
  assumes "record_list_reach env s" and "rl_current s = Some r" and "fst (rl_rows s ! rl_cursor s) = record_str r"
    and "details_new env r (map snd (rl_records s)) w = Inr d0" and "navigate env moves d0 = Inr d"
  shows "ds_index d < length (ds_records d) \<and> details_ids d = details_ids d0 \<and>
    record_str (ds_record d) \<in> set (dkeys (rl_records s)) \<and>
    (let t = list_told (ds_shown d) s in fst (rl_rows t ! rl_cursor t) = record_str (ds_record d))"
proof -
  note new = details_new_ok[OF assms(4)]
  note nav = navigate_ok[OF conjunct1[OF new] assms(5)]
  have ok: "rows_ok s" using list_reach_ok[OF assms(1)] by (simp add: list_ok_def)
  then have keys: "record_str ` snd ` set (rl_records s) = set (dkeys (rl_records s))"
    and cur: "record_str r \<in> set (dkeys (rl_records s))"
    using assms(2) by (force simp: rows_ok_def list_all_iff din_def)+
  have "ds_index d < length (ds_records d)" using nav by (simp add: details_ok_def)
  then have "record_str (ds_record d) \<in> set (details_ids d)" by (simp add: ds_record_def)
  moreover have "set (details_ids d0) \<subseteq> insert (record_str r) (record_str ` snd ` set (rl_records s))" using new by simp
  ultimately have shown: "record_str (ds_record d) \<in> set (dkeys (rl_records s))"
    using conjunct2[OF nav] cur unfolding keys by (metis insert_absorb subsetD)
  obtain rs where rs: "ds_shown d = rs" "record_str (ds_record d) = (if rs = [] then record_str r else record_str (last rs))"
    using navigate_reports[OF conjunct1[OF new] assms(5)] details_new_shown[OF assms(4)] by auto
  have "fst (rl_rows (list_told rs s) ! rl_cursor (list_told rs s)) = record_str (ds_record d)"
  proof (cases rs rule: rev_cases)
    case Nil
    then show ?thesis using rs(2) assms(3) by simp
  next
    case (snoc init l)
    have "rows_ok (list_told init s)" using ok by (rule rows_ok_told)
    then show ?thesis using select_record_row[of "list_told init s" l] shown rs(2) snoc by simp
  qed
  then show ?thesis using nav shown rs(1) by (simp add: details_ok_def)
qed

definition shown_list :: "(nat, nat) record_list" where
  "shown_list = record_highlighted (Some ''0/5'')
     (consume_end sample_env 0 EMPTY_RECORD_FILTERS (Inr [resolved_message 5, resolved_message 7]) consuming_list)"

lemma record_str_resolved: "record_str (resolved_message 5) = ''0/5''" "record_str (resolved_message 7) = ''0/7''"
  by code_simp+

lemma shown_list_reach: "record_list_reach sample_env shown_list"
proof -
  let ?s = "consume_end sample_env 0 EMPTY_RECORD_FILTERS (Inr [resolved_message 5, resolved_message 7]) consuming_list"
  have "record_list_reach sample_env ?s"
    by (rule stepped[OF consuming_list_reach consume_ends]) (simp_all add: consuming_list_worker resolved_sample)
  moreover have "rl_failed ?s = None"
    using repeated_record_fails_at[OF consuming_list_reach consuming_list_worker(2,1), of "[resolved_message 5, resolved_message 7]"]
    by (simp add: resolved_sample record_str_resolved consuming_list_def consume_begin_def action_consume_def record_list_new_def din_def)
  ultimately show ?thesis unfolding shown_list_def by (rule stepped[OF _ highlighted])
qed

lemma shown_list_records: "map snd (rl_records shown_list) = [resolved_message 5, resolved_message 7]"
  "rl_current shown_list = Some (resolved_message 5)"
  by code_simp+

definition shown_details :: "(nat, nat) details" where
  "shown_details = \<lparr>ds_records = [resolved_message 5, resolved_message 7], ds_index = 0,
     ds_data = \<lparr>dt_headers = [], dt_key = outcome_dict (\<lambda>_. []) sample_outcome, dt_value = outcome_dict (\<lambda>_. []) sample_outcome\<rparr>,
     ds_header = 0, ds_shown = [], ds_notices = [], ds_world = 0\<rparr>"

lemma shown_details_new: "details_new sample_env (resolved_message 5) (map snd (rl_records shown_list)) 0 = Inr shown_details"
  unfolding shown_list_records by code_simp

theorem list_follows_details_witness:
  "\<exists>d. navigate sample_env [True, True, False, True] shown_details = Inr d \<and> record_str (ds_record d) = ''0/7'' \<and>
     (let t = list_told (ds_shown d) shown_list in fst (rl_rows t ! rl_cursor t) = ''0/7'')"
proof -
  let ?d = "navigate sample_env [True, True, False, True] shown_details"
  have "map_sum id (\<lambda>d. record_str (ds_record d)) ?d = Inr ''0/7''" by code_simp
  then obtain d where d: "?d = Inr d" "record_str (ds_record d) = ''0/7''" by (cases ?d) auto
  have "fst (rl_rows shown_list ! rl_cursor shown_list) = record_str (resolved_message 5)" by code_simp
  from list_follows_details[OF shown_list_reach shown_list_records(2) this shown_details_new d(1)] show ?thesis using d by auto
qed

text \<open>Copied bytes are the bytes: what the details copy for a key or a value shown as bytes, also for one its
  deserializer refused, is read back by the producer, in the encoding it was shown in, as exactly those bytes;
  and without a payload nothing is copied.\<close>

theorem copied_bytes_roundtrip:
  assumes "details_new env r rs w = Inr d0" and "navigate env moves d0 = Inr d"
    and "r_key_outcome (ds_record d) = Some k" and "oc_content k = PBytes data" and "oc_encoding k \<noteq> BYTE_ARRAY"
  shows "case copy_record readable_json timestamp_json ''key'' d of
      CopiedText text subject \<Rightarrow> subject = ''record key'' \<and> bytes_serialize loads (oc_encoding k) text = Inr data
    | NothingCopied message \<Rightarrow> r_key (ds_record d) = None"
proof -
  have "details_ok env d" using navigate_ok[OF conjunct1[OF details_new_ok[OF assms(1)]] assms(2)] by simp
  then have dt: "dt_key (ds_data d) = outcome_dict (le_exn env) k" using assms(3) by (auto simp: details_ok_def)
  have shown: "readable_content readable_json (bytes_data data (oc_encoding k)) = bytes_str data (oc_encoding k)"
    using assms(5) by (cases "oc_encoding k") (simp_all add: readable_content_def bytes_data_def bytes_str_def)
  have "dget_or (dt_key (ds_data d)) ''content'' PNone = bytes_data data (oc_encoding k)"
    by (simp add: dt dget_or_def outcome_dict_def json_content_def assms(4))
  then show ?thesis using bytes_serialize_shown[OF assms(5)] shown
    by (cases "r_key (ds_record d)") (simp_all add: copy_record_def active_content_def Let_def)
qed

definition bytes_outcome :: outcome where
  "bytes_outcome = \<lparr>oc_requested = F_JSON, oc_content = PBytes [7, 255], oc_schema = None, oc_error = Some EOFError, oc_encoding = HEX\<rparr>"

theorem copied_bytes_roundtrip_witness:
  "\<exists>d text. details_new sample_env (sample_message\<lparr>r_key_outcome := Some bytes_outcome, r_value_outcome := Some sample_outcome\<rparr>) [] 0 = Inr d \<and>
     copy_record (\<lambda>_. []) (\<lambda>_. PNone) ''key'' d = CopiedText text ''record key'' \<and> bytes_serialize (\<lambda>_. None) HEX text = Inr [7, 255]"
proof -
  let ?r = "sample_message\<lparr>r_key_outcome := Some bytes_outcome, r_value_outcome := Some sample_outcome\<rparr>"
  have "map_sum id (\<lambda>d. (r_key_outcome (ds_record d), r_key (ds_record d))) (details_new sample_env ?r [] 0) = Inr (Some bytes_outcome, Some [7])"
    by code_simp
  then obtain d where d: "details_new sample_env ?r [] 0 = Inr d" "r_key_outcome (ds_record d) = Some bytes_outcome" "r_key (ds_record d) = Some [7]"
    by (cases "details_new sample_env ?r [] 0") auto
  have "navigate sample_env [] d = Inr d" by simp
  from copied_bytes_roundtrip[where data = "[7, 255]" and readable_json = "\<lambda>_. []" and timestamp_json = "\<lambda>_. PNone" and loads = "\<lambda>_. None", OF d(1) this d(2)] d show ?thesis
    by (auto simp: bytes_outcome_def split: copied.splits)
qed

end
