(* ===== verification/Composer.thy ===== *)
theory Composer
  imports Producer_Service Record_Source Registry_Serializer Record_Details
begin

text \<open>
  The producer's form (\<open>producer/composer.py\<close>): the rows of its headers, the editors of the key and the
  value, the summary, the schema lookup and the delivery. The form and the producer service run together
  in \<open>composing\<close>: workers begin and end in steps of their own, and the service's own steps are those of
  \<open>Producer_Service\<close>. An edit is a step that changes one row or one editor; what Textual draws, and the
  events it sends for changes the program makes itself, are not modelled.

  A serializer is a fixed one, which is a function of the text, or a registry field's, whose state is
  \<open>registry_serializer\<close>. Parameters: the JSON reader, and the length of a text in UTF-8.
\<close>

section \<open>Headers\<close>

type_synonym header_entry = "string \<times> string option"

record header_row =
  hw_name :: string
  hw_value :: string
  hw_null :: bool

definition header_row_new :: "header_entry \<Rightarrow> header_row" where
  "header_row_new header =
     \<lparr>hw_name = fst header, hw_value = (case snd header of None \<Rightarrow> [] | Some v \<Rightarrow> v), hw_null = (snd header = None)\<rparr>"

definition row_entry :: "header_row \<Rightarrow> header_entry" where
  "row_entry row = (hw_name row, if hw_null row then None else Some (hw_value row))"

definition is_blank :: "header_row \<Rightarrow> bool" where
  "is_blank row \<longleftrightarrow> row_entry row = ([], Some [])"

definition is_unnamed :: "header_row \<Rightarrow> bool" where
  "is_unnamed row \<longleftrightarrow> \<not> is_blank row \<and> hw_name row = []"

definition pane_headers :: "header_row list \<Rightarrow> header_entry list" where
  "pane_headers rows = map row_entry (filter (\<lambda>row. \<not> is_blank row) rows)"

definition headers_byte_size :: "(string \<Rightarrow> nat) \<Rightarrow> header_row list \<Rightarrow> nat" where
  "headers_byte_size utf8_length rows =
     sum_list (map (\<lambda>(name, v). utf8_length name + (case v of None \<Rightarrow> 0 | Some w \<Rightarrow> utf8_length w)) (pane_headers rows))"

type_synonym problem = "string \<times> string"

definition problem_text :: "problem \<Rightarrow> string" where
  "problem_text p = fst p @ '': '' @ snd p"

definition unnamed_row :: "header_row list \<Rightarrow> nat option" where
  "unnamed_row rows = find (\<lambda>i. is_unnamed (rows ! i)) [0..<length rows]"

definition unnamed_problem :: "header_row list \<Rightarrow> problem option" where
  "unnamed_problem rows = map_option (\<lambda>i. (''Header '' @ show_nat (i + 1), ''Needs a name'')) (unnamed_row rows)"

definition load_headers :: "header_entry list \<Rightarrow> header_row list" where
  "load_headers headers = map header_row_new headers @ [header_row_new ([], Some [])]"

definition header_changed :: "nat \<Rightarrow> header_row \<Rightarrow> header_row list \<Rightarrow> header_row list" where
  "header_changed i row rows =
     (let changed = rows[i := row] in
      if \<not> is_blank (last changed) then changed @ [header_row_new ([], Some [])] else changed)"

definition delete_header :: "nat \<Rightarrow> header_row list \<Rightarrow> header_row list" where
  "delete_header i rows =
     (if i = length rows - 1 then butlast rows @ [header_row_new ([], Some [])]
      else take i rows @ drop (Suc i) rows)"

section \<open>Fields\<close>

datatype draft_serializer =
    FixedField string "string \<Rightarrow> byte list res" "pyval \<Rightarrow> string"
  | RegistryField string registry_serializer "pyval \<Rightarrow> string"

fun serialize_text :: "(string \<Rightarrow> pyval res) \<Rightarrow> draft_serializer \<Rightarrow> string \<Rightarrow> byte list res" where
  "serialize_text parse (FixedField label f draft_text) text = f text"
| "serialize_text parse (RegistryField label z draft_text) text = serializer_serialize parse z text"

fun field_needs_schema :: "draft_serializer \<Rightarrow> bool" where
  "field_needs_schema (FixedField _ _ _) = False"
| "field_needs_schema (RegistryField _ z _) = needs_schema z"

fun field_draft_text :: "draft_serializer \<Rightarrow> pyval \<Rightarrow> string" where
  "field_draft_text (FixedField _ _ draft_text) content = draft_text content"
| "field_draft_text (RegistryField _ _ draft_text) content = draft_text content"

text \<open>\<open>Serializer.draft_text\<close>: text as it is, other content as JSON.\<close>

definition plain_draft_text :: "(pyval \<Rightarrow> string) \<Rightarrow> pyval \<Rightarrow> string" where
  "plain_draft_text dumps content = (case content of PStr s \<Rightarrow> s | _ \<Rightarrow> dumps content)"

record field_editor =
  fe_null :: bool
  fe_text :: string

definition load_field :: "draft_serializer \<Rightarrow> draft_field \<Rightarrow> field_editor" where
  "load_field z f =
     \<lparr>fe_null = df_is_null f, fe_text = (if df_is_null f then [] else field_draft_text z (df_content f))\<rparr>"

definition serialize_field :: "(string \<Rightarrow> pyval res) \<Rightarrow> draft_serializer \<Rightarrow> field_editor \<Rightarrow> byte list option res" where
  "serialize_field parse z e = (if fe_null e then Inr None else map_sum id Some (serialize_text parse z (fe_text e)))"

fun serialization_message :: "exn \<Rightarrow> string option" where
  "serialization_message (SerializationError m) = Some m"
| "serialization_message _ = None"

definition validation :: "(string \<Rightarrow> pyval res) \<Rightarrow> (nat option \<Rightarrow> string) \<Rightarrow> draft_serializer \<Rightarrow> field_editor \<Rightarrow> (string \<times> bool) res" where
  "validation parse size_text z e =
     (case serialize_field parse z e of
        Inr None \<Rightarrow> Inr (''Null'', False)
      | Inr (Some data) \<Rightarrow> Inr (size_text (Some (length data)), False)
      | Inl ex \<Rightarrow> (case serialization_message ex of Some m \<Rightarrow> Inr (m, True) | None \<Rightarrow> Inl ex))"

section \<open>The form\<close>

text \<open>\<open>cm_lookup\<close> is the stage of the running lookup and whether it produces the draft at its end;
  \<open>cm_delivery\<close> is the record of the delivery worker and whether the service has it.\<close>

datatype lookup_stage = Scheduled | LookingUpKey | LookingUpValue

record composer =
  cm_headers :: "header_row list"
  cm_key :: field_editor
  cm_value :: field_editor
  cm_key_serializer :: draft_serializer
  cm_value_serializer :: draft_serializer
  cm_partition :: "int option"
  cm_tab :: string
  cm_status :: "string \<times> bool"
  cm_producing :: bool
  cm_resolving :: bool
  cm_lookup :: "(lookup_stage \<times> bool) option"
  cm_delivery :: "(outgoing_record \<times> bool) option"
  cm_notices :: "(string \<times> string) list"
  cm_failed :: "exn option"

definition composer_needs_schema :: "composer \<Rightarrow> bool" where
  "composer_needs_schema c \<longleftrightarrow> field_needs_schema (cm_key_serializer c) \<or> field_needs_schema (cm_value_serializer c)"

text \<open>A lookup that has not begun yet is replaced by the next one (\<open>exclusive\<close>).\<close>

definition resolve_schemas :: "bool \<Rightarrow> composer \<Rightarrow> composer" where
  "resolve_schemas produce c = c\<lparr>cm_lookup := Some (Scheduled, produce)\<rparr>"

definition composer_new :: "draft_serializer \<Rightarrow> draft_serializer \<Rightarrow> int option \<Rightarrow> composer" where
  "composer_new key val partition_number =
     (let c = \<lparr>cm_headers = [header_row_new ([], Some [])], cm_key = \<lparr>fe_null = False, fe_text = []\<rparr>,
            cm_value = \<lparr>fe_null = False, fe_text = []\<rparr>, cm_key_serializer = key, cm_value_serializer = val,
            cm_partition = partition_number, cm_tab = ''key-tab'', cm_status = ([], False), cm_producing = False,
            cm_resolving = False, cm_lookup = None, cm_delivery = None, cm_notices = [], cm_failed = None\<rparr> in
      if composer_needs_schema c then resolve_schemas False c else c)"

definition load_record_draft :: "record_draft \<Rightarrow> composer \<Rightarrow> composer" where
  "load_record_draft d c =
     c\<lparr>cm_headers := load_headers (rd_headers d), cm_key := load_field (cm_key_serializer c) (rd_key d),
       cm_value := load_field (cm_value_serializer c) (rd_value d)\<rparr>"

text \<open>\<open>outgoing_record\<close>: the record, or the tab of the first problem and its notice.\<close>

definition reveal :: "string \<Rightarrow> string \<Rightarrow> problem \<Rightarrow> composer \<Rightarrow> composer" where
  "reveal tab title p c = c\<lparr>cm_tab := tab, cm_notices := cm_notices c @ [(title, problem_text p)]\<rparr>"

definition reveal_field :: "string \<Rightarrow> string \<Rightarrow> exn \<Rightarrow> composer \<Rightarrow> (outgoing_record option \<times> composer) res" where
  "reveal_field tab label ex c =
     (case serialization_message ex of
        Some m \<Rightarrow> Inr (None, reveal tab ''Serialization Error'' (label, m) c)
      | None \<Rightarrow> Inl ex)"

definition outgoing_of :: "(string \<Rightarrow> pyval res) \<Rightarrow> composer \<Rightarrow> (outgoing_record option \<times> composer) res" where
  "outgoing_of parse c =
     (case unnamed_problem (cm_headers c) of
        Some p \<Rightarrow> Inr (None, reveal ''headers-tab'' ''Invalid Header'' p c)
      | None \<Rightarrow>
          (case serialize_field parse (cm_key_serializer c) (cm_key c) of
             Inl ex \<Rightarrow> reveal_field ''key-tab'' ''Key'' ex c
           | Inr k \<Rightarrow>
               (case serialize_field parse (cm_value_serializer c) (cm_value c) of
                  Inl ex \<Rightarrow> reveal_field ''value-tab'' ''Value'' ex c
                | Inr v \<Rightarrow>
                    Inr (Some \<lparr>or_key = k, or_value = v, or_headers = pane_headers (cm_headers c), or_partition = cm_partition c\<rparr>, c))))"

text \<open>\<open>update_summary\<close>: the problems it lists and the total it shows when there is none.\<close>

definition field_summary :: "(string \<Rightarrow> pyval res) \<Rightarrow> string \<Rightarrow> draft_serializer \<Rightarrow> field_editor \<Rightarrow> (nat \<times> problem list) res" where
  "field_summary parse label z e =
     (case serialize_field parse z e of
        Inr data \<Rightarrow> Inr (payload_length data, [])
      | Inl ex \<Rightarrow> (case serialization_message ex of Some m \<Rightarrow> Inr (0, [(label, m)]) | None \<Rightarrow> Inl ex))"

definition composer_summary :: "(string \<Rightarrow> pyval res) \<Rightarrow> (string \<Rightarrow> nat) \<Rightarrow> composer \<Rightarrow> (problem list \<times> nat option) res" where
  "composer_summary parse utf8_length c =
     rbind (field_summary parse ''Key'' (cm_key_serializer c) (cm_key c)) (\<lambda>(key_size, key_problems).
     rbind (field_summary parse ''Value'' (cm_value_serializer c) (cm_value c)) (\<lambda>(value_size, value_problems).
       let problems = key_problems @ value_problems;
           total = key_size + value_size + headers_byte_size utf8_length (cm_headers c) in
       Inr (problems @ (case unnamed_problem (cm_headers c) of None \<Rightarrow> [] | Some p \<Rightarrow> [p]),
            if problems = [] then Some total else None)))"

text \<open>\<open>_update_frame\<close>: the parts of the frame's subtitle, the shown tab's one included; and what the summary says of a
  registry field's schema, three dots while it is not looked up.\<close>

definition frame_parts :: "(string \<Rightarrow> pyval res) \<Rightarrow> (nat option \<Rightarrow> string) \<Rightarrow> (string \<Rightarrow> nat) \<Rightarrow> composer \<Rightarrow> string list res" where
  "frame_parts parse size_text utf8_length c =
     map_sum id (\<lambda>part. [''Producer Mode'', part] @ (if fst (cm_status c) = [] then [] else [fst (cm_status c)]))
       (if cm_tab c = ''key-tab''
        then map_sum id (\<lambda>(m, _). problem_text (''Key'', m)) (validation parse size_text (cm_key_serializer c) (cm_key c))
        else if cm_tab c = ''value-tab''
        then map_sum id (\<lambda>(m, _). problem_text (''Value'', m)) (validation parse size_text (cm_value_serializer c) (cm_value c))
        else
          (case unnamed_problem (cm_headers c) of
             Some p \<Rightarrow> Inr (problem_text p)
           | None \<Rightarrow> Inr (problem_text (''Headers'', size_text (Some (headers_byte_size utf8_length (cm_headers c)))))))"

fun field_schema :: "draft_serializer \<Rightarrow> schema_summary option" where
  "field_schema (FixedField _ _ _) = None"
| "field_schema (RegistryField _ z _) = serializer_schema z"

definition schema_cell_labels :: "(string, string) pydict \<Rightarrow> string list" where
  "schema_cell_labels registry_config =
     (if lower (dget_or registry_config ''provider'' ''confluent'') = ''apicurio''
      then [''Artifact'', ''Version'',
        if lower (dget_or registry_config APICURIO_USE_ID ''contentId'') = ''globalid'' then ''Global ID'' else ''Content ID'']
      else [''Subject'', ''Version'', ''Schema ID''])"

definition schema_cells :: "draft_serializer \<Rightarrow> string list" where
  "schema_cells z =
     (case field_schema z of
        None \<Rightarrow> [''...'', ''...'', ''...'']
      | Some s \<Rightarrow> [ss_name s, ss_version s, show_int (ss_id s)])"

section \<open>Producing\<close>

definition produce_draft :: "(string \<Rightarrow> pyval res) \<Rightarrow> composer \<Rightarrow> composer" where
  "produce_draft parse c =
     (if cm_producing c then c
      else
        (case outgoing_of parse c of
           Inl e \<Rightarrow> c\<lparr>cm_failed := Some e\<rparr>
         | Inr (None, c') \<Rightarrow> c'
         | Inr (Some r, c') \<Rightarrow> c'\<lparr>cm_producing := True, cm_status := (''Producing...'', False), cm_delivery := Some (r, False)\<rparr>))"

definition action_produce :: "(string \<Rightarrow> pyval res) \<Rightarrow> composer \<Rightarrow> composer" where
  "action_produce parse c =
     (if cm_producing c then c
      else if composer_needs_schema c \<and> \<not> cm_resolving c then resolve_schemas True c
      else produce_draft parse c)"

definition check_compose_action :: "string \<Rightarrow> composer \<Rightarrow> bool option" where
  "check_compose_action action c = (if action = ''produce'' then (if cm_producing c then None else Some True) else Some True)"

text \<open>The lookup of the schemas: each serializer that needs one resolves, in the order of the fields.\<close>

fun resolve_field :: "(exn \<Rightarrow> string) \<Rightarrow> resolved_schema res \<Rightarrow> draft_serializer \<Rightarrow> unit res \<times> draft_serializer" where
  "resolve_field show_exn outcome (RegistryField label z draft_text) =
     (if needs_schema z
      then (case serializer_resolve show_exn outcome z of (r, z') \<Rightarrow> (r, RegistryField label z' draft_text))
      else (Inr (), RegistryField label z draft_text))"
| "resolve_field show_exn outcome (FixedField label f draft_text) = (Inr (), FixedField label f draft_text)"

definition lookup_failed :: "exn \<Rightarrow> composer \<Rightarrow> composer" where
  "lookup_failed e c = c\<lparr>cm_lookup := None, cm_resolving := False, cm_failed := Some e\<rparr>"

definition lookup_begin :: "composer \<Rightarrow> composer" where
  "lookup_begin c =
     (case cm_lookup c of
        Some (Scheduled, produce) \<Rightarrow> c\<lparr>cm_lookup := Some (LookingUpKey, produce), cm_resolving := True\<rparr>
      | _ \<Rightarrow> c)"

text \<open>\<open>mark_validity\<close> after a lookup only shows a \<open>SerializationError\<close>; another one leaves the worker.\<close>

definition marked :: "(string \<Rightarrow> pyval res) \<Rightarrow> draft_serializer \<Rightarrow> field_editor \<Rightarrow> unit res" where
  "marked parse z e =
     (case serialize_field parse z e of
        Inl ex \<Rightarrow> (if serialization_message ex = None then Inl ex else Inr ())
      | Inr _ \<Rightarrow> Inr ())"

definition lookup_step ::
  "(string \<Rightarrow> pyval res) \<Rightarrow> (exn \<Rightarrow> string) \<Rightarrow> resolved_schema res \<Rightarrow> composer \<Rightarrow> composer" where
  "lookup_step parse show_exn outcome c =
     (case cm_lookup c of
        Some (LookingUpKey, produce) \<Rightarrow>
          (case resolve_field show_exn outcome (cm_key_serializer c) of (r, z) \<Rightarrow>
             (case rbind r (\<lambda>_. marked parse z (cm_key c)) of
                Inl e \<Rightarrow> lookup_failed e (c\<lparr>cm_key_serializer := z\<rparr>)
              | Inr _ \<Rightarrow> c\<lparr>cm_key_serializer := z, cm_lookup := Some (LookingUpValue, produce)\<rparr>))
      | Some (LookingUpValue, produce) \<Rightarrow>
          (case resolve_field show_exn outcome (cm_value_serializer c) of (r, z) \<Rightarrow>
             (case rbind r (\<lambda>_. marked parse z (cm_value c)) of
                Inl e \<Rightarrow> lookup_failed e (c\<lparr>cm_value_serializer := z\<rparr>)
              | Inr _ \<Rightarrow>
                  (let c' = c\<lparr>cm_value_serializer := z, cm_lookup := None, cm_resolving := False\<rparr> in
                   if produce then produce_draft parse c' else c')))
      | _ \<Rightarrow> c)"

text \<open>The delivery's end; what is no \<open>DeliveryError\<close> leaves the worker.\<close>

definition delivery_ended :: "(int \<Rightarrow> string) \<Rightarrow> delivery res \<Rightarrow> composer \<Rightarrow> composer" where
  "delivery_ended clock_text result c =
     (let c' = (case result of
          Inr d \<Rightarrow>
            (let summary = join SEPARATOR (delivery_summary clock_text d) in
             c\<lparr>cm_status := (summary, False), cm_notices := cm_notices c @ [(''Record Delivered'', summary)]\<rparr>)
        | Inl (DeliveryError f m) \<Rightarrow>
            c\<lparr>cm_status := (failure_title f, True), cm_notices := cm_notices c @ [(failure_title f, m)]\<rparr>
        | Inl e \<Rightarrow> c\<lparr>cm_failed := Some e\<rparr>) in
      c'\<lparr>cm_producing := False, cm_delivery := None\<rparr>)"

section \<open>The form and its service\<close>

text \<open>The service's own steps are the ones that neither begin nor end a delivery, which the form's worker does.\<close>

inductive composing ::
  "(string \<Rightarrow> pyval res) \<Rightarrow> (exn \<Rightarrow> string) \<Rightarrow> (int \<Rightarrow> string) \<Rightarrow> (rat \<Rightarrow> string) \<Rightarrow> rat
     \<Rightarrow> composer \<times> service \<Rightarrow> composer \<times> service \<Rightarrow> bool"
  for parse show_exn clock_text text_of timeout where
  edit_key: "composing parse show_exn clock_text text_of timeout (c, s) (c\<lparr>cm_key := e\<rparr>, s)"
| edit_value: "composing parse show_exn clock_text text_of timeout (c, s) (c\<lparr>cm_value := e\<rparr>, s)"
| edit_header: "i < length (cm_headers c) \<Longrightarrow>
    composing parse show_exn clock_text text_of timeout (c, s) (c\<lparr>cm_headers := header_changed i row (cm_headers c)\<rparr>, s)"
| remove_header: "i < length (cm_headers c) \<Longrightarrow>
    composing parse show_exn clock_text text_of timeout (c, s) (c\<lparr>cm_headers := delete_header i (cm_headers c)\<rparr>, s)"
| load: "composing parse show_exn clock_text text_of timeout (c, s) (load_record_draft d c, s)"
| press: "composing parse show_exn clock_text text_of timeout (c, s) (action_produce parse c, s)"
| begin_lookup: "composing parse show_exn clock_text text_of timeout (c, s) (lookup_begin c, s)"
| turn_lookup: "composing parse show_exn clock_text text_of timeout (c, s) (lookup_step parse show_exn outcome c, s)"
| begin_delivery: "cm_delivery c = Some (r, False) \<Longrightarrow> produce_begin r s = (Inr (), s') \<Longrightarrow>
    composing parse show_exn clock_text text_of timeout (c, s) (c\<lparr>cm_delivery := Some (r, True)\<rparr>, s')"
| refused_delivery: "cm_delivery c = Some (r, False) \<Longrightarrow> produce_begin r s = (Inl e, s') \<Longrightarrow>
    composing parse show_exn clock_text text_of timeout (c, s) (delivery_ended clock_text (Inl e) c, s')"
| own_step: "service_step text_of timeout s s' \<Longrightarrow> sv_delivering s' = sv_delivering s \<Longrightarrow> sv_results s' = sv_results s \<Longrightarrow>
    composing parse show_exn clock_text text_of timeout (c, s) (c, s')"
| end_delivery: "cm_delivery c = Some (r, True) \<Longrightarrow> sv_worker s = Finished res \<Longrightarrow>
    composing parse show_exn clock_text text_of timeout (c, s) (delivery_ended clock_text res c, produce_end res s)"

inductive composed ::
  "(string \<Rightarrow> pyval res) \<Rightarrow> (exn \<Rightarrow> string) \<Rightarrow> (int \<Rightarrow> string) \<Rightarrow> (rat \<Rightarrow> string) \<Rightarrow> rat \<Rightarrow> composer \<times> service \<Rightarrow> bool"
  for parse show_exn clock_text text_of timeout where
  composed_new: "composed parse show_exn clock_text text_of timeout (composer_new key val partition_number, new_service)"
| composed_step: "composed parse show_exn clock_text text_of timeout cs \<Longrightarrow>
    composing parse show_exn clock_text text_of timeout cs cs' \<Longrightarrow> composed parse show_exn clock_text text_of timeout cs'"

section \<open>Lemmas\<close>

subsection \<open>The header rows\<close>

definition pane_ok :: "header_row list \<Rightarrow> bool" where
  "pane_ok rows \<longleftrightarrow> rows \<noteq> [] \<and> is_blank (last rows)"

lemma row_entry_new [simp]: "row_entry (header_row_new h) = h"
  by (cases h) (simp add: header_row_new_def row_entry_def split: option.splits)

lemma blank_new [simp]: "is_blank (header_row_new h) \<longleftrightarrow> h = ([], Some [])"
  by (simp add: is_blank_def)

lemma pane_ok_load [simp]: "pane_ok (load_headers hs)"
  by (simp add: pane_ok_def load_headers_def)

lemma pane_headers_load [simp]: "pane_headers (load_headers hs) = filter (\<lambda>h. h \<noteq> ([], Some [])) hs"
  by (simp add: pane_headers_def load_headers_def filter_map o_def)

lemma pane_ok_changed: "i < length rows \<Longrightarrow> pane_ok (header_changed i row rows)"
  by (auto simp: pane_ok_def header_changed_def Let_def)

lemma pane_ok_delete: "pane_ok rows \<Longrightarrow> i < length rows \<Longrightarrow> pane_ok (delete_header i rows)"
  by (auto simp: pane_ok_def delete_header_def last_append last_drop)

lemma pane_headers_delete:
  assumes "pane_ok rows" and "i < length rows"
  shows "pane_headers (delete_header i rows) = pane_headers (take i rows) @ pane_headers (drop (Suc i) rows)"
proof (cases "i = length rows - 1")
  case True
  then show ?thesis using assms by (simp add: delete_header_def pane_headers_def butlast_conv_take)
next
  case False
  then show ?thesis by (simp add: delete_header_def pane_headers_def)
qed

lemma pane_headers_changed:
  assumes "i < length rows"
  shows "pane_headers (header_changed i row rows) =
    pane_headers (take i rows) @ (if is_blank row then [] else [row_entry row]) @ pane_headers (drop (Suc i) rows)"
  using assms by (simp add: header_changed_def Let_def pane_headers_def upd_conv_take_nth_drop)

lemma unnamed_problem_None: "unnamed_problem rows = None \<longleftrightarrow> (\<forall>row \<in> set rows. \<not> is_unnamed row)"
  by (fastforce simp: unnamed_problem_def unnamed_row_def find_None_iff in_set_conv_nth)

lemma unnamed_row_Some: "unnamed_row rows = Some i \<Longrightarrow> i < length rows \<and> is_unnamed (rows ! i) \<and> (\<forall>j < i. \<not> is_unnamed (rows ! j))"
  by (auto simp: unnamed_row_def find_Some_iff)

lemma unnamed_headers: "(\<forall>row \<in> set rows. \<not> is_unnamed row) \<longleftrightarrow> (\<forall>h \<in> set (pane_headers rows). fst h \<noteq> [])"
  by (auto simp: pane_headers_def is_unnamed_def row_entry_def)

subsection \<open>The record\<close>

lemma serialization_message_Some: "serialization_message e = Some m \<longleftrightarrow> e = SerializationError m"
  by (cases e) auto

lemmas outgoing_simps = outgoing_of_def reveal_field_def reveal_def res_simps

lemma outgoing_Some:
  "outgoing_of parse c = Inr (Some r, c') \<longleftrightarrow>
     c' = c \<and> unnamed_problem (cm_headers c) = None \<and>
     serialize_field parse (cm_key_serializer c) (cm_key c) = Inr (or_key r) \<and>
     serialize_field parse (cm_value_serializer c) (cm_value c) = Inr (or_value r) \<and>
     or_headers r = pane_headers (cm_headers c) \<and> or_partition r = cm_partition c"
  by (cases r) (auto simp: outgoing_simps split: option.splits sum.splits)

lemma field_summary_Inr:
  "field_summary parse label z e = Inr (n, ps) \<longleftrightarrow>
     (\<exists>data. serialize_field parse z e = Inr data \<and> n = payload_length data \<and> ps = []) \<or>
     (\<exists>m. serialize_field parse z e = Inl (SerializationError m) \<and> n = 0 \<and> ps = [(label, m)])"
  by (auto simp: field_summary_def serialization_message_Some split: sum.splits option.splits)

subsection \<open>The form and its service\<close>

fun given :: "(outgoing_record \<times> bool) option \<Rightarrow> bool" where
  "given None = False"
| "given (Some (r, begun)) = begun"

fun looking :: "(lookup_stage \<times> bool) option \<Rightarrow> bool" where
  "looking None = False"
| "looking (Some (stage, produce)) = (stage \<noteq> Scheduled)"

definition composing_ok :: "composer \<times> service \<Rightarrow> bool" where
  "composing_ok cs \<longleftrightarrow>
     pane_ok (cm_headers (fst cs)) \<and> cm_producing (fst cs) = (cm_delivery (fst cs) \<noteq> None) \<and>
     sv_delivering (snd cs) = given (cm_delivery (fst cs)) \<and> cm_resolving (fst cs) = looking (cm_lookup (fst cs))"

text \<open>What the form's own handlers change, of the parts the service sees.\<close>

lemma outgoing_keeps:
  assumes "outgoing_of parse c = Inr (r, c')"
  shows "cm_headers c' = cm_headers c \<and> cm_producing c' = cm_producing c \<and> cm_delivery c' = cm_delivery c \<and>
    cm_lookup c' = cm_lookup c \<and> cm_resolving c' = cm_resolving c"
  using assms by (auto simp: outgoing_simps split: option.splits sum.splits)

lemma produce_draft_ok: "composing_ok (c, s) \<Longrightarrow> composing_ok (produce_draft parse c, s)"
  by (cases "cm_delivery c") (auto simp: produce_draft_def composing_ok_def dest: outgoing_keeps split: sum.splits option.splits)

lemma lookup_step_ok:
  assumes "composing_ok (c, s)"
  shows "composing_ok (lookup_step parse show_exn outcome c, s)"
proof -
  have p: "composing_ok (c\<lparr>cm_value_serializer := z, cm_lookup := None, cm_resolving := False\<rparr>, s)" for z
    using assms by (simp add: composing_ok_def)
  have f: "composing_ok (lookup_failed e (c\<lparr>cm_key_serializer := z\<rparr>), s)" "composing_ok (lookup_failed e (c\<lparr>cm_value_serializer := z\<rparr>), s)" for e z
    using assms by (simp_all add: composing_ok_def lookup_failed_def)
  have k: "cm_lookup c = Some (LookingUpKey, b) \<Longrightarrow>
      composing_ok (c\<lparr>cm_key_serializer := z, cm_lookup := Some (LookingUpValue, b)\<rparr>, s)" for z b
    using assms by (simp add: composing_ok_def)
  show ?thesis
    using assms by (simp add: lookup_step_def Let_def p f k produce_draft_ok split: option.split lookup_stage.split sum.split prod.split)
qed

lemma action_produce_ok: "composing_ok (c, s) \<Longrightarrow> composing_ok (action_produce parse c, s)"
  using produce_draft_ok[of c s parse] by (simp add: action_produce_def) (simp add: composing_ok_def resolve_schemas_def)

lemma delivery_ended_keeps [simp]:
  "cm_headers (delivery_ended clock_text res c) = cm_headers c" "cm_producing (delivery_ended clock_text res c) = False"
  "cm_delivery (delivery_ended clock_text res c) = None" "cm_lookup (delivery_ended clock_text res c) = cm_lookup c"
  "cm_resolving (delivery_ended clock_text res c) = cm_resolving c"
  by (simp_all add: delivery_ended_def Let_def split: sum.split exn.split)

lemma composing_step_ok:
  assumes "composing parse show_exn clock_text text_of timeout cs cs'" and "composing_ok cs"
  shows "composing_ok cs'"
  using assms
proof (induction rule: composing.induct)
  case (edit_header i c s row)
  then show ?case using pane_ok_changed[of i "cm_headers c" row] by (simp add: composing_ok_def)
next
  case (remove_header i c s)
  then show ?case using pane_ok_delete[of "cm_headers c" i] by (simp add: composing_ok_def)
next
  case (begin_lookup c s)
  then show ?case by (simp add: composing_ok_def lookup_begin_def split: option.split lookup_stage.split prod.split)
next
  case (begin_delivery c r s s')
  then show ?case by (auto simp: composing_ok_def produce_begin_def split: if_splits)
next
  case (refused_delivery c r s e s')
  then show ?case by (auto simp: composing_ok_def produce_begin_def split: if_splits)
next
  case (end_delivery c r s res)
  then show ?case by (simp add: composing_ok_def produce_end_def)
next
  case (press c s)
  then show ?case by (rule action_produce_ok)
next
  case (turn_lookup c s outcome)
  then show ?case by (rule lookup_step_ok)
qed (simp_all add: composing_ok_def load_record_draft_def)

lemma composed_ok: "composed parse show_exn clock_text text_of timeout cs \<Longrightarrow> composing_ok cs"
proof (induction rule: composed.induct)
  case (composed_new key val partition_number)
  then show ?case
    by (auto simp: composing_ok_def composer_new_def Let_def pane_ok_def resolve_schemas_def new_service_def)
qed (auto intro: composing_step_ok)

section \<open>Properties\<close>

lemma summary_outgoing:
  assumes "composer_summary parse utf8_length c = Inr (problems, shown_total)"
  shows "(problems = [] \<longleftrightarrow> (\<exists>r. outgoing_of parse c = Inr (Some r, c))) \<and>
    (\<forall>r c'. outgoing_of parse c = Inr (Some r, c') \<longrightarrow>
       shown_total = Some (payload_length (or_key r) + payload_length (or_value r) + headers_byte_size utf8_length (cm_headers c))) \<and>
    (problems \<noteq> [] \<longrightarrow> (\<exists>p \<in> set problems. \<exists>title tab. outgoing_of parse c = Inr (None, reveal tab title p c)))"
proof -
  obtain key_size key_problems value_size value_problems where
    k: "field_summary parse ''Key'' (cm_key_serializer c) (cm_key c) = Inr (key_size, key_problems)" and
    v: "field_summary parse ''Value'' (cm_value_serializer c) (cm_value c) = Inr (value_size, value_problems)" and
    ps: "problems = key_problems @ value_problems @ (case unnamed_problem (cm_headers c) of None \<Rightarrow> [] | Some p \<Rightarrow> [p])"
      "shown_total = (if key_problems @ value_problems = [] then Some (key_size + value_size + headers_byte_size utf8_length (cm_headers c)) else None)"
    using assms by (auto simp: composer_summary_def Let_def res_simps split: prod.splits)
  show ?thesis
  proof (cases "unnamed_problem (cm_headers c)")
    case None
    note outgoing = outgoing_of_def None option.case
    consider (ready) x y where "serialize_field parse (cm_key_serializer c) (cm_key c) = Inr x" "serialize_field parse (cm_value_serializer c) (cm_value c) = Inr y"
        "key_problems = []" "value_problems = []" "key_size = payload_length x" "value_size = payload_length y"
      | (key) m where "serialize_field parse (cm_key_serializer c) (cm_key c) = Inl (SerializationError m)" "key_problems = [(''Key'', m)]"
      | (val) x m where "serialize_field parse (cm_key_serializer c) (cm_key c) = Inr x"
        "serialize_field parse (cm_value_serializer c) (cm_value c) = Inl (SerializationError m)" "value_problems = [(''Value'', m)]"
      using k v unfolding field_summary_Inr by blast
    then show ?thesis
    proof cases
      case ready
      then show ?thesis using ps by (simp add: outgoing)
    next
      case key
      then have "outgoing_of parse c = Inr (None, reveal ''key-tab'' ''Serialization Error'' (''Key'', m) c)"
        by (simp add: outgoing reveal_field_def)
      then show ?thesis using ps key(2) by auto
    next
      case val
      then have "outgoing_of parse c = Inr (None, reveal ''value-tab'' ''Serialization Error'' (''Value'', m) c)"
        by (simp add: outgoing reveal_field_def)
      then show ?thesis using ps val(3) by auto
    qed
  next
    case (Some p)
    then have "outgoing_of parse c = Inr (None, reveal ''headers-tab'' ''Invalid Header'' p c)" by (simp add: outgoing_of_def)
    then show ?thesis using ps Some by auto
  qed
qed

lemma summary_marked:
  assumes "composer_summary parse utf8_length c = Inr (problems, shown_total)"
  shows "marked parse (cm_value_serializer c) (cm_value c) = Inr ()"
  using assms by (auto simp: composer_summary_def field_summary_def marked_def res_simps split: sum.splits option.splits)

text \<open>C22: one delivery at a time: while the form delivers a record, producing again changes nothing, and the record its
  worker hands to the service is never refused for a delivery in progress.\<close>

theorem delivery_never_refused:
  assumes "composed parse show_exn clock_text text_of timeout (c, s)" and "cm_delivery c = Some (r, begun)"
  shows "cm_producing c \<and> action_produce parse c = c \<and> sv_delivering s = begun \<and>
    (\<not> begun \<longrightarrow> produce_begin r s = (Inr (), s\<lparr>sv_delivering := True, sv_worker := Starting r\<rparr>))"
  using composed_ok[OF assms(1)] assms(2) by (simp add: composing_ok_def action_produce_def produce_begin_def)

definition text_field :: draft_serializer where
  "text_field = FixedField ''STRING'' (\<lambda>s. Inr (map (\<lambda>c. word_of_nat (of_char c)) s)) (plain_draft_text (\<lambda>_. []))"

definition pressed :: composer where
  "pressed = action_produce (\<lambda>_. Inr PNone) (composer_new text_field text_field None)"

lemma pressed_composed: "composed (\<lambda>_. Inr PNone) (\<lambda>_. []) (\<lambda>_. []) (\<lambda>_. []) 45 (pressed, new_service)"
  unfolding pressed_def by (rule composed_step[OF composed_new press])

lemma pressed_delivery: "cm_delivery pressed = Some (\<lparr>or_key = Some [], or_value = Some [], or_headers = [], or_partition = None\<rparr>, False)"
  by code_simp

theorem delivery_never_refused_witness:
  "cm_producing pressed \<and> action_produce (\<lambda>_. Inr PNone) pressed = pressed \<and> \<not> sv_delivering new_service"
  using delivery_never_refused[OF pressed_composed pressed_delivery] by simp

text \<open>C24: the pane of the headers never loses the row a new header is typed in: it always has a row, and its last one is
  blank, also after any edit and after any deletion, of the only row too; an edit of a row changes that
  header alone, and a deleted row takes its header alone with it.\<close>

theorem headers_edited_alone:
  assumes "composed parse show_exn clock_text text_of timeout (c, s)"
  shows "cm_headers c \<noteq> [] \<and> is_blank (last (cm_headers c)) \<and>
    (\<forall>i < length (cm_headers c). \<forall>row.
      let before = pane_headers (take i (cm_headers c)); after = pane_headers (drop (Suc i) (cm_headers c));
          edited = header_changed i row (cm_headers c); deleted = delete_header i (cm_headers c) in
      edited \<noteq> [] \<and> is_blank (last edited) \<and> deleted \<noteq> [] \<and> is_blank (last deleted) \<and>
      pane_headers edited = before @ (if is_blank row then [] else [row_entry row]) @ after \<and> pane_headers deleted = before @ after)"
proof -
  have ok: "pane_ok (cm_headers c)" using composed_ok[OF assms] by (simp add: composing_ok_def)
  then show ?thesis
    using pane_ok_changed[of _ "cm_headers c"] pane_ok_delete[OF ok]
    by (simp add: Let_def pane_headers_changed pane_headers_delete[OF ok]) (simp add: pane_ok_def)
qed

theorem headers_edited_alone_witness:
  "pane_headers (header_changed 0 (header_row_new (''trace'', None)) (cm_headers pressed)) = [(''trace'', None)] \<and>
   delete_header 0 (cm_headers pressed) \<noteq> []"
proof -
  have rows: "cm_headers pressed = [header_row_new ([], Some [])]" by code_simp
  from headers_edited_alone[OF pressed_composed] show ?thesis by (simp add: rows Let_def pane_headers_def)
qed

text \<open>C23: the summary is right about producing. Pressing it looks a missing schema up first, unless a lookup runs, and the
  end of that lookup goes on as pressing with no schema missing does: when the summary shows no problem, a
  delivery starts, of a record whose key, value and headers have the total size shown; when it shows
  problems none starts, and one of those is revealed. (A problem shown before a lookup may be gone after it.)\<close>

theorem ready_iff_produced:
  assumes "composer_summary parse utf8_length c = Inr (problems, shown_total)" and "\<not> cm_producing c"
  shows "action_produce parse c =
      (if composer_needs_schema c \<and> \<not> cm_resolving c then c\<lparr>cm_lookup := Some (Scheduled, True)\<rparr> else produce_draft parse c) \<and>
    (\<forall>before show_exn outcome z.
       cm_lookup before = Some (LookingUpValue, True) \<and> resolve_field show_exn outcome (cm_value_serializer before) = (Inr (), z) \<and>
       c = before\<lparr>cm_value_serializer := z, cm_lookup := None, cm_resolving := False\<rparr> \<longrightarrow>
       lookup_step parse show_exn outcome before = produce_draft parse c) \<and>
    (if problems = []
     then \<exists>r. produce_draft parse c = c\<lparr>cm_producing := True, cm_status := (''Producing...'', False), cm_delivery := Some (r, False)\<rparr> \<and>
       shown_total = Some (payload_length (or_key r) + payload_length (or_value r) + headers_byte_size utf8_length (cm_headers c))
     else \<exists>p \<in> set problems. \<exists>title tab.
       produce_draft parse c = c\<lparr>cm_tab := tab, cm_notices := cm_notices c @ [(title, problem_text p)]\<rparr>)"
proof (intro conjI allI impI)
  show "action_produce parse c =
      (if composer_needs_schema c \<and> \<not> cm_resolving c then c\<lparr>cm_lookup := Some (Scheduled, True)\<rparr> else produce_draft parse c)"
    using assms(2) by (simp add: action_produce_def resolve_schemas_def)
next
  fix before show_exn outcome z
  assume "cm_lookup before = Some (LookingUpValue, True) \<and> resolve_field show_exn outcome (cm_value_serializer before) = (Inr (), z) \<and>
    c = before\<lparr>cm_value_serializer := z, cm_lookup := None, cm_resolving := False\<rparr>"
  then show "lookup_step parse show_exn outcome before = produce_draft parse c"
    using summary_marked[OF assms(1)] by (simp add: lookup_step_def Let_def)
next
  show "if problems = []
     then \<exists>r. produce_draft parse c = c\<lparr>cm_producing := True, cm_status := (''Producing...'', False), cm_delivery := Some (r, False)\<rparr> \<and>
       shown_total = Some (payload_length (or_key r) + payload_length (or_value r) + headers_byte_size utf8_length (cm_headers c))
     else \<exists>p \<in> set problems. \<exists>title tab.
       produce_draft parse c = c\<lparr>cm_tab := tab, cm_notices := cm_notices c @ [(title, problem_text p)]\<rparr>"
  proof (cases "problems = []")
    case True
    then obtain r where r: "outgoing_of parse c = Inr (Some r, c)" using summary_outgoing[OF assms(1)] by blast
    moreover have "shown_total = Some (payload_length (or_key r) + payload_length (or_value r) + headers_byte_size utf8_length (cm_headers c))"
      using summary_outgoing[OF assms(1)] r by blast
    ultimately show ?thesis using True assms(2) by (auto simp: produce_draft_def)
  next
    case False
    then obtain p title tab where "p \<in> set problems" "outgoing_of parse c = Inr (None, reveal tab title p c)"
      using summary_outgoing[OF assms(1)] by blast
    then show ?thesis using False assms(2) by (auto simp: produce_draft_def reveal_def)
  qed
qed

theorem ready_iff_produced_witness:
  "\<exists>r. cm_delivery (action_produce (\<lambda>_. Inr PNone) (composer_new text_field text_field None)) = Some (r, False)"
proof -
  have "composer_summary (\<lambda>_. Inr PNone) length (composer_new text_field text_field None) = Inr ([], Some 0)" by code_simp
  moreover have "\<not> cm_producing (composer_new text_field text_field None)" "\<not> composer_needs_schema (composer_new text_field text_field None)"
    by code_simp+
  ultimately show ?thesis using ready_iff_produced[of "\<lambda>_. Inr PNone" length "composer_new text_field text_field None" "[]" "Some 0"]
    by auto
qed

text \<open>A payload as a record document shows it, and the field that reads bytes.\<close>

definition shown_bytes :: "bytes_encoding \<Rightarrow> byte list option \<Rightarrow> pyval" where
  "shown_bytes enc payload = (case payload of None \<Rightarrow> PNone | Some data \<Rightarrow> bytes_data data enc)"

definition bytes_field :: "(string \<Rightarrow> pyval option) \<Rightarrow> (pyval \<Rightarrow> string) \<Rightarrow> bytes_encoding \<Rightarrow> draft_serializer" where
  "bytes_field loads dumps enc = FixedField ''BYTES'' (bytes_serialize loads enc) (plain_draft_text dumps)"

lemma loaded_bytes:
  assumes "\<forall>data. enc = BYTE_ARRAY \<and> p = Some data \<longrightarrow>
    strip (dumps (bytes_data data BYTE_ARRAY)) \<noteq> [] \<and> loads (dumps (bytes_data data BYTE_ARRAY)) = Some (bytes_data data BYTE_ARRAY)"
  shows "serialize_field parse (bytes_field loads dumps enc)
     (load_field (bytes_field loads dumps enc) \<lparr>df_content = shown_bytes enc p, df_is_null = (shown_bytes enc p = PNone)\<rparr>) = Inr p"
proof (cases p)
  case (Some data)
  show ?thesis
  proof (cases "enc = BYTE_ARRAY")
    case True
    then have "bytes_serialize loads enc (dumps (bytes_data data BYTE_ARRAY)) = Inr data"
      using assms Some by (simp add: bytes_serialize_def serialize_byte_array_def bytes_data_def list_all_iff comp_def)
    then show ?thesis using Some True
      by (simp add: shown_bytes_def bytes_field_def load_field_def serialize_field_def plain_draft_text_def bytes_data_def)
  next
    case False
    then obtain s where "bytes_data data enc = PStr s" "bytes_str data enc = s"
      by (cases enc) (simp_all add: bytes_data_def bytes_str_def)
    then show ?thesis using Some bytes_serialize_shown[OF False, of loads data]
      by (simp add: shown_bytes_def bytes_field_def load_field_def serialize_field_def plain_draft_text_def)
  qed
qed (simp add: shown_bytes_def load_field_def serialize_field_def)

text \<open>C21: a payload copied from what the consumer shows is produced again. From a source document whose key and value
  contents are what the consumer shows of two payloads as bytes, null or in any of the four encodings, and whose
  headers have names, the form is ready to produce a record with exactly these payloads and the document's headers, in their
  order, duplicates included. (For byte arrays, the JSON reader must read the list it is written as. The consumer's own
  export is no such document: it has further keys, which a source document may not have.)\<close>

theorem shown_record_produced:
  assumes "parse_document (PDict entries) = Inr d"
    and "document_content entries ''key'' = shown_bytes enc k" and "document_content entries ''value'' = shown_bytes enc' v"
    and "document_headers entries headers" and "\<forall>h \<in> set headers. fst h \<noteq> []"
    and "cm_key_serializer c = bytes_field loads dumps enc" and "cm_value_serializer c = bytes_field loads dumps enc'"
    and "\<forall>data. enc = BYTE_ARRAY \<and> k = Some data \<or> enc' = BYTE_ARRAY \<and> v = Some data \<longrightarrow>
      strip (dumps (bytes_data data BYTE_ARRAY)) \<noteq> [] \<and> loads (dumps (bytes_data data BYTE_ARRAY)) = Some (bytes_data data BYTE_ARRAY)"
  shows "outgoing_of parse (load_record_draft d c) =
      Inr (Some \<lparr>or_key = k, or_value = v, or_headers = headers, or_partition = cm_partition c\<rparr>, load_record_draft d c)"
proof -
  have d: "rd_headers d = headers"
    "rd_key d = \<lparr>df_content = shown_bytes enc k, df_is_null = (shown_bytes enc k = PNone)\<rparr>"
    "rd_value d = \<lparr>df_content = shown_bytes enc' v, df_is_null = (shown_bytes enc' v = PNone)\<rparr>"
    using draft_of_document[OF assms(1)] assms(2-4) by simp_all
  have named: "filter (\<lambda>h. h \<noteq> ([], Some [])) headers = headers" using assms(5) by (auto simp: filter_id_conv)
  have "unnamed_problem (load_headers headers) = None"
    using assms(5) named by (simp add: unnamed_problem_None unnamed_headers)
  moreover have "serialize_field parse (bytes_field loads dumps enc) (load_field (bytes_field loads dumps enc) (rd_key d)) = Inr k"
    "serialize_field parse (bytes_field loads dumps enc') (load_field (bytes_field loads dumps enc') (rd_value d)) = Inr v"
    unfolding d(2,3) using assms(8) by (intro loaded_bytes; blast)+
  ultimately show ?thesis by (simp add: outgoing_Some load_record_draft_def assms(6,7) d(1) named)
qed

definition trace_document :: "(pyval \<times> pyval) list" where
  "trace_document =
     [(PStr ''headers'', PList [PDict [(PStr ''key'', PStr ''trace''), (PStr ''value'', PNone)], PDict [(PStr ''value'', PStr []), (PStr ''key'', PStr ''trace'')]]),
      (PStr ''value'', PDict [(PStr ''content'', PList [PInt 0, PInt 255])])]"

definition array_text :: "pyval \<Rightarrow> string" where
  "array_text v = (if v = PList [PInt 0, PInt 255] then ''[0, 255]'' else [])"

definition array_read :: "string \<Rightarrow> pyval option" where
  "array_read s = (if s = ''[0, 255]'' then Some (PList [PInt 0, PInt 255]) else None)"

lemma array_text_strip: "strip ''[0, 255]'' \<noteq> []"
  by code_simp

theorem shown_record_produced_witness:
  "\<exists>d c'. parse_document (PDict trace_document) = Inr d \<and>
    outgoing_of (\<lambda>_. Inr PNone) (load_record_draft d (composer_new (bytes_field array_read array_text HEX) (bytes_field array_read array_text BYTE_ARRAY) (Some 3))) =
      Inr (Some \<lparr>or_key = None, or_value = Some [0, 255], or_headers = [(''trace'', None), (''trace'', Some [])], or_partition = Some 3\<rparr>, c')"
proof -
  let ?c = "composer_new (bytes_field array_read array_text HEX) (bytes_field array_read array_text BYTE_ARRAY) (Some 3)"
  have data: "bytes_data [0, 255] BYTE_ARRAY = PList [PInt 0, PInt 255]" by (simp add: bytes_data_def byte_nat_def)
  have "isl (parse_document (PDict trace_document)) = False" by code_simp
  then obtain d where d: "parse_document (PDict trace_document) = Inr d" by (cases "parse_document (PDict trace_document)") auto
  have "outgoing_of (\<lambda>_. Inr PNone) (load_record_draft d ?c) =
      Inr (Some \<lparr>or_key = None, or_value = Some [0, 255], or_headers = [(''trace'', None), (''trace'', Some [])], or_partition = cm_partition ?c\<rparr>, load_record_draft d ?c)"
  proof (rule shown_record_produced[OF d, where enc = HEX and enc' = BYTE_ARRAY])
    show "document_headers trace_document [(''trace'', None), (''trace'', Some [])]"
      by (simp add: document_headers_def trace_document_def shows_header_def dget_or_def)
    show "document_content trace_document ''key'' = shown_bytes HEX None"
      by (simp add: document_content_def trace_document_def shown_bytes_def)
    show "document_content trace_document ''value'' = shown_bytes BYTE_ARRAY (Some [0, 255])"
      by (simp add: document_content_def trace_document_def shown_bytes_def data dget_or_def)
    show "cm_key_serializer ?c = bytes_field array_read array_text HEX" "cm_value_serializer ?c = bytes_field array_read array_text BYTE_ARRAY"
      by (simp_all add: composer_new_def composer_needs_schema_def bytes_field_def)
    show "\<forall>data. HEX = BYTE_ARRAY \<and> None = Some data \<or> BYTE_ARRAY = BYTE_ARRAY \<and> Some [0, 255] = Some data \<longrightarrow>
      strip (array_text (bytes_data data BYTE_ARRAY)) \<noteq> [] \<and> array_read (array_text (bytes_data data BYTE_ARRAY)) = Some (bytes_data data BYTE_ARRAY)"
      by (simp add: data array_text_def array_read_def array_text_strip)
  qed simp
  then show ?thesis using d by (auto simp: composer_new_def composer_needs_schema_def bytes_field_def)
qed

end
