(* ===== verification/Widgets.thy ===== *)
theory Widgets
  imports Settings
begin

text \<open>
  What the screens share: the widths of stretched table columns, truncated cells and their tooltips, and the
  header (\<open>widgets.py\<close>), the contextual help (\<open>help.py\<close>), and the commands and styles of the application
  (\<open>app.py\<close>). Painting, focus and the key dispatch are Textual's.

  Parameters: \<open>cells\<close>, the width of a text in terminal cells; \<open>ellipsized\<close>, a text cut to a width; and
  \<open>display\<close>, how the application shows the key of a binding.
\<close>

section \<open>Columns\<close>

text \<open>\<open>StretchyDataTable\<close>: each column's minimum width and stretch factor.\<close>

record stretch_column =
  sc_minimum :: int
  sc_stretch :: int

definition add_column :: "int \<Rightarrow> int \<Rightarrow> stretch_column list \<Rightarrow> stretch_column list res" where
  "add_column width stretch columns =
     (if stretch < 0 then Inl (ValueError ''stretch must be greater than or equal to zero'')
      else Inr (columns @ [\<lparr>sc_minimum = width, sc_stretch = stretch\<rparr>]))"

fun allocate :: "int \<Rightarrow> int \<Rightarrow> int \<Rightarrow> int \<Rightarrow> stretch_column list \<Rightarrow> int list" where
  "allocate extra_width total_stretch cumulative_stretch allocated_width [] = []"
| "allocate extra_width total_stretch cumulative_stretch allocated_width (column # columns) =
     (let cumulative = cumulative_stretch + sc_stretch column;
          stretched_width = (if total_stretch \<noteq> 0 then extra_width * cumulative div total_stretch else 0) in
      (sc_minimum column + stretched_width - allocated_width)
        # allocate extra_width total_stretch cumulative stretched_width columns)"

definition row_label_width :: "(string \<Rightarrow> int) \<Rightarrow> int \<Rightarrow> bool \<Rightarrow> string list \<Rightarrow> int" where
  "row_label_width cells cell_padding show_row_labels labels =
     (if \<not> show_row_labels \<or> labels = [] then 0 else Max (set (map cells labels)) + 2 * cell_padding)"

definition extra_width :: "int \<Rightarrow> int \<Rightarrow> int \<Rightarrow> stretch_column list \<Rightarrow> int" where
  "extra_width region_width label_width cell_padding columns =
     (let available_width = max 0 (region_width - label_width);
          padding_width = 2 * cell_padding * int (length columns);
          available_content_width = max 0 (available_width - padding_width) in
      max 0 (available_content_width - sum_list (map sc_minimum columns)))"

definition restretch :: "int \<Rightarrow> int \<Rightarrow> int \<Rightarrow> stretch_column list \<Rightarrow> int list" where
  "restretch region_width label_width cell_padding columns =
     allocate (extra_width region_width label_width cell_padding columns) (sum_list (map sc_stretch columns)) 0 0 columns"

text \<open>The width of the data: a column is rendered with its padding.\<close>

definition data_width :: "int \<Rightarrow> int list \<Rightarrow> int" where
  "data_width cell_padding widths = sum_list (map (\<lambda>w. w + 2 * cell_padding) widths)"

text \<open>\<open>TruncatedTooltipDataTable\<close>: the tooltip of a cell.\<close>

definition truncated_text :: "(string \<Rightarrow> int) \<Rightarrow> string list option \<Rightarrow> string \<Rightarrow> int \<Rightarrow> string \<Rightarrow> string option" where
  "truncated_text cells tooltip_columns column_key width text =
     (if (case tooltip_columns of None \<Rightarrow> False | Some keys \<Rightarrow> column_key \<notin> set keys) then None
      else if cells text > width then Some text else None)"

section \<open>Metadata and the header\<close>

text \<open>\<open>MetadataCell\<close>: the lines shown at a width, and the parts its tooltip shows in full.\<close>

definition content_for_width :: "(int \<Rightarrow> string \<Rightarrow> string) \<Rightarrow> bool \<Rightarrow> string \<Rightarrow> string \<Rightarrow> int \<Rightarrow> string list" where
  "content_for_width ellipsized ellipsize_value label content width =
     (if width \<noteq> 0
      then [ellipsized width (upper label), if ellipsize_value then ellipsized width content else content]
      else [upper label, content])"

definition truncated_parts :: "(string \<Rightarrow> int) \<Rightarrow> bool \<Rightarrow> string \<Rightarrow> string \<Rightarrow> int \<Rightarrow> string list" where
  "truncated_parts cells ellipsize_value label content width =
     (if width = 0 then []
      else (if cells (upper label) > width then [label] else [])
        @ (if ellipsize_value \<and> cells content > width then [content] else []))"

definition kantrip_profile :: "(string, string) pydict \<Rightarrow> string" where
  "kantrip_profile environ = strip (dget_or environ ''KANTRIP_PROFILE'' [])"

definition header_bootstrap_servers :: "(string, string) pydict \<Rightarrow> string" where
  "header_bootstrap_servers kafka_config = strip (fst (partition_on CHR '','' (dget_or kafka_config ''bootstrap.servers'' ''Not configured'')))"

definition connection_text :: "string \<Rightarrow> string \<Rightarrow> string \<Rightarrow> string" where
  "connection_text separator profile servers = (if profile = [] then [] else profile @ separator) @ servers"

section \<open>Help\<close>

record binding =
  bd_id :: "string option"
  bd_key :: string
  bd_key_display :: "string option"
  bd_action :: string
  bd_description :: string
  bd_tooltip :: string
  bd_system :: bool

text \<open>A namespace is the object that owns a binding; \<open>ab_namespace\<close> is its identity.\<close>

record active_binding =
  ab_namespace :: nat
  ab_title :: "string option"
  ab_class :: string
  ab_binding :: binding
  ab_enabled :: bool

definition SELECTED_TEXT_COPY_ACTION :: string where "SELECTED_TEXT_COPY_ACTION = ''screen.copy_text''"

definition copy_shortcut :: "bool \<Rightarrow> string" where
  "copy_shortcut darwin = (if darwin then ''super+c'' else ''ctrl+shift+c'')"

definition copy_key_display :: "bool \<Rightarrow> string option" where
  "copy_key_display darwin = (if darwin then Some ''cmd+c'' else None)"

definition is_capital :: "char \<Rightarrow> bool" where "is_capital c \<longleftrightarrow> 65 \<le> code c \<and> code c \<le> 90"

definition spaced_words :: "string \<Rightarrow> string" where
  "spaced_words s = (case s of [] \<Rightarrow> [] | c # cs \<Rightarrow> c # concat (map (\<lambda>d. if is_capital d then [CHR '' '', d] else [d]) cs))"

definition remove_suffix :: "string \<Rightarrow> string \<Rightarrow> string" where
  "remove_suffix suffix s = rev (remove_prefix (rev suffix) (rev s))"

definition class_title :: "string \<Rightarrow> string" where
  "class_title class_name = remove_suffix '' Screen'' (spaced_words (remove_prefix ''Kaskade'' class_name))"

definition binding_context :: "active_binding \<Rightarrow> string" where
  "binding_context a =
     (case ab_title a of Some t \<Rightarrow> if t = [] then class_title (ab_class a) else t | None \<Rightarrow> class_title (ab_class a))"

text \<open>The screen's title, or the first one among the focused widget and its ancestors.\<close>

definition focused_context :: "string option \<Rightarrow> string option list \<Rightarrow> string" where
  "focused_context screen_title ancestor_titles =
     (case filter (\<lambda>t. t \<noteq> None \<and> t \<noteq> Some []) (screen_title # ancestor_titles) of
        Some t # _ \<Rightarrow> t | _ \<Rightarrow> ''Application'')"

definition binding_aliases :: "active_binding list \<Rightarrow> active_binding \<Rightarrow> binding list" where
  "binding_aliases actives a =
     (let aliases = map ab_binding (filter (\<lambda>b. ab_enabled b \<and> ab_namespace b = ab_namespace a \<and> \<not> bd_system (ab_binding b) \<and>
            bd_action (ab_binding b) = bd_action (ab_binding a) \<and> bd_id (ab_binding b) = bd_id (ab_binding a)) actives) in
      if aliases = [] then [ab_binding a] else aliases)"

definition help_binding_aliases :: "bool \<Rightarrow> active_binding list \<Rightarrow> active_binding \<Rightarrow> binding list" where
  "help_binding_aliases darwin actives a =
     (if bd_action (ab_binding a) = SELECTED_TEXT_COPY_ACTION
      then [(ab_binding a)\<lparr>bd_key := copy_shortcut darwin, bd_key_display := copy_key_display darwin\<rparr>]
      else binding_aliases actives a)"

definition add_help_key :: "(binding \<Rightarrow> string) \<Rightarrow> bool \<Rightarrow> string list \<Rightarrow> binding \<Rightarrow> string list" where
  "add_help_key display copies keys alias =
     (let key_display = display alias in
      if key_display \<in> set keys
      then
        (if copies then keys
         else let plain = display (alias\<lparr>bd_key_display := None\<rparr>) in if plain \<in> set keys then keys else keys @ [plain])
      else keys @ [key_display])"

text \<open>A row of the help: its context, its keys and what they do.\<close>

type_synonym help_row = "string \<times> string list \<times> string"

definition help_row_new :: "active_binding \<Rightarrow> help_row" where
  "help_row_new a =
     (if (case bd_id (ab_binding a) of None \<Rightarrow> False | Some i \<Rightarrow> i \<in> set NAVIGATION_BINDING_IDS) then ''Navigation''
      else binding_context a,
      [],
      if bd_action (ab_binding a) = SELECTED_TEXT_COPY_ACTION then ''Copy Selected Text'' else bd_description (ab_binding a))"

definition shown_in_help :: "active_binding \<Rightarrow> bool" where
  "shown_in_help a \<longleftrightarrow> ab_enabled a \<and> \<not> bd_system (ab_binding a) \<and> bd_description (ab_binding a) \<noteq> []"

definition help_step ::
  "bool \<Rightarrow> (binding \<Rightarrow> string) \<Rightarrow> active_binding list \<Rightarrow> active_binding \<Rightarrow> (nat \<times> string, help_row) pydict \<Rightarrow> (nat \<times> string, help_row) pydict" where
  "help_step darwin display actives a groups =
     (if \<not> shown_in_help a then groups
      else
        (let group_key = (ab_namespace a, bd_action (ab_binding a));
             (context_title, keys, description) = dget_or groups group_key (help_row_new a) in
         dput group_key
           (context_title,
            foldl (add_help_key display (bd_action (ab_binding a) = SELECTED_TEXT_COPY_ACTION)) keys
              (help_binding_aliases darwin actives a),
            description) groups))"

definition contextual_help :: "bool \<Rightarrow> (binding \<Rightarrow> string) \<Rightarrow> active_binding list \<Rightarrow> help_row list" where
  "contextual_help darwin display actives = map snd (fold (help_step darwin display actives) actives [])"

section \<open>Commands and styles of the application\<close>

definition KASKADE_COMMAND_ID_PREFIX :: string where "KASKADE_COMMAND_ID_PREFIX = ''kaskade.''"

definition is_command :: "active_binding \<Rightarrow> bool" where
  "is_command a \<longleftrightarrow> ab_enabled a \<and>
     (case bd_id (ab_binding a) of
        None \<Rightarrow> False
      | Some i \<Rightarrow> starts_with KASKADE_COMMAND_ID_PREFIX i \<and> i \<notin> set NAVIGATION_BINDING_IDS)"

text \<open>A command of the palette: its title, its help, and the action it runs in a namespace.\<close>

record command_entry =
  ce_id :: string
  ce_title :: string
  ce_help :: string
  ce_action :: string
  ce_namespace :: nat

definition command_entry_of :: "string \<Rightarrow> active_binding \<Rightarrow> command_entry" where
  "command_entry_of i a =
     \<lparr>ce_id = i, ce_title = bd_description (ab_binding a),
      ce_help = (if bd_tooltip (ab_binding a) = [] then ''Run '' @ lower (bd_description (ab_binding a)) @ ''.'' else bd_tooltip (ab_binding a)),
      ce_action = bd_action (ab_binding a), ce_namespace = ab_namespace a\<rparr>"

fun binding_commands :: "string list \<Rightarrow> active_binding list \<Rightarrow> command_entry list" where
  "binding_commands command_ids [] = []"
| "binding_commands command_ids (a # rest) =
     (case bd_id (ab_binding a) of
        None \<Rightarrow> binding_commands command_ids rest
      | Some i \<Rightarrow>
          if \<not> is_command a \<or> i \<in> set command_ids then binding_commands command_ids rest
          else command_entry_of i a # binding_commands (i # command_ids) rest)"

text \<open>Textual's own commands: those of the help panel become the contextual help, those of a widget's size go.\<close>

datatype textual_command = HelpPanelCommand | WidgetSizeCommand | OtherCommand string

definition textual_commands :: "textual_command list \<Rightarrow> string list" where
  "textual_commands commands =
     concat (map (\<lambda>c. case c of HelpPanelCommand \<Rightarrow> [''Help''] | WidgetSizeCommand \<Rightarrow> [] | OtherCommand title \<Rightarrow> [title]) commands)"

definition rich_color :: "string \<Rightarrow> string" where "rich_color color = remove_prefix ''ansi_'' color"

record theme_colors =
  th_primary :: string
  th_secondary :: "string option"
  th_warning :: "string option"
  th_error :: "string option"
  th_success :: "string option"
  th_accent :: "string option"
  th_foreground :: "string option"

definition or_else :: "string option \<Rightarrow> string \<Rightarrow> string" where
  "or_else x y = (case x of None \<Rightarrow> y | Some s \<Rightarrow> if s = [] then y else s)"

definition semantic_styles :: "(string \<Rightarrow> string) \<Rightarrow> theme_colors \<Rightarrow> (string \<times> string) list" where
  "semantic_styles css theme =
     (let primary = rich_color (th_primary theme);
          secondary = rich_color (or_else (th_secondary theme) (th_primary theme));
          warning = rich_color (or_else (th_warning theme) (th_primary theme));
          error_color = (if or_else (th_error theme) [] = [] then secondary else rich_color (or_else (th_error theme) []));
          success = (if or_else (th_success theme) [] = [] then secondary else rich_color (or_else (th_success theme) [])) in
      [(''primary'', primary), (''secondary'', secondary), (''warning'', warning),
       (''text-warning'', rich_color (css ''text-warning'')), (''foreground'', rich_color (css ''foreground'')),
       (''muted'', ''dim '' @ rich_color (or_else (th_foreground theme) (th_primary theme))), (''error'', error_color),
       (''success'', success), (''accent'', rich_color (or_else (th_accent theme) (th_primary theme))),
       (''repr.str'', primary), (''json.key'', ''bold '' @ primary), (''json.str'', primary), (''json.number'', secondary),
       (''json.bool_true'', success), (''json.bool_false'', error_color), (''json.null'', warning)])"

section \<open>Lemmas\<close>

subsection \<open>Columns\<close>

definition stretched :: "int \<Rightarrow> int \<Rightarrow> int \<Rightarrow> int" where
  "stretched extra total_stretch cumulative = (if total_stretch \<noteq> 0 then extra * cumulative div total_stretch else 0)"

lemma allocate_length [simp]: "length (allocate extra total_stretch cumulative allocated columns) = length columns"
  by (induction columns arbitrary: cumulative allocated) (simp_all add: Let_def)

lemma allocate_nth:
  assumes "allocated = stretched extra total_stretch cumulative" and "i < length columns"
  shows "allocate extra total_stretch cumulative allocated columns ! i =
    sc_minimum (columns ! i)
      + stretched extra total_stretch (cumulative + sum_list (map sc_stretch (take (Suc i) columns)))
      - stretched extra total_stretch (cumulative + sum_list (map sc_stretch (take i columns)))"
  using assms
proof (induction columns arbitrary: cumulative allocated i)
  case (Cons column columns)
  then show ?case
    by (cases i) (simp_all add: Let_def stretched_def[symmetric] add.assoc)
qed simp

lemma allocate_sum:
  "allocated = stretched extra total_stretch cumulative \<Longrightarrow>
   sum_list (allocate extra total_stretch cumulative allocated columns) =
     sum_list (map sc_minimum columns) + stretched extra total_stretch (cumulative + sum_list (map sc_stretch columns)) - allocated"
proof (induction columns arbitrary: cumulative allocated)
  case (Cons column columns)
  from Cons.IH[OF refl, of "cumulative + sc_stretch column"] Cons.prems show ?case
    by (simp add: Let_def stretched_def[symmetric] add.assoc)
qed simp

lemma data_width_sum: "data_width padding widths = sum_list widths + 2 * padding * int (length widths)"
  by (induction widths) (simp_all add: data_width_def algebra_simps)

lemma stretched_share:
  assumes "0 \<le> extra" and "0 < total_stretch" and "0 \<le> s"
  shows "stretched extra total_stretch c \<le> stretched extra total_stretch (c + s) \<and>
    extra * s - total_stretch < total_stretch * (stretched extra total_stretch (c + s) - stretched extra total_stretch c) \<and>
    total_stretch * (stretched extra total_stretch (c + s) - stretched extra total_stretch c) < extra * s + total_stretch"
proof -
  define a b where "a = extra * c" and "b = extra * (c + s)"
  have ab: "b = a + extra * s" "0 \<le> extra * s" using assms by (simp_all add: a_def b_def algebra_simps)
  have "a div total_stretch \<le> b div total_stretch" using ab assms by (intro zdiv_mono1) auto
  moreover have "total_stretch * (b div total_stretch - a div total_stretch) = extra * s + (a mod total_stretch - b mod total_stretch)"
    using ab by (simp add: right_diff_distrib minus_mod_eq_mult_div[symmetric])
  moreover have "\<bar>a mod total_stretch - b mod total_stretch\<bar> < total_stretch"
    using pos_mod_bound[OF assms(2), of a] pos_mod_bound[OF assms(2), of b] pos_mod_sign[OF assms(2), of a] pos_mod_sign[OF assms(2), of b]
    by linarith
  ultimately show ?thesis using assms(2) by (auto simp: stretched_def a_def[symmetric] b_def[symmetric] abs_less_iff)
qed

subsection \<open>Help\<close>

definition help_ok :: "(nat \<times> string, help_row) pydict \<Rightarrow> bool" where
  "help_ok groups \<longleftrightarrow> ddistinct groups \<and> (\<forall>(k, row) \<in> set groups. distinct (fst (snd row)))"

lemma add_help_key_keeps:
  "(distinct keys \<longrightarrow> distinct (add_help_key display copies keys alias)) \<and> set keys \<subseteq> set (add_help_key display copies keys alias) \<and>
   display alias \<in> set (add_help_key display copies keys alias)"
  by (auto simp: add_help_key_def Let_def)

lemma add_help_keys:
  "(distinct keys \<longrightarrow> distinct (foldl (add_help_key display copies) keys aliases)) \<and>
   set keys \<subseteq> set (foldl (add_help_key display copies) keys aliases) \<and>
   display ` set aliases \<subseteq> set (foldl (add_help_key display copies) keys aliases)"
proof (induction aliases arbitrary: keys)
  case (Cons a as)
  show ?case
    using Cons.IH[of "add_help_key display copies keys a"] add_help_key_keeps[of keys display copies a] by auto
qed simp

definition listed :: "(binding \<Rightarrow> string) \<Rightarrow> active_binding \<Rightarrow> (nat \<times> string, help_row) pydict \<Rightarrow> bool" where
  "listed display b groups \<longleftrightarrow>
     (\<exists>context_title keys description. dget groups (ab_namespace b, bd_action (ab_binding b)) = Some (context_title, keys, description) \<and>
        display (ab_binding b) \<in> set keys)"

definition group_key :: "active_binding \<Rightarrow> nat \<times> string" where
  "group_key a = (ab_namespace a, bd_action (ab_binding a))"

text \<open>One binding: it puts its row, whose keys are those the row had and its own.\<close>

lemma help_step_put:
  assumes "shown_in_help a" and "help_ok groups"
  obtains c ks d where "help_step darwin display actives a groups = dput (group_key a) (c, ks, d) groups"
    and "distinct ks" and "display ` set (help_binding_aliases darwin actives a) \<subseteq> set ks"
    and "\<And>c' ks' d'. dget groups (group_key a) = Some (c', ks', d') \<Longrightarrow> set ks' \<subseteq> set ks"
proof -
  obtain c ks d where row: "dget_or groups (group_key a) (help_row_new a) = (c, ks, d)" by (rule prod_cases3)
  have "distinct ks"
  proof (cases "dget groups (group_key a)")
    case None
    then show ?thesis using row by (simp add: dget_or_def help_row_new_def)
  next
    case (Some r)
    then have "(group_key a, r) \<in> set groups" by (rule map_of_SomeD)
    then show ?thesis using row Some assms(2) by (auto simp: dget_or_def help_ok_def)
  qed
  moreover define ks' where "ks' = foldl (add_help_key display (bd_action (ab_binding a) = SELECTED_TEXT_COPY_ACTION)) ks (help_binding_aliases darwin actives a)"
  moreover have "set ks \<subseteq> set ks'" "display ` set (help_binding_aliases darwin actives a) \<subseteq> set ks'" "distinct ks \<longrightarrow> distinct ks'"
    unfolding ks'_def using add_help_keys[of ks display "bd_action (ab_binding a) = SELECTED_TEXT_COPY_ACTION" "help_binding_aliases darwin actives a"]
    by blast+
  moreover have "help_step darwin display actives a groups = dput (group_key a) (c, ks', d) groups"
    using assms(1) row by (simp add: help_step_def Let_def group_key_def[symmetric] ks'_def)
  moreover have "x = (c, ks, d)" if "dget groups (group_key a) = Some x" for x
    using that row by (simp add: dget_or_def)
  ultimately show ?thesis by (intro that[of c ks' d]) auto
qed

lemma help_step_ok:
  assumes "help_ok groups"
  shows "help_ok (help_step darwin display actives a groups) \<and>
    fst ` set (help_step darwin display actives a groups) = (if shown_in_help a then {group_key a} else {}) \<union> fst ` set groups \<and>
    (listed display b groups \<longrightarrow> listed display b (help_step darwin display actives a groups)) \<and>
    (shown_in_help a \<longrightarrow> ab_binding b \<in> set (help_binding_aliases darwin actives a) \<longrightarrow> group_key b = group_key a \<longrightarrow>
       listed display b (help_step darwin display actives a groups))"
proof (cases "shown_in_help a")
  case True
  from True assms obtain c ks d where put: "help_step darwin display actives a groups = dput (group_key a) (c, ks, d) groups"
    "distinct ks" "display ` set (help_binding_aliases darwin actives a) \<subseteq> set ks"
    "\<And>c' ks' d'. dget groups (group_key a) = Some (c', ks', d') \<Longrightarrow> set ks' \<subseteq> set ks"
    by (rule help_step_put[of a groups darwin display actives]) (rule that)
  have "help_ok (dput (group_key a) (c, ks, d) groups)"
    using assms put(2) set_dput[of "group_key a" "(c, ks, d)" groups] by (auto simp: help_ok_def ddistinct_dput)
  moreover have "listed display b (dput (group_key a) (c, ks, d) groups)" if "listed display b groups"
    using that put(4) unfolding listed_def group_key_def[symmetric] by (auto simp: dget_dput)
  moreover have "listed display b (dput (group_key a) (c, ks, d) groups)"
    if "ab_binding b \<in> set (help_binding_aliases darwin actives a)" "group_key b = group_key a"
    using that put(3) unfolding listed_def group_key_def[symmetric] by (auto simp: dget_dput)
  ultimately show ?thesis using True put(1) by (simp add: keyset_dput)
qed (simp add: help_step_def assms)

lemma help_run_ok:
  assumes "help_ok groups"
  shows "help_ok (fold (help_step darwin display actives) as groups) \<and>
    fst ` set (fold (help_step darwin display actives) as groups) = group_key ` {a \<in> set as. shown_in_help a} \<union> fst ` set groups \<and>
    (listed display b groups \<longrightarrow> listed display b (fold (help_step darwin display actives) as groups)) \<and>
    (b \<in> set as \<and> shown_in_help b \<and> ab_binding b \<in> set (help_binding_aliases darwin actives b) \<longrightarrow>
       listed display b (fold (help_step darwin display actives) as groups))"
  using assms
proof (induction as arbitrary: groups)
  case (Cons a as)
  note step = help_step_ok[OF Cons.prems, of darwin display actives a b]
  from Cons.IH[OF conjunct1[OF step]] step show ?case by auto
qed simp

lemma own_alias:
  "b \<in> set actives \<Longrightarrow> shown_in_help b \<Longrightarrow> bd_action (ab_binding b) \<noteq> SELECTED_TEXT_COPY_ACTION \<Longrightarrow>
   ab_binding b \<in> set (help_binding_aliases darwin actives b)"
  by (auto simp: help_binding_aliases_def binding_aliases_def shown_in_help_def Let_def)

section \<open>Properties\<close>

text \<open>A stretched table fills its region exactly when its minimum widths fit and a column stretches; no column gets
  narrower than its minimum, one without a stretch factor keeps it, and each one's share of the extra width is off its
  exact proportion by less than one cell.\<close>

theorem columns_fill_region:
  assumes "\<forall>column \<in> set columns. 0 \<le> sc_stretch column" and "0 < sum_list (map sc_stretch columns)"
    and "0 \<le> label_width" and "0 \<le> cell_padding"
    and "sum_list (map sc_minimum columns) + 2 * cell_padding * int (length columns) + label_width \<le> region_width"
    and "0 \<le> sum_list (map sc_minimum columns)"
  shows "let widths = restretch region_width label_width cell_padding columns;
      extra = extra_width region_width label_width cell_padding columns; parts = sum_list (map sc_stretch columns) in
    data_width cell_padding widths + label_width = region_width \<and> length widths = length columns \<and>
    (\<forall>i < length columns.
       sc_minimum (columns ! i) \<le> widths ! i \<and>
       (sc_stretch (columns ! i) = 0 \<longrightarrow> widths ! i = sc_minimum (columns ! i)) \<and>
       \<bar>parts * (widths ! i - sc_minimum (columns ! i)) - extra * sc_stretch (columns ! i)\<bar> < parts)"
proof -
  let ?extra = "extra_width region_width label_width cell_padding columns" and ?parts = "sum_list (map sc_stretch columns)"
  have z: "0 = stretched ?extra ?parts 0" by (simp add: stretched_def)
  have "0 \<le> 2 * cell_padding * int (length columns)" using assms(4) by simp
  then have e: "?extra = region_width - label_width - 2 * cell_padding * int (length columns) - sum_list (map sc_minimum columns)"
    using assms(3,5,6) by (simp add: extra_width_def Let_def)
  have fill: "sum_list (restretch region_width label_width cell_padding columns) = sum_list (map sc_minimum columns) + ?extra"
    using allocate_sum[OF z, of columns] assms(2) by (simp add: restretch_def stretched_def)
  have "sc_minimum (columns ! i) \<le> restretch region_width label_width cell_padding columns ! i \<and>
       (sc_stretch (columns ! i) = 0 \<longrightarrow> restretch region_width label_width cell_padding columns ! i = sc_minimum (columns ! i)) \<and>
       \<bar>?parts * (restretch region_width label_width cell_padding columns ! i - sc_minimum (columns ! i)) - ?extra * sc_stretch (columns ! i)\<bar> < ?parts"
    if i: "i < length columns" for i
  proof -
    have w: "restretch region_width label_width cell_padding columns ! i = sc_minimum (columns ! i)
        + (stretched ?extra ?parts (sum_list (map sc_stretch (take i columns)) + sc_stretch (columns ! i))
          - stretched ?extra ?parts (sum_list (map sc_stretch (take i columns))))"
      using allocate_nth[OF z i] i by (simp add: restretch_def take_Suc_conv_app_nth)
    have "0 \<le> ?extra" using e assms by simp
    from stretched_share[OF this assms(2), of "sc_stretch (columns ! i)" "sum_list (map sc_stretch (take i columns))"] assms(1) i
    show ?thesis unfolding w by (auto simp: abs_less_iff)
  qed
  then show ?thesis using fill e by (simp add: Let_def data_width_sum) (simp add: restretch_def)
qed

theorem columns_fill_region_witness:
  "data_width 1 (restretch 80 0 1 [\<lparr>sc_minimum = 18, sc_stretch = 3\<rparr>, \<lparr>sc_minimum = 9, sc_stretch = 1\<rparr>, \<lparr>sc_minimum = 5, sc_stretch = 0\<rparr>]) = 80"
  using columns_fill_region[of "[\<lparr>sc_minimum = 18, sc_stretch = 3\<rparr>, \<lparr>sc_minimum = 9, sc_stretch = 1\<rparr>, \<lparr>sc_minimum = 5, sc_stretch = 0\<rparr>]" 0 1 80]
  by (simp add: Let_def)

text \<open>The help shows every shortcut that works: each enabled binding with a description, the copying of selected text
  apart, has its key in a row; there is one row for each object and action, and no key stands twice in a row.\<close>

theorem help_shows_shortcuts:
  "let rows = contextual_help darwin display actives in
     (\<forall>b \<in> set actives. shown_in_help b \<and> bd_action (ab_binding b) \<noteq> SELECTED_TEXT_COPY_ACTION \<longrightarrow>
        (\<exists>(context_title, keys, description) \<in> set rows. display (ab_binding b) \<in> set keys)) \<and>
     length rows = card ((\<lambda>b. (ab_namespace b, bd_action (ab_binding b))) ` {b \<in> set actives. shown_in_help b}) \<and>
     (\<forall>(context_title, keys, description) \<in> set rows. distinct keys)"
proof -
  let ?groups = "fold (help_step darwin display actives) actives []"
  have start: "help_ok []" by (simp add: help_ok_def)
  note run = help_run_ok[OF start, of darwin display actives actives]
  have "\<exists>(context_title, keys, description) \<in> set (map snd ?groups). display (ab_binding b) \<in> set keys"
    if "b \<in> set actives" "shown_in_help b" "bd_action (ab_binding b) \<noteq> SELECTED_TEXT_COPY_ACTION" for b
  proof -
    have "listed display b ?groups" using run that own_alias by blast
    then show ?thesis unfolding listed_def by (auto dest!: map_of_SomeD) force
  qed
  moreover have "length ?groups = card (group_key ` {b \<in> set actives. shown_in_help b})"
    using run[of undefined] distinct_card[of "map fst ?groups"] by (simp add: help_ok_def)
  moreover have "\<forall>(context_title, keys, description) \<in> set (map snd ?groups). distinct keys"
    using run[of undefined] by (auto simp: help_ok_def)
  ultimately show ?thesis by (simp add: contextual_help_def Let_def group_key_def[abs_def])
qed

definition sample_shortcut :: "string \<Rightarrow> string \<Rightarrow> active_binding" where
  "sample_shortcut key action =
     \<lparr>ab_namespace = 1, ab_title = None, ab_class = ''ListTopics'',
      ab_binding = \<lparr>bd_id = Some action, bd_key = key, bd_key_display = None, bd_action = action, bd_description = ''Move'', bd_tooltip = [], bd_system = False\<rparr>,
      ab_enabled = True\<rparr>"

theorem help_shows_shortcuts_witness:
  "\<exists>(context_title, keys, description) \<in> set (contextual_help False bd_key [sample_shortcut ''up'' ''cursor_up'', sample_shortcut ''k'' ''cursor_up'']). ''k'' \<in> set keys"
proof -
  let ?b = "sample_shortcut ''k'' ''cursor_up''"
  have "shown_in_help ?b" "bd_action (ab_binding ?b) \<noteq> SELECTED_TEXT_COPY_ACTION" "bd_key (ab_binding ?b) = ''k''"
    by (simp_all add: shown_in_help_def sample_shortcut_def SELECTED_TEXT_COPY_ACTION_def)
  with help_shows_shortcuts[of False bd_key "[sample_shortcut ''up'' ''cursor_up'', ?b]"] show ?thesis
    unfolding Let_def by fastforce
qed

end
