(* ===== verification/Spec2Isabelle.thy ===== *)
theory Spec2Isabelle
  imports Lru_Cache Refresh Avro_Json Commands Schema_Documents
    Topic_List Topic_Forms Topic_Details Admin_App Composer Widgets
begin

text \<open>
  Verification of Kaskade, a terminal application for Kafka (\<open>src/kaskade\<close>): an admin mode that lists and
  changes topics and consumer groups, a consumer that shows records, and a producer that composes one record at
  a time. This library models the parts of the program that compute: services, registries, codecs, settings,
  and the state of the screens. Its definitions are translated from the source, function by function, and its
  theorems are about those definitions.

  \<^bold>\<open>How the program fits together.\<close> \<open>main.py\<close> turns the options of a command into settings and connections
  (\<open>Cli_Options\<close>, \<open>Connection\<close>, \<open>Settings\<close>, \<open>Configs\<close>) and starts one of three applications (\<open>Commands\<close>).
  The admin application (\<open>Admin_App\<close>) shows the topic list (\<open>Topic_List\<close>), which refreshes through the topic service
  (\<open>Topic_Service\<close>) under a coordinator (\<open>Refresh\<close>); its forms (\<open>Topic_Forms\<close>) and details (\<open>Topic_Details\<close>) make
  the commands that the topic and group services (\<open>Group_Service\<close>) carry out. The consumer's list (\<open>Record_List\<close>)
  asks the consumer service (\<open>Consumer_Service\<close>) for pages of records (\<open>Models\<close>), whose content the
  deserializers decode (\<open>Deserializers\<close>, \<open>Protobuf_Wire\<close>, \<open>Byte_Codecs\<close>) with schemas from a registry
  (\<open>Schemas\<close>, \<open>Apicurio_Config\<close>, \<open>Apicurio_Client\<close>) kept in caches (\<open>Lru_Cache\<close>); the details of a record
  (\<open>Record_Details\<close>) and its file (\<open>Record_Source\<close>) follow. The producer's form (\<open>Composer\<close>) serializes its fields
  (\<open>Serializer_Pool\<close>, \<open>Registry_Selection\<close>, \<open>Registry_Serializer\<close>, \<open>Schema_Documents\<close>, \<open>Avro_Json\<close>) and hands the record
  to the producer service (\<open>Producer_Service\<close>). \<open>Widgets\<close> holds what all screens share.

  \<^bold>\<open>Conventions.\<close> A result that may be an exception is \<open>'a res = exn + 'a\<close>; an operation on a state is a function
  that returns the new state, or an action \<open>'s \<Rightarrow> 'a res \<times> 's\<close> where the code threads a state through many calls; every raise and
  early return is a branch. Strings are \<open>string\<close> (characters up to 255), text that may hold any code point is a list of
  naturals; a byte is \<open>8 word\<close>, Python's integers are \<open>int\<close> or \<open>nat\<close>, and where the code packs an integer at a
  width the range is written out. Dictionaries are association lists in insertion order. What Python, Kafka's client or a
  registry's server may answer is an argument, so that every theorem holds for all answers. Several characters the
  program draws (dots, dashes, the approximation sign) lie outside \<open>string\<close>: an ASCII one or a parameter stands for them, which
  the theories say where it happens.

  \<^bold>\<open>The theories, and what their lemmas show.\<close>

  \<^item> \<open>Prelude\<close>, \<open>Walks\<close>, \<open>Kafka_Client\<close>: exceptions, results, Python's strings and dictionaries, with the collections
    \<open>res_simps\<close> and \<open>dict_simps\<close>; recursive walks with fuel; the constants of the Kafka client.
  \<^item> \<open>Lru_Cache\<close> (\<open>cache.py\<close>): the cache never exceeds its capacity, and after any use it holds the most recent
    entries, as a list of recent uses does (\<open>lru_keeps_most_recent\<close>).
  \<^item> \<open>Refresh\<close> (\<open>refresh.py\<close>): refreshes do not overlap each other nor start in a mutation; a refused request is served later.
  \<^item> \<open>Configs\<close>, \<open>Models\<close>, \<open>Byte_Codecs\<close>, \<open>Protobuf_Wire\<close>: option tables and commands (\<open>configs.py\<close>, \<open>commands.py\<close>), the data
    model (\<open>models.py\<close>, \<open>deserializers/base.py\<close>), primitive values and bytes (\<open>primitives.py\<close> of both packages), Protobuf's
    message indexes (\<open>deserializers/protobuf.py\<close>). Round trips of bytes in four encodings, numbers, UTF-8 text, varints.
  \<^item> \<open>Consumer_Service\<close> (\<open>consumer_service.py\<close>): a page holds only matching records, in their order and never more than asked;
    the loop ends when the stream has enough records or, with a bound on its polls, once it runs dry; assignments respect the chosen partitions and offsets.
  \<^item> \<open>Producer_Service\<close> (\<open>producer_service.py\<close>): at most one delivery under every interleaving of event loop, worker and closing
    thread; a delivery is reported as done only when the broker acknowledged it; the wait ends with its deadline.
  \<^item> \<open>Topic_Service\<close>, \<open>Group_Service\<close> (\<open>topic_service.py\<close>, \<open>group_service.py\<close>): the map of a cluster's snapshot to topics refines
    the snapshot itself, offsets apply to all partitions or none, denied groups stay hidden, resets stay within the records
    and never touch an active group.
  \<^item> \<open>Apicurio_Config\<close>, \<open>Apicurio_Client\<close>, \<open>Schemas\<close> (\<open>apicurio.py\<close>, \<open>schemas/\<close>): a checked configuration, bounded
    requests with retries and token refresh, references collected with dependencies first, cycles included.
  \<^item> \<open>Schema_Documents\<close> (\<open>schemas/registration.py\<close>, \<open>json_schema.py\<close>, \<open>protobuf.py\<close>): files that refer to files.
  \<^item> \<open>Registry_Selection\<close>, \<open>Registry_Serializer\<close>, \<open>Serializer_Pool\<close>, \<open>Avro_Json\<close> (\<open>serializers/\<close>): selections are checked,
    documents are registered once and in order, a frame is read back by the consumer, options that passed validation build serializers
    unless the Registry's client or a document to register fails, and Avro values shown as JSON, dates and decimals included,
    are converted back.
  \<^item> \<open>Deserializers\<close> (\<open>deserializers/\<close>): options that passed validation build deserializers unless the Registry's client
    refuses its properties; metadata never changes content.
  \<^item> \<open>Cli_Options\<close>, \<open>Settings\<close>, \<open>Connection\<close>, \<open>Commands\<close> (\<open>cli/\<close>, \<open>settings.py\<close>, \<open>timeouts.py\<close>, \<open>keymaps.py\<close>, \<open>themes.py\<close>,
    \<open>files.py\<close>, \<open>authentication.py\<close>, \<open>main.py\<close>): parsing and precedence of options, and what a command starts.
  \<^item> \<open>Topic_List\<close>, \<open>Topic_Forms\<close>, \<open>Topic_Details\<close>, \<open>Admin_App\<close> (\<open>admin/\<close>): rows follow topics through every event, a pending refresh
    is always scheduled, forms give only valid commands, group actions act on the selected row, the periodic refresh is never lost.
  \<^item> \<open>Record_List\<close>, \<open>Record_Details\<close> (\<open>consumer/\<close>): rows follow records, one consumer works at a time, the list follows the details.
  \<^item> \<open>Composer\<close>, \<open>Record_Source\<close> (\<open>producer/\<close>, \<open>record_export.py\<close>): the summary tells whether the draft can be produced, the
    service never refuses its record, and payloads shown as bytes are produced again from a source document that has them.
  \<^item> \<open>Widgets\<close> (\<open>widgets.py\<close>, \<open>help.py\<close>, \<open>app.py\<close>): stretched columns fill their table, the help lists every shortcut.

  \<^bold>\<open>State machines.\<close> \<open>Producer_Service\<close>, \<open>Topic_List\<close>, \<open>Record_List\<close>, \<open>Composer\<close>, \<open>Topic_Details\<close> and \<open>Admin_App\<close> are inductive
  step relations: one event of the event loop, or one step of a worker between two awaits, is one step, and a property of
  them holds in every reachable state. \<open>Composer\<close> and \<open>Admin_App\<close> run together with the service and the list they rely on.

  \<^bold>\<open>Termination.\<close> Loops the code bounds are total functions. A loop that waits or polls is a partial function into
  \<open>option\<close>, where \<open>None\<close> is a loop that never returns (\<open>consume_loop\<close>, \<open>wait_report\<close>, the collection of references, the pages of
  metadata): \<open>consume_returns\<close>, \<open>produce_ends\<close> and \<open>reference_collection_terminates\<close> say when they return. Recursion over files, descriptors and
  schemas takes fuel (\<open>Walks\<close>): \<open>None\<close> is only a lack of fuel, more fuel never changes a result, and the termination theorems give
  an amount that is enough from the finite set of files or the size of the value; no theorem rests on a chosen fuel.

  \<^bold>\<open>Parameters.\<close> The packages the program calls (confluent-kafka, fastavro, protobuf, jsonschema, httpx, PyYAML, tree-sitter,
  Textual and Rich, and Python's \<open>json\<close>, \<open>struct\<close> floats and clocks) are arguments. Hypotheses about them state documented
  behaviour, for instance that a JSON reader reads a printed list of integers as that list.

  \<^bold>\<open>Not modelled.\<close> Layout, painting, focus and key dispatch of the screens and the tables of bindings and option declarations,
  which are Textual's and click's data; logging and log files; the highlighting of the editor (\<open>producer/highlighting.py\<close>); constructors
  that only hand a schema file to a package (\<open>serializers/local.py\<close>, \<open>schemas/avro.py\<close>); reading and writing files and HTTP itself; the
  scripts and the sandbox, which are no part of the program. Threads appear as interleaved steps, not as a memory model:
  each step runs alone, as it does under the interpreter's lock between two awaits.
\<close>

end
